(* ===== verification/Prelude.thy ===== *)
theory Prelude
  imports Main "HOL-Library.Word"
begin

text \<open>
  Shared vocabulary of the ShareBridge development: Go's integer types and byte slices, Go
  errors as values, the big-endian integer layout of \<^verbatim>\<open>encoding/binary\<close>, Go maps, and the
  interfaces that several components implement, each as a locale with the lemmas its clients
  use:
  \<^item> \<open>wire_codec\<close> and \<open>canonical_codec\<close>: an encoder and a decoder of byte strings;
  \<^item> \<open>guarded_machine\<close>: a state machine with an inductive invariant;
  \<^item> \<open>refined_machine\<close>: a state machine that implements an abstract one.
  The collection \<open>wire_simps\<close> holds the equations that evaluate wire formats.
\<close>

named_theorems wire_simps

type_synonym byte = "8 word"
type_synonym bytes = "byte list"
type_synonym u16 = "16 word"
type_synonym u32 = "32 word"
type_synonym u64 = "64 word"

text \<open>
  Go errors. \<open>Errorf\<close> is the value of \<^verbatim>\<open>errors.New\<close> or \<^verbatim>\<open>fmt.Errorf\<close> with its format string and
  its integer arguments; \<open>ErrWrap\<close> is \<^verbatim>\<open>fmt.Errorf\<close> with a \<^verbatim>\<open>%w\<close> argument. A Go result
  \<^verbatim>\<open>(T, error)\<close> is a value of the sum type, with \<open>Inl\<close> for a non-nil error; a lone \<^verbatim>\<open>error\<close> is an
  option, with \<open>None\<close> for nil.
\<close>

datatype goerr = Errorf string "int list" | ErrWrap string "int list" goerr

type_synonym 'a result = "goerr + 'a"

text \<open>A pointer that may be nil; the number is the identity of the object.\<close>

type_synonym ptr = "nat option"

text \<open>JSON values, as \<^verbatim>\<open>encoding/json\<close> writes and reads them.\<close>

datatype json = JNull | JBool bool | JInt int | JStr string | JArr "json list" | JObj "(string \<times> json) list"

text \<open>Reading a Go map whose values are pointers or counters yields the zero value for an absent key.\<close>

definition map_get :: "'v \<Rightarrow> ('k \<rightharpoonup> 'v) \<Rightarrow> 'k \<Rightarrow> 'v" where
  "map_get zero m k = (case m k of None \<Rightarrow> zero | Some v \<Rightarrow> v)"

lemma map_get_Some [simp]: "m k = Some v \<Longrightarrow> map_get z m k = v"
  by (simp add: map_get_def)

lemma map_get_None [simp]: "m k = None \<Longrightarrow> map_get z m k = z"
  by (simp add: map_get_def)

lemma map_get_upd [simp]: "map_get z (m(k \<mapsto> v)) k' = (if k' = k then v else map_get z m k')"
  by (simp add: map_get_def)

lemma map_get_del [simp]: "map_get z (m(k := None)) k' = (if k' = k then z else map_get z m k')"
  by (simp add: map_get_def)

section \<open>Big-endian integers\<close>

text \<open>\<open>be_put k n\<close> are the \<open>k\<close> bytes \<^verbatim>\<open>binary.BigEndian.PutUintN\<close> writes; \<open>be_get\<close> reads them.\<close>

fun be_put :: "nat \<Rightarrow> nat \<Rightarrow> bytes" where
  "be_put 0 n = []"
| "be_put (Suc k) n = be_put k (n div 256) @ [word_of_nat n]"

fun be_acc :: "nat \<Rightarrow> bytes \<Rightarrow> nat" where
  "be_acc a [] = a"
| "be_acc a (b # bs) = be_acc (a * 256 + unat b) bs"

definition be_get :: "bytes \<Rightarrow> nat" where
  "be_get bs = be_acc 0 bs"

lemma length_be_put [simp, wire_simps]: "length (be_put k n) = k"
  by (induction k arbitrary: n) auto

lemma be_acc_append [simp]: "be_acc a (xs @ ys) = be_acc (be_acc a xs) ys"
  by (induction xs arbitrary: a) auto

lemma unat_word_of_nat_byte: "unat (word_of_nat n :: byte) = n mod 256"
  by (simp add: unat_of_nat)

lemma unat_byte_less [simp]: "unat (b :: byte) < 256"
proof -
  have "unat b < 2 ^ LENGTH(8)" by (rule unsigned_less)
  then show ?thesis by simp
qed

lemma be_get_put:
  assumes "n < 256 ^ k"
  shows "be_get (be_put k n) = n"
proof -
  have "be_acc 0 (be_put k n) = n" using assms
  proof (induction k arbitrary: n)
    case 0
    then show ?case by simp
  next
    case (Suc k)
    then have "n div 256 < 256 ^ k"
      by (simp add: less_mult_imp_div_less mult.commute)
    with Suc.IH show ?case
      by (simp add: unat_word_of_nat_byte div_mult_mod_eq)
  qed
  then show ?thesis by (simp add: be_get_def)
qed

lemma be_acc_bound: "be_acc a bs < (a + 1) * 256 ^ length bs"
proof (induction bs arbitrary: a)
  case Nil
  then show ?case by simp
next
  case (Cons b bs)
  have "a * 256 + unat b + 1 \<le> (a + 1) * 256"
    using unat_byte_less [of b] by (simp add: algebra_simps Suc_le_eq)
  then have le: "(a * 256 + unat b + 1) * 256 ^ length bs \<le> (a + 1) * 256 * 256 ^ length bs"
    by (rule mult_right_mono) simp
  have "be_acc a (b # bs) < (a * 256 + unat b + 1) * 256 ^ length bs"
    using Cons [of "a * 256 + unat b"] by simp
  also note le
  finally show ?case by (simp only: mult.assoc length_Cons power_Suc)
qed

lemma be_get_bound: "be_get bs < 256 ^ length bs"
  using be_acc_bound [of 0 bs] by (simp add: be_get_def)

lemma be_put_get: "be_put (length bs) (be_get bs) = bs"
proof (induction bs rule: rev_induct)
  case Nil
  then show ?case by simp
next
  case (snoc b bs)
  have b: "unat b < 256" by (rule unat_byte_less)
  have "(be_get bs * 256 + unat b) div 256 = be_get bs"
    using b by simp
  moreover have "(word_of_nat (be_get bs * 256 + unat b) :: byte) = b"
    using b by (subst word_unat_eq_iff) (simp only: unat_word_of_nat_byte, simp)
  ultimately show ?case
    using snoc by (simp add: be_get_def)
qed

lemma be_put_inj:
  assumes "be_put k m = be_put k n" "m < 256 ^ k" "n < 256 ^ k"
  shows "m = n"
  using assms be_get_put by metis

section \<open>Codecs\<close>

text \<open>
  A wire format is an encoder that may refuse a value and a decoder that may refuse a byte
  string. What every format here promises its readers is that an encoded value decodes to
  itself; the formats that have exactly one encoding of each value promise the converse too.
\<close>

locale wire_codec =
  fixes enc :: "'a \<Rightarrow> goerr + bytes"
    and dec :: "bytes \<Rightarrow> goerr + 'a"
  assumes decode_encode: "enc a = Inr bs \<Longrightarrow> dec bs = Inr a"
begin

lemma encode_inj:
  assumes "enc a = Inr bs" "enc b = Inr bs"
  shows "a = b"
  using decode_encode [OF assms(1)] decode_encode [OF assms(2)] by simp

lemma encode_all:
  assumes "list_all2 (\<lambda>a bs. enc a = Inr bs) xs bss"
  shows "map dec bss = map Inr xs"
  using assms by (induction rule: list_all2_induct) (simp_all add: decode_encode)

end

locale canonical_codec = wire_codec +
  assumes encode_decode: "dec bs = Inr a \<Longrightarrow> enc a = Inr bs"
begin

lemma decode_iff: "dec bs = Inr a \<longleftrightarrow> enc a = Inr bs"
  using decode_encode encode_decode by blast

lemma decode_inj:
  assumes "dec bs = Inr a" "dec cs = Inr a"
  shows "bs = cs"
  using assms by (simp add: decode_iff)

end

section \<open>State machines\<close>

locale guarded_machine =
  fixes start :: "'s \<Rightarrow> bool"
    and move :: "'s \<Rightarrow> 's \<Rightarrow> bool"
    and safe :: "'s \<Rightarrow> bool"
  assumes start_safe: "start s \<Longrightarrow> safe s"
    and move_safe: "safe s \<Longrightarrow> move s t \<Longrightarrow> safe t"
begin

lemma run_safe:
  assumes "safe s" "move\<^sup>*\<^sup>* s t"
  shows "safe t"
  using assms(2,1) by (induction rule: rtranclp_induct) (auto intro: move_safe)

lemma reachable_safe: "start s \<Longrightarrow> move\<^sup>*\<^sup>* s t \<Longrightarrow> safe t"
  by (blast intro: start_safe run_safe)

end

text \<open>
  A state machine that implements an abstract one: the abstraction of a state is again reachable, with steps that the
  abstract machine does not see as stuttering.
\<close>

locale refined_machine = guarded_machine start move safe
  for start :: "'s \<Rightarrow> bool" and move :: "'s \<Rightarrow> 's \<Rightarrow> bool" and safe :: "'s \<Rightarrow> bool" +
  fixes abs :: "'s \<Rightarrow> 'a"
    and amove :: "'a \<Rightarrow> 'a \<Rightarrow> bool"
  assumes abs_move: "safe s \<Longrightarrow> move s t \<Longrightarrow> abs t = abs s \<or> amove (abs s) (abs t)"
begin

lemma run_refines:
  assumes "safe s" "move\<^sup>*\<^sup>* s t"
  shows "amove\<^sup>*\<^sup>* (abs s) (abs t)"
  using assms(2)
proof (induction rule: rtranclp_induct)
  case (step t u)
  have "safe t" using assms(1) step(1) by (rule run_safe)
  from abs_move [OF this step(2)] step.IH show ?case by (auto intro: rtranclp.rtrancl_into_rtrancl)
qed simp

lemma reachable_refines: "start s \<Longrightarrow> move\<^sup>*\<^sup>* s t \<Longrightarrow> amove\<^sup>*\<^sup>* (abs s) (abs t)"
  by (blast intro: start_safe run_refines)

end

end
