(* ===== verification/Lanes.thy ===== *)
theory Lanes
  imports Prelude
begin

text \<open>
  The lane protocol of \<^verbatim>\<open>agent/internal/multilane/lane.go\<close>: lane numbers and traffic classes, the
  lane envelope, and the responder of the transport version handshake. The locale
  \<open>lane_endpoint\<close> is the Go interface \<^verbatim>\<open>multilane.Endpoint\<close> as far as traffic classes go; the relay
  channel and the WebRTC peer implement it.
\<close>

definition ProtocolVersion :: int where
  "ProtocolVersion = 2"

section \<open>Lanes, kinds and classes\<close>

type_synonym Lane = byte
type_synonym Kind = byte
type_synonym TrafficClass = byte

definition LaneControl :: Lane where "LaneControl = 0"
definition LaneMedia :: Lane where "LaneMedia = 1"
definition LaneBulk :: Lane where "LaneBulk = 2"

definition KindText :: Kind where "KindText = 1"
definition KindBinary :: Kind where "KindBinary = 2"

definition ClassControl :: TrafficClass where "ClassControl = 0"
definition ClassInteractiveMedia :: TrafficClass where "ClassInteractiveMedia = 1"
definition ClassThumbnail :: TrafficClass where "ClassThumbnail = 2"
definition ClassBulk :: TrafficClass where "ClassBulk = 3"

lemmas lane_numbers [wire_simps] = LaneControl_def LaneMedia_def LaneBulk_def
lemmas kind_numbers [wire_simps] = KindText_def KindBinary_def
lemmas class_numbers [wire_simps] =
  ClassControl_def ClassInteractiveMedia_def ClassThumbnail_def ClassBulk_def

lemma classes_distinct [simp]:
  "ClassControl \<noteq> ClassInteractiveMedia" "ClassInteractiveMedia \<noteq> ClassControl"
  "ClassControl \<noteq> ClassThumbnail" "ClassThumbnail \<noteq> ClassControl"
  "ClassControl \<noteq> ClassBulk" "ClassBulk \<noteq> ClassControl"
  "ClassInteractiveMedia \<noteq> ClassThumbnail" "ClassThumbnail \<noteq> ClassInteractiveMedia"
  "ClassInteractiveMedia \<noteq> ClassBulk" "ClassBulk \<noteq> ClassInteractiveMedia"
  "ClassThumbnail \<noteq> ClassBulk" "ClassBulk \<noteq> ClassThumbnail"
  by (simp_all add: class_numbers)

definition Lane_Valid :: "Lane \<Rightarrow> bool" where
  "Lane_Valid lane \<longleftrightarrow> lane = LaneControl \<or> lane = LaneMedia \<or> lane = LaneBulk"

definition LaneForClass :: "TrafficClass \<Rightarrow> Lane result" where
  "LaneForClass c =
     (if c = ClassControl then Inr LaneControl
      else if c = ClassInteractiveMedia \<or> c = ClassThumbnail then Inr LaneMedia
      else if c = ClassBulk then Inr LaneBulk
      else Inl (Errorf ''unknown traffic class: %d'' [uint c]))"

lemma LaneForClass_Valid: "LaneForClass c = Inr l \<Longrightarrow> Lane_Valid l"
  by (auto simp: LaneForClass_def Lane_Valid_def split: if_splits)

section \<open>The lane envelope\<close>

definition EncodeEnvelope :: "Lane \<Rightarrow> bytes \<Rightarrow> bytes result" where
  "EncodeEnvelope lane payload =
     (if \<not> Lane_Valid lane then Inl (Errorf ''invalid lane: %#x'' [uint lane])
      else Inr (lane # payload))"

definition DecodeEnvelope :: "bytes \<Rightarrow> (Lane \<times> bytes) result" where
  "DecodeEnvelope encoded =
     (case encoded of
        [] \<Rightarrow> Inl (Errorf ''empty lane envelope'' [])
      | b # payload \<Rightarrow>
          if \<not> Lane_Valid b then Inl (Errorf ''invalid lane: %#x'' [uint b])
          else Inr (b, payload))"

interpretation envelope: canonical_codec "\<lambda>(lane, payload). EncodeEnvelope lane payload" DecodeEnvelope
  by unfold_locales
    (auto simp: EncodeEnvelope_def DecodeEnvelope_def split: if_splits list.splits)

lemma EncodeEnvelope_length: "EncodeEnvelope lane p = Inr bs \<Longrightarrow> length bs = length p + 1"
  by (auto simp: EncodeEnvelope_def split: if_splits)

section \<open>Endpoints\<close>

text \<open>
  \<^verbatim>\<open>Endpoint\<close>: one logical lane. Of its methods, \<^verbatim>\<open>SendBinaryClass\<close> has a contract its callers
  rely on: a class that belongs to another lane is refused, and nothing is handed to the
  transport. \<open>sent\<close> is what the transport behind the endpoint has been given.
\<close>

locale lane_endpoint =
  fixes lane :: Lane
    and SendBinaryClass :: "TrafficClass \<Rightarrow> bytes \<Rightarrow> 'st \<Rightarrow> goerr option \<times> 'st"
    and sent :: "'st \<Rightarrow> (TrafficClass \<times> bytes) list"
  assumes wrong_class: "LaneForClass c \<noteq> Inr lane \<Longrightarrow>
      fst (SendBinaryClass c p st) \<noteq> None \<and> sent (snd (SendBinaryClass c p st)) = sent st"
    and right_class: "LaneForClass c = Inr lane \<Longrightarrow>
      sent (snd (SendBinaryClass c p st)) = sent st \<or>
      sent (snd (SendBinaryClass c p st)) = sent st @ [(c, p)]"
begin

text \<open>Every frame an endpoint hands on belongs to its lane, whatever its callers ask for.\<close>

fun send_all :: "(TrafficClass \<times> bytes) list \<Rightarrow> 'st \<Rightarrow> 'st" where
  "send_all [] st = st"
| "send_all ((c, p) # rest) st = send_all rest (snd (SendBinaryClass c p st))"

lemma sent_step:
  "set (sent (snd (SendBinaryClass c p st))) \<subseteq>
     set (sent st) \<union> {(c', p'). LaneForClass c' = Inr lane}"
  using wrong_class [of c p st] right_class [of c p st]
  by (cases "LaneForClass c = Inr lane") auto

lemma send_all_on_lane:
  "set (sent (send_all xs st)) \<subseteq> set (sent st) \<union> {(c, p). LaneForClass c = Inr lane}"
proof (induction xs st rule: send_all.induct)
  case (1 st)
  then show ?case by simp
next
  case (2 c p rest st)
  then show ?case using sent_step [of c p st] by auto
qed

end

section \<open>The transport handshake\<close>

text \<open>
  \<^verbatim>\<open>InstallHandshakeResponder\<close> puts a handler on the control lane. The responder's state is the
  \<^verbatim>\<open>sync.Once\<close>, whether the handler is still installed, the texts sent on the control lane, whether
  the channel set was closed and how often \<^verbatim>\<open>onReady\<close> ran. JSON decoding of the hello is a
  parameter: \<open>parse\<close> yields the \<^verbatim>\<open>type\<close> and \<^verbatim>\<open>version\<close> fields, or \<open>None\<close> when \<^verbatim>\<open>json.Unmarshal\<close> fails.
  \<open>send_ok\<close> says whether \<^verbatim>\<open>control.SendText\<close> succeeds at that moment.
\<close>

datatype transport_text =
    TransportHandshake string int
  | TransportError string string "int list"

record responder =
  hs_first_done :: bool
  hs_installed :: bool
  hs_sent :: "transport_text list"
  hs_closed :: bool
  hs_ready :: nat

definition responder_idle :: responder where
  "responder_idle = \<lparr>hs_first_done = False, hs_installed = False, hs_sent = [], hs_closed = False, hs_ready = 0\<rparr>"

definition InstallHandshakeResponder :: "bool \<Rightarrow> bool \<Rightarrow> responder \<Rightarrow> responder" where
  "InstallHandshakeResponder set_present control_present r =
     (if \<not> set_present then r
      else if \<not> control_present then r\<lparr>hs_closed := True\<rparr>
      else r\<lparr>hs_installed := True, hs_first_done := False\<rparr>)"

definition sendHandshakeError :: "bool \<Rightarrow> string \<Rightarrow> int list \<Rightarrow> responder \<Rightarrow> responder" where
  "sendHandshakeError send_ok message args r =
     (if send_ok then r\<lparr>hs_sent := hs_sent r @ [TransportError ''connection'' message args]\<rparr> else r)"

definition handshake_on_message ::
  "(bytes \<Rightarrow> (string \<times> int) option) \<Rightarrow> bool \<Rightarrow> bytes \<Rightarrow> responder \<Rightarrow> responder" where
  "handshake_on_message parse send_ok data r =
     (if \<not> hs_installed r \<or> hs_first_done r then r
      else
        let r = r\<lparr>hs_first_done := True\<rparr> in
        case parse data of
          None \<Rightarrow> (sendHandshakeError send_ok ''expected transport_hello version 2'' [] r)\<lparr>hs_closed := True\<rparr>
        | Some (typ, version) \<Rightarrow>
            if typ \<noteq> ''transport_hello''
            then (sendHandshakeError send_ok ''expected transport_hello version 2'' [] r)\<lparr>hs_closed := True\<rparr>
            else if version \<noteq> ProtocolVersion
            then (sendHandshakeError send_ok ''incompatible transport version: %d'' [version] r)\<lparr>hs_closed := True\<rparr>
            else if \<not> send_ok then r\<lparr>hs_closed := True\<rparr>
            else r\<lparr>hs_sent := hs_sent r @ [TransportHandshake ''transport_ready'' ProtocolVersion],
                   hs_installed := False, hs_ready := Suc (hs_ready r)\<rparr>)"

fun handshake_run ::
  "(bytes \<Rightarrow> (string \<times> int) option) \<Rightarrow> (bool \<times> bytes) list \<Rightarrow> responder \<Rightarrow> responder" where
  "handshake_run parse [] r = r"
| "handshake_run parse ((ok, data) # rest) r = handshake_run parse rest (handshake_on_message parse ok data r)"

lemma handshake_settled:
  "hs_first_done r \<Longrightarrow> handshake_run parse ms r = r"
  by (induction parse ms r rule: handshake_run.induct) (auto simp: handshake_on_message_def)

lemma handshake_first:
  "hs_first_done (handshake_on_message parse ok data (InstallHandshakeResponder True True r))"
  by (auto simp: handshake_on_message_def InstallHandshakeResponder_def sendHandshakeError_def Let_def
      split: option.splits)

end
