(* ===== verification/Scheduler_Model.thy ===== *)
theory Scheduler_Model
  imports Lanes
begin

text \<open>
  The byte-weighted deficit round robin scheduler of \<^verbatim>\<open>agent/internal/multilane/scheduler.go\<close>.
  Every critical section of the Go code is one function on the record \<open>Scheduler\<close>; the goroutine
  \<^verbatim>\<open>pump\<close> is cut at the points where it releases the mutex (writing, waiting for a notification)
  and \<^verbatim>\<open>Send\<close> at the points where it blocks.

  Objects behind Go pointers carry an identity (\<open>sr_id\<close>, \<open>aw_id\<close>) and live in the heaps \<open>requests\<close>
  and \<open>allWaiters\<close>; a channel is the list of the values sent on it so far (\<open>done_ch\<close>, \<open>ready_ch\<close>),
  both made with capacity one. The channel \<^verbatim>\<open>notify\<close>, which is closed and replaced at every
  signal, is the number of channels made so far: channel \<open>g\<close> is closed exactly when \<open>g \<noteq> notify s\<close>.
  A Go panic (indexing an empty queue, a nil request) is the outer \<open>None\<close> of the functions that could
  raise one. Go's 64-bit \<open>int\<close> counters are HOL integers; the bounds proved for them stay far below
  the machine limits.
\<close>

definition BaseQuantumBytes :: int where "BaseQuantumBytes = 64 * 1024"
definition ControlBurstLimit :: int where "ControlBurstLimit = 8"
definition ControlQueueCapBytes :: int where "ControlQueueCapBytes = 8 * 1024 * 1024"
definition InteractiveQueueCapBytes :: int where "InteractiveQueueCapBytes = 512 * 1024"
definition ThumbnailQueueCapBytes :: int where "ThumbnailQueueCapBytes = 2 * 1024 * 1024"
definition BulkQueueCapBytes :: int where "BulkQueueCapBytes = 256 * 1024"

lemmas sched_numbers =
  BaseQuantumBytes_def ControlBurstLimit_def ControlQueueCapBytes_def InteractiveQueueCapBytes_def
  ThumbnailQueueCapBytes_def BulkQueueCapBytes_def

definition ErrRequestTooLarge :: goerr where
  "ErrRequestTooLarge = Errorf ''multilane request exceeds queue capacity'' []"
definition ErrEmptyPayload :: goerr where
  "ErrEmptyPayload = Errorf ''multilane scheduler payload must be non-empty'' []"
definition ErrSchedulerClosed :: goerr where
  "ErrSchedulerClosed = Errorf ''multilane scheduler closed'' []"

record sendRequest =
  sr_id :: nat
  sr_class :: TrafficClass
  sr_kind :: Kind
  sr_payload :: bytes

record admissionWaiter =
  aw_id :: nat
  aw_class :: TrafficClass
  aw_kind :: Kind
  aw_payload :: bytes

abbreviation rlen :: "sendRequest \<Rightarrow> int" where
  "rlen r \<equiv> int (length (sr_payload r))"

abbreviation wlen :: "admissionWaiter \<Rightarrow> int" where
  "wlen w \<equiv> int (length (aw_payload w))"

datatype pump_pc = PumpIdle | PumpWriting | PumpWaiting nat | PumpStopped

record Scheduler =
  queues :: "TrafficClass \<Rightarrow> sendRequest list"
  queued_bytes :: "TrafficClass \<Rightarrow> int"
  admissionWaiters :: "TrafficClass \<Rightarrow> admissionWaiter list"
  notify :: nat
  terminal :: "goerr option"
  active :: "sendRequest option"
  controlBurst :: int
  outerCurrent :: nat
  outerDeficit :: "nat \<Rightarrow> int"
  outerStarted :: bool
  innerCurrent :: nat
  innerDeficit :: "nat \<Rightarrow> int"
  innerStarted :: bool
  pump_at :: pump_pc
  nextId :: nat
  requests :: "nat \<rightharpoonup> sendRequest"
  allWaiters :: "nat \<rightharpoonup> admissionWaiter"
  waiterRequest :: "nat \<rightharpoonup> sendRequest"
  done_ch :: "nat \<Rightarrow> goerr option list"
  ready_ch :: "nat \<Rightarrow> goerr option list"

definition NewScheduler :: Scheduler where
  "NewScheduler =
     \<lparr>queues = (\<lambda>_. []), queued_bytes = (\<lambda>_. 0), admissionWaiters = (\<lambda>_. []), notify = 0,
      terminal = None, active = None, controlBurst = 0, outerCurrent = 0, outerDeficit = (\<lambda>_. 0),
      outerStarted = False, innerCurrent = 0, innerDeficit = (\<lambda>_. 0), innerStarted = False,
      pump_at = PumpIdle, nextId = 0, requests = Map.empty, allWaiters = Map.empty,
      waiterRequest = Map.empty, done_ch = (\<lambda>_. []), ready_ch = (\<lambda>_. [])\<rparr>"

definition classCap :: "TrafficClass \<Rightarrow> int \<times> bool" where
  "classCap c =
     (if c = ClassControl then (ControlQueueCapBytes, True)
      else if c = ClassInteractiveMedia then (InteractiveQueueCapBytes, True)
      else if c = ClassThumbnail then (ThumbnailQueueCapBytes, True)
      else if c = ClassBulk then (BulkQueueCapBytes, True)
      else (0, False))"

text \<open>The keys the Go maps can hold: \<^verbatim>\<open>Send\<close> refuses every other class before it touches them.\<close>

definition allClasses :: "TrafficClass list" where
  "allClasses = [ClassControl, ClassInteractiveMedia, ClassThumbnail, ClassBulk]"

section \<open>Queue bookkeeping\<close>

definition hasMediaLocked :: "Scheduler \<Rightarrow> bool" where
  "hasMediaLocked s \<longleftrightarrow> queues s ClassInteractiveMedia \<noteq> [] \<or> queues s ClassThumbnail \<noteq> []"

definition hasClassDemandLocked :: "TrafficClass \<Rightarrow> Scheduler \<Rightarrow> bool" where
  "hasClassDemandLocked c s \<longleftrightarrow> queues s c \<noteq> [] \<or> admissionWaiters s c \<noteq> []"

definition hasMediaDemandLocked :: "Scheduler \<Rightarrow> bool" where
  "hasMediaDemandLocked s \<longleftrightarrow>
     hasClassDemandLocked ClassInteractiveMedia s \<or> hasClassDemandLocked ClassThumbnail s"

definition signalLocked :: "Scheduler \<Rightarrow> Scheduler" where
  "signalLocked s = s\<lparr>notify := Suc (notify s)\<rparr>"

definition resetEmptyLaneLocked :: "TrafficClass \<Rightarrow> Scheduler \<Rightarrow> Scheduler" where
  "resetEmptyLaneLocked c s =
     (let s1 = (if \<not> hasClassDemandLocked c s then
                  (if c = ClassInteractiveMedia then s\<lparr>innerDeficit := (innerDeficit s)(0 := 0)\<rparr>
                   else if c = ClassThumbnail then s\<lparr>innerDeficit := (innerDeficit s)(1 := 0)\<rparr>
                   else if c = ClassBulk then s\<lparr>outerDeficit := (outerDeficit s)(1 := 0)\<rparr>
                   else s)
                else s);
          s2 = (if \<not> hasMediaDemandLocked s1 then
                  s1\<lparr>outerDeficit := (outerDeficit s1)(0 := 0), innerCurrent := 0,
                     innerDeficit := (\<lambda>_. 0), innerStarted := False\<rparr>
                else s1)
      in if \<not> hasMediaDemandLocked s2 \<and> \<not> hasClassDemandLocked ClassBulk s2
         then s2\<lparr>outerCurrent := 0, outerDeficit := (\<lambda>_. 0), outerStarted := False\<rparr>
         else s2)"

definition popLocked :: "TrafficClass \<Rightarrow> Scheduler \<Rightarrow> (sendRequest \<times> Scheduler) option" where
  "popLocked c s =
     (case queues s c of
        [] \<Rightarrow> None
      | request # queue \<Rightarrow>
          let s1 = s\<lparr>queues := (queues s)(c := queue)\<rparr>
          in Some (request, if queue = [] then resetEmptyLaneLocked c s1 else s1))"

definition enqueueLocked :: "TrafficClass \<Rightarrow> Kind \<Rightarrow> bytes \<Rightarrow> Scheduler \<Rightarrow> sendRequest \<times> Scheduler" where
  "enqueueLocked c kind payload s =
     (let request = \<lparr>sr_id = nextId s, sr_class = c, sr_kind = kind, sr_payload = payload\<rparr>
      in (request,
          signalLocked (s\<lparr>nextId := Suc (nextId s),
                          requests := (requests s)(nextId s \<mapsto> request),
                          queued_bytes := (queued_bytes s)(c := queued_bytes s c + rlen request),
                          queues := (queues s)(c := queues s c @ [request])\<rparr>)))"

fun admitLoop :: "int \<Rightarrow> TrafficClass \<Rightarrow> admissionWaiter list \<Rightarrow> Scheduler \<Rightarrow> admissionWaiter list \<times> Scheduler" where
  "admitLoop capBytes c [] s = ([], s)"
| "admitLoop capBytes c (waiter # waiters) s =
     (if queued_bytes s c + wlen waiter \<le> capBytes then
        (let (request, s1) = enqueueLocked (aw_class waiter) (aw_kind waiter) (aw_payload waiter) s
         in admitLoop capBytes c waiters
              (s1\<lparr>waiterRequest := (waiterRequest s1)(aw_id waiter \<mapsto> request),
                  ready_ch := (ready_ch s1)(aw_id waiter := ready_ch s1 (aw_id waiter) @ [None])\<rparr>))
      else (waiter # waiters, s))"

definition admitWaitersLocked :: "TrafficClass \<Rightarrow> Scheduler \<Rightarrow> Scheduler" where
  "admitWaitersLocked c s =
     (let (waiters, s1) = admitLoop (fst (classCap c)) c (admissionWaiters s c) s
      in s1\<lparr>admissionWaiters := (admissionWaiters s1)(c := waiters)\<rparr>)"

fun remove_first :: "('a \<Rightarrow> bool) \<Rightarrow> 'a list \<Rightarrow> 'a list" where
  "remove_first P [] = []"
| "remove_first P (x # xs) = (if P x then xs else x # remove_first P xs)"

definition removeAdmissionWaiterLocked :: "admissionWaiter \<Rightarrow> Scheduler \<Rightarrow> bool \<times> Scheduler" where
  "removeAdmissionWaiterLocked want s =
     (let c = aw_class want; waiters = admissionWaiters s c in
      if \<exists>w\<in>set waiters. aw_id w = aw_id want then
        (let s1 = s\<lparr>admissionWaiters := (admissionWaiters s)(c := remove_first (\<lambda>w. aw_id w = aw_id want) waiters)\<rparr>
         in (True, if queues s1 c = [] then resetEmptyLaneLocked c s1 else s1))
      else (False, s))"

definition removeQueuedLocked :: "sendRequest \<Rightarrow> Scheduler \<Rightarrow> bool \<times> Scheduler" where
  "removeQueuedLocked want s =
     (let c = sr_class want; queue = queues s c in
      if \<exists>r\<in>set queue. sr_id r = sr_id want then
        (let s1 = s\<lparr>queues := (queues s)(c := remove_first (\<lambda>r. sr_id r = sr_id want) queue)\<rparr>
         in (True, if queues s1 c = [] then resetEmptyLaneLocked c s1 else s1))
      else (False, s))"

text \<open>The two \<^verbatim>\<open>range\<close> loops over the maps; their order does not matter, each object has its own channel.\<close>

definition failWaiter :: "goerr \<Rightarrow> admissionWaiter \<Rightarrow> Scheduler \<Rightarrow> Scheduler" where
  "failWaiter err w s = s\<lparr>ready_ch := (ready_ch s)(aw_id w := ready_ch s (aw_id w) @ [Some err])\<rparr>"

definition failWaiters :: "goerr \<Rightarrow> TrafficClass \<Rightarrow> Scheduler \<Rightarrow> Scheduler" where
  "failWaiters err c s =
     (fold (failWaiter err) (admissionWaiters s c) s)
       \<lparr>admissionWaiters := (admissionWaiters s)(c := [])\<rparr>"

definition failAdmissionWaitersLocked :: "goerr \<Rightarrow> Scheduler \<Rightarrow> Scheduler" where
  "failAdmissionWaitersLocked err s = fold (failWaiters err) allClasses s"

definition failRequest :: "goerr \<Rightarrow> TrafficClass \<Rightarrow> sendRequest \<Rightarrow> Scheduler \<Rightarrow> Scheduler" where
  "failRequest err c r s =
     s\<lparr>queued_bytes := (queued_bytes s)(c := queued_bytes s c - rlen r),
       done_ch := (done_ch s)(sr_id r := done_ch s (sr_id r) @ [Some err])\<rparr>"

definition failQueue :: "goerr \<Rightarrow> TrafficClass \<Rightarrow> Scheduler \<Rightarrow> Scheduler" where
  "failQueue err c s =
     (fold (failRequest err c) (queues s c) s)
       \<lparr>queues := (queues s)(c := [])\<rparr>"

definition failQueuedLocked :: "goerr \<Rightarrow> Scheduler \<Rightarrow> Scheduler" where
  "failQueuedLocked err s = fold (failQueue err) allClasses s"

section \<open>The inner round: interactive media against thumbnails\<close>

definition addInnerRoundLocked :: "Scheduler \<Rightarrow> Scheduler" where
  "addInnerRoundLocked s =
     s\<lparr>innerDeficit := (innerDeficit s)
         (0 := (if queues s ClassInteractiveMedia \<noteq> [] then innerDeficit s 0 + 3 * BaseQuantumBytes else 0),
          1 := (if queues s ClassThumbnail \<noteq> [] then innerDeficit s 1 + BaseQuantumBytes else 0))\<rparr>"

definition advanceInnerLocked :: "Scheduler \<Rightarrow> Scheduler" where
  "advanceInnerLocked s =
     (let s1 = s\<lparr>innerCurrent := (innerCurrent s + 1) mod 2\<rparr>
      in if innerCurrent s1 = 0 then addInnerRoundLocked s1 else s1)"

definition head_need :: "sendRequest list \<Rightarrow> int \<Rightarrow> nat" where
  "head_need q d = (case q of [] \<Rightarrow> 0 | r # _ \<Rightarrow> nat (rlen r - d))"

definition head_fits :: "sendRequest list \<Rightarrow> int \<Rightarrow> bool" where
  "head_fits q d = (case q of [] \<Rightarrow> False | r # _ \<Rightarrow> rlen r \<le> d)"

definition inner_need :: "Scheduler \<Rightarrow> nat" where
  "inner_need s = head_need (queues s ClassInteractiveMedia) (innerDeficit s 0)
                + head_need (queues s ClassThumbnail) (innerDeficit s 1)"

definition inner_pos :: "Scheduler \<Rightarrow> nat" where
  "inner_pos s =
     (if innerCurrent s = 0 \<and> head_fits (queues s ClassInteractiveMedia) (innerDeficit s 0) then 0
      else if innerCurrent s = 0 then 2 else if innerCurrent s = 1 then 1 else 3)"

definition innerClass :: "Scheduler \<Rightarrow> TrafficClass" where
  "innerClass s = (if innerCurrent s = 1 then ClassThumbnail else ClassInteractiveMedia)"

text \<open>
  The loop of \<^verbatim>\<open>peekMediaLocked\<close>. It ends because every full round raises the deficits of the
  non-empty lanes by a quantum, until the head of one of them fits.
\<close>

function peekLoop :: "Scheduler \<Rightarrow> sendRequest option \<times> Scheduler" where
  "peekLoop s =
     (if hasMediaLocked s then
        (case queues s (innerClass s) of
           [] \<Rightarrow> peekLoop (advanceInnerLocked (s\<lparr>innerDeficit := (innerDeficit s)(innerCurrent s := 0)\<rparr>))
         | request # _ \<Rightarrow>
             if rlen request \<le> innerDeficit s (innerCurrent s)
             then (Some request,
                   s\<lparr>innerDeficit := (innerDeficit s)
                       (innerCurrent s := innerDeficit s (innerCurrent s) - rlen request)\<rparr>)
             else peekLoop (advanceInnerLocked s))
      else (None, s))"
  by pat_completeness auto

lemma Suc_mod2: "Suc n mod 2 = 0 \<longleftrightarrow> odd n" "Suc n mod 2 = Suc 0 \<longleftrightarrow> even n"
  by presburger+

lemma inner_advance_empty:
  assumes "hasMediaLocked s" "queues s (innerClass s) = []"
  shows "(advanceInnerLocked (s\<lparr>innerDeficit := (innerDeficit s)(innerCurrent s := 0)\<rparr>), s)
           \<in> measures [inner_need, inner_pos]"
  using assms
  by (auto simp: advanceInnerLocked_def addInnerRoundLocked_def inner_need_def inner_pos_def innerClass_def
      hasMediaLocked_def head_need_def head_fits_def sched_numbers Let_def Suc_mod2
      split: list.splits if_splits)

lemma inner_advance_unfit:
  assumes "queues s (innerClass s) = r # q" "\<not> rlen r \<le> innerDeficit s (innerCurrent s)"
  shows "(advanceInnerLocked s, s) \<in> measures [inner_need, inner_pos]"
  using assms
  by (cases "innerCurrent s = 0") (auto simp: advanceInnerLocked_def addInnerRoundLocked_def inner_need_def inner_pos_def innerClass_def
      hasMediaLocked_def head_need_def head_fits_def sched_numbers Let_def Suc_mod2
      split: list.splits if_splits)

termination peekLoop
  by (relation "measures [inner_need, inner_pos]")
    (use inner_advance_empty inner_advance_unfit in auto)

declare peekLoop.simps [simp del]

definition peekMediaLocked :: "Scheduler \<Rightarrow> sendRequest option \<times> Scheduler" where
  "peekMediaLocked s =
     peekLoop (if innerStarted s then s else (addInnerRoundLocked s)\<lparr>innerStarted := True\<rparr>)"

section \<open>The outer round: media against bulk\<close>

text \<open>
  What the loops leave alone: a step of the inner round changes only the three inner fields, so
  restoring them, as \<^verbatim>\<open>nextDataLocked\<close> does when the media head does not fit, gives the state back.
\<close>

definition restoreInner :: "Scheduler \<Rightarrow> Scheduler \<Rightarrow> Scheduler" where
  "restoreInner s s1 =
     s1\<lparr>innerCurrent := innerCurrent s, innerDeficit := innerDeficit s, innerStarted := innerStarted s\<rparr>"

lemma restoreInner_same [simp]: "restoreInner s s = s"
  by (simp add: restoreInner_def)

lemma restoreInner_advance: "restoreInner t (advanceInnerLocked s) = restoreInner t s"
  by (simp add: restoreInner_def advanceInnerLocked_def addInnerRoundLocked_def Let_def)

lemma restoreInner_deficit: "restoreInner t (s\<lparr>innerDeficit := d\<rparr>) = restoreInner t s"
  by (simp add: restoreInner_def)

lemma peekLoop_frame: "restoreInner t (snd (peekLoop s)) = restoreInner t s"
proof (induction s rule: peekLoop.induct)
  case (1 s)
  show ?case
    using 1 by (subst peekLoop.simps)
      (auto simp: restoreInner_advance restoreInner_deficit split: list.splits)
qed

lemma peekMedia_frame: "peekMediaLocked s = (r, s1) \<Longrightarrow> restoreInner s s1 = s"
  using peekLoop_frame [of s "if innerStarted s then s else (addInnerRoundLocked s)\<lparr>innerStarted := True\<rparr>"]
  by (auto simp: peekMediaLocked_def restoreInner_def addInnerRoundLocked_def split: if_splits)

lemma restoreInner_eqD:
  assumes "restoreInner s s1 = s"
  shows "queues s1 = queues s" "outerDeficit s1 = outerDeficit s" "outerCurrent s1 = outerCurrent s"
    "admissionWaiters s1 = admissionWaiters s"
  using assms by (auto simp: restoreInner_def dest: arg_cong [where f = queues]
      arg_cong [where f = outerDeficit] arg_cong [where f = outerCurrent] arg_cong [where f = admissionWaiters])

text \<open>The media request offered depends on the queues and the inner fields only.\<close>

definition inner_view :: "Scheduler \<Rightarrow> (TrafficClass \<Rightarrow> sendRequest list) \<times> nat \<times> (nat \<Rightarrow> int) \<times> bool" where
  "inner_view s = (queues s, innerCurrent s, innerDeficit s, innerStarted s)"

lemma inner_view_advance:
  "inner_view s = inner_view t \<Longrightarrow> inner_view (advanceInnerLocked s) = inner_view (advanceInnerLocked t)"
  by (auto simp: inner_view_def advanceInnerLocked_def addInnerRoundLocked_def Let_def)

lemma peekLoop_view: "inner_view s = inner_view t \<Longrightarrow> fst (peekLoop s) = fst (peekLoop t)"
proof (induction s arbitrary: t rule: peekLoop.induct)
  case (1 s)
  have eq: "queues t = queues s" "innerCurrent t = innerCurrent s" "innerDeficit t = innerDeficit s"
    "hasMediaLocked t = hasMediaLocked s" "innerClass t = innerClass s"
    using "1.prems" by (auto simp: inner_view_def hasMediaLocked_def innerClass_def)
  have v: "inner_view (s\<lparr>innerDeficit := d\<rparr>) = inner_view (t\<lparr>innerDeficit := d\<rparr>)" for d
    using "1.prems" by (simp add: inner_view_def)
  show ?case
  proof (cases "hasMediaLocked s")
    case True
    show ?thesis
    proof (cases "queues s (innerClass s)")
      case Nil
      have "fst (peekLoop (advanceInnerLocked (s\<lparr>innerDeficit := (innerDeficit s)(innerCurrent s := 0)\<rparr>)))
          = fst (peekLoop (advanceInnerLocked (t\<lparr>innerDeficit := (innerDeficit s)(innerCurrent s := 0)\<rparr>)))"
        by (rule "1.IH"(1) [OF True Nil inner_view_advance [OF v]])
      with Nil True eq show ?thesis
        by (simp add: peekLoop.simps [of s] peekLoop.simps [of t])
    next
      case (Cons r q)
      show ?thesis
      proof (cases "rlen r \<le> innerDeficit s (innerCurrent s)")
        case False
        have "fst (peekLoop (advanceInnerLocked s)) = fst (peekLoop (advanceInnerLocked t))"
          by (rule "1.IH"(2) [OF True Cons False inner_view_advance [OF "1.prems"]])
        with Cons True False eq show ?thesis
          by (simp add: peekLoop.simps [of s] peekLoop.simps [of t])
      qed (simp add: peekLoop.simps [of s] peekLoop.simps [of t] Cons True eq)
    qed
  qed (simp add: peekLoop.simps [of s] peekLoop.simps [of t] eq)
qed

lemma peekMedia_view:
  assumes "inner_view s = inner_view t"
  shows "fst (peekMediaLocked s) = fst (peekMediaLocked t)"
  using assms unfolding peekMediaLocked_def
  by (intro peekLoop_view) (auto simp: inner_view_def addInnerRoundLocked_def)

text \<open>With media waiting, the loop offers the head of one of the two media queues.\<close>

lemma peekLoop_head:
  "hasMediaLocked s \<Longrightarrow> \<exists>r c q. fst (peekLoop s) = Some r \<and> c \<in> {ClassInteractiveMedia, ClassThumbnail}
     \<and> queues s c = r # q"
proof (induction s rule: peekLoop.induct)
  case (1 s)
  have adv: "hasMediaLocked (advanceInnerLocked s') = hasMediaLocked s'"
    "queues (advanceInnerLocked s') = queues s'" for s'
    by (auto simp: advanceInnerLocked_def addInnerRoundLocked_def hasMediaLocked_def Let_def)
  have upd: "hasMediaLocked (s\<lparr>innerDeficit := d\<rparr>) = hasMediaLocked s" for d
    by (simp add: hasMediaLocked_def)
  show ?case
  proof (cases "queues s (innerClass s)")
    case Nil
    then show ?thesis
      using "1.IH"(1) [OF "1.prems" Nil] "1.prems" by (subst peekLoop.simps) (simp add: adv upd)
  next
    case (Cons r q)
    show ?thesis
    proof (cases "rlen r \<le> innerDeficit s (innerCurrent s)")
      case True
      then show ?thesis
        using Cons "1.prems" by (subst peekLoop.simps) (auto simp: innerClass_def split: if_splits)
    next
      case False
      then show ?thesis
        using "1.IH"(2) [OF "1.prems" Cons False] Cons "1.prems" by (subst peekLoop.simps) (simp add: adv)
    qed
  qed
qed

lemma peekMedia_head:
  assumes "hasMediaLocked s"
  shows "\<exists>r c q s1. peekMediaLocked s = (Some r, s1) \<and> c \<in> {ClassInteractiveMedia, ClassThumbnail}
     \<and> queues s c = r # q"
proof -
  let ?s = "if innerStarted s then s else (addInnerRoundLocked s)\<lparr>innerStarted := True\<rparr>"
  have "hasMediaLocked ?s" "queues ?s = queues s"
    using assms by (auto simp: hasMediaLocked_def addInnerRoundLocked_def)
  with peekLoop_head [of ?s] show ?thesis
    unfolding peekMediaLocked_def by (metis prod.collapse)
qed

definition addOuterRoundLocked :: "Scheduler \<Rightarrow> Scheduler" where
  "addOuterRoundLocked s =
     s\<lparr>outerDeficit := (outerDeficit s)
         (0 := (if hasMediaLocked s then outerDeficit s 0 + 3 * BaseQuantumBytes else 0),
          1 := (if queues s ClassBulk \<noteq> [] then outerDeficit s 1 + BaseQuantumBytes else 0))\<rparr>"

definition advanceOuterLocked :: "Scheduler \<Rightarrow> Scheduler" where
  "advanceOuterLocked s =
     (let s1 = s\<lparr>outerCurrent := (outerCurrent s + 1) mod 2\<rparr>
      in if outerCurrent s1 = 0 then addOuterRoundLocked s1 else s1)"

definition media_head :: "Scheduler \<Rightarrow> sendRequest list" where
  "media_head s = (if hasMediaLocked s then (case fst (peekMediaLocked s) of None \<Rightarrow> [] | Some r \<Rightarrow> [r]) else [])"

definition outer_need :: "Scheduler \<Rightarrow> nat" where
  "outer_need s = head_need (media_head s) (outerDeficit s 0)
                + head_need (queues s ClassBulk) (outerDeficit s 1)"

definition outer_pos :: "Scheduler \<Rightarrow> nat" where
  "outer_pos s =
     (if outerCurrent s = 0 \<and> head_fits (media_head s) (outerDeficit s 0) then 0
      else if outerCurrent s = 0 then 2 else if outerCurrent s = 1 then 1 else 3)"

lemma media_head_outer:
  "media_head (s\<lparr>outerCurrent := c, outerDeficit := d\<rparr>) = media_head s"
  "media_head (s\<lparr>outerCurrent := c\<rparr>) = media_head s"
  "media_head (s\<lparr>outerDeficit := d\<rparr>) = media_head s"
  by (auto simp: media_head_def hasMediaLocked_def inner_view_def
      intro!: arg_cong [where f = "case_option [] (\<lambda>r. [r])"] peekMedia_view)

lemma media_head_peek:
  assumes "hasMediaLocked s"
  shows "\<exists>r s1. peekMediaLocked s = (Some r, s1) \<and> media_head s = [r]"
  using peekMedia_head [OF assms] assms by (auto simp: media_head_def)

text \<open>
  The loop of \<^verbatim>\<open>nextDataLocked\<close>. The outer \<open>None\<close> is a panic: a nil request from
  \<^verbatim>\<open>peekMediaLocked\<close>, or \<^verbatim>\<open>popLocked\<close> on an empty queue.
\<close>

function nextDataLoop :: "Scheduler \<Rightarrow> (sendRequest option \<times> Scheduler) option" where
  "nextDataLoop s =
     (if hasMediaLocked s \<or> queues s ClassBulk \<noteq> [] then
        if outerCurrent s = 0 then
          if \<not> hasMediaLocked s
          then nextDataLoop (advanceOuterLocked (s\<lparr>outerDeficit := (outerDeficit s)(0 := 0)\<rparr>))
          else
            (case peekMediaLocked s of
               (None, _) \<Rightarrow> None
             | (Some request, s1) \<Rightarrow>
                 if rlen request \<le> outerDeficit s1 0
                 then map_option (\<lambda>(r, s2). (Some r, s2))
                        (popLocked (sr_class request)
                          (s1\<lparr>outerDeficit := (outerDeficit s1)(0 := outerDeficit s1 0 - rlen request)\<rparr>))
                 else nextDataLoop (advanceOuterLocked (restoreInner s s1)))
        else
          (case queues s ClassBulk of
             [] \<Rightarrow> nextDataLoop (advanceOuterLocked (s\<lparr>outerDeficit := (outerDeficit s)(1 := 0)\<rparr>))
           | request # _ \<Rightarrow>
               if rlen request \<le> outerDeficit s 1
               then map_option (\<lambda>(r, s2). (Some r, s2))
                      (popLocked ClassBulk
                        (s\<lparr>outerDeficit := (outerDeficit s)(1 := outerDeficit s 1 - rlen request)\<rparr>))
               else nextDataLoop (advanceOuterLocked s))
      else Some (None, s))"
  by pat_completeness auto

lemmas outer_measure_simps =
  advanceOuterLocked_def addOuterRoundLocked_def outer_need_def outer_pos_def head_need_def head_fits_def
  sched_numbers Let_def Suc_mod2 media_head_outer

lemma media_head_Nil: "\<not> hasMediaLocked s \<Longrightarrow> media_head s = []"
  by (simp add: media_head_def)

lemma hasMedia_outer:
  "hasMediaLocked (s\<lparr>outerCurrent := c, outerDeficit := d\<rparr>) = hasMediaLocked s"
  "hasMediaLocked (s\<lparr>outerCurrent := c\<rparr>) = hasMediaLocked s"
  "hasMediaLocked (s\<lparr>outerDeficit := d\<rparr>) = hasMediaLocked s"
  by (simp_all add: hasMediaLocked_def)

lemma outer_advance_no_media:
  assumes "outerCurrent s = 0" "\<not> hasMediaLocked s" "queues s ClassBulk \<noteq> []"
  shows "(advanceOuterLocked (s\<lparr>outerDeficit := (outerDeficit s)(0 := 0)\<rparr>), s)
           \<in> measures [outer_need, outer_pos]"
  using assms by (auto simp: outer_measure_simps media_head_Nil hasMedia_outer split: list.splits if_splits)

lemma outer_advance_media_unfit:
  assumes "outerCurrent s = 0" "hasMediaLocked s" "peekMediaLocked s = (Some r, s1)"
    "\<not> rlen r \<le> outerDeficit s1 0"
  shows "(advanceOuterLocked (restoreInner s s1), s) \<in> measures [outer_need, outer_pos]"
proof -
  have s: "restoreInner s s1 = s" using peekMedia_frame [OF assms(3)] .
  have "media_head s = [r]" using assms(2,3) by (simp add: media_head_def)
  then show ?thesis
    using assms(1,4) restoreInner_eqD(2) [OF s]
    by (auto simp: outer_measure_simps s hasMedia_outer split: list.splits if_splits)
qed

lemma outer_advance_no_bulk:
  assumes "outerCurrent s \<noteq> 0" "hasMediaLocked s" "queues s ClassBulk = []"
  shows "(advanceOuterLocked (s\<lparr>outerDeficit := (outerDeficit s)(1 := 0)\<rparr>), s)
           \<in> measures [outer_need, outer_pos]"
  using assms media_head_peek [OF assms(2)]
  by (auto simp: outer_measure_simps hasMedia_outer split: list.splits if_splits)

lemma outer_advance_bulk_unfit:
  assumes "outerCurrent s \<noteq> 0" "queues s ClassBulk = r # q" "\<not> rlen r \<le> outerDeficit s 1"
  shows "(advanceOuterLocked s, s) \<in> measures [outer_need, outer_pos]"
  using assms media_head_Nil [of s] media_head_peek [of s]
  by (cases "hasMediaLocked s") (auto simp: outer_measure_simps hasMedia_outer split: list.splits if_splits)

termination nextDataLoop
proof (relation "measures [outer_need, outer_pos]", goal_cases)
  case 1
  show ?case by simp
next
  case (2 s)
  then show ?case by (intro outer_advance_no_media) auto
next
  case (3 s x y r)
  then show ?case by (intro outer_advance_media_unfit) auto
next
  case (4 s)
  then show ?case by (intro outer_advance_no_bulk) auto
next
  case (5 s r q)
  then show ?case by (intro outer_advance_bulk_unfit) auto
qed

declare nextDataLoop.simps [simp del]

definition nextDataLocked :: "Scheduler \<Rightarrow> (sendRequest option \<times> Scheduler) option" where
  "nextDataLocked s =
     nextDataLoop (if outerStarted s then s else (addOuterRoundLocked s)\<lparr>outerStarted := True\<rparr>)"

definition dataWaiting :: "Scheduler \<Rightarrow> bool" where
  "dataWaiting s \<longleftrightarrow> hasMediaLocked s \<or> queues s ClassBulk \<noteq> []"

definition popControl :: "Scheduler \<Rightarrow> (sendRequest option \<times> Scheduler) option" where
  "popControl s =
     map_option (\<lambda>(r, s2). (Some r, s2)) (popLocked ClassControl (s\<lparr>controlBurst := controlBurst s + 1\<rparr>))"

definition nextLocked :: "Scheduler \<Rightarrow> (sendRequest option \<times> Scheduler) option" where
  "nextLocked s =
     (if queues s ClassControl \<noteq> [] \<and> (controlBurst s < ControlBurstLimit \<or> \<not> dataWaiting s)
      then popControl s
      else
        case (if dataWaiting s then nextDataLocked s else Some (None, s)) of
          None \<Rightarrow> None
        | Some (Some request, s1) \<Rightarrow> Some (Some request, s1\<lparr>controlBurst := 0\<rparr>)
        | Some (None, s1) \<Rightarrow>
            if queues s1 ClassControl \<noteq> [] then popControl s1 else Some (None, s1))"

section \<open>The pump goroutine\<close>

text \<open>
  \<open>pump_lock\<close> is the body from taking the mutex to releasing it: the pump stops when the scheduler
  is terminal, starts writing a request, or goes to sleep on the current notification channel.
  \<open>pump_wake\<close> is that channel being closed. \<open>pump_written\<close> is the critical section after the
  writer returned \<open>err\<close>, with the send on \<^verbatim>\<open>request.done\<close> that follows it.
\<close>

definition pump_lock :: "Scheduler \<Rightarrow> Scheduler option" where
  "pump_lock s =
     (if terminal s \<noteq> None then Some (s\<lparr>pump_at := PumpStopped\<rparr>)
      else
        case nextLocked s of
          None \<Rightarrow> None
        | Some (Some request, s1) \<Rightarrow> Some (s1\<lparr>active := Some request, pump_at := PumpWriting\<rparr>)
        | Some (None, s1) \<Rightarrow> Some (s1\<lparr>pump_at := PumpWaiting (notify s1)\<rparr>))"

definition pump_wake :: "Scheduler \<Rightarrow> Scheduler" where
  "pump_wake s =
     (case pump_at s of
        PumpWaiting g \<Rightarrow> if g \<noteq> notify s then s\<lparr>pump_at := PumpIdle\<rparr> else s
      | _ \<Rightarrow> s)"

definition pump_written :: "goerr option \<Rightarrow> sendRequest \<Rightarrow> Scheduler \<Rightarrow> Scheduler" where
  "pump_written err request s =
     (let c = sr_class request;
          s1 = s\<lparr>active := None, queued_bytes := (queued_bytes s)(c := queued_bytes s c - rlen request)\<rparr>;
          s2 = (case (err, terminal s1) of
                  (Some e, None) \<Rightarrow> failQueuedLocked e (failAdmissionWaitersLocked e (s1\<lparr>terminal := Some e\<rparr>))
                | (None, None) \<Rightarrow> admitWaitersLocked c s1
                | _ \<Rightarrow> s1);
          s3 = signalLocked s2
      in s3\<lparr>done_ch := (done_ch s3)(sr_id request := done_ch s3 (sr_id request) @ [err]),
            pump_at := PumpIdle\<rparr>)"

definition Close :: "Scheduler \<Rightarrow> Scheduler" where
  "Close s =
     (if terminal s = None
      then signalLocked (failQueuedLocked ErrSchedulerClosed
             (failAdmissionWaitersLocked ErrSchedulerClosed (s\<lparr>terminal := Some ErrSchedulerClosed\<rparr>)))
      else s)"

section \<open>Send\<close>

text \<open>
  \<^verbatim>\<open>Send\<close> up to the point where it returns or blocks: it has returned an error, it holds a queued
  request and waits on \<^verbatim>\<open>request.done\<close>, or it holds a waiter and waits on \<^verbatim>\<open>waiter.ready\<close>.
  \<open>ctx_err\<close> is \<^verbatim>\<open>ctx.Err()\<close> at the call (a nil context is \<^verbatim>\<open>context.Background()\<close>, whose error is nil).
\<close>

datatype send_state = SendReturned "goerr option" | SendQueued sendRequest | SendBlocked admissionWaiter

definition Send :: "goerr option \<Rightarrow> TrafficClass \<Rightarrow> Kind \<Rightarrow> bytes \<Rightarrow> Scheduler \<Rightarrow> send_state \<times> Scheduler" where
  "Send ctx_err c kind payload s =
     (let (capBytes, valid) = classCap c in
      if \<not> valid then (SendReturned (Some (Errorf ''unknown traffic class: %d'' [uint c])), s)
      else if int (length payload) > capBytes
      then (SendReturned (Some (ErrWrap ''%w: class %d payload is %d bytes, cap is %d''
             [uint c, int (length payload), capBytes] ErrRequestTooLarge)), s)
      else if kind \<noteq> KindText \<and> kind \<noteq> KindBinary
      then (SendReturned (Some (Errorf ''unknown kind: %d'' [uint kind])), s)
      else if payload = [] then (SendReturned (Some ErrEmptyPayload), s)
      else if ctx_err \<noteq> None then (SendReturned ctx_err, s)
      else if terminal s \<noteq> None then (SendReturned (terminal s), s)
      else if admissionWaiters s c = [] \<and> queued_bytes s c + int (length payload) \<le> capBytes
      then (let (request, s1) = enqueueLocked c kind payload s in (SendQueued request, s1))
      else
        let waiter = \<lparr>aw_id = nextId s, aw_class = c, aw_kind = kind, aw_payload = payload\<rparr>
        in (SendBlocked waiter,
            s\<lparr>nextId := Suc (nextId s), allWaiters := (allWaiters s)(nextId s \<mapsto> waiter),
              admissionWaiters := (admissionWaiters s)(c := admissionWaiters s c @ [waiter])\<rparr>))"

text \<open>The two \<^verbatim>\<open>ctx.Done()\<close> branches; the flag says whether \<^verbatim>\<open>Send\<close> returns the context's error.\<close>

definition Send_cancel_waiter :: "admissionWaiter \<Rightarrow> Scheduler \<Rightarrow> bool \<times> Scheduler" where
  "Send_cancel_waiter waiter s =
     (let (removed, s1) = removeAdmissionWaiterLocked waiter s
      in (removed, if removed then admitWaitersLocked (aw_class waiter) s1 else s1))"

definition Send_cancel_request :: "sendRequest \<Rightarrow> Scheduler \<Rightarrow> bool \<times> Scheduler" where
  "Send_cancel_request request s =
     (let (removed, s1) = removeQueuedLocked request s; c = sr_class request
      in (removed,
          if removed
          then admitWaitersLocked c (s1\<lparr>queued_bytes := (queued_bytes s1)(c := queued_bytes s1 c - rlen request)\<rparr>)
          else s1))"

section \<open>Interleavings\<close>

text \<open>
  One step of the scheduler with any number of senders: the critical sections in any order. A
  sender cancels only a waiter or a request it got from \<^verbatim>\<open>Send\<close>; the pump runs its sections in order.
\<close>

inductive sched_step :: "Scheduler \<Rightarrow> Scheduler \<Rightarrow> bool" where
  step_send: "Send ctx_err c kind payload s = (r, t) \<Longrightarrow> sched_step s t"
| step_cancel_waiter: "allWaiters s (aw_id w) = Some w \<Longrightarrow> Send_cancel_waiter w s = (b, t) \<Longrightarrow> sched_step s t"
| step_cancel_request: "requests s (sr_id r) = Some r \<Longrightarrow> Send_cancel_request r s = (b, t) \<Longrightarrow> sched_step s t"
| step_close: "sched_step s (Close s)"
| step_pump_lock: "pump_at s = PumpIdle \<Longrightarrow> pump_lock s = Some t \<Longrightarrow> sched_step s t"
| step_pump_wake: "sched_step s (pump_wake s)"
| step_pump_written: "pump_at s = PumpWriting \<Longrightarrow> active s = Some r \<Longrightarrow> sched_step s (pump_written err r s)"

definition sched_reachable :: "Scheduler \<Rightarrow> bool" where
  "sched_reachable s \<longleftrightarrow> sched_step\<^sup>*\<^sup>* NewScheduler s"

end
