(* ===== verification/Scheduler_Invariant.thy ===== *)
theory Scheduler_Invariant
  imports Scheduler_Model
begin

text \<open>
  The invariant of the scheduler and that every critical section keeps it: byte accounting and
  capacity, first-in first-out admission without stalls, at most one answer per request, and a
  pump that never sleeps while work is queued. The clauses are stated per traffic class, so that
  an operation on one class leaves the clauses of the others alone.
\<close>

definition qbytes :: "sendRequest list \<Rightarrow> int" where
  "qbytes q = sum_list (map rlen q)"

lemma qbytes_simps [simp]:
  "qbytes [] = 0" "qbytes (r # q) = rlen r + qbytes q" "qbytes (p @ q) = qbytes p + qbytes q"
  by (simp_all add: qbytes_def)

lemma qbytes_nonneg [simp]: "0 \<le> qbytes q"
  by (induction q) auto

text \<open>The requests of a class that the scheduler still has to answer: queued or being written.\<close>

definition writing :: "sendRequest option \<Rightarrow> TrafficClass \<Rightarrow> sendRequest list" where
  "writing a c = (case a of Some r \<Rightarrow> if sr_class r = c then [r] else [] | None \<Rightarrow> [])"

lemma writing_simps [simp]: "writing None c = []" "writing (Some r) c = (if sr_class r = c then [r] else [])"
  by (simp_all add: writing_def)

definition pending :: "Scheduler \<Rightarrow> TrafficClass \<Rightarrow> sendRequest list" where
  "pending s c = queues s c @ writing (active s) c"

definition request_ok :: "Scheduler \<Rightarrow> TrafficClass \<Rightarrow> sendRequest \<Rightarrow> bool" where
  "request_ok s c r \<longleftrightarrow>
     sr_class r = c \<and> sr_payload r \<noteq> [] \<and> requests s (sr_id r) = Some r \<and> done_ch s (sr_id r) = []"

definition waiter_ok :: "Scheduler \<Rightarrow> TrafficClass \<Rightarrow> admissionWaiter \<Rightarrow> bool" where
  "waiter_ok s c w \<longleftrightarrow>
     aw_class w = c \<and> aw_payload w \<noteq> [] \<and> wlen w \<le> fst (classCap c)
   \<and> allWaiters s (aw_id w) = Some w \<and> ready_ch s (aw_id w) = []"

definition queue_ok :: "Scheduler \<Rightarrow> TrafficClass \<Rightarrow> bool" where
  "queue_ok s c \<longleftrightarrow>
     (\<forall>r\<in>set (pending s c). request_ok s c r)
   \<and> distinct (map sr_id (pending s c))
   \<and> queued_bytes s c = qbytes (pending s c)
   \<and> queued_bytes s c \<le> fst (classCap c)"

definition waiters_ok :: "Scheduler \<Rightarrow> TrafficClass \<Rightarrow> bool" where
  "waiters_ok s c \<longleftrightarrow>
     (\<forall>w\<in>set (admissionWaiters s c). waiter_ok s c w)
   \<and> distinct (map aw_id (admissionWaiters s c))"

definition head_blocked :: "Scheduler \<Rightarrow> TrafficClass \<Rightarrow> bool" where
  "head_blocked s c \<longleftrightarrow>
     (admissionWaiters s c \<noteq> [] \<longrightarrow> fst (classCap c) < queued_bytes s c + wlen (hd (admissionWaiters s c)))"

definition heap_ok :: "Scheduler \<Rightarrow> bool" where
  "heap_ok s \<longleftrightarrow>
     (\<forall>i\<ge>nextId s. requests s i = None \<and> allWaiters s i = None \<and> done_ch s i = [] \<and> ready_ch s i = [])
   \<and> (\<forall>i. length (done_ch s i) \<le> 1 \<and> length (ready_ch s i) \<le> 1)"

definition idle :: "Scheduler \<Rightarrow> bool" where
  "idle s \<longleftrightarrow> (\<forall>c. queues s c = [] \<and> admissionWaiters s c = [])"

definition terminal_ok :: "Scheduler \<Rightarrow> bool" where
  "terminal_ok s \<longleftrightarrow> (terminal s \<noteq> None \<longrightarrow> idle s)"

definition pump_ok :: "Scheduler \<Rightarrow> bool" where
  "pump_ok s \<longleftrightarrow>
     (pump_at s = PumpWriting \<longleftrightarrow> active s \<noteq> None)
   \<and> (\<forall>g. pump_at s = PumpWaiting g \<longrightarrow>
        g \<le> notify s \<and> (g = notify s \<longrightarrow> terminal s = None \<and> (\<forall>c. queues s c = [])))"

text \<open>\<open>stock_ok\<close> is the part that also holds in the middle of a critical section.\<close>

definition stock_ok :: "Scheduler \<Rightarrow> bool" where
  "stock_ok s \<longleftrightarrow> (\<forall>c. queue_ok s c \<and> waiters_ok s c) \<and> heap_ok s"

definition sched_inv :: "Scheduler \<Rightarrow> bool" where
  "sched_inv s \<longleftrightarrow> stock_ok s \<and> (\<forall>c. head_blocked s c) \<and> terminal_ok s \<and> pump_ok s"

lemmas sched_inv_defs =
  queue_ok_def waiters_ok_def head_blocked_def heap_ok_def terminal_ok_def pump_ok_def idle_def pending_def

lemma sched_inv_New: "sched_inv NewScheduler"
  by (auto simp: sched_inv_def stock_ok_def sched_inv_defs NewScheduler_def classCap_def sched_numbers)

text \<open>A class with no capacity, that is an unknown one, has nothing queued and nobody waiting.\<close>

lemma cap_nonneg: "0 \<le> fst (classCap c)"
  by (simp add: classCap_def sched_numbers)

lemma classCap_valid_iff: "snd (classCap c) \<longleftrightarrow> c \<in> set allClasses"
  by (auto simp: classCap_def allClasses_def)

lemma unknown_class_empty:
  assumes "queue_ok s c" "waiters_ok s c" "c \<notin> set allClasses"
  shows "queues s c = []" "admissionWaiters s c = []"
proof -
  have cap: "fst (classCap c) = 0"
    using assms(3) by (auto simp: classCap_def allClasses_def)
  show "admissionWaiters s c = []"
    using assms(2) cap by (cases "admissionWaiters s c") (auto simp: waiters_ok_def waiter_ok_def)
  show "queues s c = []"
  proof (cases "queues s c")
    case (Cons r q)
    then have "r \<in> set (pending s c)" by (simp add: pending_def)
    then have "0 < rlen r" using assms(1) by (auto simp: queue_ok_def request_ok_def)
    moreover have "rlen r \<le> queued_bytes s c"
      using assms(1) Cons by (simp add: queue_ok_def pending_def)
    moreover have "queued_bytes s c \<le> 0"
      using assms(1) cap by (simp add: queue_ok_def)
    ultimately show ?thesis by linarith
  qed simp
qed

section \<open>Scheduling moves only the head of a queue\<close>

text \<open>Everything but the queues and the round-robin fields.\<close>

definition same_core :: "Scheduler \<Rightarrow> Scheduler \<Rightarrow> bool" where
  "same_core s t \<longleftrightarrow>
     queued_bytes s = queued_bytes t \<and> admissionWaiters s = admissionWaiters t \<and> notify s = notify t
   \<and> terminal s = terminal t \<and> active s = active t \<and> pump_at s = pump_at t \<and> nextId s = nextId t
   \<and> requests s = requests t \<and> allWaiters s = allWaiters t \<and> waiterRequest s = waiterRequest t
   \<and> done_ch s = done_ch t \<and> ready_ch s = ready_ch t"

lemma same_core_refl [simp]: "same_core s s"
  by (simp add: same_core_def)

lemma same_core_trans: "same_core s t \<Longrightarrow> same_core t u \<Longrightarrow> same_core s u"
  by (simp add: same_core_def)

lemma reset_core [simp]:
  "same_core (resetEmptyLaneLocked c s) s" "queues (resetEmptyLaneLocked c s) = queues s"
  "controlBurst (resetEmptyLaneLocked c s) = controlBurst s"
  by (auto simp: resetEmptyLaneLocked_def Let_def same_core_def)

lemma pop_core:
  assumes "popLocked c s = Some (r, t)"
  shows "queues s c = r # queues t c" "queues t = (queues s)(c := queues t c)" "same_core t s"
    "controlBurst t = controlBurst s"
  using assms reset_core(1) [of c "s\<lparr>queues := (queues s)(c := [])\<rparr>"]
  by (auto simp: popLocked_def Let_def same_core_def split: list.splits if_splits)

lemma pop_Some: "queues s c = r # q \<Longrightarrow> \<exists>t. popLocked c s = Some (r, t)"
  by (auto simp: popLocked_def Let_def)

definition class_ok :: "Scheduler \<Rightarrow> bool" where
  "class_ok s \<longleftrightarrow> (\<forall>c. \<forall>r\<in>set (queues s c). sr_class r = c)"

text \<open>\<open>took c r s t\<close>: the request \<open>r\<close> was taken from the head of the queue of class \<open>c\<close>.\<close>

definition took :: "TrafficClass \<Rightarrow> sendRequest \<Rightarrow> Scheduler \<Rightarrow> Scheduler \<Rightarrow> bool" where
  "took c r s t \<longleftrightarrow> queues s c = r # queues t c \<and> queues t = (queues s)(c := queues t c) \<and> same_core t s"

lemma took_pop:
  assumes "queues u c = r # q" "queues u = queues s" "same_core u s"
  shows "\<exists>t. popLocked c u = Some (r, t) \<and> took c r s t"
proof -
  obtain t where t: "popLocked c u = Some (r, t)" using pop_Some [OF assms(1)] by blast
  then show ?thesis
    using pop_core [OF t] assms by (auto simp: took_def intro: same_core_trans)
qed

lemma advanceOuter_core [simp]:
  "queues (advanceOuterLocked s) = queues s" "same_core (advanceOuterLocked s) s"
  "hasMediaLocked (advanceOuterLocked s) = hasMediaLocked s"
  by (auto simp: advanceOuterLocked_def addOuterRoundLocked_def same_core_def hasMediaLocked_def Let_def)

lemma took_cong: "queues u = queues s \<Longrightarrow> same_core u s \<Longrightarrow> took c r u t \<Longrightarrow> took c r s t"
  by (auto simp: took_def intro: same_core_trans)

lemma restoreInner_core:
  assumes "restoreInner s s1 = s"
  shows "queues s1 = queues s" "same_core s1 s"
proof -
  have "queues (restoreInner s s1) = queues s1" "same_core s1 (restoreInner s s1)"
    by (auto simp: restoreInner_def same_core_def)
  then show "queues s1 = queues s" "same_core s1 s" using assms by auto
qed

lemma nextDataLoop_takes:
  assumes "class_ok s" "dataWaiting s"
  shows "\<exists>c r t. nextDataLoop s = Some (Some r, t) \<and> c \<in> {ClassInteractiveMedia, ClassThumbnail, ClassBulk}
           \<and> took c r s t"
  using assms
proof (induction s rule: nextDataLoop.induct)
  case (1 s)
  have go: "\<exists>c r t. nextDataLoop s = Some (Some r, t) \<and> c \<in> {ClassInteractiveMedia, ClassThumbnail, ClassBulk}
        \<and> took c r s t"
    if "nextDataLoop s = nextDataLoop u" "queues u = queues s" "same_core u s"
      "class_ok u \<Longrightarrow> dataWaiting u \<Longrightarrow> \<exists>c r t. nextDataLoop u = Some (Some r, t) \<and>
          c \<in> {ClassInteractiveMedia, ClassThumbnail, ClassBulk} \<and> took c r u t" for u
    using that "1.prems" took_cong [OF that(2,3)]
    by (simp add: class_ok_def dataWaiting_def hasMediaLocked_def) metis
  have some: "hasMediaLocked s \<or> queues s ClassBulk \<noteq> []"
    using "1.prems"(2) by (simp add: dataWaiting_def)
  show ?case
  proof (cases "outerCurrent s = 0")
    case cur: True
    show ?thesis
    proof (cases "hasMediaLocked s")
      case False
      show ?thesis
        by (rule go [OF _ _ _ "1.IH"(1) [OF some cur False]])
          (use False cur some in \<open>simp_all add: nextDataLoop.simps [of s] same_core_def advanceOuterLocked_def
              addOuterRoundLocked_def Let_def\<close>)
    next
      case True
      obtain r c q s1 where pk: "peekMediaLocked s = (Some r, s1)"
        and c: "c \<in> {ClassInteractiveMedia, ClassThumbnail}" and q: "queues s c = r # q"
        using peekMedia_head [OF True] by blast
      have fr: "restoreInner s s1 = s" using peekMedia_frame [OF pk] .
      have cl: "sr_class r = c" using "1.prems"(1) q by (auto simp: class_ok_def)
      show ?thesis
      proof (cases "rlen r \<le> outerDeficit s1 0")
        case fits: True
        let ?u = "s1\<lparr>outerDeficit := (outerDeficit s1)(0 := outerDeficit s1 0 - rlen r)\<rparr>"
        have "\<exists>t. popLocked c ?u = Some (r, t) \<and> took c r s t"
          by (rule took_pop) (use restoreInner_core [OF fr] q in \<open>auto simp: same_core_def\<close>)
        then show ?thesis
          using cur True fits pk cl c by (auto simp: nextDataLoop.simps [of s])
      next
        case unfit: False
        show ?thesis
          by (rule go [OF _ _ _ "1.IH"(2) [OF some cur _ pk [symmetric] refl unfit]])
            (use True cur pk unfit fr in \<open>simp_all add: nextDataLoop.simps [of s]\<close>)
      qed
    qed
  next
    case cur: False
    show ?thesis
    proof (cases "queues s ClassBulk")
      case Nil
      show ?thesis
        by (rule go [OF _ _ _ "1.IH"(3) [OF some cur Nil]])
          (use Nil cur some in \<open>simp_all add: nextDataLoop.simps [of s] same_core_def advanceOuterLocked_def
              addOuterRoundLocked_def Let_def\<close>)
    next
      case (Cons r q)
      show ?thesis
      proof (cases "rlen r \<le> outerDeficit s 1")
        case fits: True
        let ?u = "s\<lparr>outerDeficit := (outerDeficit s)(1 := outerDeficit s 1 - rlen r)\<rparr>"
        have "\<exists>t. popLocked ClassBulk ?u = Some (r, t) \<and> took ClassBulk r s t"
          by (rule took_pop) (use Cons in \<open>auto simp: same_core_def\<close>)
        then show ?thesis
          using cur Cons fits by (auto simp: nextDataLoop.simps [of s])
      next
        case unfit: False
        show ?thesis
          by (rule go [OF _ _ _ "1.IH"(4) [OF some cur Cons unfit]])
            (use Cons cur unfit in \<open>simp_all add: nextDataLoop.simps [of s]\<close>)
      qed
    qed
  qed
qed

lemma nextData_takes:
  assumes "class_ok s" "dataWaiting s"
  shows "\<exists>c r t. nextDataLocked s = Some (Some r, t) \<and> c \<in> {ClassInteractiveMedia, ClassThumbnail, ClassBulk}
           \<and> took c r s t"
proof -
  let ?u = "if outerStarted s then s else (addOuterRoundLocked s)\<lparr>outerStarted := True\<rparr>"
  have u: "queues ?u = queues s" "same_core ?u s"
    by (auto simp: addOuterRoundLocked_def same_core_def)
  then have "class_ok ?u" "dataWaiting ?u"
    using assms by (simp_all only: class_ok_def dataWaiting_def hasMediaLocked_def)
  from nextDataLoop_takes [OF this] obtain c r t where
    "nextDataLoop ?u = Some (Some r, t)" "c \<in> {ClassInteractiveMedia, ClassThumbnail, ClassBulk}" "took c r ?u t"
    by blast
  then show ?thesis
    unfolding nextDataLocked_def using took_cong [OF u] by blast
qed

lemma popControl_takes:
  assumes "queues s ClassControl \<noteq> []"
  shows "\<exists>r t. popControl s = Some (Some r, t) \<and> took ClassControl r s t \<and> controlBurst t = controlBurst s + 1"
proof -
  let ?u = "s\<lparr>controlBurst := controlBurst s + 1\<rparr>"
  obtain r q where q: "queues ?u ClassControl = r # q" using assms by (cases "queues s ClassControl") auto
  have "\<exists>t. popLocked ClassControl ?u = Some (r, t) \<and> took ClassControl r s t"
    by (rule took_pop [OF q]) (auto simp: same_core_def)
  then obtain t where t: "popLocked ClassControl ?u = Some (r, t)" "took ClassControl r s t" by blast
  then show ?thesis using pop_core(4) [OF t(1)] by (auto simp: popControl_def)
qed

lemma took_burst: "took c r s t \<Longrightarrow> took c r s (t\<lparr>controlBurst := b\<rparr>)"
  by (simp add: took_def same_core_def)

text \<open>
  What \<^verbatim>\<open>nextLocked\<close> does, in one lemma: it never panics; with nothing queued it returns nil and
  changes nothing; otherwise it takes the head of one queue, a control request or, with data
  waiting and the burst used up, a data request.
\<close>

lemma nextLocked_cases:
  assumes "class_ok s"
  obtains (none_queued) "\<forall>c\<in>set allClasses. queues s c = []" "nextLocked s = Some (None, s)"
  | (control) r t where "nextLocked s = Some (Some r, t)" "took ClassControl r s t"
      "controlBurst s < ControlBurstLimit \<or> \<not> dataWaiting s" "controlBurst t = controlBurst s + 1"
      "popControl s = Some (Some r, t)"
  | (data) c r t where "nextLocked s = Some (Some r, t)" "took c r s t"
      "c \<in> {ClassInteractiveMedia, ClassThumbnail, ClassBulk}" "dataWaiting s" "controlBurst t = 0"
      "\<exists>u. nextDataLocked s = Some (Some r, u) \<and> t = u\<lparr>controlBurst := 0\<rparr>"
proof (cases "queues s ClassControl \<noteq> [] \<and> (controlBurst s < ControlBurstLimit \<or> \<not> dataWaiting s)")
  case True
  then obtain r t where "popControl s = Some (Some r, t)" "took ClassControl r s t"
    "controlBurst t = controlBurst s + 1"
    using popControl_takes [of s] by blast
  with True show thesis by (intro control [of r t]) (auto simp: nextLocked_def)
next
  case no_control: False
  show thesis
  proof (cases "dataWaiting s")
    case True
    then obtain c r t where "nextDataLocked s = Some (Some r, t)" "took c r s t"
      "c \<in> {ClassInteractiveMedia, ClassThumbnail, ClassBulk}"
      using nextData_takes [OF assms] by blast
    with True no_control show thesis
      by (intro data [of r "t\<lparr>controlBurst := 0\<rparr>" c]) (auto simp: nextLocked_def took_burst)
  next
    case False
    have "\<forall>c\<in>set allClasses. queues s c = []"
      using False no_control by (simp add: dataWaiting_def hasMediaLocked_def allClasses_def)
    moreover have "nextLocked s = Some (None, s)"
      using False no_control by (simp add: nextLocked_def)
    ultimately show thesis by (rule none_queued)
  qed
qed

section \<open>The critical sections keep the stock in order\<close>

lemma stock_class_ok: "stock_ok s \<Longrightarrow> class_ok s"
  by (auto simp: stock_ok_def queue_ok_def request_ok_def class_ok_def pending_def)

text \<open>
  Whether a request or a waiter is in order depends on the heap and on its own channel only, so
  these two rules carry the clauses from one state to the next.
\<close>

lemma request_ok_cong:
  assumes "requests t (sr_id r) = requests s (sr_id r)" "done_ch t (sr_id r) = done_ch s (sr_id r)"
  shows "request_ok t c r = request_ok s c r"
  using assms by (simp add: request_ok_def)

lemma waiter_ok_cong:
  assumes "allWaiters t (aw_id w) = allWaiters s (aw_id w)" "ready_ch t (aw_id w) = ready_ch s (aw_id w)"
  shows "waiter_ok t c w = waiter_ok s c w"
  using assms by (simp add: waiter_ok_def)

lemma queue_ok_cong:
  assumes "pending t c = pending s c" "queued_bytes t c = queued_bytes s c"
    "\<And>r. r \<in> set (pending s c) \<Longrightarrow> requests t (sr_id r) = requests s (sr_id r) \<and> done_ch t (sr_id r) = done_ch s (sr_id r)"
  shows "queue_ok t c = queue_ok s c"
  using assms request_ok_cong [of t _ s c] by (simp add: queue_ok_def)

lemma waiters_ok_cong:
  assumes "admissionWaiters t c = admissionWaiters s c"
    "\<And>w. w \<in> set (admissionWaiters s c) \<Longrightarrow> allWaiters t (aw_id w) = allWaiters s (aw_id w) \<and> ready_ch t (aw_id w) = ready_ch s (aw_id w)"
  shows "waiters_ok t c = waiters_ok s c"
  using assms waiter_ok_cong [of t _ s c] by (simp add: waiters_ok_def)

lemma stock_request:
  assumes "stock_ok s" "r \<in> set (pending s c)"
  shows "request_ok s c r" "sr_id r < nextId s"
proof -
  show ok: "request_ok s c r" using assms by (auto simp: stock_ok_def queue_ok_def)
  show "sr_id r < nextId s"
    using assms(1) ok by (metis heap_ok_def linorder_not_less option.distinct(1) request_ok_def stock_ok_def)
qed

lemma stock_waiter:
  assumes "stock_ok s" "w \<in> set (admissionWaiters s c)"
  shows "waiter_ok s c w" "aw_id w < nextId s"
proof -
  show ok: "waiter_ok s c w" using assms by (auto simp: stock_ok_def waiters_ok_def)
  show "aw_id w < nextId s"
    using assms(1) ok by (metis heap_ok_def linorder_not_less option.distinct(1) waiter_ok_def stock_ok_def)
qed

lemma request_ok_unique: "request_ok s c r \<Longrightarrow> request_ok s c' r' \<Longrightarrow> sr_id r = sr_id r' \<Longrightarrow> r = r' \<and> c = c'"
  by (simp add: request_ok_def)

lemma waiter_ok_unique: "waiter_ok s c w \<Longrightarrow> waiter_ok s c' w' \<Longrightarrow> aw_id w = aw_id w' \<Longrightarrow> w = w' \<and> c = c'"
  by (simp add: waiter_ok_def)

lemma stock_empty:
  assumes "stock_ok s" "\<forall>c\<in>set allClasses. queues s c = []"
  shows "queues s c = []"
  using assms unknown_class_empty [of s c] by (auto simp: stock_ok_def)

lemma stock_cong:
  assumes "same_core t s" "queues t = queues s"
  shows "stock_ok t = stock_ok s"
  using assms queue_ok_cong [of t _ s] waiters_ok_cong [of t _ s]
  by (simp add: stock_ok_def same_core_def pending_def heap_ok_def)

lemma stock_ignores [simp]:
  "stock_ok (s\<lparr>pump_at := p\<rparr>) = stock_ok s" "stock_ok (s\<lparr>terminal := e\<rparr>) = stock_ok s"
  "stock_ok (s\<lparr>notify := n\<rparr>) = stock_ok s"
  using queue_ok_cong [of "s\<lparr>pump_at := p\<rparr>" _ s] waiters_ok_cong [of "s\<lparr>pump_at := p\<rparr>" _ s]
    queue_ok_cong [of "s\<lparr>terminal := e\<rparr>" _ s] waiters_ok_cong [of "s\<lparr>terminal := e\<rparr>" _ s]
    queue_ok_cong [of "s\<lparr>notify := n\<rparr>" _ s] waiters_ok_cong [of "s\<lparr>notify := n\<rparr>" _ s]
  by (simp_all add: stock_ok_def pending_def heap_ok_def)

lemma took_stock:
  assumes "took c r s t" "stock_ok s" "active s = None"
  shows "stock_ok (t\<lparr>active := Some r\<rparr>)"
proof -
  let ?t = "t\<lparr>active := Some r\<rparr>"
  have q: "queues s c = r # queues t c" and qs: "\<And>c'. c' \<noteq> c \<Longrightarrow> queues t c' = queues s c'"
    and sc: "same_core t s"
    using assms(1) by (auto simp: took_def) (metis fun_upd_other)
  have ok: "queue_ok s c'" for c' using assms(2) by (simp add: stock_ok_def)
  have rc: "sr_class r = c"
    using stock_class_ok [OF assms(2)] q by (auto simp: class_ok_def)
  have cg: "request_ok ?t c' x = request_ok s c' x" for c' x
    by (rule request_ok_cong) (use sc in \<open>simp_all add: same_core_def\<close>)
  have "queue_ok ?t c'" for c'
    using ok [of c'] q qs [of c'] sc rc assms(3) cg
    by (cases "c' = c") (auto simp: queue_ok_def pending_def same_core_def)
  moreover have "waiters_ok ?t c' = waiters_ok s c'" for c'
    by (rule waiters_ok_cong) (use sc in \<open>simp_all add: same_core_def\<close>)
  ultimately show ?thesis
    using assms(2) sc by (simp add: stock_ok_def heap_ok_def same_core_def)
qed

lemma enqueue_fields:
  assumes "enqueueLocked c k p s = (r, t)"
  shows "r = \<lparr>sr_id = nextId s, sr_class = c, sr_kind = k, sr_payload = p\<rparr>"
    "t = s\<lparr>nextId := Suc (nextId s), requests := (requests s)(nextId s \<mapsto> r),
          queued_bytes := (queued_bytes s)(c := queued_bytes s c + int (length p)),
          queues := (queues s)(c := queues s c @ [r]), notify := Suc (notify s)\<rparr>"
  using assms by (auto simp: enqueueLocked_def signalLocked_def Let_def)

lemma enqueue_stock:
  assumes "stock_ok s" "p \<noteq> []" "queued_bytes s c + int (length p) \<le> fst (classCap c)"
    "enqueueLocked c k p s = (r, t)"
  shows "stock_ok t"
proof -
  note t = enqueue_fields [OF assms(4)]
  have hp: "done_ch s (nextId s) = []"
    using assms(1) by (simp add: stock_ok_def heap_ok_def)
  have ok: "queue_ok s c'" for c' using assms(1) by (simp add: stock_ok_def)
  have fresh: "x \<in> set (pending s c') \<Longrightarrow> sr_id x \<noteq> nextId s" for x c'
    using stock_request(2) [OF assms(1)] by (metis less_irrefl)
  have cg: "x \<in> set (pending s c') \<Longrightarrow> request_ok t c' x" for c' x
    using stock_request(1) [OF assms(1)] fresh request_ok_cong [of t x s c'] t(2) by simp
  have new: "request_ok t c r" using hp assms(2) by (simp add: request_ok_def t)
  have "queue_ok t c'" for c'
  proof (cases "c' = c")
    case True
    have "set (pending t c) = insert r (set (pending s c))" "nextId s \<notin> sr_id ` set (pending s c)"
      using fresh by (auto simp: pending_def t) (metis imageI)+
    then show ?thesis
      using ok [of c] True cg [of _ c] new assms(3)
      by (auto simp: queue_ok_def pending_def t)
  next
    case False
    then have "pending t c' = pending s c'" by (simp add: pending_def t)
    then show ?thesis
      using ok [of c'] False cg [of _ c'] by (simp add: queue_ok_def t)
  qed
  moreover have "waiters_ok t c' = waiters_ok s c'" for c'
    by (rule waiters_ok_cong) (simp_all add: t)
  moreover have "heap_ok t"
    using assms(1) by (auto simp: stock_ok_def heap_ok_def t)
  ultimately show ?thesis using assms(1) by (simp add: stock_ok_def)
qed

text \<open>Telling a waiter that its request was enqueued takes it off the waiting list.\<close>

lemma ready_stock:
  assumes "stock_ok s" "admissionWaiters s c = w # ws"
  shows "stock_ok (s\<lparr>waiterRequest := m, ready_ch := (ready_ch s)(aw_id w := ready_ch s (aw_id w) @ [e]),
                     admissionWaiters := (admissionWaiters s)(c := ws)\<rparr>)" (is "stock_ok ?t")
proof -
  have wok: "waiters_ok s c'" and hok: "heap_ok s" for c'
    using assms(1) by (auto simp: stock_ok_def)
  have wx: "waiter_ok s c w" "aw_id w < nextId s"
    using stock_waiter [OF assms(1), of w c] assms(2) by auto
  have other: "aw_id v \<noteq> aw_id w" if "v \<in> set (admissionWaiters ?t c')" for v c'
  proof (cases "c' = c")
    case True
    then show ?thesis using that wok [of c] assms(2) by (auto simp: waiters_ok_def) (metis imageI)
  next
    case False
    then show ?thesis
      using that stock_waiter(1) [OF assms(1), of v c'] waiter_ok_unique [OF wx(1)] by fastforce
  qed
  have sub: "v \<in> set (admissionWaiters ?t c') \<Longrightarrow> v \<in> set (admissionWaiters s c')" for v c'
    using assms(2) by (auto split: if_splits)
  have "waiter_ok ?t c' v" if "v \<in> set (admissionWaiters ?t c')" for v c'
    using stock_waiter(1) [OF assms(1) sub [OF that]] other [OF that] waiter_ok_cong [of ?t v s c'] by simp
  moreover have "distinct (map aw_id (admissionWaiters ?t c'))" for c'
    using wok [of c'] assms(2) by (auto simp: waiters_ok_def)
  moreover have "heap_ok ?t"
    using hok wx by (auto simp: heap_ok_def waiter_ok_def)
  moreover have "queue_ok ?t c' = queue_ok s c'" for c'
    by (rule queue_ok_cong) (simp_all add: pending_def)
  ultimately show ?thesis
    using assms(1) by (simp add: stock_ok_def waiters_ok_def)
qed

text \<open>\<open>others_same c s t\<close>: the admission state of every class but \<open>c\<close> is untouched.\<close>

definition others_same :: "TrafficClass \<Rightarrow> Scheduler \<Rightarrow> Scheduler \<Rightarrow> bool" where
  "others_same c s t \<longleftrightarrow>
     (\<forall>c'. c' \<noteq> c \<longrightarrow> queues t c' = queues s c' \<and> queued_bytes t c' = queued_bytes s c'
        \<and> admissionWaiters t c' = admissionWaiters s c')
   \<and> terminal t = terminal s \<and> active t = active s \<and> pump_at t = pump_at s \<and> notify s \<le> notify t
   \<and> (notify t = notify s \<longrightarrow> (\<forall>c'. queues s c' = [] \<longrightarrow> queues t c' = []))"

lemma others_same_refl [simp]: "others_same c s s"
  by (simp add: others_same_def)

lemma others_same_trans: "others_same c s t \<Longrightarrow> others_same c t u \<Longrightarrow> others_same c s u"
  unfolding others_same_def by (metis le_antisym le_trans)

lemma head_blocked_others:
  "others_same c s t \<Longrightarrow> c' \<noteq> c \<Longrightarrow> head_blocked t c' = head_blocked s c'"
  by (simp add: others_same_def head_blocked_def)

lemma admitLoop_stock:
  assumes "admitLoop (fst (classCap c)) c ws s = (ws', t)"
    "stock_ok (s\<lparr>admissionWaiters := (admissionWaiters s)(c := ws)\<rparr>)"
  shows "stock_ok (t\<lparr>admissionWaiters := (admissionWaiters t)(c := ws')\<rparr>)
       \<and> head_blocked (t\<lparr>admissionWaiters := (admissionWaiters t)(c := ws')\<rparr>) c
       \<and> others_same c s (t\<lparr>admissionWaiters := (admissionWaiters t)(c := ws')\<rparr>)"
  using assms
proof (induction ws arbitrary: s)
  case Nil
  then show ?case by (auto simp: head_blocked_def others_same_def)
next
  case (Cons w ws)
  show ?case
  proof (cases "queued_bytes s c + wlen w \<le> fst (classCap c)")
    case False
    with Cons.prems show ?thesis by (auto simp: head_blocked_def others_same_def)
  next
    case True
    let ?s = "s\<lparr>admissionWaiters := (admissionWaiters s)(c := w # ws)\<rparr>"
    obtain r s1 where e: "enqueueLocked (aw_class w) (aw_kind w) (aw_payload w) s = (r, s1)" by force
    have wc: "aw_class w = c" "aw_payload w \<noteq> []"
      using stock_waiter(1) [OF Cons.prems(2), of w c] by (simp_all add: waiter_ok_def)
    note s1 = enqueue_fields [OF e]
    let ?s1 = "s1\<lparr>admissionWaiters := (admissionWaiters s)(c := w # ws)\<rparr>"
    have e': "enqueueLocked (aw_class w) (aw_kind w) (aw_payload w) ?s = (r, ?s1)"
      using e by (auto simp: enqueueLocked_def signalLocked_def Let_def)
    have st1: "stock_ok ?s1"
      by (rule enqueue_stock [OF Cons.prems(2) wc(2) _ e']) (use True wc in auto)
    let ?s2 = "s1\<lparr>waiterRequest := (waiterRequest s1)(aw_id w \<mapsto> r),
      ready_ch := (ready_ch s1)(aw_id w := ready_ch s1 (aw_id w) @ [None])\<rparr>"
    have aw1: "admissionWaiters s1 = admissionWaiters s" by (simp add: s1)
    have st2: "stock_ok (?s2\<lparr>admissionWaiters := (admissionWaiters ?s2)(c := ws)\<rparr>)"
      using ready_stock [OF st1, where c = c and w = w and ws = ws and e = None
          and m = "(waiterRequest s1)(aw_id w \<mapsto> r)"] aw1
      by simp
    have loop: "admitLoop (fst (classCap c)) c ws ?s2 = (ws', t)"
      using Cons.prems(1) True e by simp
    have o2: "others_same c s ?s2"
      using wc(1) by (simp add: others_same_def s1)
    from Cons.IH [OF loop st2] others_same_trans [OF o2] show ?thesis by blast
  qed
qed

lemma admit_stock:
  assumes "stock_ok s"
  shows "stock_ok (admitWaitersLocked c s)" "head_blocked (admitWaitersLocked c s) c"
    "others_same c s (admitWaitersLocked c s)"
proof -
  obtain ws t where l: "admitLoop (fst (classCap c)) c (admissionWaiters s c) s = (ws, t)" by force
  have "stock_ok (s\<lparr>admissionWaiters := (admissionWaiters s)(c := admissionWaiters s c)\<rparr>)"
    using assms by simp
  from admitLoop_stock [OF l this] l
  show "stock_ok (admitWaitersLocked c s)" "head_blocked (admitWaitersLocked c s) c"
    "others_same c s (admitWaitersLocked c s)"
    by (auto simp: admitWaitersLocked_def)
qed

text \<open>A step that works on one class of a scheduler that is still open keeps the invariant.\<close>

lemma sched_inv_others:
  assumes "sched_inv s" "terminal s = None" "stock_ok t" "head_blocked t c" "others_same c s t"
  shows "sched_inv t"
proof -
  have "head_blocked t c'" for c'
    using assms(1,4) head_blocked_others [OF assms(5), of c'] by (cases "c' = c") (auto simp: sched_inv_def)
  moreover have "pump_ok t"
    using assms(1,5) assms(2) unfolding sched_inv_def pump_ok_def others_same_def
    by (metis le_antisym le_trans)
  moreover have "terminal_ok t"
    using assms(2,5) by (simp add: terminal_ok_def others_same_def)
  ultimately show ?thesis using assms(3) by (simp add: sched_inv_def)
qed

subsection \<open>Send\<close>

lemma push_waiter_stock:
  assumes "stock_ok s" "w = \<lparr>aw_id = nextId s, aw_class = c, aw_kind = k, aw_payload = p\<rparr>"
    "p \<noteq> []" "int (length p) \<le> fst (classCap c)"
  shows "stock_ok (s\<lparr>nextId := Suc (nextId s), allWaiters := (allWaiters s)(nextId s \<mapsto> w),
                     admissionWaiters := (admissionWaiters s)(c := admissionWaiters s c @ [w])\<rparr>)"
    (is "stock_ok ?t")
proof -
  have fresh: "v \<in> set (admissionWaiters s c') \<Longrightarrow> aw_id v \<noteq> nextId s" for v c'
    using stock_waiter(2) [OF assms(1)] by (metis less_irrefl)
  have "ready_ch s (nextId s) = []" using assms(1) by (simp add: stock_ok_def heap_ok_def)
  then have new: "waiter_ok ?t c w" using assms by (simp add: waiter_ok_def)
  have old: "v \<in> set (admissionWaiters s c') \<Longrightarrow> waiter_ok ?t c' v" for v c'
    using stock_waiter(1) [OF assms(1)] fresh waiter_ok_cong [of ?t v s c'] by simp
  have "nextId s \<notin> aw_id ` set (admissionWaiters s c)" using fresh by (metis imageE)
  moreover have "distinct (map aw_id (admissionWaiters s c'))" for c'
    using assms(1) by (simp add: stock_ok_def waiters_ok_def)
  ultimately have "waiters_ok ?t c'" for c'
    using old [of _ c'] new assms(2) by (auto simp: waiters_ok_def)
  moreover have "queue_ok ?t c' = queue_ok s c'" for c'
    by (rule queue_ok_cong) (simp_all add: pending_def)
  moreover have "heap_ok ?t" using assms(1) by (auto simp: stock_ok_def heap_ok_def)
  ultimately show ?thesis using assms(1) by (simp add: stock_ok_def)
qed

definition send_accepts :: "goerr option \<Rightarrow> TrafficClass \<Rightarrow> Kind \<Rightarrow> bytes \<Rightarrow> Scheduler \<Rightarrow> bool" where
  "send_accepts ctx_err c kind payload s \<longleftrightarrow>
     c \<in> set allClasses \<and> int (length payload) \<le> fst (classCap c) \<and> (kind = KindText \<or> kind = KindBinary)
   \<and> payload \<noteq> [] \<and> ctx_err = None \<and> terminal s = None"

lemma Send_cases:
  assumes "Send ctx_err c kind payload s = (r, t)"
  obtains (error) e where "\<not> send_accepts ctx_err c kind payload s" "r = SendReturned (Some e)" "t = s"
  | (queue) q where "send_accepts ctx_err c kind payload s" "r = SendQueued q" "admissionWaiters s c = []"
      "queued_bytes s c + int (length payload) \<le> fst (classCap c)" "enqueueLocked c kind payload s = (q, t)"
  | (wait) w where "send_accepts ctx_err c kind payload s" "r = SendBlocked w"
      "admissionWaiters s c = [] \<longrightarrow> fst (classCap c) < queued_bytes s c + int (length payload)"
      "w = \<lparr>aw_id = nextId s, aw_class = c, aw_kind = kind, aw_payload = payload\<rparr>"
      "t = s\<lparr>nextId := Suc (nextId s), allWaiters := (allWaiters s)(nextId s \<mapsto> w),
            admissionWaiters := (admissionWaiters s)(c := admissionWaiters s c @ [w])\<rparr>"
proof (cases "send_accepts ctx_err c kind payload s")
  case False
  then have "\<exists>e. r = SendReturned (Some e) \<and> t = s"
    using assms unfolding send_accepts_def Send_def classCap_valid_iff [symmetric] case_prod_beta Let_def
    by (simp split: if_splits) auto
  then show thesis using error False by blast
next
  case acc: True
  then have S: "Send ctx_err c kind payload s =
      (if admissionWaiters s c = [] \<and> queued_bytes s c + int (length payload) \<le> fst (classCap c)
       then (let (request, s1) = enqueueLocked c kind payload s in (SendQueued request, s1))
       else
         let waiter = \<lparr>aw_id = nextId s, aw_class = c, aw_kind = kind, aw_payload = payload\<rparr>
         in (SendBlocked waiter,
             s\<lparr>nextId := Suc (nextId s), allWaiters := (allWaiters s)(nextId s \<mapsto> waiter),
               admissionWaiters := (admissionWaiters s)(c := admissionWaiters s c @ [waiter])\<rparr>))"
    unfolding send_accepts_def Send_def classCap_valid_iff [symmetric] by (auto simp: case_prod_beta Let_def)
  show thesis
  proof (cases "admissionWaiters s c = [] \<and> queued_bytes s c + int (length payload) \<le> fst (classCap c)")
    case True
    with S assms acc show thesis
      by (intro queue [of "fst (enqueueLocked c kind payload s)"]) (auto simp: case_prod_beta Let_def)
  next
    case False
    with S assms acc show thesis
      by (intro wait [of "\<lparr>aw_id = nextId s, aw_class = c, aw_kind = kind, aw_payload = payload\<rparr>"])
        (auto simp: Let_def)
  qed
qed

lemma Send_inv:
  assumes "sched_inv s" "Send ctx_err c kind payload s = (r, t)"
  shows "sched_inv t"
proof -
  have st: "stock_ok s" using assms(1) by (simp add: sched_inv_def)
  from assms(2) show ?thesis
  proof (cases rule: Send_cases)
    case error
    then show ?thesis using assms(1) by simp
  next
    case queue
    then have "terminal s = None" "payload \<noteq> []" by (simp_all add: send_accepts_def)
    note pre = this
    show ?thesis
      by (rule sched_inv_others [OF assms(1) pre(1) enqueue_stock [OF st pre(2) queue(4,5)]])
        (use enqueue_fields [OF queue(5)] queue(3) in \<open>simp_all add: head_blocked_def others_same_def\<close>)
  next
    case wait
    then have pre: "terminal s = None" "payload \<noteq> []" "int (length payload) \<le> fst (classCap c)"
      by (simp_all add: send_accepts_def)
    have hb: "head_blocked s c" using assms(1) by (simp add: sched_inv_def)
    show ?thesis
    proof (rule sched_inv_others [OF assms(1) pre(1), of _ c])
      show "stock_ok t" using push_waiter_stock [OF st wait(4) pre(2,3)] wait(5) by simp
      show "head_blocked t c"
        using hb wait(3,4,5) by (cases "admissionWaiters s c") (simp_all add: head_blocked_def)
      show "others_same c s t" using wait(5) by (simp add: others_same_def)
    qed
  qed
qed

subsection \<open>Cancellation\<close>

lemma remove_first_split:
  assumes "\<exists>x\<in>set xs. P x"
  shows "\<exists>ys x zs. xs = ys @ x # zs \<and> P x \<and> remove_first P xs = ys @ zs"
  using assms
proof (induction xs)
  case (Cons a xs)
  show ?case
  proof (cases "P a")
    case True
    then show ?thesis by (intro exI [of _ "[]"]) simp
  next
    case False
    with Cons obtain ys x zs where "xs = ys @ x # zs" "P x" "remove_first P xs = ys @ zs" by auto
    with False show ?thesis by (intro exI [of _ "a # ys"] exI [of _ x] exI [of _ zs]) simp
  qed
qed simp

lemma reset_stock [simp]:
  "stock_ok (resetEmptyLaneLocked c s) = stock_ok s"
  by (rule stock_cong) simp_all

lemma reset_others [simp]: "others_same c s (resetEmptyLaneLocked c' s)"
  using reset_core(1) [of c' s] by (simp add: others_same_def same_core_def)

lemma drop_waiter_stock:
  assumes "stock_ok s" "admissionWaiters s c = xs @ w # ys"
  shows "stock_ok (s\<lparr>admissionWaiters := (admissionWaiters s)(c := xs @ ys)\<rparr>)" (is "stock_ok ?t")
proof -
  have cg: "waiter_ok ?t c' v = waiter_ok s c' v" for c' v by (rule waiter_ok_cong) simp_all
  have wok: "waiters_ok s c'" for c' using assms(1) by (simp add: stock_ok_def)
  have "distinct (map aw_id (xs @ ys))"
    using wok [of c] assms(2) by (simp add: waiters_ok_def)
  then have "waiters_ok ?t c'" for c'
    using wok [of c'] cg assms(2) by (cases "c' = c") (simp_all add: waiters_ok_def)
  moreover have "queue_ok ?t c' = queue_ok s c'" for c'
    by (rule queue_ok_cong) (simp_all add: pending_def)
  ultimately show ?thesis using assms(1) by (simp add: stock_ok_def heap_ok_def)
qed

lemma cancel_waiter_form:
  assumes "stock_ok s" "Send_cancel_waiter w s = (b, t)"
  obtains (gone) "\<not> b" "t = s"
  | (removed) xs v ys s0 s1 where "b" "admissionWaiters s (aw_class w) = xs @ v # ys"
      "s0 = s\<lparr>admissionWaiters := (admissionWaiters s)(aw_class w := xs @ ys)\<rparr>"
      "s1 = (if queues s (aw_class w) = [] then resetEmptyLaneLocked (aw_class w) s0 else s0)"
      "stock_ok s1" "t = admitWaitersLocked (aw_class w) s1"
proof (cases "\<exists>v\<in>set (admissionWaiters s (aw_class w)). aw_id v = aw_id w")
  case False
  with assms show thesis
    by (intro gone) (auto simp: Send_cancel_waiter_def removeAdmissionWaiterLocked_def Let_def split: if_splits)
next
  case True
  let ?c = "aw_class w"
  obtain xs v ys where q: "admissionWaiters s ?c = xs @ v # ys"
    "remove_first (\<lambda>v. aw_id v = aw_id w) (admissionWaiters s ?c) = xs @ ys"
    using remove_first_split [OF True] by blast
  define s0 where "s0 = s\<lparr>admissionWaiters := (admissionWaiters s)(?c := xs @ ys)\<rparr>"
  define s1 where "s1 = (if queues s ?c = [] then resetEmptyLaneLocked ?c s0 else s0)"
  have "t = admitWaitersLocked ?c s1" "b"
    using assms(2) True q(2)
    by (auto simp: Send_cancel_waiter_def removeAdmissionWaiterLocked_def Let_def s1_def s0_def split: if_splits)
  moreover have "stock_ok s1"
    using drop_waiter_stock [OF assms(1) q(1)] by (simp add: s1_def s0_def)
  ultimately show thesis using removed [OF _ q(1) s0_def s1_def] by blast
qed

lemma cancel_waiter_inv:
  assumes "sched_inv s" "Send_cancel_waiter w s = (b, t)"
  shows "sched_inv t"
proof -
  have "stock_ok s" using assms(1) by (simp add: sched_inv_def)
  from this assms(2) show ?thesis
  proof (cases rule: cancel_waiter_form)
    case gone
    then show ?thesis using assms(1) by simp
  next
    case (removed xs v ys s0 s1)
    have "others_same (aw_class w) s s0" by (simp add: removed(3) others_same_def)
    then have o1: "others_same (aw_class w) s s1"
      unfolding removed(4) using others_same_trans reset_others by (metis (full_types))
    have "terminal s = None"
      using assms(1) removed(2)
      by (metis append_is_Nil_conv idle_def list.distinct(1) sched_inv_def terminal_ok_def)
    then show ?thesis
      unfolding removed(6) using sched_inv_others [OF assms(1) _ admit_stock(1,2) [OF removed(5)]]
        others_same_trans [OF o1 admit_stock(3) [OF removed(5)]] by blast
  qed
qed

lemma drop_queued_stock:
  assumes "stock_ok s" "queues s c = xs @ r # ys"
  shows "stock_ok (s\<lparr>queues := (queues s)(c := xs @ ys),
                     queued_bytes := (queued_bytes s)(c := queued_bytes s c - rlen r)\<rparr>)" (is "stock_ok ?t")
proof -
  have ok: "queue_ok s c'" for c' using assms(1) by (simp add: stock_ok_def)
  have cg: "request_ok ?t c' v = request_ok s c' v" for c' v by (rule request_ok_cong) simp_all
  have "queue_ok ?t c'" for c'
  proof (cases "c' = c")
    case True
    then show ?thesis
      using ok [of c] assms(2) cg by (auto simp: queue_ok_def pending_def)
  next
    case False
    then show ?thesis
      using ok [of c'] cg by (simp add: queue_ok_def pending_def)
  qed
  moreover have "waiters_ok ?t c' = waiters_ok s c'" for c'
    by (rule waiters_ok_cong) simp_all
  ultimately show ?thesis using assms(1) by (simp add: stock_ok_def heap_ok_def)
qed

lemma cancel_request_form:
  assumes "stock_ok s" "requests s (sr_id r) = Some r" "Send_cancel_request r s = (b, t)"
  obtains (gone) "\<not> b" "t = s"
  | (removed) xs ys s0 s1 s2 where "b" "queues s (sr_class r) = xs @ r # ys"
      "s0 = s\<lparr>queues := (queues s)(sr_class r := xs @ ys)\<rparr>"
      "s1 = (if xs @ ys = [] then resetEmptyLaneLocked (sr_class r) s0 else s0)"
      "s2 = s1\<lparr>queued_bytes := (queued_bytes s1)(sr_class r := queued_bytes s1 (sr_class r) - rlen r)\<rparr>"
      "stock_ok s2" "t = admitWaitersLocked (sr_class r) s2"
proof (cases "\<exists>v\<in>set (queues s (sr_class r)). sr_id v = sr_id r")
  case False
  with assms show thesis
    by (intro gone) (auto simp: Send_cancel_request_def removeQueuedLocked_def Let_def split: if_splits)
next
  case True
  let ?c = "sr_class r"
  obtain xs v ys where q: "queues s ?c = xs @ v # ys" "sr_id v = sr_id r"
    "remove_first (\<lambda>v. sr_id v = sr_id r) (queues s ?c) = xs @ ys"
    using remove_first_split [OF True] by blast
  have "v \<in> set (pending s ?c)" using q(1) by (simp add: pending_def)
  then have "requests s (sr_id v) = Some v"
    using stock_request(1) [OF assms(1)] by (simp add: request_ok_def)
  then have qr: "queues s ?c = xs @ r # ys" using q(1,2) assms(2) by simp
  define s0 where "s0 = s\<lparr>queues := (queues s)(?c := xs @ ys)\<rparr>"
  define s1 where "s1 = (if xs @ ys = [] then resetEmptyLaneLocked ?c s0 else s0)"
  define s2 where "s2 = s1\<lparr>queued_bytes := (queued_bytes s1)(?c := queued_bytes s1 ?c - rlen r)\<rparr>"
  have t: "t = admitWaitersLocked ?c s2" "b"
    using assms(3) True q(3)
    by (auto simp: Send_cancel_request_def removeQueuedLocked_def Let_def s2_def s1_def s0_def split: if_splits)
  have core: "same_core s1 s0" "queues s1 = queues s0" by (auto simp: s1_def)
  have "stock_ok (s0\<lparr>queued_bytes := (queued_bytes s0)(?c := queued_bytes s0 ?c - rlen r)\<rparr>)"
    using drop_queued_stock [OF assms(1) qr] by (simp add: s0_def)
  then have "stock_ok s2"
    using stock_cong [of s2 "s0\<lparr>queued_bytes := (queued_bytes s0)(?c := queued_bytes s0 ?c - rlen r)\<rparr>"] core
    by (simp add: s2_def same_core_def)
  with t show thesis using removed [OF _ qr s0_def s1_def s2_def] by blast
qed

lemma cancel_request_inv:
  assumes "sched_inv s" "requests s (sr_id r) = Some r" "Send_cancel_request r s = (b, t)"
  shows "sched_inv t"
proof -
  have "stock_ok s" using assms(1) by (simp add: sched_inv_def)
  from this assms(2,3) show ?thesis
  proof (cases rule: cancel_request_form)
    case gone
    then show ?thesis using assms(1) by simp
  next
    case (removed xs ys s0 s1 s2)
    have core: "same_core s1 s0" "queues s1 = queues s0" by (auto simp: removed(4))
    have o2: "others_same (sr_class r) s s2"
      using core removed(2) by (auto simp: others_same_def same_core_def removed(5) removed(3))
    have "terminal s = None"
      using assms(1) removed(2)
      by (metis append_is_Nil_conv idle_def list.distinct(1) sched_inv_def terminal_ok_def)
    then show ?thesis
      unfolding removed(7) using sched_inv_others [OF assms(1) _ admit_stock(1,2) [OF removed(6)]]
        others_same_trans [OF o2 admit_stock(3) [OF removed(6)]] by blast
  qed
qed

subsection \<open>Closing\<close>

lemma upd_order:
  "s\<lparr>ready_ch := a, admissionWaiters := x\<rparr> = s\<lparr>admissionWaiters := x, ready_ch := a\<rparr>"
  "s\<lparr>queued_bytes := n, done_ch := d, queues := q\<rparr> = s\<lparr>queues := q, queued_bytes := n, done_ch := d\<rparr>"
  by simp_all

text \<open>
  \<open>owes i s\<close>: the request \<open>i\<close> has left the queues and its answer is still to be sent. Filling
  and failing the queues in the meantime does not touch it.
\<close>

definition owes :: "nat \<Rightarrow> Scheduler \<Rightarrow> bool" where
  "owes i s \<longleftrightarrow> i < nextId s \<and> done_ch s i = [] \<and> (\<forall>c. i \<notin> sr_id ` set (pending s c))"

lemma answer_stock:
  assumes "stock_ok s" "owes i s"
  shows "stock_ok (s\<lparr>done_ch := (done_ch s)(i := done_ch s i @ [e])\<rparr>)" (is "stock_ok ?t")
proof -
  have "queue_ok ?t c = queue_ok s c" for c
  proof (rule queue_ok_cong)
    fix r assume "r \<in> set (pending s c)"
    then have "sr_id r \<noteq> i" using assms(2) unfolding owes_def by blast
    then show "requests ?t (sr_id r) = requests s (sr_id r) \<and> done_ch ?t (sr_id r) = done_ch s (sr_id r)" by simp
  qed (simp_all add: pending_def)
  moreover have "waiters_ok ?t c = waiters_ok s c" for c by (rule waiters_ok_cong) simp_all
  moreover have "heap_ok ?t" using assms by (auto simp: stock_ok_def heap_ok_def owes_def)
  ultimately show ?thesis using assms(1) by (simp add: stock_ok_def)
qed

lemma fail_head_stock:
  assumes "stock_ok s" "queues s c = r # q"
  shows "stock_ok (s\<lparr>queued_bytes := (queued_bytes s)(c := queued_bytes s c - rlen r),
                     done_ch := (done_ch s)(sr_id r := done_ch s (sr_id r) @ [e]),
                     queues := (queues s)(c := q)\<rparr>)" (is "stock_ok ?t")
proof -
  let ?u = "s\<lparr>queues := (queues s)(c := q), queued_bytes := (queued_bytes s)(c := queued_bytes s c - rlen r)\<rparr>"
  have st: "stock_ok ?u" using drop_queued_stock [OF assms(1), of c "[]" r q] assms(2) by simp
  have r: "request_ok s c r" "sr_id r < nextId s"
    using stock_request [OF assms(1), of r c] assms(2) by (simp_all add: pending_def)
  have dist: "distinct (map sr_id (pending s c))"
    using assms(1) by (simp add: stock_ok_def queue_ok_def)
  have "sr_id x \<noteq> sr_id r" if "x \<in> set (pending ?u c')" for x c'
  proof (cases "c' = c")
    case True
    then have "x \<in> set (q @ writing (active s) c)" using that by (simp add: pending_def)
    then show ?thesis using dist assms(2) by (simp add: pending_def) (metis UnI1 UnI2 imageI)
  next
    case False
    then have "x \<in> set (pending s c')" using that by (simp add: pending_def)
    then show ?thesis
      using stock_request(1) [OF assms(1)] request_ok_unique [OF r(1)] False by metis
  qed
  then have "owes (sr_id r) ?u" using r by (auto simp: owes_def request_ok_def) (metis)
  from answer_stock [OF st this, of e] show ?thesis by (simp add: upd_order)
qed

lemma owes_cong:
  assumes "owes i s" "\<And>c. set (pending t c) \<subseteq> set (pending s c)" "done_ch t i = done_ch s i" "nextId t = nextId s"
  shows "owes i t"
  using assms unfolding owes_def by (metis image_mono subset_iff)

text \<open>What failing the queues leaves alone.\<close>

definition fail_frame :: "Scheduler \<Rightarrow> Scheduler \<Rightarrow> bool" where
  "fail_frame s t \<longleftrightarrow> notify t = notify s \<and> terminal t = terminal s \<and> active t = active s \<and> pump_at t = pump_at s
     \<and> (\<forall>i. owes i s \<longrightarrow> owes i t)
     \<and> (\<forall>c. queues s c = [] \<longrightarrow> queues t c = []) \<and> (\<forall>c. admissionWaiters s c = [] \<longrightarrow> admissionWaiters t c = [])"

lemma fail_frame_trans: "fail_frame s t \<Longrightarrow> fail_frame t u \<Longrightarrow> fail_frame s u"
  by (simp add: fail_frame_def)

lemma failWaiter_push:
  "(failWaiter e w s)\<lparr>admissionWaiters := x\<rparr> = failWaiter e w (s\<lparr>admissionWaiters := x\<rparr>)"
  by (simp add: failWaiter_def)

lemma fail_fields [simp]:
  "admissionWaiters (failWaiter e w s) = admissionWaiters s" "queues (failRequest e c r s) = queues s"
  by (simp_all add: failWaiter_def failRequest_def)

lemma failWaiters_push:
  "(fold (failWaiter e) ws s)\<lparr>admissionWaiters := x\<rparr> = fold (failWaiter e) ws (s\<lparr>admissionWaiters := x\<rparr>)"
  by (induction ws arbitrary: s) (simp_all add: failWaiter_push)

lemma failWaiters_frame: "\<exists>m. fold (failWaiter e) ws s = s\<lparr>ready_ch := m\<rparr>"
proof (induction ws arbitrary: s)
  case (Cons w ws)
  obtain m where "fold (failWaiter e) ws (failWaiter e w s) = (failWaiter e w s)\<lparr>ready_ch := m\<rparr>"
    using Cons by blast
  moreover have "(failWaiter e w s)\<lparr>ready_ch := m\<rparr> = s\<lparr>ready_ch := m\<rparr>" by (simp add: failWaiter_def)
  ultimately show ?case by auto
next
  case Nil
  show ?case by (rule exI [of _ "ready_ch s"]) simp
qed

lemma failWaiters_fold_stock:
  assumes "stock_ok s" "admissionWaiters s c = ws"
  shows "stock_ok (fold (failWaiter e) ws (s\<lparr>admissionWaiters := (admissionWaiters s)(c := [])\<rparr>))"
  using assms
proof (induction ws arbitrary: s)
  case Nil
  then have "(admissionWaiters s)(c := []) = admissionWaiters s" by (metis fun_upd_triv)
  with Nil show ?case by simp
next
  case (Cons w ws)
  let ?u = "(failWaiter e w s)\<lparr>admissionWaiters := (admissionWaiters s)(c := ws)\<rparr>"
  have "stock_ok ?u"
    using ready_stock [OF Cons.prems, where m = "waiterRequest s" and e = "Some e"] by (simp add: failWaiter_def)
  from Cons.IH [OF this] show ?case by (simp add: failWaiter_push cong: if_cong)
qed

lemma failWaiters_stock:
  assumes "stock_ok s"
  shows "stock_ok (failWaiters e c s)" "fail_frame s (failWaiters e c s)" "admissionWaiters (failWaiters e c s) c = []"
proof -
  let ?t = "failWaiters e c s"
  show "stock_ok ?t"
    using failWaiters_fold_stock [OF assms refl] by (simp add: failWaiters_def failWaiters_push)
  obtain m where t: "?t = s\<lparr>ready_ch := m, admissionWaiters := (admissionWaiters s)(c := [])\<rparr>"
    using failWaiters_frame unfolding failWaiters_def by metis
  have "owes i s \<Longrightarrow> owes i ?t" for i
    by (erule owes_cong) (simp_all add: t pending_def)
  then show "fail_frame s ?t" by (simp add: fail_frame_def t)
  show "admissionWaiters ?t c = []" by (simp add: t)
qed

lemma failRequest_push:
  "(failRequest e c r s)\<lparr>queues := x\<rparr> = failRequest e c r (s\<lparr>queues := x\<rparr>)"
  by (simp add: failRequest_def)

lemma failRequests_push:
  "(fold (failRequest e c) rs s)\<lparr>queues := x\<rparr> = fold (failRequest e c) rs (s\<lparr>queues := x\<rparr>)"
  by (induction rs arbitrary: s) (simp_all add: failRequest_push)

lemma failRequests_frame:
  "\<exists>n d. fold (failRequest e c) rs s = s\<lparr>queued_bytes := n, done_ch := d\<rparr>
     \<and> (\<forall>i. i \<notin> sr_id ` set rs \<longrightarrow> d i = done_ch s i)"
proof (induction rs arbitrary: s)
  case (Cons r rs)
  let ?u = "failRequest e c r s"
  obtain n d where nd: "fold (failRequest e c) rs ?u = ?u\<lparr>queued_bytes := n, done_ch := d\<rparr>"
    "\<forall>i. i \<notin> sr_id ` set rs \<longrightarrow> d i = done_ch ?u i" using Cons by blast
  have "?u\<lparr>queued_bytes := n, done_ch := d\<rparr> = s\<lparr>queued_bytes := n, done_ch := d\<rparr>"
    "i \<noteq> sr_id r \<Longrightarrow> done_ch ?u i = done_ch s i" for i by (simp_all add: failRequest_def)
  with nd show ?case by (intro exI [of _ n] exI [of _ d]) simp
next
  case Nil
  show ?case by (rule exI [of _ "queued_bytes s"], rule exI [of _ "done_ch s"]) simp
qed

lemma failRequests_fold_stock:
  assumes "stock_ok s" "queues s c = rs"
  shows "stock_ok (fold (failRequest e c) rs (s\<lparr>queues := (queues s)(c := [])\<rparr>))"
  using assms
proof (induction rs arbitrary: s)
  case Nil
  then have "(queues s)(c := []) = queues s" by (metis fun_upd_triv)
  with Nil show ?case by simp
next
  case (Cons r rs)
  let ?u = "(failRequest e c r s)\<lparr>queues := (queues s)(c := rs)\<rparr>"
  have "stock_ok ?u"
    using fail_head_stock [OF Cons.prems, of "Some e"] by (simp add: failRequest_def)
  from Cons.IH [OF this] show ?case by (simp add: failRequest_push cong: if_cong)
qed

lemma failQueue_stock:
  assumes "stock_ok s"
  shows "stock_ok (failQueue e c s)" "fail_frame s (failQueue e c s)" "queues (failQueue e c s) c = []"
proof -
  let ?t = "failQueue e c s"
  show "stock_ok ?t"
    using failRequests_fold_stock [OF assms refl] by (simp add: failQueue_def failRequests_push)
  obtain n d where t: "?t = s\<lparr>queued_bytes := n, done_ch := d, queues := (queues s)(c := [])\<rparr>"
    and d: "\<forall>i. i \<notin> sr_id ` set (queues s c) \<longrightarrow> d i = done_ch s i"
    using failRequests_frame [of e c "queues s c" s] unfolding failQueue_def by metis
  have "owes i ?t" if "owes i s" for i
    using that
  proof (rule owes_cong)
    have "i \<notin> sr_id ` set (queues s c)" using that by (auto simp: owes_def pending_def)
    then show "done_ch ?t i = done_ch s i" using d by (simp add: t)
  qed (auto simp: t pending_def)
  then show "fail_frame s ?t" by (simp add: fail_frame_def t)
  show "queues ?t c = []" by (simp add: t)
qed

abbreviation failAll :: "goerr \<Rightarrow> Scheduler \<Rightarrow> Scheduler" where
  "failAll e s \<equiv> failQueuedLocked e (failAdmissionWaitersLocked e s)"

lemma fail_stock:
  assumes "stock_ok s"
  shows "stock_ok (failAll e s)" "fail_frame s (failAll e s)" "idle (failAll e s)"
proof -
  let ?t = "failAll e s"
  have loop: "stock_ok (fold f cs u) \<and> fail_frame u (fold f cs u) \<and> (\<forall>c\<in>set cs. emptied (fold f cs u) c)"
    if st: "stock_ok u" and f: "\<And>c u. stock_ok u \<Longrightarrow> stock_ok (f c u) \<and> fail_frame u (f c u) \<and> emptied (f c u) c"
      and em: "\<And>c u v. fail_frame u v \<Longrightarrow> emptied u c \<Longrightarrow> emptied v c" for f cs u emptied
    using st
  proof (induction cs arbitrary: u)
    case (Cons c cs)
    have fc: "stock_ok (f c u)" "fail_frame u (f c u)" "emptied (f c u) c" using f [OF Cons.prems] by auto
    from Cons.IH [OF fc(1)] fc show ?case by (auto intro: fail_frame_trans em)
  qed (simp add: fail_frame_def)
  let ?u = "failAdmissionWaitersLocked e s"
  have u: "stock_ok ?u \<and> fail_frame s ?u \<and> (\<forall>c\<in>set allClasses. admissionWaiters ?u c = [])"
    unfolding failAdmissionWaitersLocked_def
    by (rule loop [OF assms, of "failWaiters e" "\<lambda>s c. admissionWaiters s c = []"])
      (blast intro: failWaiters_stock, simp add: fail_frame_def)
  have t: "stock_ok ?t \<and> fail_frame ?u ?t \<and> (\<forall>c\<in>set allClasses. queues ?t c = [])"
    unfolding failQueuedLocked_def
    by (rule loop [of ?u "failQueue e" "\<lambda>s c. queues s c = []"])
      (use u in blast, blast intro: failQueue_stock, simp add: fail_frame_def)
  show st: "stock_ok ?t" "fail_frame s ?t" using u t fail_frame_trans by blast+
  have "queues ?t c = [] \<and> admissionWaiters ?t c = []" for c
    using u t unknown_class_empty [of ?t c] by (cases "c \<in> set allClasses") (auto simp: stock_ok_def fail_frame_def)
  then show "idle ?t" by (simp add: idle_def)
qed


lemma closed_inv:
  assumes "stock_ok s" "idle s" "terminal s \<noteq> None" "pump_at s = PumpWriting \<longleftrightarrow> active s \<noteq> None"
    "\<And>g. pump_at s = PumpWaiting g \<Longrightarrow> g < notify s"
  shows "sched_inv s"
  using assms by (auto simp: sched_inv_def terminal_ok_def pump_ok_def head_blocked_def idle_def)

lemma Close_inv:
  assumes "sched_inv s"
  shows "sched_inv (Close s)"
proof (cases "terminal s = None")
  case True
  let ?s = "s\<lparr>terminal := Some ErrSchedulerClosed\<rparr>" and ?e = ErrSchedulerClosed
  have st: "stock_ok ?s" using assms by (simp add: sched_inv_def)
  have fr: "fail_frame ?s (failAll ?e ?s)" "idle (failAll ?e ?s)" using fail_stock [OF st] by auto
  show ?thesis
    using True fr fail_stock(1) [OF st, of ?e] assms
    by (simp add: Close_def, intro closed_inv)
      (auto simp: sched_inv_def pump_ok_def fail_frame_def idle_def signalLocked_def)
qed (use assms in \<open>auto simp: Close_def\<close>)

subsection \<open>The pump\<close>

lemma pump_lock_inv:
  assumes "sched_inv s" "pump_at s = PumpIdle" "pump_lock s = Some t"
  shows "sched_inv t"
proof (cases "terminal s")
  case (Some e)
  then show ?thesis
    using assms by (intro closed_inv) (auto simp: pump_lock_def sched_inv_def terminal_ok_def pump_ok_def idle_def)
next
  case None
  have st: "stock_ok s" and act: "active s = None" and hb: "\<And>c. head_blocked s c"
    using assms(1,2) by (auto simp: sched_inv_def pump_ok_def)
  have took_inv: "sched_inv (u\<lparr>active := Some r, pump_at := PumpWriting\<rparr>)" if "took c r s u" for c r u
  proof -
    have sc: "same_core u s" using that by (simp add: took_def)
    have "stock_ok (u\<lparr>active := Some r\<rparr>\<lparr>pump_at := PumpWriting\<rparr>)"
      using took_stock [OF that st act] by (simp only: stock_ignores)
    moreover have "head_blocked (u\<lparr>active := Some r, pump_at := PumpWriting\<rparr>) c" for c
      using hb [of c] sc by (simp add: head_blocked_def same_core_def)
    ultimately show ?thesis
      using sc None by (simp add: sched_inv_def terminal_ok_def pump_ok_def same_core_def)
  qed
  from stock_class_ok [OF st] show ?thesis
  proof (cases rule: nextLocked_cases)
    case none_queued
    have "stock_ok (s\<lparr>pump_at := PumpWaiting (notify s)\<rparr>)" using st by simp
    moreover have "head_blocked (s\<lparr>pump_at := PumpWaiting (notify s)\<rparr>) c" for c
      using hb [of c] by (simp add: head_blocked_def)
    ultimately show ?thesis
      using none_queued None assms(3) act stock_empty [OF st none_queued(1)]
      by (auto simp: pump_lock_def sched_inv_def terminal_ok_def pump_ok_def)
  next
    case control
    then show ?thesis using took_inv None assms(3) by (auto simp: pump_lock_def)
  next
    case data
    then show ?thesis using took_inv None assms(3) by (auto simp: pump_lock_def)
  qed
qed

lemma pump_wake_inv: "sched_inv s \<Longrightarrow> sched_inv (pump_wake s)"
proof (cases "\<exists>g. pump_at s = PumpWaiting g \<and> g \<noteq> notify s")
  case True
  assume "sched_inv s"
  moreover have "pump_wake s = s\<lparr>pump_at := PumpIdle\<rparr>" using True by (auto simp: pump_wake_def)
  ultimately show ?thesis
    using True by (auto simp: sched_inv_def terminal_ok_def pump_ok_def head_blocked_def idle_def)
qed (auto simp: pump_wake_def split: pump_pc.splits)

lemma enqueue_owes:
  assumes "enqueueLocked c k p s = (r, t)" "owes i s"
  shows "owes i t"
proof -
  note t = enqueue_fields [OF assms(1)]
  have "set (pending t c') \<subseteq> insert r (set (pending s c'))" for c' by (auto simp: pending_def t(2))
  moreover have "i \<noteq> sr_id r" using assms(2) by (simp add: owes_def t(1))
  ultimately have "i \<notin> sr_id ` set (pending t c')" for c'
    using assms(2) unfolding owes_def by blast
  then show ?thesis using assms(2) by (simp add: owes_def t(2))
qed

lemma admitLoop_owes:
  "admitLoop cap c ws s = (ws', t) \<Longrightarrow> owes i s \<Longrightarrow> owes i t"
proof (induction cap c ws s arbitrary: ws' t rule: admitLoop.induct)
  case (2 cap c w ws s)
  obtain r s1 where e: "enqueueLocked (aw_class w) (aw_kind w) (aw_payload w) s = (r, s1)" by force
  have "owes i (s1\<lparr>waiterRequest := m, ready_ch := y\<rparr>)" for m y
    using enqueue_owes [OF e "2.prems"(2)] by (rule owes_cong) (simp_all add: pending_def)
  then show ?case using 2 e by (auto split: if_splits)
qed simp

lemma admit_owes: "owes i s \<Longrightarrow> owes i (admitWaitersLocked c s)"
  unfolding admitWaitersLocked_def Let_def case_prod_beta
  by (rule owes_cong [OF admitLoop_owes [OF prod.collapse [symmetric]]]) (simp_all add: pending_def)

text \<open>The request that was written leaves the books first, and is answered last.\<close>

lemma released_stock:
  assumes "stock_ok s" "active s = Some r"
  defines "t \<equiv> s\<lparr>active := None, queued_bytes := (queued_bytes s)(sr_class r := queued_bytes s (sr_class r) - rlen r)\<rparr>"
  shows "stock_ok t" "owes (sr_id r) t"
proof -
  have ok: "queue_ok s c" for c using assms(1) by (simp add: stock_ok_def)
  have cg: "request_ok t c x = request_ok s c x" for c x by (rule request_ok_cong) (simp_all add: t_def)
  have rp: "r \<in> set (pending s (sr_class r))" using assms(2) by (simp add: pending_def)
  have r: "request_ok s (sr_class r) r" "sr_id r < nextId s" using stock_request [OF assms(1) rp] by auto
  have pend: "pending s c = pending t c @ (if c = sr_class r then [r] else [])" for c
    using assms(2) by (simp add: pending_def t_def)
  have qb: "queued_bytes t c = queued_bytes s c - (if c = sr_class r then rlen r else 0)" for c
    by (simp add: t_def)
  have "queue_ok t c" for c
    using ok [of c] pend [of c] cg qb [of c] by (cases "c = sr_class r") (auto simp: queue_ok_def)
  moreover have "waiters_ok t c = waiters_ok s c" for c by (rule waiters_ok_cong) (simp_all add: t_def)
  ultimately show "stock_ok t" using assms(1) by (simp add: stock_ok_def heap_ok_def t_def)
  have "sr_id x \<noteq> sr_id r" if "x \<in> set (pending t c)" for x c
  proof (cases "c = sr_class r")
    case True
    then show ?thesis using ok [of c] pend [of c] that by (auto simp: queue_ok_def) (metis imageI)
  next
    case False
    then have "x \<in> set (pending s c)" using that pend [of c] by simp
    then show ?thesis
      using stock_request(1) [OF assms(1)] request_ok_unique [OF r(1)] False by metis
  qed
  then have "sr_id r \<notin> sr_id ` set (pending t c)" for c by (metis imageE)
  then show "owes (sr_id r) t" using r by (simp add: owes_def request_ok_def t_def)
qed

lemma pump_written_inv:
  assumes "sched_inv s" "pump_at s = PumpWriting" "active s = Some r"
  shows "sched_inv (pump_written err r s)"
proof -
  let ?c = "sr_class r"
  define s1 where "s1 = s\<lparr>active := None, queued_bytes := (queued_bytes s)(?c := queued_bytes s ?c - rlen r)\<rparr>"
  define s2 where "s2 = (case (err, terminal s1) of
      (Some e, None) \<Rightarrow> failAll e (s1\<lparr>terminal := Some e\<rparr>)
    | (None, None) \<Rightarrow> admitWaitersLocked ?c s1 | _ \<Rightarrow> s1)"
  define t where "t = s2\<lparr>done_ch := (done_ch s2)(sr_id r := done_ch s2 (sr_id r) @ [err])\<rparr>"
  have w: "pump_written err r s = t\<lparr>notify := Suc (notify t), pump_at := PumpIdle\<rparr>"
    unfolding pump_written_def Let_def s1_def [symmetric] s2_def [symmetric]
    by (simp add: signalLocked_def t_def)
  have st: "stock_ok s" using assms(1) by (simp add: sched_inv_def)
  have st1: "stock_ok s1" "owes (sr_id r) s1"
    using released_stock [OF st assms(3)] by (simp_all add: s1_def)
  have fin: "sched_inv (pump_written err r s)"
    if "stock_ok s2" "owes (sr_id r) s2" "\<forall>c. head_blocked s2 c" "terminal_ok s2" "active s2 = None"
  proof -
    have "stock_ok t" using answer_stock [OF that(1,2)] by (simp add: t_def)
    then show ?thesis unfolding w
      using that(3-) by (simp add: sched_inv_def terminal_ok_def idle_def pump_ok_def head_blocked_def t_def)
  qed
  consider (closed) "terminal s1 \<noteq> None" | (fail) e where "terminal s1 = None" "err = Some e"
    | (ok) "terminal s1 = None" "err = None" by fastforce
  then show ?thesis
  proof cases
    case closed
    then have idle: "idle s2" "s2 = s1"
      using assms(1) by (auto simp: s2_def s1_def sched_inv_def terminal_ok_def idle_def split: option.splits)
    show ?thesis
      by (rule fin) (use idle st1 in \<open>simp_all add: idle_def head_blocked_def terminal_ok_def\<close>, simp add: s1_def)
  next
    case fail
    have st1': "stock_ok (s1\<lparr>terminal := Some e\<rparr>)" "owes (sr_id r) (s1\<lparr>terminal := Some e\<rparr>)"
      using st1 by (simp_all add: owes_def pending_def)
    have s2: "s2 = failAll e (s1\<lparr>terminal := Some e\<rparr>)" using fail by (simp add: s2_def)
    have "idle s2" "stock_ok s2" "fail_frame (s1\<lparr>terminal := Some e\<rparr>) s2"
      unfolding s2 using fail_stock [OF st1'(1)] by auto
    then show ?thesis
      by (intro fin) (use st1' in \<open>simp_all add: fail_frame_def idle_def head_blocked_def terminal_ok_def s1_def\<close>)
  next
    case ok
    then have s2: "s2 = admitWaitersLocked ?c s1" by (simp add: s2_def)
    have hb: "head_blocked s1 c" if "c \<noteq> ?c" for c
      using that assms(1) by (simp add: s1_def sched_inv_def head_blocked_def)
    have "head_blocked s2 c" for c
      using admit_stock(2) [OF st1(1)] head_blocked_others [OF admit_stock(3) [OF st1(1)]] hb s2
      by (cases "c = ?c") auto
    then show ?thesis
      by (intro fin) (use s2 admit_stock(1,3) [OF st1(1), of ?c] admit_owes [OF st1(2)] ok in
          \<open>auto simp: others_same_def terminal_ok_def s1_def\<close>)
  qed
qed

section \<open>The scheduler as a guarded machine\<close>

lemma sched_step_inv: "sched_inv s \<Longrightarrow> sched_step s t \<Longrightarrow> sched_inv t"
  by (erule sched_step.cases)
    (auto intro: Send_inv cancel_waiter_inv cancel_request_inv Close_inv pump_lock_inv pump_wake_inv pump_written_inv)

interpretation sched: guarded_machine "\<lambda>s. s = NewScheduler" sched_step sched_inv
  by unfold_locales (auto simp: sched_inv_New intro: sched_step_inv)

lemma reachable_inv: "sched_reachable s \<Longrightarrow> sched_inv s"
  unfolding sched_reachable_def by (rule sched.reachable_safe [OF refl])

end
