(* ===== verification/Scheduler_Fairness.thy ===== *)
theory Scheduler_Fairness
  imports Scheduler_Invariant
begin

text \<open>
  Fairness of the scheduler: the range of the deficit counters, the bound on control bursts, and
  how many bytes one data lane can send while the other one waits. The bounds come from two
  linear quantities that a pick of one lane cannot raise.
\<close>

section \<open>Ranges of the round robin fields\<close>

definition outer_ok :: "Scheduler \<Rightarrow> bool" where
  "outer_ok s \<longleftrightarrow>
     0 \<le> outerDeficit s 0 \<and> outerDeficit s 0 < ThumbnailQueueCapBytes + 3 * BaseQuantumBytes
   \<and> 0 \<le> outerDeficit s 1 \<and> outerDeficit s 1 < BulkQueueCapBytes + BaseQuantumBytes
   \<and> outerCurrent s < 2 \<and> (outerCurrent s = 1 \<longrightarrow> outerDeficit s 0 < ThumbnailQueueCapBytes)
   \<and> (\<not> outerStarted s \<longrightarrow> outerCurrent s = 0 \<and> outerDeficit s 0 = 0 \<and> outerDeficit s 1 = 0)"

definition inner_ok :: "Scheduler \<Rightarrow> bool" where
  "inner_ok s \<longleftrightarrow>
     0 \<le> innerDeficit s 0 \<and> innerDeficit s 0 < InteractiveQueueCapBytes + 3 * BaseQuantumBytes
   \<and> 0 \<le> innerDeficit s 1 \<and> innerDeficit s 1 < ThumbnailQueueCapBytes + BaseQuantumBytes
   \<and> innerCurrent s < 2 \<and> (innerCurrent s = 1 \<longrightarrow> innerDeficit s 0 < InteractiveQueueCapBytes)
   \<and> (\<not> innerStarted s \<longrightarrow> innerCurrent s = 0 \<and> innerDeficit s 0 = 0 \<and> innerDeficit s 1 = 0)"

definition rr_ok :: "Scheduler \<Rightarrow> bool" where
  "rr_ok s \<longleftrightarrow> outer_ok s \<and> inner_ok s \<and> 0 \<le> controlBurst s"

definition sizes_ok :: "Scheduler \<Rightarrow> bool" where
  "sizes_ok s \<longleftrightarrow> (\<forall>c. \<forall>r\<in>set (queues s c). rlen r \<le> fst (classCap c))"

lemma qbytes_member: "r \<in> set q \<Longrightarrow> rlen r \<le> qbytes q"
proof (induction q)
  case (Cons x q)
  then show ?case using qbytes_nonneg [of q] by auto
qed simp

lemma stock_sizes_ok: "stock_ok s \<Longrightarrow> sizes_ok s"
  unfolding sizes_ok_def stock_ok_def queue_ok_def
  by (metis UnI1 order_trans pending_def qbytes_member set_append)

lemma caps [simp]:
  "fst (classCap ClassInteractiveMedia) = InteractiveQueueCapBytes"
  "fst (classCap ClassThumbnail) = ThumbnailQueueCapBytes" "fst (classCap ClassBulk) = BulkQueueCapBytes"
  by (simp_all add: classCap_def)

lemma head_size:
  assumes "sizes_ok s" "queues s c = r # q"
  shows "rlen r \<le> fst (classCap c)"
  using assms by (auto simp: sizes_ok_def)

definition same_rr :: "Scheduler \<Rightarrow> Scheduler \<Rightarrow> bool" where
  "same_rr s t \<longleftrightarrow>
     outerCurrent s = outerCurrent t \<and> outerDeficit s = outerDeficit t \<and> outerStarted s = outerStarted t
   \<and> innerCurrent s = innerCurrent t \<and> innerDeficit s = innerDeficit t \<and> innerStarted s = innerStarted t
   \<and> controlBurst s = controlBurst t"

lemma same_rr_refl [simp]: "same_rr s s"
  by (simp add: same_rr_def)

lemma same_rr_trans: "same_rr s t \<Longrightarrow> same_rr t u \<Longrightarrow> same_rr s u"
  by (simp add: same_rr_def)

lemma same_rr_ok: "same_rr s t \<Longrightarrow> rr_ok t = rr_ok s"
  by (simp add: same_rr_def rr_ok_def outer_ok_def inner_ok_def)

lemma outer_ok_cong:
  assumes "outerCurrent t = outerCurrent s" "outerDeficit t = outerDeficit s" "outerStarted t = outerStarted s"
  shows "outer_ok t = outer_ok s"
  using assms by (simp add: outer_ok_def)

lemma reset_rr:
  assumes "rr_ok s"
  shows "rr_ok (resetEmptyLaneLocked c s)"
  using assms by (simp add: rr_ok_def outer_ok_def inner_ok_def resetEmptyLaneLocked_def Let_def sched_numbers)

lemma reset_outer:
  assumes "rr_ok s"
  shows "hasClassDemandLocked ClassBulk s \<Longrightarrow>
           outerDeficit (resetEmptyLaneLocked c s) 1 = outerDeficit s 1
         \<and> outerDeficit (resetEmptyLaneLocked c s) 0 \<le> outerDeficit s 0"
    "hasMediaDemandLocked s \<Longrightarrow>
           outerDeficit (resetEmptyLaneLocked c s) 0 = outerDeficit s 0
         \<and> outerDeficit (resetEmptyLaneLocked c s) 1 \<le> outerDeficit s 1"
  using assms
  by (auto simp: rr_ok_def outer_ok_def resetEmptyLaneLocked_def Let_def hasClassDemandLocked_def hasMediaDemandLocked_def)

section \<open>One pick\<close>

lemma inner_ok_start:
  assumes "inner_ok s" "\<not> innerStarted s"
  shows "inner_ok ((addInnerRoundLocked s)\<lparr>innerStarted := True\<rparr>)"
  using assms by (auto simp: inner_ok_def addInnerRoundLocked_def sched_numbers)

lemma inner_ok_advance:
  assumes "inner_ok s" "innerStarted s"
    "innerCurrent s = 0 \<Longrightarrow> innerDeficit s 0 < InteractiveQueueCapBytes"
    "innerCurrent s = 1 \<Longrightarrow> innerDeficit s 1 < ThumbnailQueueCapBytes"
  shows "inner_ok (advanceInnerLocked s)"
proof -
  have "innerCurrent s = 0 \<or> innerCurrent s = 1" using assms(1) by (auto simp: inner_ok_def)
  then show ?thesis
    using assms by (auto simp: inner_ok_def advanceInnerLocked_def addInnerRoundLocked_def sched_numbers Let_def)
qed

lemma advanceInner_fields [simp]:
  "queues (advanceInnerLocked s) = queues s" "innerStarted (advanceInnerLocked s) = innerStarted s"
  by (simp_all add: advanceInnerLocked_def addInnerRoundLocked_def Let_def)

lemma peekLoop_inner_ok:
  assumes "sizes_ok s" "inner_ok s" "innerStarted s"
  shows "inner_ok (snd (peekLoop s))"
  using assms
proof (induction s rule: peekLoop.induct)
  case (1 s)
  have cur: "innerCurrent s = 0 \<or> innerCurrent s = 1" using "1.prems"(2) by (auto simp: inner_ok_def)
  show ?case
  proof (cases "hasMediaLocked s")
    case False
    then show ?thesis using "1.prems" by (simp add: peekLoop.simps)
  next
    case media: True
    show ?thesis
    proof (cases "queues s (innerClass s)")
      case Nil
      let ?u = "s\<lparr>innerDeficit := (innerDeficit s)(innerCurrent s := 0)\<rparr>"
      have "inner_ok ?u" using "1.prems"(2,3) cur by (auto simp: inner_ok_def sched_numbers)
      then have "inner_ok (advanceInnerLocked ?u)"
        using "1.prems"(3) cur by (intro inner_ok_advance) (auto simp: inner_ok_def sched_numbers)
      moreover have "sizes_ok (advanceInnerLocked ?u)" using "1.prems"(1) by (simp add: sizes_ok_def)
      ultimately show ?thesis
        using "1.IH"(1) [OF media Nil] "1.prems"(3) media Nil by (simp add: peekLoop.simps [of s])
    next
      case (Cons r q)
      have size: "rlen r \<le> fst (classCap (innerClass s))" using head_size [OF "1.prems"(1) Cons] .
      show ?thesis
      proof (cases "rlen r \<le> innerDeficit s (innerCurrent s)")
        case True
        then show ?thesis
          using media Cons "1.prems"(2,3) cur by (auto simp: peekLoop.simps [of s] inner_ok_def)
      next
        case False
        then have "inner_ok (advanceInnerLocked s)"
          using "1.prems" size cur by (intro inner_ok_advance) (auto simp: innerClass_def)
        moreover have "sizes_ok (advanceInnerLocked s)" using "1.prems"(1) by (simp add: sizes_ok_def)
        ultimately show ?thesis
          using "1.IH"(2) [OF media Cons False] "1.prems"(3) media Cons False by (simp add: peekLoop.simps [of s])
      qed
    qed
  qed
qed

lemma peekMedia_inner_ok:
  assumes "sizes_ok s" "inner_ok s" "peekMediaLocked s = (r, t)"
  shows "inner_ok t"
proof -
  let ?u = "if innerStarted s then s else (addInnerRoundLocked s)\<lparr>innerStarted := True\<rparr>"
  have "inner_ok ?u" using assms(2) inner_ok_start by simp
  moreover have "sizes_ok ?u" using assms(1) by (simp add: sizes_ok_def addInnerRoundLocked_def)
  ultimately show ?thesis
    using peekLoop_inner_ok [of ?u] assms(3) by (simp add: peekMediaLocked_def split: if_splits)
qed

text \<open>
  With bulk waiting, \<open>outerDeficit 0 - 3 * outerDeficit 1\<close> never rises, and with media waiting its
  negation never rises: a round credits both lanes in the ratio three to one.
\<close>

definition lane_drift :: "Scheduler \<Rightarrow> int" where
  "lane_drift s = outerDeficit s 0 - 3 * outerDeficit s 1"

lemma outer_ok_start:
  assumes "outer_ok s" "\<not> outerStarted s"
  shows "outer_ok ((addOuterRoundLocked s)\<lparr>outerStarted := True\<rparr>)"
  using assms by (auto simp: outer_ok_def addOuterRoundLocked_def sched_numbers)

lemma outer_ok_advance:
  assumes "outer_ok s" "outerStarted s"
    "outerCurrent s = 0 \<Longrightarrow> outerDeficit s 0 < ThumbnailQueueCapBytes"
    "outerCurrent s = 1 \<Longrightarrow> outerDeficit s 1 < BulkQueueCapBytes"
  shows "outer_ok (advanceOuterLocked s)"
proof -
  have "outerCurrent s = 0 \<or> outerCurrent s = 1" using assms(1) by (auto simp: outer_ok_def)
  then show ?thesis
    using assms by (auto simp: outer_ok_def advanceOuterLocked_def addOuterRoundLocked_def sched_numbers Let_def)
qed

lemma add_round_drift:
  assumes "outer_ok s"
  shows "queues s ClassBulk \<noteq> [] \<Longrightarrow> lane_drift (addOuterRoundLocked s) \<le> lane_drift s"
    "hasMediaLocked s \<Longrightarrow> lane_drift s \<le> lane_drift (addOuterRoundLocked s)"
  using assms by (auto simp: outer_ok_def lane_drift_def addOuterRoundLocked_def sched_numbers)

lemma advance_drift:
  assumes "outer_ok s"
  shows "queues s ClassBulk \<noteq> [] \<Longrightarrow> lane_drift (advanceOuterLocked s) \<le> lane_drift s"
    "hasMediaLocked s \<Longrightarrow> lane_drift s \<le> lane_drift (advanceOuterLocked s)"
  using assms by (auto simp: outer_ok_def lane_drift_def addOuterRoundLocked_def advanceOuterLocked_def
      sched_numbers Let_def hasMediaLocked_def)

lemma advance_rr [simp]:
  "outerStarted (advanceOuterLocked s) = outerStarted s" "inner_ok (advanceOuterLocked s) = inner_ok s"
  "controlBurst (advanceOuterLocked s) = controlBurst s"
  by (simp_all add: advanceOuterLocked_def addOuterRoundLocked_def inner_ok_def Let_def)

text \<open>What a data pick does to the round robin fields.\<close>

definition fair_pick :: "Scheduler \<Rightarrow> sendRequest \<Rightarrow> Scheduler \<Rightarrow> bool" where
  "fair_pick s r t \<longleftrightarrow> rr_ok t
     \<and> (queues s ClassBulk \<noteq> [] \<and> sr_class r \<noteq> ClassBulk \<longrightarrow> lane_drift t + rlen r \<le> lane_drift s)
     \<and> (hasMediaLocked s \<and> sr_class r = ClassBulk \<longrightarrow> lane_drift s + 3 * rlen r \<le> lane_drift t)"

lemma fair_pick_earlier:
  assumes "fair_pick u r t" "queues u = queues s"
    "queues s ClassBulk \<noteq> [] \<Longrightarrow> lane_drift u \<le> lane_drift s"
    "hasMediaLocked s \<Longrightarrow> lane_drift s \<le> lane_drift u"
  shows "fair_pick s r t"
proof -
  have "hasMediaLocked u = hasMediaLocked s" using assms(2) by (simp add: hasMediaLocked_def)
  then show ?thesis using assms by (auto simp: fair_pick_def)
qed

lemma pop_fair:
  assumes "popLocked c u = Some (r, t)" "rr_ok u"
  shows "rr_ok t"
    "hasClassDemandLocked ClassBulk t \<Longrightarrow> lane_drift t \<le> lane_drift u"
    "hasMediaDemandLocked t \<Longrightarrow> lane_drift u \<le> lane_drift t"
proof -
  obtain q where q: "queues u c = r # q" using assms(1) by (auto simp: popLocked_def Let_def split: list.splits)
  define v where "v = u\<lparr>queues := (queues u)(c := q)\<rparr>"
  have t: "t = (if q = [] then resetEmptyLaneLocked c v else v)"
    using assms(1) q by (auto simp: popLocked_def v_def Let_def)
  have same: "same_rr u v" by (simp add: v_def same_rr_def)
  have v: "rr_ok v" using same_rr_ok [OF same] assms(2) by simp
  have dr: "lane_drift v = lane_drift u" using same by (simp add: lane_drift_def same_rr_def)
  show "rr_ok t" using t v reset_rr by simp
  have dem: "hasClassDemandLocked ClassBulk v = hasClassDemandLocked ClassBulk t"
    "hasMediaDemandLocked v = hasMediaDemandLocked t"
    using reset_core(1) [of c v] t
    by (simp_all add: hasClassDemandLocked_def hasMediaDemandLocked_def same_core_def)
  show "lane_drift t \<le> lane_drift u" if "hasClassDemandLocked ClassBulk t"
    using that reset_outer(1) [OF v, of c] t dr dem by (auto simp: lane_drift_def)
  show "lane_drift u \<le> lane_drift t" if "hasMediaDemandLocked t"
    using that reset_outer(2) [OF v, of c] t dr dem by (auto simp: lane_drift_def)
qed

lemma media_pick_fair:
  assumes "rr_ok s" "sizes_ok s" "class_ok s" "peekMediaLocked s = (Some r, s1)"
    "rlen r \<le> outerDeficit s1 0" "hasMediaLocked s"
    "popLocked (sr_class r) (s1\<lparr>outerDeficit := (outerDeficit s1)(0 := outerDeficit s1 0 - rlen r)\<rparr>) = Some (r', t)"
  shows "fair_pick s r' t"
proof -
  let ?u = "s1\<lparr>outerDeficit := (outerDeficit s1)(0 := outerDeficit s1 0 - rlen r)\<rparr>"
  have fr: "restoreInner s s1 = s" using peekMedia_frame [OF assms(4)] .
  have f: "outerStarted s1 = outerStarted s" "controlBurst s1 = controlBurst s"
    using arg_cong [OF fr, of outerStarted] arg_cong [OF fr, of controlBurst] by (simp_all add: restoreInner_def)
  note f = f restoreInner_eqD [OF fr]
  obtain c q where c: "c \<in> {ClassInteractiveMedia, ClassThumbnail}" and q: "queues s c = r # q"
    using peekMedia_head [OF assms(6)] assms(4) by auto
  then have cl: "sr_class r = c" using assms(3) by (auto simp: class_ok_def)
  have u: "rr_ok ?u"
    using assms(1,5) f peekMedia_inner_ok [OF assms(2) _ assms(4)]
    by (auto simp: rr_ok_def outer_ok_def inner_ok_def)
  have r': "r' = r" "queues t = (queues s)(c := q)"
    using pop_core(1,2) [OF assms(7)] cl q f by auto
  have dr: "lane_drift ?u = lane_drift s - rlen r" using f by (simp add: lane_drift_def)
  have "hasClassDemandLocked ClassBulk t" if "queues s ClassBulk \<noteq> []"
    using that c r'(2) by (auto simp: hasClassDemandLocked_def)
  then show ?thesis
    using pop_fair [OF assms(7) u] dr r'(1) cl c by (auto simp: fair_pick_def)
qed

lemma bulk_pick_fair:
  assumes "rr_ok s" "class_ok s" "queues s ClassBulk = r # q" "rlen r \<le> outerDeficit s 1"
    "popLocked ClassBulk (s\<lparr>outerDeficit := (outerDeficit s)(1 := outerDeficit s 1 - rlen r)\<rparr>) = Some (r', t)"
  shows "fair_pick s r' t"
proof -
  let ?u = "s\<lparr>outerDeficit := (outerDeficit s)(1 := outerDeficit s 1 - rlen r)\<rparr>"
  have u: "rr_ok ?u" using assms(1,4) by (auto simp: rr_ok_def outer_ok_def inner_ok_def)
  have cl: "sr_class r = ClassBulk" using assms(2,3) by (auto simp: class_ok_def)
  have r': "r' = r" "queues t = (queues s)(ClassBulk := q)" using pop_core(1,2) [OF assms(5)] assms(3) by auto
  have dr: "lane_drift ?u = lane_drift s + 3 * rlen r" by (simp add: lane_drift_def)
  have "hasMediaDemandLocked t" if "hasMediaLocked s"
    using that r'(2) by (auto simp: hasMediaDemandLocked_def hasMediaLocked_def hasClassDemandLocked_def)
  then show ?thesis
    using pop_fair [OF assms(5) u] dr r'(1) cl by (auto simp: fair_pick_def)
qed

lemma nextDataLoop_fair:
  assumes "rr_ok s" "outerStarted s" "sizes_ok s" "class_ok s" "nextDataLoop s = Some (Some r, t)"
  shows "fair_pick s r t"
  using assms
proof (induction s rule: nextDataLoop.induct)
  case (1 s)
  note prems = "1.prems"
  have cur: "outerCurrent s = 0 \<or> outerCurrent s = 1" using prems(1) by (auto simp: rr_ok_def outer_ok_def)
  have some: "hasMediaLocked s \<or> queues s ClassBulk \<noteq> []"
    using prems(5) by (auto simp: nextDataLoop.simps [of s] split: if_splits)
  have go: "fair_pick s r t"
    if loop: "nextDataLoop s = nextDataLoop (advanceOuterLocked u)" and u: "outer_ok u" "queues u = queues s"
      "outerStarted u" "inner_ok u" "controlBurst u = controlBurst s"
      and room: "outerCurrent u = 0 \<Longrightarrow> outerDeficit u 0 < ThumbnailQueueCapBytes"
        "outerCurrent u = 1 \<Longrightarrow> outerDeficit u 1 < BulkQueueCapBytes"
      and drift: "queues s ClassBulk \<noteq> [] \<Longrightarrow> lane_drift u \<le> lane_drift s"
        "hasMediaLocked s \<Longrightarrow> lane_drift s \<le> lane_drift u"
      and IH: "rr_ok (advanceOuterLocked u) \<Longrightarrow> outerStarted (advanceOuterLocked u) \<Longrightarrow>
        sizes_ok (advanceOuterLocked u) \<Longrightarrow> class_ok (advanceOuterLocked u) \<Longrightarrow>
        nextDataLoop (advanceOuterLocked u) = Some (Some r, t) \<Longrightarrow> fair_pick (advanceOuterLocked u) r t" for u
  proof (rule fair_pick_earlier [OF IH])
    show "rr_ok (advanceOuterLocked u)"
      using outer_ok_advance [OF u(1,3) room] u prems(1) by (simp add: rr_ok_def)
    have "hasMediaLocked u = hasMediaLocked s" using u(2) by (simp add: hasMediaLocked_def)
    then show "queues s ClassBulk \<noteq> [] \<Longrightarrow> lane_drift (advanceOuterLocked u) \<le> lane_drift s"
      "hasMediaLocked s \<Longrightarrow> lane_drift s \<le> lane_drift (advanceOuterLocked u)"
      using advance_drift [OF u(1)] drift u(2) by auto
  qed (use u prems loop in \<open>auto simp: sizes_ok_def class_ok_def\<close>)
  show ?case
  proof (cases "outerCurrent s = 0")
    case c0: True
    show ?thesis
    proof (cases "hasMediaLocked s")
      case False
      show ?thesis
        by (rule go [OF _ _ _ _ _ _ _ _ _ _ "1.IH"(1) [OF some c0 False]])
          (use c0 False some prems in \<open>auto simp: nextDataLoop.simps [of s] rr_ok_def outer_ok_def inner_ok_def
              lane_drift_def sched_numbers\<close>)
    next
      case media: True
      obtain r' s1 where pk: "peekMediaLocked s = (Some r', s1)" using media_head_peek [OF media] by blast
      have fr: "restoreInner s s1 = s" using peekMedia_frame [OF pk] .
      show ?thesis
      proof (cases "rlen r' \<le> outerDeficit s1 0")
        case True
        then show ?thesis
          using media_pick_fair [OF prems(1,3,4) pk True media] prems(5) c0 media pk
          by (auto simp: nextDataLoop.simps [of s])
      next
        case False
        obtain c q where "c \<in> {ClassInteractiveMedia, ClassThumbnail}" "queues s c = r' # q"
          using peekMedia_head [OF media] pk by auto
        then have "rlen r' \<le> ThumbnailQueueCapBytes"
          using head_size [OF prems(3), of c r' q] by (auto simp: sched_numbers)
        then show ?thesis
          using False restoreInner_eqD(2) [OF fr]
          by (intro go [OF _ _ _ _ _ _ _ _ _ _ "1.IH"(2) [OF some c0 _ pk [symmetric] refl False]])
            (use c0 media pk prems fr in \<open>auto simp: nextDataLoop.simps [of s] rr_ok_def\<close>)
      qed
    qed
  next
    case c1: False
    show ?thesis
    proof (cases "queues s ClassBulk")
      case Nil
      show ?thesis
        by (rule go [OF _ _ _ _ _ _ _ _ _ _ "1.IH"(3) [OF some c1 Nil]])
          (use c1 cur Nil some prems in \<open>auto simp: nextDataLoop.simps [of s] rr_ok_def outer_ok_def inner_ok_def
              lane_drift_def sched_numbers\<close>)
    next
      case (Cons r' q)
      show ?thesis
      proof (cases "rlen r' \<le> outerDeficit s 1")
        case True
        then show ?thesis
          using bulk_pick_fair [OF prems(1,4) Cons True] prems(5) c1 Cons
          by (auto simp: nextDataLoop.simps [of s])
      next
        case False
        have "rlen r' \<le> BulkQueueCapBytes" using head_size [OF prems(3) Cons] by simp
        then show ?thesis
          using False
          by (intro go [OF _ _ _ _ _ _ _ _ _ _ "1.IH"(4) [OF some c1 Cons False]])
            (use c1 cur Cons prems in \<open>auto simp: nextDataLoop.simps [of s] rr_ok_def\<close>)
      qed
    qed
  qed
qed

lemma nextData_fair:
  assumes "rr_ok s" "sizes_ok s" "class_ok s" "nextDataLocked s = Some (Some r, t)"
  shows "fair_pick s r t"
proof (cases "outerStarted s")
  case True
  then show ?thesis using assms nextDataLoop_fair by (simp add: nextDataLocked_def)
next
  case False
  let ?u = "(addOuterRoundLocked s)\<lparr>outerStarted := True\<rparr>"
  have ok: "outer_ok s" using assms(1) by (simp add: rr_ok_def)
  have qu: "queues ?u = queues s" by (simp add: addOuterRoundLocked_def)
  have "inner_ok ?u = inner_ok s" "controlBurst ?u = controlBurst s"
    by (simp_all add: inner_ok_def addOuterRoundLocked_def)
  then have "fair_pick ?u r t"
    using assms False outer_ok_start [OF ok False] qu
    by (intro nextDataLoop_fair) (simp_all add: rr_ok_def nextDataLocked_def sizes_ok_def class_ok_def)
  then show ?thesis
    by (rule fair_pick_earlier) (use qu add_round_drift [OF ok] in \<open>simp_all add: lane_drift_def\<close>)
qed

section \<open>Every step\<close>

text \<open>The steps of the scheduler other than a pick of the pump.\<close>

inductive off_step :: "Scheduler \<Rightarrow> Scheduler \<Rightarrow> bool" where
  off_send: "Send ctx_err c kind payload s = (r, t) \<Longrightarrow> off_step s t"
| off_cancel_waiter: "allWaiters s (aw_id w) = Some w \<Longrightarrow> Send_cancel_waiter w s = (b, t) \<Longrightarrow> off_step s t"
| off_cancel_request: "requests s (sr_id r) = Some r \<Longrightarrow> Send_cancel_request r s = (b, t) \<Longrightarrow> off_step s t"
| off_close: "off_step s (Close s)"
| off_pump_wake: "off_step s (pump_wake s)"
| off_pump_written: "pump_at s = PumpWriting \<Longrightarrow> active s = Some r \<Longrightarrow> off_step s (pump_written err r s)"

inductive_cases off_stepE: "off_step s t"

lemma sched_step_iff:
  "sched_step s t \<longleftrightarrow> off_step s t \<or> pump_at s = PumpIdle \<and> pump_lock s = Some t"
  by (auto elim!: sched_step.cases off_step.cases intro: sched_step.intros off_step.intros)

lemma enqueue_same_rr: "enqueueLocked c k p s = (r, t) \<Longrightarrow> same_rr s t"
  by (drule enqueue_fields(2)) (simp add: same_rr_def)

lemma admitLoop_same_rr: "admitLoop cap c ws s = (ws', t) \<Longrightarrow> same_rr s t"
proof (induction cap c ws s arbitrary: ws' t rule: admitLoop.induct)
  case (2 cap c w ws s)
  obtain r s1 where e: "enqueueLocked (aw_class w) (aw_kind w) (aw_payload w) s = (r, s1)" by force
  have "same_rr s (s1\<lparr>waiterRequest := m, ready_ch := y\<rparr>)" for m y
    using enqueue_same_rr [OF e] by (simp add: same_rr_def)
  then show ?case using 2 e by (fastforce split: if_splits intro: same_rr_trans)
qed simp

lemma admit_same_rr: "same_rr s (admitWaitersLocked c s)"
proof -
  obtain ws t where "admitLoop (fst (classCap c)) c (admissionWaiters s c) s = (ws, t)" by force
  with admitLoop_same_rr [OF this] show ?thesis by (simp add: admitWaitersLocked_def same_rr_def)
qed

lemma fold_same_rr: "(\<And>x s. same_rr s (f x s)) \<Longrightarrow> same_rr s (fold f xs s)"
  by (induction xs arbitrary: s) (auto intro: same_rr_trans)

lemma fail_same_rr: "same_rr s (failAll e s)"
proof -
  have "same_rr u (fold (failWaiter e) ws u)" "same_rr u (fold (failRequest e c) rs u)" for u ws rs c
    by (rule fold_same_rr, simp add: failWaiter_def failRequest_def same_rr_def)+
  then have "same_rr u (failWaiters e c u)" "same_rr u (failQueue e c u)" for u c
    by (simp_all add: failWaiters_def failQueue_def same_rr_def)
  then have "same_rr u (failAdmissionWaitersLocked e u)" "same_rr u (failQueuedLocked e u)" for u
    unfolding failAdmissionWaitersLocked_def failQueuedLocked_def by (auto intro: fold_same_rr)
  then show ?thesis using same_rr_trans by blast
qed

text \<open>A step off the pump leaves the round robin fields alone, or resets an empty lane first.\<close>

definition drift_kept :: "Scheduler \<Rightarrow> Scheduler \<Rightarrow> bool" where
  "drift_kept s t \<longleftrightarrow> rr_ok t \<and> controlBurst t = controlBurst s
     \<and> (hasClassDemandLocked ClassBulk t \<longrightarrow> lane_drift t \<le> lane_drift s)
     \<and> (hasMediaDemandLocked t \<longrightarrow> lane_drift s \<le> lane_drift t)"

lemma same_rr_kept: "rr_ok s \<Longrightarrow> same_rr s t \<Longrightarrow> drift_kept s t"
  using same_rr_ok [of s t] by (simp add: drift_kept_def same_rr_def lane_drift_def)

lemma admit_demand:
  assumes "stock_ok s" "hasClassDemandLocked c' (admitWaitersLocked c s)"
  shows "hasClassDemandLocked c' s"
proof (cases "c' = c \<and> admissionWaiters s c \<noteq> []")
  case False
  then have "queues (admitWaitersLocked c s) c' = queues s c' \<and>
      admissionWaiters (admitWaitersLocked c s) c' = admissionWaiters s c'"
    using admit_stock(3) [OF assms(1), of c] by (auto simp: others_same_def admitWaitersLocked_def)
  then show ?thesis using assms(2) by (simp add: hasClassDemandLocked_def)
qed (simp add: hasClassDemandLocked_def)

lemma reset_admit_kept:
  assumes "rr_ok s" "same_rr s s0" "s1 = s0 \<or> s1 = resetEmptyLaneLocked c s0" "same_rr s1 s2"
    "queues s2 = queues s1" "admissionWaiters s2 = admissionWaiters s1" "stock_ok s2" "t = admitWaitersLocked c s2"
  shows "drift_kept s t"
proof -
  have ok0: "rr_ok s0" using same_rr_ok [OF assms(2)] assms(1) by simp
  have ok1: "rr_ok s1" "controlBurst s1 = controlBurst s0" using assms(3) ok0 reset_rr by auto
  have rr: "same_rr s1 t" using same_rr_trans [OF assms(4) admit_same_rr] assms(8) by simp
  have dem: "hasClassDemandLocked c' t \<Longrightarrow> hasClassDemandLocked c' s0" for c'
    using admit_demand [OF assms(7), of c' c] assms(3,5,6,8) reset_core(1) [of c s0]
    by (auto simp: hasClassDemandLocked_def same_core_def)
  have d1: "hasClassDemandLocked ClassBulk s0 \<Longrightarrow> lane_drift s1 \<le> lane_drift s0"
    "hasMediaDemandLocked s0 \<Longrightarrow> lane_drift s0 \<le> lane_drift s1"
    using assms(3) reset_outer [OF ok0, of c] by (auto simp: lane_drift_def)
  have "lane_drift t = lane_drift s1" "lane_drift s0 = lane_drift s"
    using rr assms(2) by (simp_all add: same_rr_def lane_drift_def)
  then show ?thesis
    using d1 dem same_rr_ok [OF rr] ok1 rr assms(2)
    by (auto simp: drift_kept_def same_rr_def hasMediaDemandLocked_def)
qed

lemma off_step_kept:
  assumes "off_step s t" "sched_inv s" "rr_ok s"
  shows "drift_kept s t"
  using assms(1)
proof (cases rule: off_step.cases)
  case (off_send e c k p r)
  then show ?thesis
    by (cases rule: Send_cases) (auto intro!: same_rr_kept assms(3) dest: enqueue_same_rr simp: same_rr_def)
next
  case (off_cancel_waiter w b)
  have "stock_ok s" using assms(2) by (simp add: sched_inv_def)
  from this off_cancel_waiter(2) show ?thesis
  proof (cases rule: cancel_waiter_form)
    case (removed xs v ys s0 s1)
    then show ?thesis
      by (intro reset_admit_kept [OF assms(3), of s0 s1 "aw_class w" s1]) (auto simp: same_rr_def)
  qed (simp add: same_rr_kept assms(3))
next
  case (off_cancel_request r b)
  have "stock_ok s" using assms(2) by (simp add: sched_inv_def)
  from this off_cancel_request show ?thesis
  proof (cases rule: cancel_request_form)
    case (removed xs ys s0 s1 s2)
    then show ?thesis
      by (intro reset_admit_kept [OF assms(3), of s0 s1 "sr_class r" s2]) (auto simp: same_rr_def)
  qed (simp add: same_rr_kept assms(3))
next
  case off_close
  have "same_rr s (Close s)"
    using fail_same_rr [of "s\<lparr>terminal := Some ErrSchedulerClosed\<rparr>" ErrSchedulerClosed]
    by (auto simp: Close_def signalLocked_def same_rr_def)
  then show ?thesis using off_close same_rr_kept assms(3) by simp
next
  case off_pump_wake
  then show ?thesis
    using assms(3) by (auto intro!: same_rr_kept simp: pump_wake_def same_rr_def split: pump_pc.splits)
next
  case (off_pump_written r err)
  have "same_rr s (pump_written err r s)"
    using fail_same_rr admit_same_rr
    by (auto simp: pump_written_def Let_def signalLocked_def same_rr_def split: option.splits)
  then show ?thesis using off_pump_written(1) same_rr_kept assms(3) by simp
qed

lemma took_queue:
  assumes "took c r s t" "class_ok s"
  shows "sr_class r = c" "c' \<noteq> c \<Longrightarrow> queues t c' = queues s c'" "admissionWaiters t = admissionWaiters s"
    "active t = active s"
proof -
  show "sr_class r = c" using assms by (auto simp: took_def class_ok_def)
  show "c' \<noteq> c \<Longrightarrow> queues t c' = queues s c'" using assms(1) by (metis fun_upd_other took_def)
  show "admissionWaiters t = admissionWaiters s" "active t = active s"
    using assms(1) by (auto simp: took_def same_core_def)
qed

text \<open>What taking the lock does, for a pump that is idle: nothing, a control pick, or a data pick.\<close>

lemma pump_lock_cases:
  assumes "sched_inv s" "rr_ok s" "pump_at s = PumpIdle" "pump_lock s = Some t"
  obtains (rest) "active t = None" "same_rr s t" "queues t = queues s"
  | (control) r where "active t = Some r" "sr_class r = ClassControl" "drift_kept (s\<lparr>controlBurst := controlBurst t\<rparr>) t"
      "controlBurst t = controlBurst s + 1" "controlBurst s < ControlBurstLimit \<or> \<not> dataWaiting s"
  | (data) r where "active t = Some r" "sr_class r \<in> {ClassInteractiveMedia, ClassThumbnail, ClassBulk}"
      "fair_pick s r t" "controlBurst t = 0"
proof (cases "terminal s")
  case (Some e)
  then show thesis using assms by (intro rest) (auto simp: pump_lock_def sched_inv_def pump_ok_def same_rr_def)
next
  case None
  have st: "stock_ok s" and act: "active s = None"
    using assms(1,3) by (auto simp: sched_inv_def pump_ok_def)
  note cl = stock_class_ok [OF st]
  from cl show thesis
  proof (cases rule: nextLocked_cases)
    case none_queued
    then show thesis using None assms(4) act by (intro rest) (auto simp: pump_lock_def same_rr_def)
  next
    case (control r u)
    have t: "t = u\<lparr>active := Some r, pump_at := PumpWriting\<rparr>" using control(1) None assms(4) by (simp add: pump_lock_def)
    let ?v = "s\<lparr>controlBurst := controlBurst s + 1\<rparr>"
    have pop: "popLocked ClassControl ?v = Some (r, u)" using control(5) by (auto simp: popControl_def)
    have "rr_ok ?v" using assms(2) by (simp add: rr_ok_def outer_ok_def inner_ok_def)
    note pf = pop_fair [OF pop this]
    have "rr_ok t = rr_ok u" by (rule same_rr_ok) (simp add: t same_rr_def)
    then have "drift_kept (s\<lparr>controlBurst := controlBurst t\<rparr>) t"
      using pf t by (simp add: drift_kept_def lane_drift_def hasClassDemandLocked_def hasMediaDemandLocked_def)
    then show thesis
      using took_queue(1) [OF control(2) cl] control(3,4) t by (intro that(2) [of r]) auto
  next
    case (data c r u)
    have t: "t = u\<lparr>active := Some r, pump_at := PumpWriting\<rparr>" using data(1) None assms(4) by (simp add: pump_lock_def)
    obtain u' where u': "nextDataLocked s = Some (Some r, u')" "u = u'\<lparr>controlBurst := 0\<rparr>"
      using data(6) by blast
    have "fair_pick s r u'" using nextData_fair [OF assms(2) stock_sizes_ok [OF st] cl u'(1)] .
    then have "fair_pick s r t"
      using t u'(2) by (simp add: fair_pick_def rr_ok_def outer_ok_def inner_ok_def lane_drift_def)
    then show thesis
      using took_queue(1) [OF data(2) cl] data(3,5) t by (intro that(3) [of r]) auto
  qed
qed

lemma pump_lock_rr:
  assumes "sched_inv s" "rr_ok s" "pump_at s = PumpIdle" "pump_lock s = Some t"
  shows "rr_ok t"
  using assms
proof (cases rule: pump_lock_cases)
  case rest
  then show ?thesis using same_rr_ok assms(2) by blast
qed (simp_all add: drift_kept_def fair_pick_def)

interpretation fair: guarded_machine "\<lambda>s. s = NewScheduler" sched_step "\<lambda>s. sched_inv s \<and> rr_ok s"
proof (unfold_locales, goal_cases)
  case (1 s)
  then show ?case by (simp add: sched_inv_New) (simp add: NewScheduler_def rr_ok_def outer_ok_def inner_ok_def sched_numbers)
next
  case (2 s t)
  then show ?case
    using sched_step_inv [of s t] off_step_kept [of s t] pump_lock_rr [of s t]
    by (auto simp: sched_step_iff drift_kept_def)
qed

lemma reachable_rr: "sched_reachable s \<Longrightarrow> sched_inv s \<and> rr_ok s"
  unfolding sched_reachable_def by (rule fair.reachable_safe [OF refl])

section \<open>Runs in which a lane waits\<close>

text \<open>
  \<open>pick_run W P wt s n t\<close>: the scheduler goes from \<open>s\<close> to \<open>t\<close>, \<open>W\<close> holds in every state on the
  way, every request the pump picks satisfies \<open>P\<close>, and the picks weigh \<open>n\<close> together. The steps of
  the senders and of the writer are arbitrary.
\<close>

inductive pick_run ::
  "(Scheduler \<Rightarrow> bool) \<Rightarrow> (sendRequest \<Rightarrow> bool) \<Rightarrow> (sendRequest \<Rightarrow> int) \<Rightarrow> Scheduler \<Rightarrow> int \<Rightarrow> Scheduler \<Rightarrow> bool"
  for W P wt s where
  run_start: "W s \<Longrightarrow> pick_run W P wt s 0 s"
| run_off: "pick_run W P wt s n t \<Longrightarrow> off_step t u \<Longrightarrow> W u \<Longrightarrow> pick_run W P wt s n u"
| run_pick: "pick_run W P wt s n t \<Longrightarrow> pump_at t = PumpIdle \<Longrightarrow> pump_lock t = Some u \<Longrightarrow> W u
    \<Longrightarrow> \<forall>r. active u = Some r \<longrightarrow> P r
    \<Longrightarrow> pick_run W P wt s (n + (case active u of None \<Rightarrow> 0 | Some r \<Rightarrow> wt r)) u"

lemma run_waits: "pick_run W P wt s n t \<Longrightarrow> W s \<and> W t"
  by (induction rule: pick_run.induct) auto

lemma run_steps:
  assumes "pick_run W P wt s n t"
  shows "sched_step\<^sup>*\<^sup>* s t"
  using assms by (induction rule: pick_run.induct) (auto simp: sched_step_iff intro: rtranclp.rtrancl_into_rtrancl)

lemma run_ok: "sched_inv s \<Longrightarrow> rr_ok s \<Longrightarrow> pick_run W P wt s n t \<Longrightarrow> sched_inv t \<and> rr_ok t"
  using fair.run_safe run_steps by blast

lemma bulk_wait_run:
  assumes "pick_run (\<lambda>s. queues s ClassBulk \<noteq> []) (\<lambda>r. sr_class r \<noteq> ClassBulk)
      (\<lambda>r. if sr_class r = ClassControl then 0 else rlen r) s n t"
    "sched_inv s" "rr_ok s"
  shows "lane_drift t + n \<le> lane_drift s"
  using assms
proof (induction rule: pick_run.induct)
  case (run_off n t u)
  then show ?case
    using off_step_kept [of t u] run_ok [OF run_off.prems run_off.hyps(1)]
    by (auto simp: drift_kept_def hasClassDemandLocked_def)
next
  case (run_pick n t u)
  have ok: "sched_inv t" "rr_ok t" using run_ok [OF run_pick.prems run_pick.hyps(1)] by auto
  have w: "queues t ClassBulk \<noteq> []" using run_waits [OF run_pick.hyps(1)] by simp
  from ok run_pick.hyps(2,3) have "lane_drift u + (case active u of None \<Rightarrow> 0
      | Some r \<Rightarrow> if sr_class r = ClassControl then 0 else rlen r) \<le> lane_drift t"
  proof (cases rule: pump_lock_cases)
    case rest
    then show ?thesis by (simp add: same_rr_def lane_drift_def)
  next
    case (control r)
    then show ?thesis
      using run_pick.hyps(4) by (auto simp: drift_kept_def lane_drift_def hasClassDemandLocked_def)
  next
    case (data r)
    then show ?thesis using w run_pick.hyps(5) by (auto simp: fair_pick_def)
  qed
  then show ?case using run_pick.IH [OF run_pick.prems] by linarith
qed simp

lemma media_wait_run:
  assumes "pick_run hasMediaLocked (\<lambda>r. sr_class r = ClassControl \<or> sr_class r = ClassBulk)
      (\<lambda>r. if sr_class r = ClassControl then 0 else rlen r) s n t"
    "sched_inv s" "rr_ok s"
  shows "lane_drift s + 3 * n \<le> lane_drift t"
  using assms
proof (induction rule: pick_run.induct)
  case (run_off n t u)
  then show ?case
    using off_step_kept [of t u] run_ok [OF run_off.prems run_off.hyps(1)]
    by (auto simp: drift_kept_def hasMediaDemandLocked_def hasMediaLocked_def hasClassDemandLocked_def)
next
  case (run_pick n t u)
  have ok: "sched_inv t" "rr_ok t" using run_ok [OF run_pick.prems run_pick.hyps(1)] by auto
  have w: "hasMediaLocked t" using run_waits [OF run_pick.hyps(1)] by simp
  from ok run_pick.hyps(2,3) have "lane_drift t + 3 * (case active u of None \<Rightarrow> 0
      | Some r \<Rightarrow> if sr_class r = ClassControl then 0 else rlen r) \<le> lane_drift u"
  proof (cases rule: pump_lock_cases)
    case rest
    then show ?thesis by (simp add: same_rr_def lane_drift_def)
  next
    case (control r)
    then show ?thesis
      using run_pick.hyps(4)
      by (auto simp: drift_kept_def lane_drift_def hasMediaDemandLocked_def hasMediaLocked_def hasClassDemandLocked_def)
  next
    case (data r)
    then show ?thesis using w run_pick.hyps(5) by (auto simp: fair_pick_def)
  qed
  then show ?case using run_pick.IH [OF run_pick.prems] by (simp add: algebra_simps)
qed simp

lemma burst_run:
  assumes "pick_run dataWaiting (\<lambda>r. sr_class r = ClassControl) (\<lambda>_. 1) s n t" "sched_inv s" "rr_ok s"
  shows "n = controlBurst t - controlBurst s \<and> (n = 0 \<or> controlBurst t \<le> ControlBurstLimit)"
  using assms
proof (induction rule: pick_run.induct)
  case (run_off n t u)
  then show ?case
    using off_step_kept [of t u] run_ok [OF run_off.prems run_off.hyps(1)] by (auto simp: drift_kept_def)
next
  case (run_pick n t u)
  have ok: "sched_inv t" "rr_ok t" using run_ok [OF run_pick.prems run_pick.hyps(1)] by auto
  have w: "dataWaiting t" using run_waits [OF run_pick.hyps(1)] by simp
  from ok run_pick.hyps(2,3) show ?case
  proof (cases rule: pump_lock_cases)
    case rest
    then show ?thesis using run_pick.IH [OF run_pick.prems] by (auto simp: same_rr_def)
  next
    case (control r)
    then show ?thesis using run_pick.IH [OF run_pick.prems] w by auto
  next
    case (data r)
    then show ?thesis using run_pick.hyps(5) by auto
  qed
qed simp

end
