(* ===== verification/Scheduler_Properties.thy ===== *)
theory Scheduler_Properties
  imports Scheduler_Fairness
begin

text \<open>
  What the scheduler promises its callers, for every state that any interleaving of senders,
  cancellations, \<^verbatim>\<open>Close\<close> and the pump can reach from \<^verbatim>\<open>NewScheduler\<close>.
\<close>

lemma reachable_send: "sched_reachable s \<Longrightarrow> sched_reachable (snd (Send e c k p s))"
  unfolding sched_reachable_def
  by (erule rtranclp.rtrancl_into_rtrancl) (rule step_send [OF prod.collapse [symmetric]])

text \<open>A small reachable state the witnesses use: one bulk and one control request queued.\<close>

definition example_queued :: Scheduler where
  "example_queued =
     snd (Send None ClassControl KindText [1, 2] (snd (Send None ClassBulk KindBinary [7, 8, 9] NewScheduler)))"

lemma example_queued_reachable: "sched_reachable example_queued"
  unfolding example_queued_def by (intro reachable_send) (simp add: sched_reachable_def)

text \<open>
  (C1) In every reachable state the byte counter of every class is exactly the payload bytes of the
  requests that are queued or being written, and it never exceeds the capacity of the class.
\<close>

theorem scheduler_books_balance:
  assumes "sched_reachable s"
  shows "queued_bytes s c = qbytes (queues s c @ writing (active s) c) \<and> queued_bytes s c \<le> fst (classCap c)"
  using reachable_inv [OF assms] unfolding sched_inv_def stock_ok_def queue_ok_def pending_def by blast

theorem scheduler_books_balance_witness:
  "queued_bytes example_queued ClassBulk
     = qbytes (queues example_queued ClassBulk @ writing (active example_queued) ClassBulk)
   \<and> queued_bytes example_queued ClassBulk \<le> fst (classCap ClassBulk)"
  by (rule scheduler_books_balance [OF example_queued_reachable])

text \<open>
  (C2) No lost wake-up: a pump that sleeps on the current notification channel, the one nobody has
  closed yet, has nothing to send, and the scheduler is not closed.
\<close>

theorem scheduler_no_lost_wakeup:
  assumes "sched_reachable s" "pump_at s = PumpWaiting (notify s)"
  shows "queues s c = [] \<and> terminal s = None"
  using reachable_inv [OF assms(1)] assms(2) by (auto simp: sched_inv_def pump_ok_def)

lemma pump_sleeps_at_start: "pump_lock NewScheduler = Some (NewScheduler\<lparr>pump_at := PumpWaiting 0\<rparr>)"
  by (simp add: pump_lock_def nextLocked_def dataWaiting_def hasMediaLocked_def NewScheduler_def)

lemma sleeping_reachable: "sched_reachable (NewScheduler\<lparr>pump_at := PumpWaiting 0\<rparr>)"
  unfolding sched_reachable_def
  by (rule r_into_rtranclp, rule step_pump_lock [OF _ pump_sleeps_at_start]) (simp add: NewScheduler_def)

theorem scheduler_no_lost_wakeup_witness:
  "queues (NewScheduler\<lparr>pump_at := PumpWaiting 0\<rparr>) ClassBulk = []
   \<and> terminal (NewScheduler\<lparr>pump_at := PumpWaiting 0\<rparr>) = None"
  by (rule scheduler_no_lost_wakeup [OF sleeping_reachable]) (simp add: NewScheduler_def)


text \<open>A state with a sender waiting: bulk is full.\<close>

definition example_full :: Scheduler where
  "example_full = snd (Send None ClassBulk KindBinary [1]
     (snd (Send None ClassBulk KindBinary (replicate 262144 0) NewScheduler)))"

definition example_waiter :: admissionWaiter where
  "example_waiter = \<lparr>aw_id = 1, aw_class = ClassBulk, aw_kind = KindBinary, aw_payload = [1]\<rparr>"

lemma example_full_reachable: "sched_reachable example_full"
  unfolding example_full_def by (intro reachable_send) (simp add: sched_reachable_def)

lemma example_full_waits: "admissionWaiters example_full ClassBulk = [example_waiter]"
  by (simp add: example_full_def example_waiter_def Send_def classCap_def enqueueLocked_def signalLocked_def
      NewScheduler_def sched_numbers Let_def)


text \<open>
  The pump never panics and never idles with work queued: taking the lock succeeds; on an open
  scheduler with a non-empty queue it starts writing the oldest request of some class, and with
  all queues empty it goes to sleep on the current notification channel.
\<close>

theorem pump_work_conserving:
  assumes "sched_reachable s" "pump_at s = PumpIdle" "terminal s = None"
  shows "\<exists>t. pump_lock s = Some t \<and>
     (if \<forall>c. queues s c = [] then pump_at t = PumpWaiting (notify t) \<and> queues t = queues s
      else pump_at t = PumpWriting
        \<and> (\<exists>c r. active t = Some r \<and> queues s c = r # queues t c \<and> (\<forall>c'. c' \<noteq> c \<longrightarrow> queues t c' = queues s c')))"
proof -
  have st: "stock_ok s" using reachable_inv [OF assms(1)] by (simp add: sched_inv_def)
  have took: ?thesis if "nextLocked s = Some (Some r, u)" "took c r s u" for c r u
  proof -
    let ?t = "u\<lparr>active := Some r, pump_at := PumpWriting\<rparr>"
    have "pump_lock s = Some ?t" using that(1) assms(3) by (simp add: pump_lock_def)
    moreover have "queues s c = r # queues ?t c" "\<And>c'. c' \<noteq> c \<Longrightarrow> queues ?t c' = queues s c'"
      using that(2) took_queue(2) [OF that(2) stock_class_ok [OF st]] by (auto simp: took_def)
    moreover have "active ?t = Some r" "pump_at ?t = PumpWriting" by simp_all
    ultimately show ?thesis by (metis list.distinct(1))
  qed
  from stock_class_ok [OF st] show ?thesis
  proof (cases rule: nextLocked_cases)
    case none_queued
    then show ?thesis
      using stock_empty [OF st none_queued(1)] assms(3) by (simp add: pump_lock_def)
  qed (use took in blast)+
qed

theorem pump_work_conserving_witness:
  "\<exists>t. pump_lock example_queued = Some t \<and>
     (if \<forall>c. queues example_queued c = [] then pump_at t = PumpWaiting (notify t) \<and> queues t = queues example_queued
      else pump_at t = PumpWriting
        \<and> (\<exists>c r. active t = Some r \<and> queues example_queued c = r # queues t c
              \<and> (\<forall>c'. c' \<noteq> c \<longrightarrow> queues t c' = queues example_queued c')))"
  by (rule pump_work_conserving [OF example_queued_reachable])
    (simp_all add: example_queued_def Send_def classCap_def enqueueLocked_def signalLocked_def
      NewScheduler_def sched_numbers Let_def)

text \<open>
  Every request and every waiting sender is answered at most once, so the sends on the channels
  \<^verbatim>\<open>done\<close> and \<^verbatim>\<open>ready\<close>, which have room for one value, never block; and a request that is queued
  or being written has not been answered.
\<close>

theorem scheduler_single_answer:
  assumes "sched_reachable s"
  shows "length (done_ch s i) \<le> 1 \<and> length (ready_ch s i) \<le> 1
     \<and> (\<forall>r\<in>set (queues s c @ writing (active s) c). done_ch s (sr_id r) = [])"
  using reachable_inv [OF assms]
  by (auto simp: sched_inv_def stock_ok_def heap_ok_def queue_ok_def request_ok_def pending_def)

theorem scheduler_single_answer_witness:
  "length (done_ch example_queued 0) \<le> 1 \<and> length (ready_ch example_queued 0) \<le> 1 \<and> done_ch example_queued 0 = []"
proof -
  have "queues example_queued ClassBulk
      = [\<lparr>sr_id = 0, sr_class = ClassBulk, sr_kind = KindBinary, sr_payload = [7, 8, 9]\<rparr>]"
    by (simp add: example_queued_def Send_def classCap_def enqueueLocked_def signalLocked_def
        NewScheduler_def sched_numbers Let_def)
  then show ?thesis
    using scheduler_single_answer [OF example_queued_reachable, of 0 ClassBulk] by simp
qed

text \<open>
  The deficit counters stay in range in every reachable state: never negative, and below the
  largest request of the lane plus one round's credit, so Go's integers cannot overflow.
\<close>

theorem deficits_bounded:
  assumes "sched_reachable s"
  shows "outerDeficit s 0 \<in> {0..<ThumbnailQueueCapBytes + 3 * BaseQuantumBytes}
       \<and> outerDeficit s 1 \<in> {0..<BulkQueueCapBytes + BaseQuantumBytes}
       \<and> innerDeficit s 0 \<in> {0..<InteractiveQueueCapBytes + 3 * BaseQuantumBytes}
       \<and> innerDeficit s 1 \<in> {0..<ThumbnailQueueCapBytes + BaseQuantumBytes}
       \<and> outerCurrent s < 2 \<and> innerCurrent s < 2"
  using reachable_rr [OF assms] by (simp add: rr_ok_def outer_ok_def inner_ok_def)

theorem deficits_bounded_witness:
  "outerDeficit example_queued 0 \<in> {0..<ThumbnailQueueCapBytes + 3 * BaseQuantumBytes}
   \<and> outerDeficit example_queued 1 \<in> {0..<BulkQueueCapBytes + BaseQuantumBytes}
   \<and> innerDeficit example_queued 0 \<in> {0..<InteractiveQueueCapBytes + 3 * BaseQuantumBytes}
   \<and> innerDeficit example_queued 1 \<in> {0..<ThumbnailQueueCapBytes + BaseQuantumBytes}
   \<and> outerCurrent example_queued < 2 \<and> innerCurrent example_queued < 2"
  by (rule deficits_bounded [OF example_queued_reachable])

text \<open>
  (C4) Control traffic cannot starve data: while media or bulk data waits, the pump picks at most
  eight control requests in a row, whatever the senders do in between.
\<close>

theorem control_burst_bounded:
  assumes "sched_reachable s"
    "pick_run dataWaiting (\<lambda>r. sr_class r = ClassControl) (\<lambda>_. 1) s n t"
  shows "n \<le> ControlBurstLimit"
proof -
  have "sched_inv s" "rr_ok s" using reachable_rr [OF assms(1)] by auto
  with burst_run [OF assms(2)] show ?thesis by (auto simp: rr_ok_def sched_numbers)
qed

definition example_pick :: Scheduler where
  "example_pick = the (pump_lock example_queued)"

lemmas example_eval =
  example_pick_def example_queued_def pump_lock_def nextLocked_def dataWaiting_def hasMediaLocked_def popControl_def
  popLocked_def resetEmptyLaneLocked_def hasClassDemandLocked_def hasMediaDemandLocked_def Send_def classCap_def
  enqueueLocked_def signalLocked_def NewScheduler_def sched_numbers Let_def

lemma example_pick_facts:
  "pump_lock example_queued = Some example_pick" "pump_at example_queued = PumpIdle"
  "dataWaiting example_queued" "dataWaiting example_pick" "queues example_queued ClassBulk \<noteq> []"
  "queues example_pick ClassBulk \<noteq> []"
  "active example_pick = Some \<lparr>sr_id = 1, sr_class = ClassControl, sr_kind = KindText, sr_payload = [1, 2]\<rparr>"
  by (simp_all add: example_eval)

lemma example_control_run:
  "pick_run dataWaiting (\<lambda>r. sr_class r = ClassControl) (\<lambda>_. 1) example_queued 1 example_pick"
  using run_pick [OF run_start [of dataWaiting, OF example_pick_facts(3)] example_pick_facts(2,1,4),
      of "\<lambda>r. sr_class r = ClassControl" "\<lambda>_. 1"]
  by (simp add: example_pick_facts(7))

theorem control_burst_bounded_witness: "(1 :: int) \<le> ControlBurstLimit"
  by (rule control_burst_bounded [OF example_queued_reachable example_control_run])

text \<open>
  (C5) Media cannot starve bulk: while a bulk request waits, at most 3276800 bytes of interactive
  media and thumbnails are sent before the pump picks bulk again.
\<close>

theorem bulk_not_starved:
  assumes "sched_reachable s"
    "pick_run (\<lambda>s. queues s ClassBulk \<noteq> []) (\<lambda>r. sr_class r \<noteq> ClassBulk)
      (\<lambda>r. if sr_class r = ClassControl then 0 else rlen r) s n t"
  shows "n \<le> ThumbnailQueueCapBytes + 3 * BulkQueueCapBytes + 6 * BaseQuantumBytes"
proof -
  have s: "sched_inv s" "rr_ok s" using reachable_rr [OF assms(1)] by auto
  have "rr_ok t" using run_ok [OF s assms(2)] by simp
  with s bulk_wait_run [OF assms(2)] show ?thesis
    by (auto simp: rr_ok_def outer_ok_def lane_drift_def sched_numbers)
qed

lemma example_bulk_wait:
  "pick_run (\<lambda>s. queues s ClassBulk \<noteq> []) (\<lambda>r. sr_class r \<noteq> ClassBulk)
     (\<lambda>r. if sr_class r = ClassControl then 0 else rlen r) example_queued 0 example_pick"
  using run_pick [OF run_start [of "\<lambda>s. queues s ClassBulk \<noteq> []", OF example_pick_facts(5)]
      example_pick_facts(2,1,6), of "\<lambda>r. sr_class r \<noteq> ClassBulk"
      "\<lambda>r. if sr_class r = ClassControl then 0 else rlen r"]
  by (simp add: example_pick_facts(7))

theorem bulk_not_starved_witness:
  "(0 :: int) \<le> ThumbnailQueueCapBytes + 3 * BulkQueueCapBytes + 6 * BaseQuantumBytes"
  by (rule bulk_not_starved [OF example_queued_reachable example_bulk_wait])

text \<open>
  Bulk cannot starve media: while media waits, three times the bulk bytes sent before the pump
  picks media again are at most 3276800, that is about one megabyte of bulk.
\<close>

theorem media_not_starved:
  assumes "sched_reachable s"
    "pick_run hasMediaLocked (\<lambda>r. sr_class r = ClassControl \<or> sr_class r = ClassBulk)
      (\<lambda>r. if sr_class r = ClassControl then 0 else rlen r) s n t"
  shows "3 * n \<le> ThumbnailQueueCapBytes + 3 * BulkQueueCapBytes + 6 * BaseQuantumBytes"
proof -
  have s: "sched_inv s" "rr_ok s" using reachable_rr [OF assms(1)] by auto
  have "rr_ok t" using run_ok [OF s assms(2)] by simp
  with s media_wait_run [OF assms(2)] show ?thesis
    by (auto simp: rr_ok_def outer_ok_def lane_drift_def sched_numbers)
qed

definition example_media :: Scheduler where
  "example_media = snd (Send None ClassThumbnail KindBinary [1, 2, 3] NewScheduler)"

lemma example_media_reachable: "sched_reachable example_media"
  unfolding example_media_def by (intro reachable_send) (simp add: sched_reachable_def)

lemma example_media_run:
  "pick_run hasMediaLocked (\<lambda>r. sr_class r = ClassControl \<or> sr_class r = ClassBulk)
     (\<lambda>r. if sr_class r = ClassControl then 0 else rlen r) example_media 0 example_media"
  by (rule run_start) (simp add: example_media_def example_eval)

theorem media_not_starved_witness:
  "3 * (0 :: int) \<le> ThumbnailQueueCapBytes + 3 * BulkQueueCapBytes + 6 * BaseQuantumBytes"
  by (rule media_not_starved [OF example_media_reachable example_media_run])

text \<open>
  \<^verbatim>\<open>Send\<close> on every branch: it reports an error, and changes nothing, exactly when the class is
  unknown, the payload is empty or larger than the class, the kind is unknown, the context is done
  or the scheduler is closed; otherwise it queues the request at the end of its class when nobody
  waits and the request fits, and else joins the end of the waiting list.
\<close>

theorem Send_behaviour:
  "(if \<not> send_accepts ctx_err c kind payload s
    then (\<exists>e. Send ctx_err c kind payload s = (SendReturned (Some e), s))
    else if admissionWaiters s c = [] \<and> queued_bytes s c + int (length payload) \<le> fst (classCap c)
    then (\<exists>r t. Send ctx_err c kind payload s = (SendQueued r, t) \<and> sr_payload r = payload \<and> sr_kind r = kind
            \<and> sr_class r = c \<and> queues t = (queues s)(c := queues s c @ [r])
            \<and> queued_bytes t = (queued_bytes s)(c := queued_bytes s c + int (length payload))
            \<and> notify t = Suc (notify s) \<and> admissionWaiters t = admissionWaiters s)
    else (\<exists>w t. Send ctx_err c kind payload s = (SendBlocked w, t) \<and> aw_payload w = payload \<and> aw_kind w = kind
            \<and> aw_class w = c \<and> admissionWaiters t = (admissionWaiters s)(c := admissionWaiters s c @ [w])
            \<and> queues t = queues s \<and> queued_bytes t = queued_bytes s))"
proof -
  obtain r t where S: "Send ctx_err c kind payload s = (r, t)" by force
  from S show ?thesis
  proof (cases rule: Send_cases)
    case (queue q)
    then show ?thesis using S enqueue_fields [OF queue(5)] by simp
  qed (use S in auto)
qed

end
