(* ===== verification/Noise.thy ===== *)
theory Noise
  imports Prelude
begin

text \<open>
  The Noise XX handshake and the transport ciphers of \<^verbatim>\<open>agent/internal/noise\<close>. The primitives of Go's
  \<^verbatim>\<open>crypto\<close> packages (SHA-256, HMAC, AES-GCM, ECDH on P-256) are the fields of the record \<open>crypto\<close>, an
  argument of every definition; \<open>crypto_ok\<close> states the documented behaviour the protocol relies on.
  Methods of \<^verbatim>\<open>NoiseXX\<close> take and return the state, so a method that fails half way returns the state
  it has changed so far. Keys and digests are byte strings; \<open>arr32\<close> is a \<^verbatim>\<open>copy\<close> into a \<^verbatim>\<open>[32]byte\<close>.
\<close>

type_synonym privkey = bytes
type_synonym pubkey = bytes

record crypto =
  sha256 :: "bytes \<Rightarrow> bytes"
  hmac :: "bytes \<Rightarrow> bytes \<Rightarrow> bytes"
  gcm_seal :: "bytes \<Rightarrow> bytes \<Rightarrow> bytes \<Rightarrow> bytes \<Rightarrow> bytes"
  gcm_open :: "bytes \<Rightarrow> bytes \<Rightarrow> bytes \<Rightarrow> bytes \<Rightarrow> bytes option"
  public_of :: "privkey \<Rightarrow> bytes"
  new_public :: "bytes \<Rightarrow> pubkey result"
  ecdh :: "privkey \<Rightarrow> pubkey \<Rightarrow> bytes result"

text \<open>
  What the packages document: digest sizes, the 16-byte tag of GCM and that opening undoes
  sealing, uncompressed public keys of 65 bytes that parse, and ECDH being symmetric and
  successful on keys of the curve.
\<close>

definition crypto_ok :: "crypto \<Rightarrow> bool" where
  "crypto_ok C \<longleftrightarrow>
     (\<forall>k n p ad. gcm_open C k n (gcm_seal C k n p ad) ad = Some p)
   \<and> (\<forall>k n p ad. length (gcm_seal C k n p ad) = length p + 16)
   \<and> (\<forall>x. length (public_of C x) = 65)
   \<and> (\<forall>x. new_public C (public_of C x) = Inr (public_of C x))
   \<and> (\<forall>x y. \<exists>z. ecdh C x (public_of C y) = Inr z \<and> ecdh C y (public_of C x) = Inr z)"

definition arr32 :: "bytes \<Rightarrow> bytes" where
  "arr32 bs = take 32 (bs @ replicate 32 0)"

lemma length_arr32 [simp]: "length (arr32 bs) = 32"
  by (simp add: arr32_def)

section \<open>Keys, transcript and ciphers\<close>

text \<open>\<^verbatim>\<open>rnd\<close> is what \<^verbatim>\<open>GenerateKey(rand.Reader)\<close> returns. A nil private key is \<open>None\<close>; calling ECDH on it panics.\<close>

definition generateKeypair :: "privkey result \<Rightarrow> privkey result" where
  "generateKeypair rnd = rnd"

definition PanicNilKey :: goerr where
  "PanicNilKey = Errorf ''panic: nil private key'' []"

definition dhP256 :: "crypto \<Rightarrow> privkey option \<Rightarrow> pubkey \<Rightarrow> bytes result" where
  "dhP256 C priv pub = (case priv of None \<Rightarrow> Inl PanicNilKey | Some x \<Rightarrow> ecdh C x pub)"

definition importPublicKey :: "crypto \<Rightarrow> bytes \<Rightarrow> pubkey result" where
  "importPublicKey C raw = new_public C raw"

definition protocolName :: string where
  "protocolName = ''Noise_XX_P256_AESGCM_SHA256''"

definition string_bytes :: "string \<Rightarrow> bytes" where
  "string_bytes s = map of_char s"

definition initialize :: "bytes \<times> bytes" where
  "initialize = (let h = arr32 (string_bytes protocolName) in (h, h))"

definition mixHash :: "crypto \<Rightarrow> bytes \<Rightarrow> bytes \<Rightarrow> bytes" where
  "mixHash C h data = arr32 (sha256 C (h @ data))"

definition hmacSHA256 :: "crypto \<Rightarrow> bytes \<Rightarrow> bytes \<Rightarrow> bytes" where
  "hmacSHA256 C key data = hmac C key data"

definition hkdf2 :: "crypto \<Rightarrow> bytes \<Rightarrow> bytes \<Rightarrow> bytes \<times> bytes" where
  "hkdf2 C ck ikm =
     (let tempKey = hmacSHA256 C ck ikm;
          o1 = hmacSHA256 C tempKey [1];
          o2 = hmacSHA256 C tempKey (o1 @ [2])
      in (arr32 o1, arr32 o2))"

record CipherState =
  cs_key :: bytes
  cs_n :: u64

definition newCipherState :: "bytes \<Rightarrow> CipherState" where
  "newCipherState key = \<lparr>cs_key = key, cs_n = 0\<rparr>"

definition isZeroKey :: "bytes \<Rightarrow> bool" where
  "isZeroKey key \<longleftrightarrow> key = replicate 32 0"

definition nonceBytes :: "u64 \<Rightarrow> bytes" where
  "nonceBytes n = replicate 4 0 @ be_put 8 (unat n)"

text \<open>\<^verbatim>\<open>aes.NewCipher\<close> accepts keys of 16, 24 and 32 bytes; \<^verbatim>\<open>cipher.NewGCM\<close> accepts every AES block.\<close>

definition newGCM :: "bytes \<Rightarrow> bytes result" where
  "newGCM key =
     (if length key \<in> {16, 24, 32} then Inr key
      else Inl (ErrWrap ''noise: aes.NewCipher: %w'' [] (Errorf ''crypto/aes: invalid key size %d'' [int (length key)])))"

definition keyMissing :: goerr where
  "keyMissing = Errorf ''noise: cipher key not initialized'' []"
definition nonceExhausted :: goerr where
  "nonceExhausted = Errorf ''noise: nonce exhausted'' []"
definition authFailed :: goerr where
  "authFailed = Errorf ''noise: AEAD authentication failed'' []"

definition encryptWithAd :: "crypto \<Rightarrow> bytes \<Rightarrow> bytes \<Rightarrow> CipherState \<Rightarrow> bytes result \<times> CipherState" where
  "encryptWithAd C ad plaintext cs =
     (if isZeroKey (cs_key cs) then (Inl keyMissing, cs)
      else if cs_n cs = - 1 then (Inl nonceExhausted, cs)
      else case newGCM (cs_key cs) of
             Inl err \<Rightarrow> (Inl err, cs)
           | Inr gcm \<Rightarrow> (Inr (gcm_seal C gcm (nonceBytes (cs_n cs)) plaintext ad), cs\<lparr>cs_n := cs_n cs + 1\<rparr>))"

definition decryptWithAd :: "crypto \<Rightarrow> bytes \<Rightarrow> bytes \<Rightarrow> CipherState \<Rightarrow> bytes result \<times> CipherState" where
  "decryptWithAd C ad ciphertext cs =
     (if isZeroKey (cs_key cs) then (Inl keyMissing, cs)
      else if cs_n cs = - 1 then (Inl nonceExhausted, cs)
      else case newGCM (cs_key cs) of
             Inl err \<Rightarrow> (Inl err, cs)
           | Inr gcm \<Rightarrow>
               (case gcm_open C gcm (nonceBytes (cs_n cs)) ciphertext ad of
                  None \<Rightarrow> (Inl authFailed, cs)
                | Some pt \<Rightarrow> (Inr pt, cs\<lparr>cs_n := cs_n cs + 1\<rparr>)))"

definition Encrypt :: "crypto \<Rightarrow> bytes \<Rightarrow> bytes \<Rightarrow> CipherState \<Rightarrow> bytes result \<times> CipherState" where
  "Encrypt C ad plaintext cs = encryptWithAd C ad plaintext cs"

definition Decrypt :: "crypto \<Rightarrow> bytes \<Rightarrow> bytes \<Rightarrow> CipherState \<Rightarrow> bytes result \<times> CipherState" where
  "Decrypt C ad ciphertext cs = decryptWithAd C ad ciphertext cs"

definition splitKeys :: "crypto \<Rightarrow> bytes \<Rightarrow> bytes \<times> bytes" where
  "splitKeys C ck = hkdf2 C ck []"

section \<open>The handshake\<close>

datatype role = roleInitiator | roleResponder

datatype phase = phaseReady | phaseMsg1Sent | phaseMsg1Received | phaseMsg2Sent | phaseMsg2Received | phaseDone

fun phase_num :: "phase \<Rightarrow> int" where
  "phase_num phaseReady = 0"
| "phase_num phaseMsg1Sent = 1"
| "phase_num phaseMsg1Received = 2"
| "phase_num phaseMsg2Sent = 3"
| "phase_num phaseMsg2Received = 4"
| "phase_num phaseDone = 5"

record NoiseXX =
  nx_role :: role
  nx_phase :: phase
  nx_h :: bytes
  nx_ck :: bytes
  nx_k :: bytes
  hasK :: bool
  ePriv :: "privkey option"
  ePub :: bytes
  sPriv :: "privkey option"
  sPub :: bytes
  rEPub :: bytes
  rSPub :: bytes

definition new_state :: "crypto \<Rightarrow> role \<Rightarrow> privkey \<Rightarrow> NoiseXX" where
  "new_state C r staticPriv =
     (let (h, ck) = initialize
      in \<lparr>nx_role = r, nx_phase = phaseReady, nx_h = mixHash C h [], nx_ck = ck, nx_k = replicate 32 0, hasK = False,
          ePriv = None, ePub = [], sPriv = Some staticPriv, sPub = public_of C staticPriv, rEPub = [], rSPub = []\<rparr>)"

definition NewInitiator :: "crypto \<Rightarrow> privkey result \<Rightarrow> NoiseXX result" where
  "NewInitiator C rnd =
     (case generateKeypair rnd of
        Inl err \<Rightarrow> Inl (ErrWrap ''noise: generate initiator static: %w'' [] err)
      | Inr staticPriv \<Rightarrow> Inr (new_state C roleInitiator staticPriv))"

definition NewResponder :: "crypto \<Rightarrow> privkey \<Rightarrow> NoiseXX result" where
  "NewResponder C staticPriv = Inr (new_state C roleResponder staticPriv)"

definition RemoteStaticPub :: "NoiseXX \<Rightarrow> bytes" where
  "RemoteStaticPub n = rSPub n"

definition mixKey :: "crypto \<Rightarrow> bytes \<Rightarrow> NoiseXX \<Rightarrow> NoiseXX" where
  "mixKey C ikm n = (let (ck, k) = hkdf2 C (nx_ck n) ikm in n\<lparr>nx_ck := ck, nx_k := k, hasK := True\<rparr>)"

definition encryptAndHash :: "crypto \<Rightarrow> bytes \<Rightarrow> NoiseXX \<Rightarrow> bytes result \<times> NoiseXX" where
  "encryptAndHash C plaintext n =
     (if \<not> hasK n then (Inl keyMissing, n)
      else case fst (encryptWithAd C (nx_h n) plaintext \<lparr>cs_key = nx_k n, cs_n = 0\<rparr>) of
             Inl err \<Rightarrow> (Inl err, n)
           | Inr ct \<Rightarrow> (Inr ct, n\<lparr>nx_h := mixHash C (nx_h n) ct\<rparr>))"

definition decryptAndHash :: "crypto \<Rightarrow> bytes \<Rightarrow> NoiseXX \<Rightarrow> bytes result \<times> NoiseXX" where
  "decryptAndHash C ciphertext n =
     (if \<not> hasK n then (Inl keyMissing, n)
      else case fst (decryptWithAd C (nx_h n) ciphertext \<lparr>cs_key = nx_k n, cs_n = 0\<rparr>) of
             Inl err \<Rightarrow> (Inl err, n)
           | Inr pt \<Rightarrow> (Inr pt, n\<lparr>nx_h := mixHash C (nx_h n) ciphertext\<rparr>))"

definition WriteMessage1 :: "crypto \<Rightarrow> privkey result \<Rightarrow> NoiseXX \<Rightarrow> bytes result \<times> NoiseXX" where
  "WriteMessage1 C rnd n =
     (if nx_role n \<noteq> roleInitiator then (Inl (Errorf ''noise: WriteMessage1 called on responder'' []), n)
      else if nx_phase n \<noteq> phaseReady
      then (Inl (Errorf ''noise: WriteMessage1 invalid in phase %d'' [phase_num (nx_phase n)]), n)
      else case generateKeypair rnd of
             Inl err \<Rightarrow> (Inl (ErrWrap ''noise: generate ephemeral: %w'' [] err), n\<lparr>ePriv := None\<rparr>)
           | Inr priv \<Rightarrow>
               let n1 = n\<lparr>ePriv := Some priv, ePub := public_of C priv\<rparr>;
                   n2 = n1\<lparr>nx_h := mixHash C (nx_h n1) (ePub n1), nx_phase := phaseMsg1Sent\<rparr>
               in (Inr (ePub n2), n2))"

definition ReadMessage1 :: "crypto \<Rightarrow> bytes \<Rightarrow> NoiseXX \<Rightarrow> goerr option \<times> NoiseXX" where
  "ReadMessage1 C msg n =
     (if nx_role n \<noteq> roleResponder then (Some (Errorf ''noise: ReadMessage1 called on initiator'' []), n)
      else if nx_phase n \<noteq> phaseReady
      then (Some (Errorf ''noise: ReadMessage1 invalid in phase %d'' [phase_num (nx_phase n)]), n)
      else if length msg \<noteq> 65
      then (Some (Errorf ''noise: ReadMessage1: expected 65 bytes, got %d'' [int (length msg)]), n)
      else (None, n\<lparr>rEPub := msg, nx_h := mixHash C (nx_h n) msg, nx_phase := phaseMsg1Received\<rparr>))"

definition WriteMessage2 :: "crypto \<Rightarrow> privkey result \<Rightarrow> NoiseXX \<Rightarrow> bytes result \<times> NoiseXX" where
  "WriteMessage2 C rnd n =
     (if nx_role n \<noteq> roleResponder then (Inl (Errorf ''noise: WriteMessage2 called on initiator'' []), n)
      else if nx_phase n \<noteq> phaseMsg1Received
      then (Inl (Errorf ''noise: WriteMessage2 invalid in phase %d'' [phase_num (nx_phase n)]), n)
      else case generateKeypair rnd of
        Inl err \<Rightarrow> (Inl (ErrWrap ''noise: generate ephemeral: %w'' [] err), n\<lparr>ePriv := None\<rparr>)
      | Inr priv \<Rightarrow>
          let n0 = n\<lparr>ePriv := Some priv, ePub := public_of C priv\<rparr>;
              n1 = n0\<lparr>nx_h := mixHash C (nx_h n0) (ePub n0)\<rparr>
          in case importPublicKey C (rEPub n1) of
            Inl err \<Rightarrow> (Inl (ErrWrap ''noise: import remote ephemeral: %w'' [] err), n1)
          | Inr rEPubKey \<Rightarrow>
          (case dhP256 C (ePriv n1) rEPubKey of
            Inl err \<Rightarrow> (Inl (ErrWrap ''noise: DH ee: %w'' [] err), n1)
          | Inr ee \<Rightarrow>
          (case encryptAndHash C (sPub n1) (mixKey C ee n1) of
            (Inl err, n2) \<Rightarrow> (Inl (ErrWrap ''noise: EncryptAndHash s: %w'' [] err), n2)
          | (Inr encS, n2) \<Rightarrow>
          (case importPublicKey C (rEPub n2) of
            Inl err \<Rightarrow> (Inl err, n2)
          | Inr rEPubKey2 \<Rightarrow>
          (case dhP256 C (sPriv n2) rEPubKey2 of
            Inl err \<Rightarrow> (Inl (ErrWrap ''noise: DH es: %w'' [] err), n2)
          | Inr es \<Rightarrow>
          (case encryptAndHash C [] (mixKey C es n2) of
            (Inl err, n3) \<Rightarrow> (Inl err, n3)
          | (Inr tag, n3) \<Rightarrow> (Inr (ePub n1 @ encS @ tag), n3\<lparr>nx_phase := phaseMsg2Sent\<rparr>)))))))"

definition ReadMessage2 :: "crypto \<Rightarrow> bytes \<Rightarrow> NoiseXX \<Rightarrow> goerr option \<times> NoiseXX" where
  "ReadMessage2 C msg n =
     (if nx_role n \<noteq> roleInitiator then (Some (Errorf ''noise: ReadMessage2 called on responder'' []), n)
      else if nx_phase n \<noteq> phaseMsg1Sent
      then (Some (Errorf ''noise: ReadMessage2 invalid in phase %d'' [phase_num (nx_phase n)]), n)
      else if length msg \<noteq> 162
      then (Some (Errorf ''noise: ReadMessage2: expected 162 bytes, got %d'' [int (length msg)]), n)
      else
        let n1 = n\<lparr>rEPub := take 65 msg, nx_h := mixHash C (nx_h n) (take 65 msg)\<rparr>
        in case importPublicKey C (rEPub n1) of
          Inl err \<Rightarrow> (Some (ErrWrap ''noise: import remote ephemeral: %w'' [] err), n1)
        | Inr rEPubKey \<Rightarrow>
        (case dhP256 C (ePriv n1) rEPubKey of
          Inl err \<Rightarrow> (Some (ErrWrap ''noise: DH ee: %w'' [] err), n1)
        | Inr ee \<Rightarrow>
        (case decryptAndHash C (take 81 (drop 65 msg)) (mixKey C ee n1) of
          (Inl err, n2) \<Rightarrow> (Some (ErrWrap ''noise: DecryptAndHash s: %w'' [] err), n2)
        | (Inr rsPub, n2) \<Rightarrow>
        let n3 = n2\<lparr>rSPub := rsPub\<rparr>
        in (case importPublicKey C rsPub of
          Inl err \<Rightarrow> (Some (ErrWrap ''noise: import remote static: %w'' [] err), n3)
        | Inr rSPubKey \<Rightarrow>
        (case dhP256 C (ePriv n3) rSPubKey of
          Inl err \<Rightarrow> (Some (ErrWrap ''noise: DH es: %w'' [] err), n3)
        | Inr es \<Rightarrow>
        (case decryptAndHash C (take 16 (drop 146 msg)) (mixKey C es n3) of
          (Inl err, n4) \<Rightarrow> (Some err, n4)
        | (Inr _, n4) \<Rightarrow> (None, n4\<lparr>nx_phase := phaseMsg2Received\<rparr>)))))))"

definition WriteMessage3 :: "crypto \<Rightarrow> NoiseXX \<Rightarrow> bytes result \<times> NoiseXX" where
  "WriteMessage3 C n =
     (if nx_role n \<noteq> roleInitiator then (Inl (Errorf ''noise: WriteMessage3 called on responder'' []), n)
      else if nx_phase n \<noteq> phaseMsg2Received
      then (Inl (Errorf ''noise: WriteMessage3 invalid in phase %d'' [phase_num (nx_phase n)]), n)
      else case encryptAndHash C (sPub n) n of
        (Inl err, n1) \<Rightarrow> (Inl (ErrWrap ''noise: EncryptAndHash s: %w'' [] err), n1)
      | (Inr encS, n1) \<Rightarrow>
      (case importPublicKey C (rEPub n1) of
        Inl err \<Rightarrow> (Inl err, n1)
      | Inr rEPubKey \<Rightarrow>
      (case dhP256 C (sPriv n1) rEPubKey of
        Inl err \<Rightarrow> (Inl (ErrWrap ''noise: DH se: %w'' [] err), n1)
      | Inr se \<Rightarrow>
      (case encryptAndHash C [] (mixKey C se n1) of
        (Inl err, n2) \<Rightarrow> (Inl err, n2)
      | (Inr tag, n2) \<Rightarrow> (Inr (encS @ tag), n2\<lparr>nx_phase := phaseDone\<rparr>)))))"

definition ReadMessage3 :: "crypto \<Rightarrow> bytes \<Rightarrow> NoiseXX \<Rightarrow> goerr option \<times> NoiseXX" where
  "ReadMessage3 C msg n =
     (if nx_role n \<noteq> roleResponder then (Some (Errorf ''noise: ReadMessage3 called on initiator'' []), n)
      else if nx_phase n \<noteq> phaseMsg2Sent
      then (Some (Errorf ''noise: ReadMessage3 invalid in phase %d'' [phase_num (nx_phase n)]), n)
      else if length msg \<noteq> 97
      then (Some (Errorf ''noise: ReadMessage3: expected 97 bytes, got %d'' [int (length msg)]), n)
      else case decryptAndHash C (take 81 msg) n of
        (Inl err, n1) \<Rightarrow> (Some (ErrWrap ''noise: DecryptAndHash s: %w'' [] err), n1)
      | (Inr isPub, n1) \<Rightarrow>
      let n2 = n1\<lparr>rSPub := isPub\<rparr>
      in (case importPublicKey C isPub of
        Inl err \<Rightarrow> (Some (ErrWrap ''noise: import initiator static: %w'' [] err), n2)
      | Inr iSPubKey \<Rightarrow>
      (case dhP256 C (ePriv n2) iSPubKey of
        Inl err \<Rightarrow> (Some (ErrWrap ''noise: DH se: %w'' [] err), n2)
      | Inr se \<Rightarrow>
      (case decryptAndHash C (take 16 (drop 81 msg)) (mixKey C se n2) of
        (Inl err, n3) \<Rightarrow> (Some err, n3)
      | (Inr _, n3) \<Rightarrow> (None, n3\<lparr>nx_phase := phaseDone\<rparr>)))))"

text \<open>\<open>None\<close> is the panic of \<^verbatim>\<open>Split\<close> before the handshake is complete; the result is (send, recv).\<close>

definition Split :: "crypto \<Rightarrow> NoiseXX \<Rightarrow> (CipherState \<times> CipherState) option" where
  "Split C n =
     (if nx_phase n \<noteq> phaseDone then None
      else
        let (k1, k2) = splitKeys C (nx_ck n);
            cs1 = newCipherState k1; cs2 = newCipherState k2
        in if nx_role n = roleInitiator then Some (cs1, cs2) else Some (cs2, cs1))"

end
