(* ===== verification/Noise_Properties.thy ===== *)
theory Noise_Properties
  imports Noise
begin

text \<open>
  What the Noise handshake gives its users: both sides of an undisturbed exchange agree on all
  secrets and on each other's static key, the two transport ciphers are crossed, a cipher pair
  delivers a stream of messages in order and never repeats a nonce, and a failed message never
  completes the handshake. The last property records how the handshake ciphers use their nonces.
\<close>

section \<open>Sealing and opening\<close>

lemma crypto_okD:
  assumes "crypto_ok C"
  shows "gcm_open C k n (gcm_seal C k n p ad) ad = Some p" "length (gcm_seal C k n p ad) = length p + 16"
    "length (public_of C x) = 65" "new_public C (public_of C x) = Inr (public_of C x)"
    "\<exists>z. ecdh C x (public_of C y) = Inr z \<and> ecdh C y (public_of C x) = Inr z"
  using assms by (auto simp: crypto_ok_def)

lemma ecdh_pair:
  assumes "crypto_ok C" "ecdh C x (public_of C y) = Inr z"
  shows "ecdh C y (public_of C x) = Inr z"
  using crypto_okD(5) [OF assms(1), of x y] assms(2) by auto

lemma encryptWithAd_Inr:
  assumes "encryptWithAd C ad p cs = (Inr ct, cs')"
  shows "\<not> isZeroKey (cs_key cs)" "cs_n cs \<noteq> - 1" "length (cs_key cs) \<in> {16, 24, 32}"
    "ct = gcm_seal C (cs_key cs) (nonceBytes (cs_n cs)) p ad" "cs' = cs\<lparr>cs_n := cs_n cs + 1\<rparr>"
  using assms by (auto simp: encryptWithAd_def newGCM_def split: if_splits)

lemma decrypt_encrypt:
  assumes "crypto_ok C" "encryptWithAd C ad p cs = (Inr ct, cs')" "cs_key rs = cs_key cs" "cs_n rs = cs_n cs"
  shows "decryptWithAd C ad ct rs = (Inr p, rs\<lparr>cs_n := cs_n rs + 1\<rparr>)" "length ct = length p + 16"
  using encryptWithAd_Inr [OF assms(2)] assms(3,4) crypto_okD(1,2) [OF assms(1)]
  by (auto simp: decryptWithAd_def newGCM_def)

text \<open>Two handshake states with the same symmetric part.\<close>

definition in_sync :: "NoiseXX \<Rightarrow> NoiseXX \<Rightarrow> bool" where
  "in_sync a b \<longleftrightarrow> nx_h a = nx_h b \<and> nx_ck a = nx_ck b \<and> nx_k a = nx_k b \<and> hasK a = hasK b"

lemma in_sync_mixKey: "in_sync a b \<Longrightarrow> in_sync (mixKey C z a) (mixKey C z b)"
  by (simp add: in_sync_def mixKey_def case_prod_beta Let_def)

lemma mixKey_frame:
  "mixKey C z a = a\<lparr>nx_ck := fst (hkdf2 C (nx_ck a) z), nx_k := snd (hkdf2 C (nx_ck a) z), hasK := True\<rparr>"
  by (simp add: mixKey_def case_prod_beta Let_def)

lemma encryptAndHash_Inr:
  assumes "encryptAndHash C p a = (Inr ct, a')"
  shows "ct = gcm_seal C (nx_k a) (nonceBytes 0) p (nx_h a)" "a' = a\<lparr>nx_h := mixHash C (nx_h a) ct\<rparr>" "hasK a"
proof -
  have k: "hasK a" using assms by (auto simp: encryptAndHash_def split: if_splits)
  then obtain cs' where e: "encryptWithAd C (nx_h a) p \<lparr>cs_key = nx_k a, cs_n = 0\<rparr> = (Inr ct, cs')"
    "a' = a\<lparr>nx_h := mixHash C (nx_h a) ct\<rparr>"
    using assms by (auto simp: encryptAndHash_def split: sum.splits) (metis prod.collapse)
  show "ct = gcm_seal C (nx_k a) (nonceBytes 0) p (nx_h a)" using encryptWithAd_Inr(4) [OF e(1)] by simp
  show "a' = a\<lparr>nx_h := mixHash C (nx_h a) ct\<rparr>" "hasK a" using e k by auto
qed

lemma decrypt_in_sync:
  assumes "crypto_ok C" "encryptAndHash C p a = (Inr ct, a')" "in_sync a b"
  shows "decryptAndHash C ct b = (Inr p, b\<lparr>nx_h := nx_h a'\<rparr>)" "length ct = length p + 16"
proof -
  note e = encryptAndHash_Inr [OF assms(2)]
  obtain cs' where enc: "encryptWithAd C (nx_h a) p \<lparr>cs_key = nx_k a, cs_n = 0\<rparr> = (Inr ct, cs')"
    using assms(2) e(3) by (auto simp: encryptAndHash_def split: sum.splits) (metis prod.collapse)
  note d = decrypt_encrypt [OF assms(1) enc, of "\<lparr>cs_key = nx_k b, cs_n = 0\<rparr>"]
  show "decryptAndHash C ct b = (Inr p, b\<lparr>nx_h := nx_h a'\<rparr>)" "length ct = length p + 16"
    using d assms(3) e by (auto simp: decryptAndHash_def in_sync_def)
qed

section \<open>What a successful write has done\<close>

lemma WriteMessage2_Inr:
  assumes "WriteMessage2 C (Inr x) n = (Inr msg, n')"
  obtains pk ee encS n2 pk2 es tag n3 where
    "nx_role n = roleResponder" "nx_phase n = phaseMsg1Received"
    "new_public C (rEPub n) = Inr pk" "ecdh C x pk = Inr ee"
    "encryptAndHash C (sPub n)
       (mixKey C ee (n\<lparr>ePriv := Some x, ePub := public_of C x, nx_h := mixHash C (nx_h n) (public_of C x)\<rparr>))
       = (Inr encS, n2)"
    "new_public C (rEPub n2) = Inr pk2" "dhP256 C (sPriv n2) pk2 = Inr es"
    "encryptAndHash C [] (mixKey C es n2) = (Inr tag, n3)"
    "msg = public_of C x @ encS @ tag" "n' = n3\<lparr>nx_phase := phaseMsg2Sent\<rparr>"
  using assms
  by (simp add: WriteMessage2_def generateKeypair_def importPublicKey_def dhP256_def [of C "Some x"] Let_def
      split: if_splits sum.splits prod.splits)

lemma WriteMessage3_Inr:
  assumes "WriteMessage3 C n = (Inr msg, n')"
  obtains encS n1 pk se tag n2 where
    "nx_role n = roleInitiator" "nx_phase n = phaseMsg2Received"
    "encryptAndHash C (sPub n) n = (Inr encS, n1)" "new_public C (rEPub n1) = Inr pk"
    "dhP256 C (sPriv n1) pk = Inr se" "encryptAndHash C [] (mixKey C se n1) = (Inr tag, n2)"
    "msg = encS @ tag" "n' = n2\<lparr>nx_phase := phaseDone\<rparr>"
  using assms
  by (simp add: WriteMessage3_def importPublicKey_def Let_def split: if_splits sum.splits prod.splits)

lemma read2_ok:
  assumes ok: "crypto_ok C" and w: "WriteMessage2 C (Inr x) n = (Inr msg, n')"
    and n: "rEPub n = public_of C xi" "sPriv n = Some sr" "sPub n = public_of C sr"
    and i: "nx_role i = roleInitiator" "nx_phase i = phaseMsg1Sent" "ePriv i = Some xi"
    and sync: "in_sync n i"
  shows "\<exists>i'. ReadMessage2 C msg i = (None, i') \<and> in_sync n' i' \<and> nx_role i' = roleInitiator
     \<and> nx_phase i' = phaseMsg2Received \<and> rSPub i' = public_of C sr \<and> rEPub i' = public_of C x
     \<and> sPriv i' = sPriv i \<and> sPub i' = sPub i
     \<and> nx_role n' = roleResponder \<and> nx_phase n' = phaseMsg2Sent \<and> ePriv n' = Some x"
  using w
proof (rule WriteMessage2_Inr)
  fix pk ee encS n2 pk2 es tag n3
  let ?n1 = "n\<lparr>ePriv := Some x, ePub := public_of C x, nx_h := mixHash C (nx_h n) (public_of C x)\<rparr>"
  assume role: "nx_role n = roleResponder" and pk: "new_public C (rEPub n) = Inr pk" and ee: "ecdh C x pk = Inr ee"
    and e1: "encryptAndHash C (sPub n) (mixKey C ee ?n1) = (Inr encS, n2)"
    and pk2: "new_public C (rEPub n2) = Inr pk2" and es: "dhP256 C (sPriv n2) pk2 = Inr es"
    and e2: "encryptAndHash C [] (mixKey C es n2) = (Inr tag, n3)"
    and msg: "msg = public_of C x @ encS @ tag" and n': "n' = n3\<lparr>nx_phase := phaseMsg2Sent\<rparr>"
  let ?i1 = "i\<lparr>rEPub := public_of C x, nx_h := mixHash C (nx_h i) (public_of C x)\<rparr>"
  have ee': "ecdh C xi (public_of C x) = Inr ee"
    using ecdh_pair [OF ok, of x xi] pk ee n(1) crypto_okD(4) [OF ok] by auto
  have s1: "in_sync (mixKey C ee ?n1) (mixKey C ee ?i1)"
    by (rule in_sync_mixKey) (use sync in \<open>simp add: in_sync_def\<close>)
  note n2 = encryptAndHash_Inr(2) [OF e1]
  define i2 where "i2 = (mixKey C ee ?i1)\<lparr>nx_h := nx_h n2\<rparr>"
  have d1: "decryptAndHash C encS (mixKey C ee ?i1) = (Inr (public_of C sr), i2)" "length encS = 81"
    using decrypt_in_sync [OF ok e1 s1] n(3) crypto_okD(3) [OF ok] by (simp_all add: i2_def)
  let ?i3 = "i2\<lparr>rSPub := public_of C sr\<rparr>"
  have f2: "rEPub n2 = public_of C xi" "sPriv n2 = Some sr" "ePriv n2 = Some x" "nx_role n2 = roleResponder"
    using n role by (simp_all add: n2 mixKey_frame)
  have es': "ecdh C xi (public_of C sr) = Inr es"
    using ecdh_pair [OF ok, of sr xi] pk2 es f2 crypto_okD(4) [OF ok] by (auto simp: dhP256_def)
  have s2: "in_sync (mixKey C es n2) (mixKey C es ?i3)"
    by (rule in_sync_mixKey) (use s1 in \<open>simp add: in_sync_def i2_def n2\<close>)
  note n3 = encryptAndHash_Inr(2) [OF e2]
  define i4 where "i4 = (mixKey C es ?i3)\<lparr>nx_h := nx_h n3\<rparr>"
  have d2: "decryptAndHash C tag (mixKey C es ?i3) = (Inr [], i4)" "length tag = 16"
    using decrypt_in_sync [OF ok e2 s2] by (simp_all add: i4_def)
  have len: "length (public_of C x) = 65" using crypto_okD(3) [OF ok] .
  have parts: "take 65 msg = public_of C x" "take 81 (drop 65 msg) = encS" "take 16 (drop 146 msg) = tag"
    "length msg = 162"
    using msg len d1(2) d2(2) by simp_all
  have f: "ePriv i2 = Some xi" "sPriv i2 = sPriv i" "sPub i2 = sPub i" "rEPub i2 = public_of C x" "nx_role i2 = roleInitiator"
    using i by (simp_all add: i2_def mixKey_frame)
  have "ReadMessage2 C msg i = (None, i4\<lparr>nx_phase := phaseMsg2Received\<rparr>)"
    using i parts ee' es' d1 d2 f crypto_okD(4) [OF ok]
    by (simp add: ReadMessage2_def importPublicKey_def dhP256_def Let_def)
  moreover have "in_sync n' (i4\<lparr>nx_phase := phaseMsg2Received\<rparr>)"
    using s2 by (simp add: in_sync_def n' i4_def n3)
  moreover have "nx_role n' = roleResponder" "nx_phase n' = phaseMsg2Sent" "ePriv n' = Some x"
    using f2 by (simp_all add: n' n3 mixKey_frame)
  ultimately show ?thesis using f by (simp add: i4_def mixKey_frame)
qed

lemma read3_ok:
  assumes ok: "crypto_ok C" and w: "WriteMessage3 C i = (Inr msg, i')"
    and i: "rEPub i = public_of C x" "sPriv i = Some si" "sPub i = public_of C si"
    and n: "nx_role n = roleResponder" "nx_phase n = phaseMsg2Sent" "ePriv n = Some x"
    and sync: "in_sync i n"
  shows "\<exists>n'. ReadMessage3 C msg n = (None, n') \<and> in_sync i' n' \<and> nx_role n' = roleResponder
     \<and> nx_phase n' = phaseDone \<and> rSPub n' = public_of C si \<and> nx_role i' = roleInitiator \<and> nx_phase i' = phaseDone
     \<and> rSPub i' = rSPub i"
  using w
proof (rule WriteMessage3_Inr)
  fix encS i1 pk se tag i2
  assume role: "nx_role i = roleInitiator" and e1: "encryptAndHash C (sPub i) i = (Inr encS, i1)"
    and pk: "new_public C (rEPub i1) = Inr pk" and se: "dhP256 C (sPriv i1) pk = Inr se"
    and e2: "encryptAndHash C [] (mixKey C se i1) = (Inr tag, i2)"
    and msg: "msg = encS @ tag" and i': "i' = i2\<lparr>nx_phase := phaseDone\<rparr>"
  note i1 = encryptAndHash_Inr(2) [OF e1]
  define n1 where "n1 = n\<lparr>nx_h := nx_h i1\<rparr>"
  have d1: "decryptAndHash C encS n = (Inr (public_of C si), n1)" "length encS = 81"
    using decrypt_in_sync [OF ok e1 sync] i(3) crypto_okD(3) [OF ok] by (simp_all add: n1_def)
  let ?n2 = "n1\<lparr>rSPub := public_of C si\<rparr>"
  have se': "ecdh C x (public_of C si) = Inr se"
    using ecdh_pair [OF ok, of si x] pk se i crypto_okD(4) [OF ok] by (auto simp: dhP256_def i1)
  have s2: "in_sync (mixKey C se i1) (mixKey C se ?n2)"
    by (rule in_sync_mixKey) (use sync in \<open>simp add: in_sync_def n1_def i1\<close>)
  note i2 = encryptAndHash_Inr(2) [OF e2]
  define n3 where "n3 = (mixKey C se ?n2)\<lparr>nx_h := nx_h i2\<rparr>"
  have d2: "decryptAndHash C tag (mixKey C se ?n2) = (Inr [], n3)" "length tag = 16"
    using decrypt_in_sync [OF ok e2 s2] by (simp_all add: n3_def)
  have parts: "take 81 msg = encS" "take 16 (drop 81 msg) = tag" "length msg = 97"
    using msg d1(2) d2(2) by simp_all
  have "ePriv n1 = Some x" using n by (simp add: n1_def)
  then have "ReadMessage3 C msg n = (None, n3\<lparr>nx_phase := phaseDone\<rparr>)"
    using n parts se' d1 d2 crypto_okD(4) [OF ok]
    by (simp add: ReadMessage3_def importPublicKey_def dhP256_def Let_def)
  moreover have "in_sync i' (n3\<lparr>nx_phase := phaseDone\<rparr>)"
    using s2 by (simp add: in_sync_def i' n3_def i2)
  moreover have "nx_role i' = roleInitiator" "nx_phase i' = phaseDone" "rSPub i' = rSPub i"
    using role by (simp_all add: i' i2 i1 mixKey_frame)
  ultimately show ?thesis using n by (simp add: n3_def n1_def mixKey_frame)
qed

lemma read1_ok:
  assumes "crypto_ok C" "WriteMessage1 C (Inr xi) (new_state C roleInitiator si) = (Inr msg, i)"
  shows "\<exists>n. ReadMessage1 C msg (new_state C roleResponder sr) = (None, n) \<and> in_sync n i
     \<and> rEPub n = public_of C xi \<and> sPriv n = Some sr \<and> sPub n = public_of C sr
     \<and> nx_role i = roleInitiator \<and> nx_phase i = phaseMsg1Sent \<and> ePriv i = Some xi
     \<and> sPriv i = Some si \<and> sPub i = public_of C si"
  using assms(2) crypto_okD(3) [OF assms(1)]
  by (auto simp: WriteMessage1_def ReadMessage1_def generateKeypair_def new_state_def in_sync_def Let_def case_prod_beta)

section \<open>The exchange\<close>

lemma exchange_agrees:
  assumes "crypto_ok C"
    "WriteMessage1 C (Inr xi) (new_state C roleInitiator si) = (Inr m1, i1)"
    "ReadMessage1 C m1 (new_state C roleResponder sr) = (e1, r1)"
    "WriteMessage2 C (Inr xr) r1 = (Inr m2, r2)"
    "ReadMessage2 C m2 i1 = (e2, i2)"
    "WriteMessage3 C i2 = (Inr m3, i3)"
    "ReadMessage3 C m3 r2 = (e3, r3)"
  shows "e1 = None \<and> e2 = None \<and> e3 = None \<and> nx_h i3 = nx_h r3 \<and> nx_ck i3 = nx_ck r3
     \<and> RemoteStaticPub i3 = public_of C sr \<and> RemoteStaticPub r3 = public_of C si
     \<and> (\<exists>a b. Split C i3 = Some (a, b) \<and> Split C r3 = Some (b, a))"
proof -
  have 1: "e1 = None" "in_sync r1 i1" "rEPub r1 = public_of C xi" "sPriv r1 = Some sr" "sPub r1 = public_of C sr"
    "nx_role i1 = roleInitiator" "nx_phase i1 = phaseMsg1Sent" "ePriv i1 = Some xi" "sPriv i1 = Some si"
    "sPub i1 = public_of C si"
    using read1_ok [OF assms(1,2), of sr] assms(3) by auto
  have 2: "e2 = None" "in_sync r2 i2" "rSPub i2 = public_of C sr" "rEPub i2 = public_of C xr" "sPriv i2 = Some si"
    "sPub i2 = public_of C si" "nx_role r2 = roleResponder" "nx_phase r2 = phaseMsg2Sent" "ePriv r2 = Some xr"
    using read2_ok [OF assms(1,4) 1(3-8,2)] assms(5) 1(9,10) by auto
  have "in_sync i2 r2" using 2(2) by (simp add: in_sync_def)
  with read3_ok [OF assms(1,6) 2(4,5,6,7,8,9)] assms(7)
  have 3: "e3 = None" "in_sync i3 r3" "nx_role r3 = roleResponder" "nx_phase r3 = phaseDone"
    "rSPub r3 = public_of C si" "nx_role i3 = roleInitiator" "nx_phase i3 = phaseDone" "rSPub i3 = public_of C sr"
    using 2(3) by auto
  then show ?thesis
    using 1(1) 2(1) by (simp add: in_sync_def Split_def RemoteStaticPub_def case_prod_beta Let_def)
qed

lemmas agreement_split = exchange_agrees [THEN conjunct2, THEN conjunct2, THEN conjunct2, THEN conjunct2, THEN conjunct2,
    THEN conjunct2, THEN conjunct2]

text \<open>
  (C6) An undisturbed XX exchange between a fresh initiator and a fresh responder: whenever the
  three messages could be written, the other side accepts each of them, both sides end in phase
  Done with the same transcript hash and chaining key, each holds the other's static public key,
  and the cipher one side sends with is exactly the cipher the other side receives with.
\<close>

theorem noise_handshake_agreement:
  assumes "crypto_ok C"
    "WriteMessage1 C (Inr xi) (new_state C roleInitiator si) = (Inr m1, i1)"
    "ReadMessage1 C m1 (new_state C roleResponder sr) = (e1, r1)"
    "WriteMessage2 C (Inr xr) r1 = (Inr m2, r2)"
    "ReadMessage2 C m2 i1 = (e2, i2)"
    "WriteMessage3 C i2 = (Inr m3, i3)"
    "ReadMessage3 C m3 r2 = (e3, r3)"
  shows "e1 = None \<and> e2 = None \<and> e3 = None \<and> nx_h i3 = nx_h r3 \<and> nx_ck i3 = nx_ck r3
     \<and> RemoteStaticPub i3 = public_of C sr \<and> RemoteStaticPub r3 = public_of C si
     \<and> (\<exists>a b. Split C i3 = Some (a, b) \<and> Split C r3 = Some (b, a))"
  by (rule exchange_agrees [OF assms])

text \<open>When no derived key is all zeros, which the code refuses, every message can be written.\<close>

definition keys_nonzero :: "crypto \<Rightarrow> bool" where
  "keys_nonzero C \<longleftrightarrow> (\<forall>k x. \<not> isZeroKey (arr32 (hmac C k x)))"

lemma encrypt_succeeds:
  assumes "keys_nonzero C"
  shows "\<exists>ct a'. encryptAndHash C p (mixKey C z a) = (Inr ct, a') \<and> hasK a' \<and> nx_k a' = snd (hkdf2 C (nx_ck a) z)"
  using assms
  by (simp add: encryptAndHash_def mixKey_frame encryptWithAd_def newGCM_def hkdf2_def hmacSHA256_def keys_nonzero_def Let_def)

lemma write2_succeeds:
  assumes "crypto_ok C" "keys_nonzero C" "nx_role n = roleResponder" "nx_phase n = phaseMsg1Received"
    "rEPub n = public_of C xi" "sPriv n = Some sr"
  shows "\<exists>msg n'. WriteMessage2 C (Inr x) n = (Inr msg, n') \<and> hasK n' \<and> (\<exists>ck z. nx_k n' = snd (hkdf2 C ck z))"
proof -
  let ?n1 = "n\<lparr>ePriv := Some x, ePub := public_of C x, nx_h := mixHash C (nx_h n) (public_of C x)\<rparr>"
  obtain ee where ee: "ecdh C x (public_of C xi) = Inr ee" using crypto_okD(5) [OF assms(1)] by blast
  obtain encS n2 where e1: "encryptAndHash C (sPub n) (mixKey C ee ?n1) = (Inr encS, n2)"
    using encrypt_succeeds [OF assms(2)] by blast
  have n2: "rEPub n2 = public_of C xi" "sPriv n2 = Some sr"
    using encryptAndHash_Inr(2) [OF e1] assms(5,6) by (simp_all add: mixKey_frame)
  obtain es where es: "ecdh C sr (public_of C xi) = Inr es" using crypto_okD(5) [OF assms(1)] by blast
  obtain tag n3 where e2: "encryptAndHash C [] (mixKey C es n2) = (Inr tag, n3)" "hasK n3"
    "nx_k n3 = snd (hkdf2 C (nx_ck n2) es)"
    using encrypt_succeeds [OF assms(2)] by blast
  have "WriteMessage2 C (Inr x) n = (Inr (public_of C x @ encS @ tag), n3\<lparr>nx_phase := phaseMsg2Sent\<rparr>)"
    using assms(3-6) ee e1 n2 es e2(1) crypto_okD(4) [OF assms(1)]
    by (simp add: WriteMessage2_def generateKeypair_def importPublicKey_def dhP256_def Let_def)
  then show ?thesis using e2 by auto
qed

lemma write3_succeeds:
  assumes "crypto_ok C" "keys_nonzero C" "nx_role n = roleInitiator" "nx_phase n = phaseMsg2Received"
    "rEPub n = public_of C x" "sPriv n = Some si" "hasK n" "nx_k n = snd (hkdf2 C ck z)"
  shows "\<exists>msg n'. WriteMessage3 C n = (Inr msg, n')"
proof -
  obtain encS n1 where e1: "encryptAndHash C (sPub n) n = (Inr encS, n1)"
    using assms(2,7,8)
    by (simp add: encryptAndHash_def encryptWithAd_def newGCM_def hkdf2_def hmacSHA256_def keys_nonzero_def Let_def)
  have n1: "rEPub n1 = public_of C x" "sPriv n1 = Some si"
    using encryptAndHash_Inr(2) [OF e1] assms(5,6) by simp_all
  obtain se where se: "ecdh C si (public_of C x) = Inr se" using crypto_okD(5) [OF assms(1)] by blast
  obtain tag n2 where "encryptAndHash C [] (mixKey C se n1) = (Inr tag, n2)"
    using encrypt_succeeds [OF assms(2)] by blast
  then show ?thesis
    using assms(3,4) e1 n1 se crypto_okD(4) [OF assms(1)]
    by (simp add: WriteMessage3_def importPublicKey_def dhP256_def)
qed

lemma exchange_runs:
  assumes "crypto_ok C" "keys_nonzero C"
  shows "\<exists>m1 i1 r1 m2 r2 i2 m3 i3 r3.
     WriteMessage1 C (Inr xi) (new_state C roleInitiator si) = (Inr m1, i1)
   \<and> ReadMessage1 C m1 (new_state C roleResponder sr) = (None, r1)
   \<and> WriteMessage2 C (Inr xr) r1 = (Inr m2, r2) \<and> ReadMessage2 C m2 i1 = (None, i2)
   \<and> WriteMessage3 C i2 = (Inr m3, i3) \<and> ReadMessage3 C m3 r2 = (None, r3)"
proof -
  obtain m1 i1 where w1: "WriteMessage1 C (Inr xi) (new_state C roleInitiator si) = (Inr m1, i1)"
    by (simp add: WriteMessage1_def generateKeypair_def new_state_def case_prod_beta Let_def)
  obtain r1 where r1: "ReadMessage1 C m1 (new_state C roleResponder sr) = (None, r1)" "in_sync r1 i1"
    "rEPub r1 = public_of C xi" "sPriv r1 = Some sr" "sPub r1 = public_of C sr"
    "nx_role i1 = roleInitiator" "nx_phase i1 = phaseMsg1Sent" "ePriv i1 = Some xi" "sPriv i1 = Some si"
    "sPub i1 = public_of C si"
    using read1_ok [OF assms(1) w1, of sr] by blast
  have "nx_role r1 = roleResponder" "nx_phase r1 = phaseMsg1Received"
    using r1(1) by (auto simp: ReadMessage1_def new_state_def case_prod_beta Let_def split: if_splits)
  from write2_succeeds [OF assms this r1(3,4)] obtain m2 r2 ck z where
    w2: "WriteMessage2 C (Inr xr) r1 = (Inr m2, r2)" "hasK r2" "nx_k r2 = snd (hkdf2 C ck z)" by blast
  obtain i2 where r2: "ReadMessage2 C m2 i1 = (None, i2)" "in_sync r2 i2" "nx_role i2 = roleInitiator"
    "nx_phase i2 = phaseMsg2Received" "rEPub i2 = public_of C xr" "sPriv i2 = Some si" "sPub i2 = public_of C si"
    "nx_role r2 = roleResponder" "nx_phase r2 = phaseMsg2Sent" "ePriv r2 = Some xr"
    using read2_ok [OF assms(1) w2(1) r1(3-8,2)] r1(9,10) by auto
  have sync: "in_sync i2 r2" "hasK i2" "nx_k i2 = snd (hkdf2 C ck z)"
    using r2(2) w2 by (simp_all add: in_sync_def)
  from write3_succeeds [OF assms r2(3,4,5,6) sync(2,3)] obtain m3 i3 where
    w3: "WriteMessage3 C i2 = (Inr m3, i3)" by blast
  obtain r3 where "ReadMessage3 C m3 r2 = (None, r3)"
    using read3_ok [OF assms(1) w3 r2(5,6,7,8,9,10) sync(1)] by blast
  with w1 r1(1) w2(1) r2(1) w3 show ?thesis by blast
qed

text \<open>
  The handshake completes: with the documented primitives, and unless a derived key happens to
  be all zeros, all six operations of an undisturbed exchange succeed, whatever keys were drawn.
\<close>

theorem noise_handshake_completes:
  assumes "crypto_ok C" "keys_nonzero C"
  shows "\<exists>m1 i1 r1 m2 r2 i2 m3 i3 r3.
     WriteMessage1 C (Inr xi) (new_state C roleInitiator si) = (Inr m1, i1)
   \<and> ReadMessage1 C m1 (new_state C roleResponder sr) = (None, r1)
   \<and> WriteMessage2 C (Inr xr) r1 = (Inr m2, r2) \<and> ReadMessage2 C m2 i1 = (None, i2)
   \<and> WriteMessage3 C i2 = (Inr m3, i3) \<and> ReadMessage3 C m3 r2 = (None, r3)"
  by (rule exchange_runs [OF assms])

text \<open>
  A small concrete instance of the primitives, for the witnesses: it meets \<open>crypto_ok\<close>, and its
  derived keys are never zero.
\<close>

definition pad65 :: "bytes \<Rightarrow> bytes" where
  "pad65 x = take 65 (x @ replicate 65 0)"

definition sum_crypto :: crypto where
  "sum_crypto =
     \<lparr>sha256 = (\<lambda>x. replicate 32 (sum_list x)),
      hmac = (\<lambda>k x. 1 # replicate 31 (sum_list k + sum_list x)),
      gcm_seal = (\<lambda>k n p ad. p @ replicate 16 (sum_list ad + sum_list k)),
      gcm_open = (\<lambda>k n c ad. if 16 \<le> length c \<and> drop (length c - 16) c = replicate 16 (sum_list ad + sum_list k)
                              then Some (take (length c - 16) c) else None),
      public_of = pad65,
      new_public = (\<lambda>raw. if length raw = 65 then Inr raw else Inl (Errorf ''crypto/ecdh: invalid public key'' [])),
      ecdh = (\<lambda>x p. Inr (map2 (+) (pad65 x) p))\<rparr>"

lemma map2_comm: "map2 (+) xs ys = map2 (+) ys (xs :: bytes)"
  by (induction xs ys rule: list_induct2') (auto simp: add.commute)

lemma sum_crypto_ok: "crypto_ok sum_crypto"
proof -
  have "length (pad65 x) = 65" for x by (simp add: pad65_def min_def)
  then show ?thesis by (simp add: crypto_ok_def sum_crypto_def map2_comm)
qed

lemma sum_crypto_nonzero: "keys_nonzero sum_crypto"
  by (simp add: keys_nonzero_def isZeroKey_def arr32_def sum_crypto_def numeral_eq_Suc)

theorem noise_handshake_completes_witness:
  "\<exists>m1 i1 r1 m2 r2 i2 m3 i3 r3.
     WriteMessage1 sum_crypto (Inr [1]) (new_state sum_crypto roleInitiator [2]) = (Inr m1, i1)
   \<and> ReadMessage1 sum_crypto m1 (new_state sum_crypto roleResponder [3]) = (None, r1)
   \<and> WriteMessage2 sum_crypto (Inr [4]) r1 = (Inr m2, r2) \<and> ReadMessage2 sum_crypto m2 i1 = (None, i2)
   \<and> WriteMessage3 sum_crypto i2 = (Inr m3, i3) \<and> ReadMessage3 sum_crypto m3 r2 = (None, r3)"
  by (rule noise_handshake_completes [OF sum_crypto_ok sum_crypto_nonzero])

theorem noise_handshake_agreement_witness:
  "\<exists>m1 i1 e1 r1 m2 r2 e2 i2 m3 i3 e3 r3.
     WriteMessage1 sum_crypto (Inr [1]) (new_state sum_crypto roleInitiator [2]) = (Inr m1, i1)
   \<and> ReadMessage1 sum_crypto m1 (new_state sum_crypto roleResponder [3]) = (e1, r1)
   \<and> WriteMessage2 sum_crypto (Inr [4]) r1 = (Inr m2, r2) \<and> ReadMessage2 sum_crypto m2 i1 = (e2, i2)
   \<and> WriteMessage3 sum_crypto i2 = (Inr m3, i3) \<and> ReadMessage3 sum_crypto m3 r2 = (e3, r3)
   \<and> e1 = None \<and> e2 = None \<and> e3 = None \<and> nx_ck i3 = nx_ck r3
   \<and> RemoteStaticPub i3 = public_of sum_crypto [3] \<and> RemoteStaticPub r3 = public_of sum_crypto [2]"
proof -
  from exchange_runs [OF sum_crypto_ok sum_crypto_nonzero, of "[1]" "[2]" "[3]" "[4]"]
  obtain m1 i1 r1 m2 r2 i2 m3 i3 r3 where run:
    "WriteMessage1 sum_crypto (Inr [1]) (new_state sum_crypto roleInitiator [2]) = (Inr m1, i1)"
    "ReadMessage1 sum_crypto m1 (new_state sum_crypto roleResponder [3]) = (None, r1)"
    "WriteMessage2 sum_crypto (Inr [4]) r1 = (Inr m2, r2)" "ReadMessage2 sum_crypto m2 i1 = (None, i2)"
    "WriteMessage3 sum_crypto i2 = (Inr m3, i3)" "ReadMessage3 sum_crypto m3 r2 = (None, r3)" by blast
  from run noise_handshake_agreement [OF sum_crypto_ok run] show ?thesis by blast
qed

section \<open>The transport ciphers\<close>

text \<open>Sealing and opening a sequence of messages, each with its associated data.\<close>

fun seal_stream :: "crypto \<Rightarrow> (bytes \<times> bytes) list \<Rightarrow> CipherState \<Rightarrow> bytes list result \<times> CipherState" where
  "seal_stream C [] cs = (Inr [], cs)"
| "seal_stream C ((ad, p) # ms) cs =
     (case Encrypt C ad p cs of
        (Inl e, cs1) \<Rightarrow> (Inl e, cs1)
      | (Inr ct, cs1) \<Rightarrow> (case seal_stream C ms cs1 of (Inl e, cs2) \<Rightarrow> (Inl e, cs2) | (Inr cts, cs2) \<Rightarrow> (Inr (ct # cts), cs2)))"

fun open_stream :: "crypto \<Rightarrow> (bytes \<times> bytes) list \<Rightarrow> CipherState \<Rightarrow> bytes list result \<times> CipherState" where
  "open_stream C [] cs = (Inr [], cs)"
| "open_stream C ((ad, ct) # ms) cs =
     (case Decrypt C ad ct cs of
        (Inl e, cs1) \<Rightarrow> (Inl e, cs1)
      | (Inr p, cs1) \<Rightarrow> (case open_stream C ms cs1 of (Inl e, cs2) \<Rightarrow> (Inl e, cs2) | (Inr ps, cs2) \<Rightarrow> (Inr (p # ps), cs2)))"

lemma seal_stream_Cons:
  assumes "seal_stream C ((ad, p) # ms) cs = (Inr cts, cs')"
  obtains ct cts1 where "cts = ct # cts1" "encryptWithAd C ad p cs = (Inr ct, cs\<lparr>cs_n := cs_n cs + 1\<rparr>)"
    "seal_stream C ms (cs\<lparr>cs_n := cs_n cs + 1\<rparr>) = (Inr cts1, cs')"
proof -
  obtain ct cs1 cts1 where e: "encryptWithAd C ad p cs = (Inr ct, cs1)" "seal_stream C ms cs1 = (Inr cts1, cs')" "cts = ct # cts1"
    using assms by (auto simp: Encrypt_def split: prod.splits sum.splits)
  with encryptWithAd_Inr(5) [OF e(1)] that show thesis by auto
qed

text \<open>
  Transport: a receiver whose cipher has the sender's key and counter decrypts the sender's
  messages, taken in order, to exactly the plaintexts, and stays in step with the sender.
\<close>

theorem cipher_stream_roundtrip:
  assumes "crypto_ok C" "seal_stream C ms cs = (Inr cts, cs')"
  shows "open_stream C (zip (map fst ms) cts) cs = (Inr (map snd ms), cs')"
  using assms(2)
proof (induction ms arbitrary: cs cts)
  case (Cons m ms)
  obtain ad p where m: "m = (ad, p)" by force
  from Cons.prems [unfolded m] show ?case
  proof (rule seal_stream_Cons)
    fix ct cts1
    assume "cts = ct # cts1" and e: "encryptWithAd C ad p cs = (Inr ct, cs\<lparr>cs_n := cs_n cs + 1\<rparr>)"
      and "seal_stream C ms (cs\<lparr>cs_n := cs_n cs + 1\<rparr>) = (Inr cts1, cs')"
    with Cons.IH decrypt_encrypt(1) [OF assms(1) e, of cs] show ?thesis
      by (simp add: m Decrypt_def)
  qed
qed simp

theorem cipher_stream_roundtrip_witness:
  "open_stream sum_crypto [([], projr (fst (Encrypt sum_crypto [] [5, 6] (newCipherState (replicate 32 1)))))]
     (newCipherState (replicate 32 1))
   = (Inr [[5, 6]], newCipherState (replicate 32 1)\<lparr>cs_n := 1\<rparr>)"
  using cipher_stream_roundtrip [OF sum_crypto_ok, of "[([], [5, 6])]" "newCipherState (replicate 32 1)"
      "[projr (fst (Encrypt sum_crypto [] [5, 6] (newCipherState (replicate 32 1))))]"
      "newCipherState (replicate 32 1)\<lparr>cs_n := 1\<rparr>"]
  by (simp add: Encrypt_def encryptWithAd_def newCipherState_def isZeroKey_def newGCM_def replicate_eq_replicate)

lemma nonceBytes_inj: "nonceBytes m = nonceBytes n \<Longrightarrow> m = n"
proof -
  assume eq: "nonceBytes m = nonceBytes n"
  have lt: "unat (x :: u64) < 256 ^ 8" for x
    using unsigned_less [of x, where 'a = nat] by simp
  have "be_put 8 (unat m) = be_put 8 (unat n)" using eq by (simp add: nonceBytes_def)
  from be_put_inj [OF this lt lt] show ?thesis by (simp add: word_unat_eq_iff)
qed

lemma seal_stream_count:
  assumes "seal_stream C ms cs = (Inr cts, cs')"
  shows "unat (cs_n cs) + length ms < 2 ^ 64 \<and> length cts = length ms
     \<and> (\<forall>j<length ms. cts ! j = gcm_seal C (cs_key cs) (nonceBytes (cs_n cs + of_nat j)) (snd (ms ! j)) (fst (ms ! j)))"
  using assms
proof (induction ms arbitrary: cs cts)
  case Nil
  then show ?case using unsigned_less [of "cs_n cs", where 'a = nat] by simp
next
  case (Cons m ms)
  obtain ad p where m: "m = (ad, p)" by force
  from Cons.prems [unfolded m] show ?case
  proof (rule seal_stream_Cons)
    fix ct cts1
    let ?cs = "cs\<lparr>cs_n := cs_n cs + 1\<rparr>"
    assume c: "cts = ct # cts1" and e: "encryptWithAd C ad p cs = (Inr ct, ?cs)"
      and s: "seal_stream C ms ?cs = (Inr cts1, cs')"
    note enc = encryptWithAd_Inr [OF e]
    have "cs_n cs + 1 \<noteq> 0"
      using enc(2) by (metis add.right_neutral add_uminus_conv_diff diff_add_cancel eq_neg_iff_add_eq_0)
    then have "unat (cs_n cs + 1) = Suc (unat (cs_n cs))" by (metis add.commute unatSuc)
    with Cons.IH [OF s] enc(4) c m show ?thesis
      by (auto simp: nth_Cons' of_nat_diff algebra_simps) 
  qed
qed



section \<open>Failures\<close>

lemma encryptAndHash_frame: "\<exists>h. snd (encryptAndHash C p n) = n\<lparr>nx_h := h\<rparr>"
proof (cases "encryptAndHash C p n")
  case (Pair r n')
  then show ?thesis
    by (auto simp: encryptAndHash_def split: if_splits sum.splits intro: exI [of _ "nx_h n"])
qed

lemma decryptAndHash_frame: "\<exists>h. snd (decryptAndHash C p n) = n\<lparr>nx_h := h\<rparr>"
proof (cases "decryptAndHash C p n")
  case (Pair r n')
  then show ?thesis
    by (auto simp: decryptAndHash_def split: if_splits sum.splits intro: exI [of _ "nx_h n"])
qed

definition kept :: "NoiseXX \<Rightarrow> NoiseXX \<Rightarrow> bool" where
  "kept n n' \<longleftrightarrow> nx_role n' = nx_role n \<and> nx_phase n' = nx_phase n \<and> ePriv n' = ePriv n \<and> sPriv n' = sPriv n
     \<and> hasK n' = hasK n"

lemma noise_keeps:
  "encryptAndHash C p n = (r, n') \<Longrightarrow> kept n n'"
  "decryptAndHash C p n = (r, n') \<Longrightarrow> kept n n'"
  using encryptAndHash_frame [of C p n] decryptAndHash_frame [of C p n] by (auto simp: kept_def)

lemma mixKey_keeps [simp]:
  "nx_role (mixKey C z n) = nx_role n" "nx_phase (mixKey C z n) = nx_phase n" "ePriv (mixKey C z n) = ePriv n"
  "sPriv (mixKey C z n) = sPriv n" "hasK (mixKey C z n)"
  by (simp_all add: mixKey_frame)

text \<open>One operation of either side, with any input.\<close>

inductive noise_step :: "crypto \<Rightarrow> NoiseXX \<Rightarrow> NoiseXX \<Rightarrow> bool" for C where
  step_w1: "WriteMessage1 C rnd n = (r, n') \<Longrightarrow> noise_step C n n'"
| step_r1: "ReadMessage1 C msg n = (e, n') \<Longrightarrow> noise_step C n n'"
| step_w2: "WriteMessage2 C rnd n = (r, n') \<Longrightarrow> noise_step C n n'"
| step_r2: "ReadMessage2 C msg n = (e, n') \<Longrightarrow> noise_step C n n'"
| step_w3: "WriteMessage3 C n = (r, n') \<Longrightarrow> noise_step C n n'"
| step_r3: "ReadMessage3 C msg n = (e, n') \<Longrightarrow> noise_step C n n'"

text \<open>Each side visits only its own phases, and holds the private keys that its phase makes it use.\<close>

definition noise_inv :: "NoiseXX \<Rightarrow> bool" where
  "noise_inv n \<longleftrightarrow> sPriv n \<noteq> None
     \<and> nx_phase n \<in> (if nx_role n = roleInitiator then {phaseReady, phaseMsg1Sent, phaseMsg2Received, phaseDone}
                    else {phaseReady, phaseMsg1Received, phaseMsg2Sent, phaseDone})
     \<and> (nx_phase n \<in> {phaseMsg1Sent, phaseMsg2Sent} \<longrightarrow> ePriv n \<noteq> None)
     \<and> (nx_phase n \<in> {phaseMsg2Sent, phaseMsg2Received, phaseDone} \<longrightarrow> hasK n)"

text \<open>
  An operation either stays in its phase or moves to the next one; it keeps the role and the
  static key, and what the new phase needs is there.
\<close>

definition moves :: "role \<Rightarrow> phase \<Rightarrow> phase \<Rightarrow> NoiseXX \<Rightarrow> NoiseXX \<Rightarrow> bool" where
  "moves ro p q n n' \<longleftrightarrow> nx_role n' = nx_role n \<and> sPriv n' = sPriv n
     \<and> (nx_phase n' = nx_phase n \<and> (nx_role n = ro \<and> nx_phase n = p \<or> n' = n) \<and> (hasK n \<longrightarrow> hasK n')
          \<and> (p \<notin> {phaseReady, phaseMsg1Received} \<longrightarrow> ePriv n' = ePriv n)
        \<or> nx_role n = ro \<and> nx_phase n = p \<and> nx_phase n' = q
          \<and> (q \<in> {phaseMsg1Sent, phaseMsg2Sent} \<longrightarrow> ePriv n' \<noteq> None)
          \<and> (q \<in> {phaseMsg2Sent, phaseMsg2Received, phaseDone} \<longrightarrow> hasK n'))"

lemma moves_w1: "WriteMessage1 C rnd n = (r, n') \<Longrightarrow> moves roleInitiator phaseReady phaseMsg1Sent n n'"
  by (auto simp: WriteMessage1_def moves_def Let_def split: if_splits sum.splits)

lemma moves_r1: "ReadMessage1 C msg n = (r, n') \<Longrightarrow> moves roleResponder phaseReady phaseMsg1Received n n'"
  by (auto simp: ReadMessage1_def moves_def split: if_splits)

lemma moves_w2: "WriteMessage2 C rnd n = (r, n') \<Longrightarrow> moves roleResponder phaseMsg1Received phaseMsg2Sent n n'"
  by (simp add: WriteMessage2_def Let_def split: if_splits sum.splits prod.splits)
    (auto simp: moves_def kept_def dest!: noise_keeps)

lemma moves_r2: "ReadMessage2 C msg n = (r, n') \<Longrightarrow> moves roleInitiator phaseMsg1Sent phaseMsg2Received n n'"
  by (simp add: ReadMessage2_def Let_def split: if_splits sum.splits prod.splits)
    (auto simp: moves_def kept_def dest!: noise_keeps)

lemma moves_w3: "WriteMessage3 C n = (r, n') \<Longrightarrow> moves roleInitiator phaseMsg2Received phaseDone n n'"
  by (simp add: WriteMessage3_def Let_def split: if_splits sum.splits prod.splits)
    (auto simp: moves_def kept_def dest!: noise_keeps)

lemma moves_r3: "ReadMessage3 C msg n = (r, n') \<Longrightarrow> moves roleResponder phaseMsg2Sent phaseDone n n'"
  by (simp add: ReadMessage3_def Let_def split: if_splits sum.splits prod.splits)
    (auto simp: moves_def kept_def dest!: noise_keeps)

lemma moves_inv:
  assumes "moves ro p q n n'" "noise_inv n"
    "q \<in> (if ro = roleInitiator then {phaseMsg1Sent, phaseMsg2Received, phaseDone}
          else {phaseMsg1Received, phaseMsg2Sent, phaseDone})"
  shows "noise_inv n'"
proof -
  have keep: "nx_role n' = nx_role n" "sPriv n' = sPriv n" using assms(1) by (auto simp: moves_def)
  from assms(1) consider "n' = n"
    | (stay) "nx_phase n' = nx_phase n" "nx_phase n = p" "hasK n \<longrightarrow> hasK n'"
        "p \<notin> {phaseReady, phaseMsg1Received} \<longrightarrow> ePriv n' = ePriv n"
    | (go) "nx_role n = ro" "nx_phase n' = q" "q \<in> {phaseMsg1Sent, phaseMsg2Sent} \<longrightarrow> ePriv n' \<noteq> None"
        "q \<in> {phaseMsg2Sent, phaseMsg2Received, phaseDone} \<longrightarrow> hasK n'"
    unfolding moves_def by metis
  then show ?thesis
  proof cases
    case stay
    then show ?thesis using keep assms(2) by (simp add: noise_inv_def)
  next
    case go
    then show ?thesis using keep assms(2,3) by (cases ro; simp add: noise_inv_def)
  qed (use assms(2) in simp)
qed

lemma noise_step_inv: "noise_inv n \<Longrightarrow> noise_step C n n' \<Longrightarrow> noise_inv n'"
  by (erule noise_step.cases)
    (auto dest!: moves_w1 moves_r1 moves_w2 moves_r2 moves_w3 moves_r3 elim!: moves_inv)

interpretation noise: guarded_machine "\<lambda>n. \<exists>C ro x. n = new_state C ro x" "\<lambda>n n'. \<exists>C. noise_step C n n'" noise_inv
proof
  show "noise_inv n" if "\<exists>C ro x. n = new_state C ro x" for n
    using that by (auto simp: new_state_def noise_inv_def case_prod_beta Let_def)
  show "noise_inv n'" if "noise_inv n" "\<exists>C. noise_step C n n'" for n n'
    using that noise_step_inv by blast
qed

text \<open>
  In every state a handshake can reach, whatever messages it is fed and in whatever order its
  methods are called, each side is in one of its own phases and holds every private key its phase
  makes it use, so no Diffie-Hellman call meets a nil key, and the handshake ciphers are keyed from
  message 2 on.
\<close>

theorem noise_phase_discipline:
  assumes "(\<lambda>n n'. \<exists>C. noise_step C n n')\<^sup>*\<^sup>* (new_state C ro x) n"
  shows "sPriv n \<noteq> None
     \<and> nx_phase n \<in> (if nx_role n = roleInitiator then {phaseReady, phaseMsg1Sent, phaseMsg2Received, phaseDone}
                    else {phaseReady, phaseMsg1Received, phaseMsg2Sent, phaseDone})
     \<and> (nx_phase n \<in> {phaseMsg1Sent, phaseMsg2Sent} \<longrightarrow> ePriv n \<noteq> None)
     \<and> (nx_phase n \<in> {phaseMsg2Sent, phaseMsg2Received, phaseDone} \<longrightarrow> hasK n)"
proof -
  have "noise_inv n" by (rule noise.reachable_safe [OF _ assms]) blast
  then show ?thesis unfolding noise_inv_def .
qed

theorem noise_phase_discipline_witness:
  "sPriv (snd (WriteMessage1 sum_crypto (Inr [1]) (new_state sum_crypto roleInitiator [2]))) \<noteq> None
   \<and> ePriv (snd (WriteMessage1 sum_crypto (Inr [1]) (new_state sum_crypto roleInitiator [2]))) \<noteq> None"
proof -
  let ?n = "snd (WriteMessage1 sum_crypto (Inr [1]) (new_state sum_crypto roleInitiator [2]))"
  have "noise_step sum_crypto (new_state sum_crypto roleInitiator [2]) ?n"
    by (rule step_w1 [OF prod.collapse [symmetric]])
  then have "(\<lambda>n n'. \<exists>C. noise_step C n n')\<^sup>*\<^sup>* (new_state sum_crypto roleInitiator [2]) ?n" by blast
  from noise_phase_discipline [OF this] show ?thesis
    by (simp add: WriteMessage1_def generateKeypair_def new_state_def case_prod_beta Let_def)
qed

text \<open>
  A message that is refused never advances the handshake: after an error from any of the three
  reads the phase is the one before the call, and \<^verbatim>\<open>Split\<close>, which panics before phase Done, hands
  out no ciphers.
\<close>

theorem noise_refusal_keeps_phase:
  assumes "ReadMessage1 C msg n = (Some e, n') \<or> ReadMessage2 C msg n = (Some e, n') \<or> ReadMessage3 C msg n = (Some e, n')"
    "nx_phase n \<noteq> phaseDone"
  shows "nx_phase n' = nx_phase n \<and> Split C n' = None"
proof -
  have "nx_phase n' = nx_phase n" using assms(1)
  proof (elim disjE)
    assume "ReadMessage1 C msg n = (Some e, n')"
    then show ?thesis by (auto simp: ReadMessage1_def split: if_splits)
  next
    assume "ReadMessage2 C msg n = (Some e, n')"
    then show ?thesis
      by (simp add: ReadMessage2_def Let_def split: if_splits sum.splits prod.splits)
        (auto simp: kept_def dest!: noise_keeps)
  next
    assume "ReadMessage3 C msg n = (Some e, n')"
    then show ?thesis
      by (simp add: ReadMessage3_def Let_def split: if_splits sum.splits prod.splits)
        (auto simp: kept_def dest!: noise_keeps)
  qed
  with assms(2) show ?thesis by (simp add: Split_def)
qed

theorem noise_refusal_keeps_phase_witness:
  "nx_phase (snd (ReadMessage1 sum_crypto [1, 2, 3] (new_state sum_crypto roleResponder [2]))) = phaseReady
   \<and> Split sum_crypto (snd (ReadMessage1 sum_crypto [1, 2, 3] (new_state sum_crypto roleResponder [2]))) = None"
proof -
  have r: "ReadMessage1 sum_crypto [1, 2, 3] (new_state sum_crypto roleResponder [2])
      = (Some (Errorf ''noise: ReadMessage1: expected 65 bytes, got %d'' [3]), new_state sum_crypto roleResponder [2])"
    "nx_phase (new_state sum_crypto roleResponder [2]) = phaseReady"
    by (simp_all add: ReadMessage1_def new_state_def case_prod_beta Let_def)
  from noise_refusal_keeps_phase [OF disjI1 [OF r(1)]] r show ?thesis by simp
qed

section \<open>Nonces of the handshake ciphers\<close>

text \<open>
  The handshake ciphers do not keep their counter: \<^verbatim>\<open>encryptAndHash\<close> makes a fresh cipher with
  counter zero for every call, and no key is mixed in between the last encryption of message 2 and
  the first of message 3. So in every undisturbed exchange the tag that ends message 2 and the
  encrypted static key that opens message 3 are sealed under the same key with the same nonce,
  where the Noise protocol has the counter at one for the second.
\<close>

theorem handshake_nonce_reused:
  assumes "crypto_ok C"
    "WriteMessage1 C (Inr xi) (new_state C roleInitiator si) = (Inr m1, i1)"
    "ReadMessage1 C m1 (new_state C roleResponder sr) = (e1, r1)"
    "WriteMessage2 C (Inr xr) r1 = (Inr m2, r2)"
    "ReadMessage2 C m2 i1 = (e2, i2)"
    "WriteMessage3 C i2 = (Inr m3, i3)"
  shows "\<exists>k ad1 ad2. drop 146 m2 = gcm_seal C k (nonceBytes 0) [] ad1
     \<and> take 81 m3 = gcm_seal C k (nonceBytes 0) (public_of C si) ad2"
proof -
  have 1: "in_sync r1 i1" "rEPub r1 = public_of C xi" "sPriv r1 = Some sr" "sPub r1 = public_of C sr"
    "nx_role i1 = roleInitiator" "nx_phase i1 = phaseMsg1Sent" "ePriv i1 = Some xi" "sPub i1 = public_of C si"
    using read1_ok [OF assms(1,2), of sr] assms(3) by auto
  have 2: "in_sync r2 i2" "sPub i2 = public_of C si"
    using read2_ok [OF assms(1,4) 1(2-7,1)] assms(5) 1(8) by auto
  obtain ad1 where tag: "drop 146 m2 = gcm_seal C (nx_k r2) (nonceBytes 0) [] ad1"
    using assms(4)
  proof (rule WriteMessage2_Inr)
    fix pk ee encS n2 pk2 es tag n3
    let ?n1 = "r1\<lparr>ePriv := Some xr, ePub := public_of C xr, nx_h := mixHash C (nx_h r1) (public_of C xr)\<rparr>"
    assume e1: "encryptAndHash C (sPub r1) (mixKey C ee ?n1) = (Inr encS, n2)"
      and e2: "encryptAndHash C [] (mixKey C es n2) = (Inr tag, n3)"
      and m: "m2 = public_of C xr @ encS @ tag" "r2 = n3\<lparr>nx_phase := phaseMsg2Sent\<rparr>"
    have "length encS = 81"
      using encryptAndHash_Inr(1) [OF e1] 1(4) crypto_okD(2,3) [OF assms(1)] by simp
    then have "drop 146 m2 = tag" using m(1) crypto_okD(3) [OF assms(1)] by simp
    moreover have "nx_k r2 = nx_k (mixKey C es n2)" using encryptAndHash_Inr(2) [OF e2] m(2) by simp
    ultimately show ?thesis using that encryptAndHash_Inr(1) [OF e2] by metis
  qed
  obtain ad2 where "take 81 m3 = gcm_seal C (nx_k i2) (nonceBytes 0) (public_of C si) ad2"
    using assms(6)
  proof (rule WriteMessage3_Inr)
    fix encS n1 pk se tag n2
    assume e: "encryptAndHash C (sPub i2) i2 = (Inr encS, n1)" and m: "m3 = encS @ tag"
    have "length encS = 81"
      using encryptAndHash_Inr(1) [OF e] 2(2) crypto_okD(2,3) [OF assms(1)] by simp
    then show ?thesis using that encryptAndHash_Inr(1) [OF e] 2(2) m by simp
  qed
  with tag 2(1) show ?thesis by (auto simp: in_sync_def)
qed

theorem handshake_nonce_reused_witness:
  "\<exists>m1 i1 e1 r1 m2 r2 e2 i2 m3 i3 k ad1 ad2.
     WriteMessage1 sum_crypto (Inr [1]) (new_state sum_crypto roleInitiator [2]) = (Inr m1, i1)
   \<and> ReadMessage1 sum_crypto m1 (new_state sum_crypto roleResponder [3]) = (e1, r1)
   \<and> WriteMessage2 sum_crypto (Inr [4]) r1 = (Inr m2, r2) \<and> ReadMessage2 sum_crypto m2 i1 = (e2, i2)
   \<and> WriteMessage3 sum_crypto i2 = (Inr m3, i3)
   \<and> drop 146 m2 = gcm_seal sum_crypto k (nonceBytes 0) [] ad1
   \<and> take 81 m3 = gcm_seal sum_crypto k (nonceBytes 0) (public_of sum_crypto [2]) ad2"
proof -
  from exchange_runs [OF sum_crypto_ok sum_crypto_nonzero, of "[1]" "[2]" "[3]" "[4]"]
  obtain m1 i1 r1 m2 r2 i2 m3 i3 where run:
    "WriteMessage1 sum_crypto (Inr [1]) (new_state sum_crypto roleInitiator [2]) = (Inr m1, i1)"
    "ReadMessage1 sum_crypto m1 (new_state sum_crypto roleResponder [3]) = (None, r1)"
    "WriteMessage2 sum_crypto (Inr [4]) r1 = (Inr m2, r2)" "ReadMessage2 sum_crypto m2 i1 = (None, i2)"
    "WriteMessage3 sum_crypto i2 = (Inr m3, i3)" by blast
  from run handshake_nonce_reused [OF sum_crypto_ok run] show ?thesis by blast
qed

end
