(* ===== verification/Frames.thy ===== *)
theory Frames
  imports Prelude
begin

text \<open>
  The relay frame format of \<^verbatim>\<open>agent/internal/relaychannel/frame.go\<close>: one kind byte, a 32-bit
  big-endian length and the payload, with a length cap per kind.
\<close>

definition FrameHandshake :: byte where "FrameHandshake = 0"
definition FrameText :: byte where "FrameText = 1"
definition FrameBinary :: byte where "FrameBinary = 2"
definition MaxHandshakePayload :: nat where "MaxHandshakePayload = 4 * 1024"
definition MaxFramePayload :: nat where "MaxFramePayload = 8 * 1024 * 1024"

lemmas frame_numbers [wire_simps] =
  FrameHandshake_def FrameText_def FrameBinary_def MaxHandshakePayload_def MaxFramePayload_def

record Frame =
  fr_Kind :: byte
  fr_Payload :: bytes

definition capForKind :: "byte \<Rightarrow> nat result" where
  "capForKind kind =
     (if kind = FrameHandshake then Inr MaxHandshakePayload
      else if kind = FrameText \<or> kind = FrameBinary then Inr MaxFramePayload
      else Inl (Errorf ''unknown frame kind: 0x%02x'' [uint kind]))"

definition WriteFrame :: "byte \<Rightarrow> bytes \<Rightarrow> bytes result" where
  "WriteFrame kind payload =
     (case capForKind kind of
        Inl err \<Rightarrow> Inl err
      | Inr cap \<Rightarrow>
          if length payload > cap then Inl (Errorf ''frame too large: %d'' [int (length payload)])
          else Inr (kind # be_put 4 (length payload) @ payload))"

definition DecodeOneFrame :: "bytes \<Rightarrow> (Frame \<times> bytes) result" where
  "DecodeOneFrame buf =
     (if length buf < 5 then Inl (Errorf ''incomplete frame header'' [])
      else case capForKind (hd buf) of
        Inl err \<Rightarrow> Inl err
      | Inr cap \<Rightarrow>
          let len = be_get (take 4 (tl buf)) in
          if len > cap then Inl (Errorf ''frame too large: %d'' [int len])
          else if length buf < 5 + len then Inl (Errorf ''incomplete frame payload'' [])
          else Inr (\<lparr>fr_Kind = hd buf, fr_Payload = take len (drop 5 buf)\<rparr>, drop (5 + len) buf))"

lemma capForKind_less: "capForKind kind = Inr cap \<Longrightarrow> cap < 256 ^ 4"
  by (auto simp: capForKind_def frame_numbers split: if_splits)

text \<open>A written frame decodes from the front of any buffer, leaving what follows it.\<close>

lemma DecodeOneFrame_WriteFrame:
  assumes "WriteFrame kind payload = Inr bs"
  shows "DecodeOneFrame (bs @ rest) = Inr (\<lparr>fr_Kind = kind, fr_Payload = payload\<rparr>, rest)"
proof -
  obtain cap where cap: "capForKind kind = Inr cap" "length payload \<le> cap"
    and bs: "bs = kind # be_put 4 (length payload) @ payload"
    using assms by (auto simp: WriteFrame_def split: sum.splits if_splits)
  have "be_get (be_put 4 (length payload)) = length payload"
    using capForKind_less [OF cap(1)] cap(2) by (intro be_get_put) linarith
  moreover have "drop (5 + length payload) (bs @ rest) = rest"
    by (simp add: bs drop_Cons' flip: add_diff_assoc2)
  ultimately show ?thesis
    using cap by (simp add: DecodeOneFrame_def bs Let_def)
qed

lemma split_header:
  assumes "5 \<le> length buf"
  shows "buf = hd buf # take 4 (tl buf) @ drop 5 buf"
proof -
  have "buf = hd buf # tl buf" using assms by (cases buf) auto
  moreover have "tl buf = take 4 (tl buf) @ drop 4 (tl buf)" by simp
  moreover have "drop 4 (tl buf) = drop 5 buf" by (cases buf) auto
  ultimately show ?thesis by metis
qed

text \<open>Conversely, what decodes is the written frame followed by the rest: no other bytes are accepted.\<close>

lemma DecodeOneFrame_canonical:
  assumes "DecodeOneFrame buf = Inr (f, rest)"
  shows "\<exists>bs. WriteFrame (fr_Kind f) (fr_Payload f) = Inr bs \<and> buf = bs @ rest"
proof -
  define len where "len = be_get (take 4 (tl buf))"
  from assms obtain cap where h: "5 \<le> length buf" "capForKind (hd buf) = Inr cap" "len \<le> cap"
      "5 + len \<le> length buf" "f = \<lparr>fr_Kind = hd buf, fr_Payload = take len (drop 5 buf)\<rparr>"
      "rest = drop (5 + len) buf"
    by (auto simp: DecodeOneFrame_def len_def Let_def split: sum.splits if_splits)
  have four: "length (take 4 (tl buf)) = 4" using h(1) by simp
  have lp: "length (take len (drop 5 buf)) = len" using h(4) by simp
  have "be_put 4 len = take 4 (tl buf)"
    using be_put_get [of "take 4 (tl buf)"] four by (simp add: len_def)
  then have "WriteFrame (fr_Kind f) (fr_Payload f) = Inr (hd buf # take 4 (tl buf) @ take len (drop 5 buf))"
    using h lp by (simp add: WriteFrame_def)
  moreover have "buf = (hd buf # take 4 (tl buf) @ take len (drop 5 buf)) @ rest"
    using split_header [OF h(1)] h(6) by (metis append_Cons append_assoc append_take_drop_id drop_drop add.commute)
  ultimately show ?thesis by blast
qed

definition decodeFramePayload :: "bytes \<Rightarrow> byte \<Rightarrow> bytes result" where
  "decodeFramePayload raw wantKind =
     (case DecodeOneFrame raw of
        Inl err \<Rightarrow> Inl err
      | Inr (frame, rest) \<Rightarrow>
          if rest \<noteq> [] then Inl (Errorf ''unexpected trailing frame bytes'' [])
          else if fr_Kind frame \<noteq> wantKind
          then Inl (Errorf ''unexpected frame kind: got 0x%02x want 0x%02x'' [uint (fr_Kind frame), uint wantKind])
          else Inr (fr_Payload frame))"

interpretation frame: canonical_codec "WriteFrame kind" "\<lambda>raw. decodeFramePayload raw kind" for kind
proof
  show "WriteFrame kind a = Inr bs \<Longrightarrow> decodeFramePayload bs kind = Inr a" for a bs
    using DecodeOneFrame_WriteFrame [of kind a bs "[]"] by (simp add: decodeFramePayload_def)
  show "decodeFramePayload bs kind = Inr a \<Longrightarrow> WriteFrame kind a = Inr bs" for a bs
    using DecodeOneFrame_canonical [of bs]
    by (fastforce simp: decodeFramePayload_def split: sum.splits if_splits prod.splits)
qed

end
