(* ===== verification/Relay_Channel.thy ===== *)
theory Relay_Channel
  imports Noise_Properties Frames Scheduler_Model
begin

text \<open>
  The encrypted relay transport of the agent, \<^verbatim>\<open>agent/internal/relaychannel/channel.go\<close>: start-up with
  the Noise handshake as responder, the read loop, the scheduler's writer, the lane endpoints and
  the close callbacks. The websocket is an input: what \<^verbatim>\<open>Read\<close> returns and whether \<^verbatim>\<open>Write\<close> fails are
  arguments, and what was done to the connection is the list \<open>ch_conn_log\<close>. Callbacks are numbers;
  \<open>ch_ran\<close> lists the callbacks that were run, \<open>ch_delivered\<close> the payloads handed to message handlers.
\<close>

definition noiseAEADOverheadBytes :: nat where "noiseAEADOverheadBytes = 16"
definition MaxRelayPayloadBytes :: nat where
  "MaxRelayPayloadBytes = MaxFramePayload - 1 - noiseAEADOverheadBytes"

datatype conn_event = WriteText string | WriteBinary bytes | ConnCloseNow | ConnClose string

record SecureRelayConfig =
  RelayURL :: string
  RelayJWT :: string
  StaticPrivate :: "privkey option"

record relayEndpoint =
  ep_lane :: Lane
  onMessage :: "nat option"

record SecureRelayChannel =
  ch_cfg :: SecureRelayConfig
  ch_conn :: bool
  ch_noise :: "NoiseXX option"
  ch_send :: "CipherState option"
  ch_recv :: "CipherState option"
  ch_scheduler :: Scheduler
  ch_endpoints :: "Lane \<rightharpoonup> relayEndpoint"
  ch_closeOnce :: bool
  ch_closed :: bool
  ch_onOpen :: "nat option"
  ch_onClose :: "nat option"
  ch_closeListeners :: "nat list"
  ch_reading :: bool
  ch_conn_log :: "conn_event list"
  ch_ran :: "nat list"
  ch_delivered :: "(Lane \<times> nat \<times> bytes) list"
  ch_handed :: "(TrafficClass \<times> bytes) list"

definition lanes :: "Lane list" where
  "lanes = [LaneControl, LaneMedia, LaneBulk]"

definition NewSecureRelayChannel :: "SecureRelayConfig \<Rightarrow> SecureRelayChannel result" where
  "NewSecureRelayChannel cfg =
     (if RelayURL cfg = [] \<or> RelayJWT cfg = [] \<or> StaticPrivate cfg = None
      then Inl (Errorf ''relaychannel: missing required config'' [])
      else Inr \<lparr>ch_cfg = cfg, ch_conn = False, ch_noise = None, ch_send = None, ch_recv = None,
                ch_scheduler = NewScheduler,
                ch_endpoints = map_of (map (\<lambda>l. (l, \<lparr>ep_lane = l, onMessage = None\<rparr>)) lanes),
                ch_closeOnce = False, ch_closed = False, ch_onOpen = None, ch_onClose = None, ch_closeListeners = [],
                ch_reading = False, ch_conn_log = [], ch_ran = [], ch_delivered = [], ch_handed = []\<rparr>)"

section \<open>Callbacks\<close>

definition endpoint_SetOnMessage :: "Lane \<Rightarrow> nat option \<Rightarrow> SecureRelayChannel \<Rightarrow> SecureRelayChannel" where
  "endpoint_SetOnMessage lane handler c =
     (case ch_endpoints c lane of
        None \<Rightarrow> c
      | Some ep \<Rightarrow> c\<lparr>ch_endpoints := (ch_endpoints c)(lane \<mapsto> ep\<lparr>onMessage := handler\<rparr>)\<rparr>)"

definition SetOnMessage :: "nat option \<Rightarrow> SecureRelayChannel \<Rightarrow> SecureRelayChannel" where
  "SetOnMessage handler c = endpoint_SetOnMessage LaneControl handler c"

definition SetOnOpen :: "nat option \<Rightarrow> SecureRelayChannel \<Rightarrow> SecureRelayChannel" where
  "SetOnOpen handler c = c\<lparr>ch_onOpen := handler\<rparr>"

definition SetOnClose :: "nat option \<Rightarrow> SecureRelayChannel \<Rightarrow> SecureRelayChannel" where
  "SetOnClose handler c = c\<lparr>ch_onClose := handler\<rparr>"

definition run_callbacks :: "nat list \<Rightarrow> SecureRelayChannel \<Rightarrow> SecureRelayChannel" where
  "run_callbacks hs c = c\<lparr>ch_ran := ch_ran c @ hs\<rparr>"

definition AddOnClose :: "nat option \<Rightarrow> SecureRelayChannel \<Rightarrow> SecureRelayChannel" where
  "AddOnClose handler c =
     (case handler of
        None \<Rightarrow> c
      | Some h \<Rightarrow> if ch_closed c then run_callbacks [h] c
                 else c\<lparr>ch_closeListeners := ch_closeListeners c @ [h]\<rparr>)"

definition Endpoint :: "Lane \<Rightarrow> SecureRelayChannel \<Rightarrow> relayEndpoint option" where
  "Endpoint lane c = ch_endpoints c lane"

definition notifyClose :: "SecureRelayChannel \<Rightarrow> SecureRelayChannel" where
  "notifyClose c =
     (if ch_closeOnce c then c
      else
        let callbacks = (case ch_onClose c of None \<Rightarrow> [] | Some h \<Rightarrow> [h]) @ ch_closeListeners c
        in run_callbacks callbacks (c\<lparr>ch_closeOnce := True, ch_closed := True\<rparr>))"

definition conn_do :: "conn_event \<Rightarrow> SecureRelayChannel \<Rightarrow> SecureRelayChannel" where
  "conn_do ev c = c\<lparr>ch_conn_log := ch_conn_log c @ [ev]\<rparr>"

definition close_scheduler :: "SecureRelayChannel \<Rightarrow> SecureRelayChannel" where
  "close_scheduler c = c\<lparr>ch_scheduler := Close (ch_scheduler c)\<rparr>"

definition abortTransport :: "SecureRelayChannel \<Rightarrow> SecureRelayChannel" where
  "abortTransport c = notifyClose (if ch_conn c then conn_do ConnCloseNow c else c)"

definition channel_Close :: "goerr option \<Rightarrow> SecureRelayChannel \<Rightarrow> goerr option \<times> SecureRelayChannel" where
  "channel_Close close_err c =
     (let c1 = close_scheduler c in
      if \<not> ch_conn c1 then (None, notifyClose c1)
      else (close_err, notifyClose (conn_do (ConnClose ''relay closed'') c1)))"

section \<open>Start-up\<close>

definition noise_set :: "NoiseXX \<Rightarrow> SecureRelayChannel \<Rightarrow> SecureRelayChannel" where
  "noise_set nx c = c\<lparr>ch_noise := Some nx\<rparr>"

text \<open>
  \<^verbatim>\<open>read1\<close> and \<^verbatim>\<open>read3\<close> are the results of the two \<^verbatim>\<open>conn.Read\<close> calls, \<^verbatim>\<open>write_err\<close> that of \<^verbatim>\<open>conn.Write\<close>,
  \<open>rnd\<close> the key drawn by \<^verbatim>\<open>WriteMessage2\<close>. A nil \<^verbatim>\<open>c.noise\<close> or a panic of \<^verbatim>\<open>Split\<close> is the outer \<open>None\<close>.
\<close>

definition runHandshake ::
  "crypto \<Rightarrow> privkey result \<Rightarrow> bytes result \<Rightarrow> goerr option \<Rightarrow> bytes result \<Rightarrow> SecureRelayChannel
     \<Rightarrow> (goerr option \<times> SecureRelayChannel) option" where
  "runHandshake C rnd read1 write_err read3 c =
     (case read1 of
        Inl err \<Rightarrow> Some (Some (ErrWrap ''read msg1: %w'' [] err), c)
      | Inr msg1Frame \<Rightarrow>
     (case decodeFramePayload msg1Frame FrameHandshake of
        Inl err \<Rightarrow> Some (Some err, c)
      | Inr msg1 \<Rightarrow>
     (case ch_noise c of
        None \<Rightarrow> None
      | Some n0 \<Rightarrow>
     (case ReadMessage1 C msg1 n0 of
        (Some err, n1) \<Rightarrow> Some (Some (ErrWrap ''read Noise msg1: %w'' [] err), noise_set n1 c)
      | (None, n1) \<Rightarrow>
     (case WriteMessage2 C rnd n1 of
        (Inl err, n2) \<Rightarrow> Some (Some (ErrWrap ''write Noise msg2: %w'' [] err), noise_set n2 c)
      | (Inr msg2, n2) \<Rightarrow>
     (case WriteFrame FrameHandshake msg2 of
        Inl err \<Rightarrow> Some (Some err, noise_set n2 c)
      | Inr msg2Frame \<Rightarrow>
     (case write_err of
        Some err \<Rightarrow> Some (Some (ErrWrap ''write msg2 frame: %w'' [] err), noise_set n2 c)
      | None \<Rightarrow>
     let c2 = conn_do (WriteBinary msg2Frame) (noise_set n2 c) in
     (case read3 of
        Inl err \<Rightarrow> Some (Some (ErrWrap ''read msg3: %w'' [] err), c2)
      | Inr msg3Frame \<Rightarrow>
     (case decodeFramePayload msg3Frame FrameHandshake of
        Inl err \<Rightarrow> Some (Some err, c2)
      | Inr msg3 \<Rightarrow>
     (case ReadMessage3 C msg3 n2 of
        (Some err, n3) \<Rightarrow> Some (Some (ErrWrap ''read Noise msg3: %w'' [] err), noise_set n3 c2)
      | (None, n3) \<Rightarrow>
     (case Split C n3 of
        None \<Rightarrow> None
      | Some (s, r) \<Rightarrow> Some (None, (noise_set n3 c2)\<lparr>ch_send := Some s, ch_recv := Some r\<rparr>))))))))))))"

text \<open>The deferred function of \<^verbatim>\<open>Start\<close> when it returns before \<^verbatim>\<open>started\<close> is set.\<close>

definition start_failed :: "SecureRelayChannel \<Rightarrow> SecureRelayChannel" where
  "start_failed c =
     (let c1 = close_scheduler c
      in notifyClose (if ch_conn c1 then conn_do ConnCloseNow c1 else c1))"

definition Start ::
  "crypto \<Rightarrow> goerr option \<Rightarrow> goerr option \<Rightarrow> privkey result \<Rightarrow> bytes result \<Rightarrow> goerr option \<Rightarrow> bytes result
     \<Rightarrow> SecureRelayChannel \<Rightarrow> (goerr option \<times> SecureRelayChannel) option" where
  "Start C dial_err hello_err rnd read1 write_err read3 c =
     (case dial_err of
        Some err \<Rightarrow> Some (Some (ErrWrap ''dial relay websocket: %w'' [] err), start_failed c)
      | None \<Rightarrow>
          let c1 = c\<lparr>ch_conn := True\<rparr> in
          (case hello_err of
             Some err \<Rightarrow> Some (Some (ErrWrap ''write relay hello: %w'' [] err), start_failed (conn_do ConnCloseNow c1))
           | None \<Rightarrow>
               let c2 = conn_do (WriteText (RelayJWT (ch_cfg c1))) c1 in
               (case StaticPrivate (ch_cfg c2) of
                  None \<Rightarrow> None
                | Some priv \<Rightarrow>
                    (case NewResponder C priv of
                       Inl err \<Rightarrow> Some (Some (ErrWrap ''new responder: %w'' [] err), start_failed (conn_do ConnCloseNow c2))
                     | Inr nx \<Rightarrow>
                         (case runHandshake C rnd read1 write_err read3 (noise_set nx c2) of
                            None \<Rightarrow> None
                          | Some (Some err, c3) \<Rightarrow> Some (Some err, start_failed (conn_do ConnCloseNow c3))
                          | Some (None, c3) \<Rightarrow>
                              let c4 = c3\<lparr>ch_reading := True\<rparr>
                              in Some (None, case ch_onOpen c4 of None \<Rightarrow> c4 | Some h \<Rightarrow> run_callbacks [h] c4))))))"

section \<open>Reading\<close>

definition deliver :: "relayEndpoint \<Rightarrow> bytes \<Rightarrow> SecureRelayChannel \<Rightarrow> SecureRelayChannel" where
  "deliver ep payload c =
     (case onMessage ep of
        None \<Rightarrow> c
      | Some h \<Rightarrow> c\<lparr>ch_delivered := ch_delivered c @ [(ep_lane ep, h, payload)]\<rparr>)"

definition read_stop :: "SecureRelayChannel \<Rightarrow> SecureRelayChannel" where
  "read_stop c = notifyClose (close_scheduler (c\<lparr>ch_reading := False\<rparr>))"

definition read_reject :: "string \<Rightarrow> SecureRelayChannel \<Rightarrow> SecureRelayChannel" where
  "read_reject reason c = read_stop (conn_do (ConnClose reason) c)"

text \<open>One turn of \<^verbatim>\<open>readLoop\<close> with what \<^verbatim>\<open>conn.Read\<close> returned; the deferred function runs when it returns.\<close>

definition readLoop_turn :: "crypto \<Rightarrow> bytes result \<Rightarrow> SecureRelayChannel \<Rightarrow> SecureRelayChannel option" where
  "readLoop_turn C data c =
     (if \<not> ch_reading c then Some c
      else case data of
        Inl err \<Rightarrow> Some (read_stop c)
      | Inr data \<Rightarrow>
     (case DecodeOneFrame data of
        Inl err \<Rightarrow> Some (read_reject ''invalid relay frame'' c)
      | Inr (frame, rest) \<Rightarrow>
          if rest \<noteq> [] then Some (read_reject ''multiple relay frames in websocket message'' c)
          else if fr_Kind frame \<noteq> FrameText \<and> fr_Kind frame \<noteq> FrameBinary
          then Some (read_reject ''unexpected relay frame kind'' c)
          else
     (case ch_recv c of
        None \<Rightarrow> None
      | Some recv \<Rightarrow>
     (case Decrypt C [] (fr_Payload frame) recv of
        (Inl err, recv1) \<Rightarrow> Some (read_reject ''relay decrypt failed'' (c\<lparr>ch_recv := Some recv1\<rparr>))
      | (Inr plain, recv1) \<Rightarrow>
     let c1 = c\<lparr>ch_recv := Some recv1\<rparr> in
     (case DecodeEnvelope plain of
        Inl err \<Rightarrow> Some (read_reject ''invalid encrypted lane'' c1)
      | Inr (lane, payload) \<Rightarrow>
     (case ch_endpoints c1 lane of
        None \<Rightarrow> Some (read_reject ''unknown encrypted lane'' c1)
      | Some endpoint \<Rightarrow> Some (deliver endpoint payload c1)))))))"

fun readLoop :: "crypto \<Rightarrow> bytes result list \<Rightarrow> SecureRelayChannel \<Rightarrow> SecureRelayChannel option" where
  "readLoop C [] c = Some c"
| "readLoop C (d # ds) c = (case readLoop_turn C d c of None \<Rightarrow> None | Some c1 \<Rightarrow> readLoop C ds c1)"

section \<open>Writing\<close>

definition writeScheduled ::
  "crypto \<Rightarrow> goerr option \<Rightarrow> TrafficClass \<Rightarrow> Kind \<Rightarrow> bytes \<Rightarrow> SecureRelayChannel \<Rightarrow> goerr option \<times> SecureRelayChannel" where
  "writeScheduled C write_err cls kind payload c =
     (case LaneForClass cls of
        Inl err \<Rightarrow> (Some err, c)
      | Inr lane \<Rightarrow>
     (case EncodeEnvelope lane payload of
        Inl err \<Rightarrow> (Some err, c)
      | Inr plaintext \<Rightarrow>
     (case ch_send c of
        None \<Rightarrow> (Some (Errorf ''relaychannel: channel is not open'' []), c)
      | Some send \<Rightarrow>
          if \<not> ch_conn c then (Some (Errorf ''relaychannel: channel is not open'' []), c)
          else
     (case Encrypt C [] plaintext send of
        (Inl err, send1) \<Rightarrow> (Some err, abortTransport (c\<lparr>ch_send := Some send1\<rparr>))
      | (Inr ciphertext, send1) \<Rightarrow>
     let c1 = c\<lparr>ch_send := Some send1\<rparr> in
     (case WriteFrame kind ciphertext of
        Inl err \<Rightarrow> (Some err, abortTransport c1)
      | Inr frame \<Rightarrow>
     (case write_err of
        Some err \<Rightarrow> (Some err, abortTransport c1)
      | None \<Rightarrow> (None, conn_do (WriteBinary frame) c1)))))))"

section \<open>Lane endpoints\<close>

definition classForLane :: "Lane \<Rightarrow> TrafficClass" where
  "classForLane lane =
     (if lane = LaneMedia then ClassInteractiveMedia else if lane = LaneBulk then ClassBulk else ClassControl)"

text \<open>
  \<^verbatim>\<open>send\<close> blocks in \<^verbatim>\<open>Scheduler.Send\<close>; its first critical section is modelled here, and \<open>ch_handed\<close>
  records what the scheduler has accepted, queued or waiting for room.
\<close>

definition endpoint_send ::
  "relayEndpoint \<Rightarrow> TrafficClass \<Rightarrow> Kind \<Rightarrow> bytes \<Rightarrow> SecureRelayChannel \<Rightarrow> goerr option \<times> SecureRelayChannel" where
  "endpoint_send e cls kind payload c =
     (if length payload > MaxRelayPayloadBytes
      then (Some (Errorf ''relaychannel: payload is %d bytes, maximum is %d''
              [int (length payload), int MaxRelayPayloadBytes]), c)
      else
        case Send None cls kind payload (ch_scheduler c) of
          (SendReturned err, s) \<Rightarrow> (err, c\<lparr>ch_scheduler := s\<rparr>)
        | (_, s) \<Rightarrow> (None, c\<lparr>ch_scheduler := s, ch_handed := ch_handed c @ [(cls, payload)]\<rparr>))"

definition endpoint_SendText :: "relayEndpoint \<Rightarrow> string \<Rightarrow> SecureRelayChannel \<Rightarrow> goerr option \<times> SecureRelayChannel" where
  "endpoint_SendText e text c = endpoint_send e (classForLane (ep_lane e)) KindText (string_bytes text) c"

definition endpoint_SendBinary :: "relayEndpoint \<Rightarrow> bytes \<Rightarrow> SecureRelayChannel \<Rightarrow> goerr option \<times> SecureRelayChannel" where
  "endpoint_SendBinary e data c = endpoint_send e (classForLane (ep_lane e)) KindBinary data c"

definition endpoint_SendBinaryClass ::
  "relayEndpoint \<Rightarrow> TrafficClass \<Rightarrow> bytes \<Rightarrow> SecureRelayChannel \<Rightarrow> goerr option \<times> SecureRelayChannel" where
  "endpoint_SendBinaryClass e cls data c =
     (case LaneForClass cls of
        Inl err \<Rightarrow> (Some err, c)
      | Inr lane \<Rightarrow>
          if lane \<noteq> ep_lane e
          then (Some (Errorf ''relaychannel: traffic class %d maps to lane %d, not endpoint lane %d''
                  [uint cls, uint lane, uint (ep_lane e)]), c)
          else endpoint_send e cls KindBinary data c)"

definition endpoint_BufferedAmount :: "relayEndpoint \<Rightarrow> u64" where
  "endpoint_BufferedAmount e = 0"

text \<open>The compatibility methods of the channel itself; the control endpoint is always there.\<close>

definition channel_SendText :: "string \<Rightarrow> SecureRelayChannel \<Rightarrow> (goerr option \<times> SecureRelayChannel) option" where
  "channel_SendText text c = map_option (\<lambda>e. endpoint_SendText e text c) (ch_endpoints c LaneControl)"

definition channel_SendBinary :: "bytes \<Rightarrow> SecureRelayChannel \<Rightarrow> (goerr option \<times> SecureRelayChannel) option" where
  "channel_SendBinary data c = map_option (\<lambda>e. endpoint_SendBinary e data c) (ch_endpoints c LaneControl)"

definition channel_BufferedAmount :: "SecureRelayChannel \<Rightarrow> u64" where
  "channel_BufferedAmount c = 0"

interpretation relay_endpoint: lane_endpoint "ep_lane e" "endpoint_SendBinaryClass e" ch_handed for e
proof
  fix cls p c
  show "fst (endpoint_SendBinaryClass e cls p c) \<noteq> None \<and> ch_handed (snd (endpoint_SendBinaryClass e cls p c)) = ch_handed c"
    if "LaneForClass cls \<noteq> Inr (ep_lane e)"
    using that by (auto simp: endpoint_SendBinaryClass_def split: sum.splits)
  show "ch_handed (snd (endpoint_SendBinaryClass e cls p c)) = ch_handed c
      \<or> ch_handed (snd (endpoint_SendBinaryClass e cls p c)) = ch_handed c @ [(cls, p)]"
    if "LaneForClass cls = Inr (ep_lane e)"
    using that by (auto simp: endpoint_SendBinaryClass_def endpoint_send_def split: prod.splits send_state.splits)
qed

end
