(* ===== verification/Relay_Properties.thy ===== *)
theory Relay_Properties
  imports Relay_Channel
begin

text \<open>
  The relay transport end to end: what one side writes the other side delivers, on the right lane
  and in order; the handshake leaves both sides with matching ciphers; payloads that an endpoint
  accepts always fit a frame; and close callbacks run exactly once.
\<close>

section \<open>From writer to reader\<close>

definition data_kind :: "Kind \<Rightarrow> bool" where
  "data_kind k \<longleftrightarrow> k = KindText \<or> k = KindBinary"

definition lane_of :: "TrafficClass \<Rightarrow> Lane" where
  "lane_of cls = projr (LaneForClass cls)"

text \<open>A receiver that is reading, with a handler on each of the three lanes.\<close>

definition listening :: "(Lane \<Rightarrow> nat) \<Rightarrow> SecureRelayChannel \<Rightarrow> bool" where
  "listening h b \<longleftrightarrow> ch_reading b
     \<and> (\<forall>l. Lane_Valid l \<longrightarrow> ch_endpoints b l = Some \<lparr>ep_lane = l, onMessage = Some (h l)\<rparr>)"

lemma writeScheduled_None:
  assumes "writeScheduled C we cls kind p a = (None, a')"
  obtains lane plain s ct s1 fr where "LaneForClass cls = Inr lane" "EncodeEnvelope lane p = Inr plain"
    "ch_send a = Some s" "encryptWithAd C [] plain s = (Inr ct, s1)" "WriteFrame kind ct = Inr fr"
    "a' = conn_do (WriteBinary fr) (a\<lparr>ch_send := Some s1\<rparr>)"
  using assms
  by (auto simp: writeScheduled_def Encrypt_def Let_def split: sum.splits option.splits prod.splits if_splits)

lemma turn_delivers:
  assumes ok: "crypto_ok C" and w: "writeScheduled C we cls kind p a = (None, a')" and k: "data_kind kind"
    and b: "listening h b" "ch_recv b = ch_send a"
  shows "\<exists>fr. ch_conn_log a' = ch_conn_log a @ [WriteBinary fr]
     \<and> readLoop_turn C (Inr fr) b
        = Some (b\<lparr>ch_recv := ch_send a', ch_delivered := ch_delivered b @ [(lane_of cls, h (lane_of cls), p)]\<rparr>)"
  using w
proof (rule writeScheduled_None)
  fix lane plain s ct s1 fr
  assume l: "LaneForClass cls = Inr lane" and pl: "EncodeEnvelope lane p = Inr plain" and s: "ch_send a = Some s"
    and e: "encryptWithAd C [] plain s = (Inr ct, s1)" and fr: "WriteFrame kind ct = Inr fr"
    and a': "a' = conn_do (WriteBinary fr) (a\<lparr>ch_send := Some s1\<rparr>)"
  have dec: "DecodeOneFrame fr = Inr (\<lparr>fr_Kind = kind, fr_Payload = ct\<rparr>, [])"
    using DecodeOneFrame_WriteFrame [OF fr, of "[]"] by simp
  have "s1 = s\<lparr>cs_n := cs_n s + 1\<rparr>" using encryptWithAd_Inr(5) [OF e] .
  then have de: "Decrypt C [] ct s = (Inr plain, s1)"
    using decrypt_encrypt(1) [OF ok e, of s] by (simp add: Decrypt_def)
  have env: "DecodeEnvelope plain = Inr (lane, p)" using envelope.decode_encode [of "(lane, p)" plain] pl by simp
  have ep: "ch_endpoints b lane = Some \<lparr>ep_lane = lane, onMessage = Some (h lane)\<rparr>" "ch_reading b"
    using b(1) LaneForClass_Valid [OF l] by (auto simp: listening_def)
  have kind: "kind = FrameText \<or> kind = FrameBinary"
    using k by (auto simp: data_kind_def kind_numbers frame_numbers)
  have "readLoop_turn C (Inr fr) b
      = Some (b\<lparr>ch_recv := ch_send a', ch_delivered := ch_delivered b @ [(lane_of cls, h (lane_of cls), p)]\<rparr>)"
    using dec de env ep kind b(2) s
    by (auto simp: readLoop_turn_def deliver_def lane_of_def l a' conn_do_def Let_def)
  then show ?thesis by (auto simp: a' conn_do_def)
qed

text \<open>Writing a sequence of scheduled requests; it stops at the first error.\<close>

fun write_requests :: "crypto \<Rightarrow> (TrafficClass \<times> Kind \<times> bytes) list \<Rightarrow> SecureRelayChannel \<Rightarrow> goerr option \<times> SecureRelayChannel" where
  "write_requests C [] a = (None, a)"
| "write_requests C ((cls, kind, p) # ms) a =
     (case writeScheduled C None cls kind p a of
        (Some e, a1) \<Rightarrow> (Some e, a1)
      | (None, a1) \<Rightarrow> write_requests C ms a1)"

text \<open>
  (C8) End to end: when the scheduler's writer has written a sequence of requests without error, a
  peer whose receiving cipher equals the writer's sending cipher reads the frames one by one and
  delivers exactly the payloads, each on the lane of its traffic class, in the order they were
  written; it is still reading, and the two ciphers are still in step.
\<close>

theorem relay_delivers_in_order:
  assumes "crypto_ok C" "write_requests C ms a = (None, a')" "\<forall>(cls, kind, p)\<in>set ms. data_kind kind"
    "listening h b" "ch_recv b = ch_send a"
  shows "\<exists>frames b'. ch_conn_log a' = ch_conn_log a @ map WriteBinary frames
     \<and> readLoop C (map Inr frames) b = Some b'
     \<and> ch_delivered b' = ch_delivered b @ map (\<lambda>(cls, kind, p). (lane_of cls, h (lane_of cls), p)) ms
     \<and> listening h b' \<and> ch_recv b' = ch_send a'"
  using assms(2-)
proof (induction ms arbitrary: a b)
  case Nil
  then show ?case by (intro exI [of _ "[]"] exI [of _ b]) simp
next
  case (Cons m ms)
  obtain cls kind p where m: "m = (cls, kind, p)" by (cases m)
  obtain a1 where w: "writeScheduled C None cls kind p a = (None, a1)" "write_requests C ms a1 = (None, a')"
    using Cons.prems(1) m by (auto split: prod.splits option.splits)
  let ?b1 = "b\<lparr>ch_recv := ch_send a1, ch_delivered := ch_delivered b @ [(lane_of cls, h (lane_of cls), p)]\<rparr>"
  obtain fr where fr: "ch_conn_log a1 = ch_conn_log a @ [WriteBinary fr]" "readLoop_turn C (Inr fr) b = Some ?b1"
    using turn_delivers [OF assms(1) w(1) _ Cons.prems(3,4)] Cons.prems(2) m by auto
  have "listening h ?b1" using Cons.prems(3) by (simp add: listening_def)
  with Cons.IH [OF w(2), of ?b1] Cons.prems(2) obtain frames b' where
    "ch_conn_log a' = ch_conn_log a1 @ map WriteBinary frames" "readLoop C (map Inr frames) ?b1 = Some b'"
    "ch_delivered b' = ch_delivered ?b1 @ map (\<lambda>(cls, kind, p). (lane_of cls, h (lane_of cls), p)) ms"
    "listening h b'" "ch_recv b' = ch_send a'" by auto
  with fr m show ?case by (intro exI [of _ "fr # frames"] exI [of _ b']) simp
qed

definition demo_channel :: SecureRelayChannel where
  "demo_channel = (projr (NewSecureRelayChannel \<lparr>RelayURL = ''u'', RelayJWT = ''t'', StaticPrivate = Some [3]\<rparr>))
     \<lparr>ch_conn := True, ch_reading := True, ch_send := Some (newCipherState (replicate 32 1)),
      ch_recv := Some (newCipherState (replicate 32 1)),
      ch_endpoints := map_of (map (\<lambda>l. (l, \<lparr>ep_lane = l, onMessage = Some 9\<rparr>)) lanes)\<rparr>"

lemma demo_listening: "listening (\<lambda>_. 9) demo_channel"
  by (auto simp: listening_def demo_channel_def lanes_def Lane_Valid_def lane_numbers)

lemma demo_write:
  "\<exists>a'. write_requests sum_crypto [(ClassBulk, KindBinary, [7])] demo_channel = (None, a')"
  by (simp add: writeScheduled_def LaneForClass_def EncodeEnvelope_def Lane_Valid_def demo_channel_def
      NewSecureRelayChannel_def Encrypt_def encryptWithAd_def newCipherState_def isZeroKey_def newGCM_def
      replicate_eq_replicate WriteFrame_def capForKind_def sum_crypto_def frame_numbers kind_numbers Let_def)

theorem relay_delivers_in_order_witness:
  "\<exists>(a' :: SecureRelayChannel) frames b'. ch_conn_log a' = ch_conn_log demo_channel @ map WriteBinary frames
     \<and> readLoop sum_crypto (map Inr frames) demo_channel = Some b'
     \<and> ch_delivered b' = [(LaneBulk, 9, [7])]"
proof -
  obtain a' where w: "write_requests sum_crypto [(ClassBulk, KindBinary, [7])] demo_channel = (None, a')"
    using demo_write by blast
  have "ch_recv demo_channel = ch_send demo_channel" "ch_delivered demo_channel = []"
    by (simp_all add: demo_channel_def NewSecureRelayChannel_def)
  with relay_delivers_in_order [OF sum_crypto_ok w _ demo_listening] obtain frames b' where
    "ch_conn_log a' = ch_conn_log demo_channel @ map WriteBinary frames"
    "readLoop sum_crypto (map Inr frames) demo_channel = Some b'" "ch_delivered b' = [(LaneBulk, 9, [7])]"
    by (auto simp: data_kind_def lane_of_def LaneForClass_def)
  then show ?thesis by blast
qed

text \<open>
  A payload that an endpoint accepts, whose class is known and whose kind is text or binary,
  always fits a relay frame: with an open channel and a cipher that can still encrypt, the writer
  cannot fail on it except by a failing websocket.
\<close>

theorem accepted_payload_is_written:
  assumes "crypto_ok C" "length p \<le> MaxRelayPayloadBytes" "LaneForClass cls = Inr lane" "data_kind kind"
    "ch_conn c" "ch_send c = Some s" "length (cs_key s) = 32" "\<not> isZeroKey (cs_key s)" "cs_n s \<noteq> - 1"
  shows "\<exists>fr. writeScheduled C None cls kind p c = (None, conn_do (WriteBinary fr) (c\<lparr>ch_send := Some (s\<lparr>cs_n := cs_n s + 1\<rparr>)\<rparr>))"
proof -
  let ?ct = "gcm_seal C (cs_key s) (nonceBytes (cs_n s)) (lane # p) []"
  have "length ?ct = length p + 17" using crypto_okD(2) [OF assms(1)] by simp
  then have "length ?ct \<le> MaxFramePayload"
    using assms(2) by (simp add: MaxRelayPayloadBytes_def MaxFramePayload_def noiseAEADOverheadBytes_def)
  then obtain fr where "WriteFrame kind ?ct = Inr fr"
    using assms(4) by (auto simp: WriteFrame_def capForKind_def data_kind_def frame_numbers kind_numbers)
  moreover have "EncodeEnvelope lane p = Inr (lane # p)"
    using LaneForClass_Valid [OF assms(3)] by (simp add: EncodeEnvelope_def)
  moreover have "encryptWithAd C [] (lane # p) s = (Inr ?ct, s\<lparr>cs_n := cs_n s + 1\<rparr>)"
    using assms(7-9) by (simp add: encryptWithAd_def newGCM_def)
  ultimately show ?thesis
    using assms(3,5,6) by (intro exI [of _ fr]) (simp add: writeScheduled_def Encrypt_def Let_def)
qed

theorem accepted_payload_is_written_witness:
  "\<exists>fr. writeScheduled sum_crypto None ClassBulk KindBinary [7] demo_channel
     = (None, conn_do (WriteBinary fr)
          (demo_channel\<lparr>ch_send := Some ((newCipherState (replicate 32 1))\<lparr>cs_n := cs_n (newCipherState (replicate 32 1)) + 1\<rparr>)\<rparr>))"
  by (rule accepted_payload_is_written [OF sum_crypto_ok])
    (simp_all add: MaxRelayPayloadBytes_def MaxFramePayload_def noiseAEADOverheadBytes_def LaneForClass_def data_kind_def
      demo_channel_def NewSecureRelayChannel_def newCipherState_def isZeroKey_def replicate_eq_replicate)

section \<open>The handshake over the relay\<close>

text \<open>
  Opening a relay session: against an initiator that runs the protocol, with the three
  messages carried in handshake frames, the channel's handshake succeeds, the frame it wrote
  carries message 2, and afterwards its sending and receiving ciphers are the initiator's
  receiving and sending ciphers.
\<close>

theorem relay_handshake_establishes:
  assumes "crypto_ok C" "ch_noise c = Some (new_state C roleResponder sr)"
    "WriteMessage1 C (Inr xi) (new_state C roleInitiator si) = (Inr m1, i1)"
    "ReadMessage1 C m1 (new_state C roleResponder sr) = (None, r1)" "WriteMessage2 C (Inr xr) r1 = (Inr m2, r2)"
    "ReadMessage2 C m2 i1 = (None, i2)" "WriteMessage3 C i2 = (Inr m3, i3)" "ReadMessage3 C m3 r2 = (None, r3)"
    "WriteFrame FrameHandshake m1 = Inr f1" "WriteFrame FrameHandshake m2 = Inr f2" "WriteFrame FrameHandshake m3 = Inr f3"
  shows "\<exists>c' s r. runHandshake C (Inr xr) (Inr f1) None (Inr f3) c = Some (None, c')
     \<and> ch_conn_log c' = ch_conn_log c @ [WriteBinary f2] \<and> ch_send c' = Some s \<and> ch_recv c' = Some r
     \<and> Split C i3 = Some (r, s)"
proof -
  have d: "decodeFramePayload f1 FrameHandshake = Inr m1" "decodeFramePayload f3 FrameHandshake = Inr m3"
    using frame.decode_encode [OF assms(9)] frame.decode_encode [OF assms(11)] by auto
  obtain a b where ab: "Split C i3 = Some (a, b)" "Split C r3 = Some (b, a)"
    using agreement_split [OF assms(1,3-8)] by blast
  show ?thesis
    using assms(2,4,5,8,10) d ab by (simp add: runHandshake_def conn_do_def noise_set_def Let_def)
qed


lemma exchange_frames:
  assumes "crypto_ok C" "WriteMessage1 C (Inr xi) (new_state C roleInitiator si) = (Inr m1, i1)"
    "ReadMessage1 C m1 (new_state C roleResponder sr) = (None, r1)" "WriteMessage2 C (Inr xr) r1 = (Inr m2, r2)"
    "ReadMessage2 C m2 i1 = (None, i2)" "WriteMessage3 C i2 = (Inr m3, i3)" "ReadMessage3 C m3 r2 = (None, r3)"
  shows "\<exists>f1 f2 f3. WriteFrame FrameHandshake m1 = Inr f1 \<and> WriteFrame FrameHandshake m2 = Inr f2
     \<and> WriteFrame FrameHandshake m3 = Inr f3"
proof -
  have "length m1 = 65" using assms(3) by (auto simp: ReadMessage1_def split: if_splits)
  moreover have "length m2 = 162" using assms(5) by (auto simp: ReadMessage2_def split: if_splits)
  moreover have "length m3 = 97" using assms(7) by (auto simp: ReadMessage3_def split: if_splits)
  ultimately show ?thesis by (simp add: WriteFrame_def capForKind_def frame_numbers)
qed

definition demo_started :: SecureRelayChannel where
  "demo_started = demo_channel\<lparr>ch_noise := Some (new_state sum_crypto roleResponder [3])\<rparr>"

theorem relay_handshake_establishes_witness:
  "\<exists>f1 f2 f3 c' s r i3. runHandshake sum_crypto (Inr [4]) (Inr f1) None (Inr f3) demo_started = Some (None, c')
     \<and> ch_conn_log c' = ch_conn_log demo_started @ [WriteBinary f2] \<and> ch_send c' = Some s \<and> ch_recv c' = Some r
     \<and> Split sum_crypto i3 = Some (r, s)"
proof -
  from exchange_runs [OF sum_crypto_ok sum_crypto_nonzero, of "[1]" "[2]" "[3]" "[4]"]
  obtain m1 i1 r1 m2 r2 i2 m3 i3 r3 where run:
    "WriteMessage1 sum_crypto (Inr [1]) (new_state sum_crypto roleInitiator [2]) = (Inr m1, i1)"
    "ReadMessage1 sum_crypto m1 (new_state sum_crypto roleResponder [3]) = (None, r1)"
    "WriteMessage2 sum_crypto (Inr [4]) r1 = (Inr m2, r2)" "ReadMessage2 sum_crypto m2 i1 = (None, i2)"
    "WriteMessage3 sum_crypto i2 = (Inr m3, i3)" "ReadMessage3 sum_crypto m3 r2 = (None, r3)" by blast
  obtain f1 f2 f3 where "WriteFrame FrameHandshake m1 = Inr f1" "WriteFrame FrameHandshake m2 = Inr f2"
    "WriteFrame FrameHandshake m3 = Inr f3" using exchange_frames [OF sum_crypto_ok run] by blast
  from relay_handshake_establishes [OF sum_crypto_ok _ run this, of demo_started] show ?thesis
    by (simp add: demo_started_def) blast
qed

section \<open>Closing\<close>

text \<open>The operations of a channel that touch its close callbacks, in any order.\<close>

datatype chan_op =
    OpSetOnClose "nat option" | OpAddOnClose "nat option" | OpClose "goerr option" | OpAbort
  | OpRead crypto "bytes result" | OpWrite crypto "goerr option" TrafficClass Kind bytes

fun chan_do :: "chan_op \<Rightarrow> SecureRelayChannel \<Rightarrow> SecureRelayChannel" where
  "chan_do (OpSetOnClose h) c = SetOnClose h c"
| "chan_do (OpAddOnClose h) c = AddOnClose h c"
| "chan_do (OpClose e) c = snd (channel_Close e c)"
| "chan_do OpAbort c = abortTransport c"
| "chan_do (OpRead C d) c = (case readLoop_turn C d c of None \<Rightarrow> c | Some c1 \<Rightarrow> c1)"
| "chan_do (OpWrite C e cls k p) c = snd (writeScheduled C e cls k p c)"

text \<open>\<open>close_view\<close> is what the close callbacks depend on; all other operations leave it alone or close.\<close>

definition close_view :: "SecureRelayChannel \<Rightarrow> bool \<times> bool \<times> nat option \<times> nat list \<times> nat list" where
  "close_view c = (ch_closeOnce c, ch_closed c, ch_onClose c, ch_closeListeners c, ch_ran c)"

lemma notifyClose_view:
  "close_view c = close_view d \<Longrightarrow> close_view (notifyClose c) = close_view (notifyClose d)"
  by (auto simp: close_view_def notifyClose_def run_callbacks_def Let_def)

lemma chan_do_view:
  "close_view (chan_do op c) = close_view c \<or> close_view (chan_do op c) = close_view (notifyClose c)
   \<or> (\<exists>h. op = OpSetOnClose h) \<or> (\<exists>h. op = OpAddOnClose h)"
proof -
  have v: "close_view (conn_do ev d) = close_view d" "close_view (close_scheduler d) = close_view d"
    "close_view (d\<lparr>ch_reading := x\<rparr>) = close_view d" "close_view (d\<lparr>ch_recv := y\<rparr>) = close_view d"
    "close_view (d\<lparr>ch_send := z\<rparr>) = close_view d" "close_view (deliver ep p d) = close_view d" for ev d x y z ep p
    by (auto simp: close_view_def conn_do_def close_scheduler_def deliver_def split: option.splits)
  show ?thesis
  proof (cases op)
    case (OpClose e)
    have "close_view (snd (channel_Close e c)) = close_view (notifyClose c)"
      using notifyClose_view [of "close_scheduler c" c] v
        notifyClose_view [of "conn_do (ConnClose ''relay closed'') (close_scheduler c)" c]
      by (simp add: channel_Close_def Let_def)
    then show ?thesis using OpClose by simp
  next
    case OpAbort
    then show ?thesis
      using notifyClose_view [of "conn_do ConnCloseNow c" c] v by (simp add: abortTransport_def)
  next
    case (OpRead C d)
    have stop: "close_view (read_stop u) = close_view (notifyClose c)" if "close_view u = close_view c" for u
      unfolding read_stop_def by (rule notifyClose_view) (use that v in simp)
    have rej: "close_view (read_reject r u) = close_view (notifyClose c)" if "close_view u = close_view c" for r u
      unfolding read_reject_def by (rule stop) (use that v in simp)
    show ?thesis
      unfolding OpRead chan_do.simps readLoop_turn_def Let_def
      by (simp add: stop rej v split: sum.split option.split prod.split)
  next
    case (OpWrite C e cls k p)
    have ab: "close_view (abortTransport u) = close_view (notifyClose c)" if "close_view u = close_view c" for u
      unfolding abortTransport_def by (rule notifyClose_view) (use that v in simp)
    show ?thesis
      unfolding OpWrite chan_do.simps writeScheduled_def Let_def
      by (simp add: ab v split: sum.split option.split prod.split)
  qed auto
qed


text \<open>The handlers that \<^verbatim>\<open>AddOnClose\<close> was given, and those that \<^verbatim>\<open>SetOnClose\<close> was given.\<close>

fun added :: "chan_op list \<Rightarrow> nat list" where
  "added [] = []"
| "added (OpAddOnClose (Some h) # ops) = h # added ops"
| "added (_ # ops) = added ops"

fun owners :: "chan_op list \<Rightarrow> nat list" where
  "owners [] = []"
| "owners (OpSetOnClose (Some h) # ops) = h # owners ops"
| "owners (_ # ops) = owners ops"

definition chan_run :: "chan_op list \<Rightarrow> SecureRelayChannel \<Rightarrow> SecureRelayChannel" where
  "chan_run ops c = fold chan_do ops c"

text \<open>\<open>owed c h\<close>: how often closing would still run the listener \<open>h\<close>, or has run it.\<close>

definition owed :: "SecureRelayChannel \<Rightarrow> nat \<Rightarrow> nat" where
  "owed c h = count_list (ch_ran c) h + (if ch_closed c then 0 else count_list (ch_closeListeners c) h)"

definition close_ok :: "nat \<Rightarrow> SecureRelayChannel \<Rightarrow> bool" where
  "close_ok h c \<longleftrightarrow> ch_closeOnce c = ch_closed c \<and> ch_onClose c \<noteq> Some h"

lemma owed_view: "close_view c = close_view d \<Longrightarrow> owed c h = owed d h \<and> close_ok h c = close_ok h d \<and> ch_closed c = ch_closed d"
  by (simp add: close_view_def owed_def close_ok_def)

lemma owed_notify: "close_ok h c \<Longrightarrow> owed (notifyClose c) h = owed c h \<and> close_ok h (notifyClose c)"
  by (auto simp: owed_def close_ok_def notifyClose_def run_callbacks_def Let_def split: option.splits)

lemma owed_step:
  assumes "close_ok h c" "h \<notin> set (owners [op])"
  shows "owed (chan_do op c) h = owed c h + count_list (added [op]) h \<and> close_ok h (chan_do op c)"
proof -
  consider (set) x where "op = OpSetOnClose x" | (add) x where "op = OpAddOnClose x"
    | (other) "close_view (chan_do op c) = close_view c \<or> close_view (chan_do op c) = close_view (notifyClose c)"
        "added [op] = []"
    using chan_do_view [of op c] by (cases op) auto
  then show ?thesis
  proof cases
    case set
    then show ?thesis using assms by (cases x) (auto simp: SetOnClose_def owed_def close_ok_def)
  next
    case add
    then show ?thesis
      using assms by (cases x) (auto simp: AddOnClose_def run_callbacks_def owed_def close_ok_def)
  next
    case other
    then show ?thesis
      using owed_view [of "chan_do op c" c h] owed_view [of "chan_do op c" "notifyClose c" h] owed_notify [OF assms(1)] assms(1)
      by auto
  qed
qed

lemma owners_Cons: "owners (op # ops) = owners [op] @ owners ops"
  by (cases "(op # ops)" rule: owners.cases) auto

lemma added_Cons: "added (op # ops) = added [op] @ added ops"
  by (cases "(op # ops)" rule: added.cases) auto

lemma count_list_app: "count_list (xs @ ys) x = count_list xs x + count_list ys x"
  by (induction xs) auto

lemma owed_run:
  assumes "close_ok h c" "h \<notin> set (owners ops)"
  shows "owed (chan_run ops c) h = owed c h + count_list (added ops) h \<and> close_ok h (chan_run ops c)"
  using assms
proof (induction ops arbitrary: c)
  case Nil
  then show ?case by (simp add: chan_run_def)
next
  case (Cons op ops)
  have "h \<notin> set (owners [op])" "h \<notin> set (owners ops)" using Cons.prems(2) owners_Cons [of op ops] by auto
  with owed_step [OF Cons.prems(1)] Cons.IH [of "chan_do op c"] show ?case
    by (simp add: chan_run_def added_Cons [of op ops] count_list_app)
qed

text \<open>Until the channel closes, nothing has run.\<close>

lemma ran_only_closed:
  assumes "\<not> ch_closed (chan_do op c)"
  shows "ch_ran (chan_do op c) = ch_ran c \<and> (ch_closeOnce c = ch_closed c \<longrightarrow> \<not> ch_closed c)"
proof -
  have n: "ch_closed (notifyClose c) \<or> ch_closeOnce c" "ch_closeOnce c \<longrightarrow> notifyClose c = c"
    by (auto simp: notifyClose_def run_callbacks_def Let_def)
  consider (set) x where "op = OpSetOnClose x" | (add) x where "op = OpAddOnClose x"
    | (same) "close_view (chan_do op c) = close_view c" | (close) "close_view (chan_do op c) = close_view (notifyClose c)"
    using chan_do_view [of op c] by blast
  then show ?thesis
  proof cases
    case set
    then show ?thesis using assms by (simp add: SetOnClose_def)
  next
    case add
    then show ?thesis
      using assms by (cases x) (auto simp: AddOnClose_def run_callbacks_def split: if_splits)
  next
    case same
    then show ?thesis using assms by (simp add: close_view_def)
  next
    case close
    then show ?thesis using assms n by (auto simp: close_view_def)
  qed
qed

lemma ran_until_closed:
  assumes "close_ok h c" "h \<notin> set (owners ops)" "\<not> ch_closed (chan_run ops c)"
  shows "ch_ran (chan_run ops c) = ch_ran c \<and> \<not> ch_closed c"
  using assms
proof (induction ops arbitrary: c)
  case Nil
  then show ?case by (simp add: chan_run_def)
next
  case (Cons op ops)
  have o: "h \<notin> set (owners [op])" "h \<notin> set (owners ops)" using Cons.prems(2) owners_Cons [of op ops] by auto
  have "ch_ran (chan_run ops (chan_do op c)) = ch_ran (chan_do op c) \<and> \<not> ch_closed (chan_do op c)"
    using Cons.IH [of "chan_do op c"] owed_step [OF Cons.prems(1) o(1)] o(2) Cons.prems(3) by (simp add: chan_run_def)
  then show ?case
    using ran_only_closed [of op c] Cons.prems(1) by (simp add: chan_run_def close_ok_def)
qed

text \<open>
  Close listeners run exactly once: start from a new channel, and perform any operations
  (further registrations, reads, writes, aborts, closes) in any order. A listener that was
  registered \<open>k\<close> times with \<^verbatim>\<open>AddOnClose\<close>, and is not the handler of \<^verbatim>\<open>SetOnClose\<close>, has run \<open>k\<close> times
  if the channel has closed by then, also when it was registered after the closing, and not at all
  if it has not.
\<close>

theorem close_listeners_run_once:
  assumes "NewSecureRelayChannel cfg = Inr c" "h \<notin> set (owners ops)"
  shows "count_list (ch_ran (chan_run ops c)) h = (if ch_closed (chan_run ops c) then count_list (added ops) h else 0)"
proof -
  have c: "close_ok h c" "owed c h = 0" "ch_ran c = []"
    using assms(1) by (auto simp: NewSecureRelayChannel_def close_ok_def owed_def split: if_splits)
  show ?thesis
  proof (cases "ch_closed (chan_run ops c)")
    case True
    then show ?thesis using owed_run [OF c(1) assms(2)] c(2) by (simp add: owed_def)
  next
    case False
    then show ?thesis using ran_until_closed [OF c(1) assms(2)] c(3) by simp
  qed
qed

definition demo_ops :: "chan_op list" where
  "demo_ops = [OpAddOnClose (Some 5), OpAbort, OpClose None, OpAddOnClose (Some 6), OpAbort]"

theorem close_listeners_run_once_witness:
  "count_list (ch_ran (chan_run demo_ops
       (projr (NewSecureRelayChannel \<lparr>RelayURL = ''u'', RelayJWT = ''t'', StaticPrivate = Some [3]\<rparr>)))) 5 = 1"
proof -
  have n: "NewSecureRelayChannel \<lparr>RelayURL = ''u'', RelayJWT = ''t'', StaticPrivate = Some [3]\<rparr>
      = Inr (projr (NewSecureRelayChannel \<lparr>RelayURL = ''u'', RelayJWT = ''t'', StaticPrivate = Some [3]\<rparr>))"
    by (simp add: NewSecureRelayChannel_def)
  have "ch_closed (chan_run demo_ops
      (projr (NewSecureRelayChannel \<lparr>RelayURL = ''u'', RelayJWT = ''t'', StaticPrivate = Some [3]\<rparr>)))"
    by (simp add: chan_run_def demo_ops_def NewSecureRelayChannel_def AddOnClose_def abortTransport_def notifyClose_def
        channel_Close_def run_callbacks_def close_scheduler_def Let_def)
  with close_listeners_run_once [OF n, of 5 demo_ops] show ?thesis by (simp add: demo_ops_def)
qed

text \<open>
  A lane endpoint never hands the scheduler a request of another lane: whatever classes and
  payloads its callers ask for, everything it has handed on since belongs to its own lane.
\<close>

theorem relay_endpoint_keeps_lane:
  "set (ch_handed (fold (\<lambda>(cls, p) c. snd (endpoint_SendBinaryClass e cls p c)) xs c))
     \<subseteq> set (ch_handed c) \<union> {(cls, p). LaneForClass cls = Inr (ep_lane e)}"
proof -
  have "fold (\<lambda>(cls, p) c. snd (endpoint_SendBinaryClass e cls p c)) xs c = relay_endpoint.send_all e xs c"
    by (induction xs arbitrary: c) auto
  then show ?thesis using relay_endpoint.send_all_on_lane [of e xs c] by simp
qed

end
