(* ===== verification/Hub_Model.thy ===== *)
theory Hub_Model
  imports Prelude
begin

text \<open>
  The signaling hub of \<^verbatim>\<open>signaling-server/internal/hub\<close>: which agent socket serves which API key, who
  owns which share code, and which browser is bound to which session. Websocket connections are
  pointers (\<open>None\<close> is nil); every method is one critical section on the record \<open>Hub\<close>, followed by the
  writes and closes it performs, which are returned as a list of effects. \<open>connWrites\<close> is the set of
  connections that have a write mutex. A write's own error is an argument.
\<close>

datatype hub_effect = HSend ptr json | HCloseNow ptr | HClose ptr string

record pair =
  pr_apiKeyID :: string
  pr_agentConn :: ptr
  pr_browserConn :: ptr

record browserOwner =
  bo_apiKeyID :: string
  bo_sessionID :: string
  bo_agentConn :: ptr

record Hub =
  agents :: "string \<rightharpoonup> ptr"
  codes :: "string \<rightharpoonup> string"
  pairs :: "string \<rightharpoonup> pair"
  connBrowsers :: "string \<rightharpoonup> ptr"
  browserOwners :: "string \<rightharpoonup> browserOwner"
  connFails :: "string \<rightharpoonup> int"
  connImmichFails :: "string \<rightharpoonup> int"
  connWrites :: "nat set"

definition hub_New :: Hub where
  "hub_New = \<lparr>agents = Map.empty, codes = Map.empty, pairs = Map.empty, connBrowsers = Map.empty,
     browserOwners = Map.empty, connFails = Map.empty, connImmichFails = Map.empty, connWrites = {}\<rparr>"

abbreviation agent_of :: "Hub \<Rightarrow> string \<Rightarrow> ptr" where
  "agent_of h apiKey \<equiv> map_get None (agents h) apiKey"

abbreviation code_of :: "Hub \<Rightarrow> string \<Rightarrow> string" where
  "code_of h code \<equiv> map_get [] (codes h) code"

section \<open>Writing to a connection\<close>

definition ensureWriteMuLocked :: "ptr \<Rightarrow> Hub \<Rightarrow> Hub" where
  "ensureWriteMuLocked conn h =
     (case conn of None \<Rightarrow> h | Some c \<Rightarrow> h\<lparr>connWrites := insert c (connWrites h)\<rparr>)"

definition dropWriteMu :: "ptr \<Rightarrow> Hub \<Rightarrow> Hub" where
  "dropWriteMu conn h =
     (case conn of None \<Rightarrow> h | Some c \<Rightarrow> h\<lparr>connWrites := connWrites h - {c}\<rparr>)"

definition writeMu :: "ptr \<Rightarrow> Hub \<Rightarrow> Hub" where
  "writeMu conn h = ensureWriteMuLocked conn h"

definition hub_send :: "goerr option \<Rightarrow> ptr \<Rightarrow> json \<Rightarrow> Hub \<Rightarrow> goerr option \<times> hub_effect list \<times> Hub" where
  "hub_send write_err conn msg h = (write_err, [HSend conn msg], writeMu conn h)"

definition SendDirect :: "goerr option \<Rightarrow> ptr \<Rightarrow> json \<Rightarrow> Hub \<Rightarrow> goerr option \<times> hub_effect list \<times> Hub" where
  "SendDirect write_err conn msg h = hub_send write_err conn msg h"

definition errorMsg :: "string \<Rightarrow> json" where
  "errorMsg message = JObj [(''type'', JStr ''error''), (''message'', JStr message)]"

section \<open>Ownership\<close>

definition IsCurrentAgent :: "string \<Rightarrow> ptr \<Rightarrow> Hub \<Rightarrow> bool" where
  "IsCurrentAgent apiKeyID conn h \<longleftrightarrow> apiKeyID \<noteq> [] \<and> conn \<noteq> None \<and> agent_of h apiKeyID = conn"

definition agentOwnsSessionLocked :: "string \<Rightarrow> ptr \<Rightarrow> string \<Rightarrow> Hub \<Rightarrow> bool" where
  "agentOwnsSessionLocked apiKeyID conn code h \<longleftrightarrow>
     apiKeyID \<noteq> [] \<and> conn \<noteq> None \<and> agent_of h apiKeyID = conn \<and> code_of h code = apiKeyID"

definition browserForAgentLocked :: "string \<Rightarrow> ptr \<Rightarrow> string \<Rightarrow> Hub \<Rightarrow> (ptr \<times> string) option" where
  "browserForAgentLocked apiKeyID conn connID h =
     (case browserOwners h connID of
        None \<Rightarrow> None
      | Some owner \<Rightarrow>
          let browser = map_get None (connBrowsers h) connID in
          if browser = None \<or> bo_apiKeyID owner \<noteq> apiKeyID \<or> bo_agentConn owner \<noteq> conn
             \<or> \<not> agentOwnsSessionLocked apiKeyID conn (bo_sessionID owner) h
          then None else Some (browser, bo_sessionID owner))"

definition BrowserSessionForAgent :: "string \<Rightarrow> ptr \<Rightarrow> string \<Rightarrow> Hub \<Rightarrow> string option" where
  "BrowserSessionForAgent apiKeyID conn connID h = map_option snd (browserForAgentLocked apiKeyID conn connID h)"

section \<open>Agents and codes\<close>

definition rebindPair :: "string \<Rightarrow> ptr \<Rightarrow> Hub \<Rightarrow> string \<Rightarrow> pair option" where
  "rebindPair apiKey conn h code =
     (case pairs h code of
        None \<Rightarrow> None
      | Some p \<Rightarrow>
          if pr_apiKeyID p = apiKey \<and> code_of h code = apiKey
          then Some \<lparr>pr_apiKeyID = apiKey, pr_agentConn = conn, pr_browserConn = pr_browserConn p\<rparr>
          else Some p)"

definition rebindOwner :: "string \<Rightarrow> ptr \<Rightarrow> Hub \<Rightarrow> string \<Rightarrow> browserOwner option" where
  "rebindOwner apiKey conn h connID =
     (case browserOwners h connID of
        None \<Rightarrow> None
      | Some owner \<Rightarrow>
          if bo_apiKeyID owner = apiKey \<and> code_of h (bo_sessionID owner) = apiKey
          then Some (owner\<lparr>bo_agentConn := conn\<rparr>) else Some owner)"

definition RegisterAgent :: "string \<Rightarrow> ptr \<Rightarrow> Hub \<Rightarrow> Hub" where
  "RegisterAgent apiKey conn h =
     ensureWriteMuLocked conn
       (h\<lparr>agents := (agents h)(apiKey \<mapsto> conn), pairs := rebindPair apiKey conn h,
          browserOwners := rebindOwner apiKey conn h\<rparr>)"

definition UnregisterAgent :: "string \<Rightarrow> ptr \<Rightarrow> Hub \<Rightarrow> Hub" where
  "UnregisterAgent apiKey expected h =
     (if expected = None then h
      else
        let h1 = dropWriteMu expected h in
        if agent_of h1 apiKey \<noteq> expected then h1
        else h1\<lparr>agents := (agents h1)(apiKey := None)\<rparr>)"

definition AgentConnected :: "string \<Rightarrow> Hub \<Rightarrow> bool" where
  "AgentConnected apiKey h \<longleftrightarrow> agents h apiKey \<noteq> None"

definition RegisterCode :: "string \<Rightarrow> string \<Rightarrow> Hub \<Rightarrow> Hub" where
  "RegisterCode code apiKey h = h\<lparr>codes := (codes h)(code \<mapsto> apiKey)\<rparr>"

definition UnregisterCode :: "goerr option \<Rightarrow> string \<Rightarrow> string \<Rightarrow> string \<Rightarrow> Hub \<Rightarrow> hub_effect list \<times> Hub" where
  "UnregisterCode write_err code apiKey reason h =
     (if codes h code \<noteq> Some apiKey then ([], h)
      else
        let h1 = h\<lparr>codes := (codes h)(code := None), pairs := (pairs h)(code := None)\<rparr>
        in case pairs h code of
             None \<Rightarrow> ([], h1)
           | Some p \<Rightarrow>
               if pr_browserConn p = None then ([], h1)
               else
                 let (_, effs, h2) = hub_send write_err (pr_browserConn p) (errorMsg reason) h1
                 in (effs @ [HCloseNow (pr_browserConn p)], h2))"

definition GetAgentConn :: "string \<Rightarrow> Hub \<Rightarrow> ptr option" where
  "GetAgentConn code h =
     (case codes h code of None \<Rightarrow> None | Some apiKey \<Rightarrow> agents h apiKey)"

section \<open>Browsers\<close>

definition PairSession :: "string \<Rightarrow> string \<Rightarrow> string \<Rightarrow> ptr \<Rightarrow> Hub \<Rightarrow> goerr option \<times> Hub" where
  "PairSession sessionID connID apiKeyID browserConn h =
     (if codes h sessionID \<noteq> Some apiKeyID then (Some (Errorf ''code not registered'' []), h)
      else case agents h apiKeyID of
             None \<Rightarrow> (Some (Errorf ''agent not connected'' []), h)
           | Some agentConn \<Rightarrow>
               if connID = [] \<or> browserConn = None then (Some (Errorf ''browser identity required'' []), h)
               else
                 (None, ensureWriteMuLocked browserConn
                   (h\<lparr>pairs := (pairs h)(sessionID \<mapsto>
                        \<lparr>pr_apiKeyID = apiKeyID, pr_agentConn = agentConn, pr_browserConn = browserConn\<rparr>),
                      connBrowsers := (connBrowsers h)(connID \<mapsto> browserConn),
                      browserOwners := (browserOwners h)(connID \<mapsto>
                        \<lparr>bo_apiKeyID = apiKeyID, bo_sessionID = sessionID, bo_agentConn = agentConn\<rparr>)\<rparr>)))"

definition UnpairSession :: "string \<Rightarrow> ptr \<Rightarrow> Hub \<Rightarrow> Hub" where
  "UnpairSession sessionID browserConn h =
     (case pairs h sessionID of
        None \<Rightarrow> h
      | Some p \<Rightarrow>
          if browserConn \<noteq> None \<and> pr_browserConn p \<noteq> browserConn then h
          else h\<lparr>pairs := (pairs h)(sessionID := None)\<rparr>)"

definition UnregisterBrowserConn :: "string \<Rightarrow> Hub \<Rightarrow> Hub" where
  "UnregisterBrowserConn connID h =
     (let h1 = (case connBrowsers h connID of None \<Rightarrow> h | Some conn \<Rightarrow> dropWriteMu conn h)
      in h1\<lparr>connBrowsers := (connBrowsers h1)(connID := None), browserOwners := (browserOwners h1)(connID := None),
            connFails := (connFails h1)(connID := None), connImmichFails := (connImmichFails h1)(connID := None)\<rparr>)"

section \<open>Forwarding\<close>

definition SendToAgent :: "goerr option \<Rightarrow> string \<Rightarrow> json \<Rightarrow> Hub \<Rightarrow> goerr option \<times> hub_effect list \<times> Hub" where
  "SendToAgent write_err apiKey msg h =
     (case agents h apiKey of
        None \<Rightarrow> (Some (Errorf (''agent not connected: '' @ apiKey) []), [], h)
      | Some conn \<Rightarrow> hub_send write_err conn msg h)"

definition ForwardToAgent :: "goerr option \<Rightarrow> string \<Rightarrow> json \<Rightarrow> Hub \<Rightarrow> goerr option \<times> hub_effect list \<times> Hub" where
  "ForwardToAgent write_err sessionID msg h =
     (case pairs h sessionID of
        None \<Rightarrow> (None, [], h)
      | Some p \<Rightarrow> hub_send write_err (pr_agentConn p) msg h)"

definition ForwardToBrowser ::
  "goerr option \<Rightarrow> string \<Rightarrow> ptr \<Rightarrow> string \<Rightarrow> json \<Rightarrow> Hub \<Rightarrow> goerr option \<times> hub_effect list \<times> Hub" where
  "ForwardToBrowser write_err apiKeyID agentConn sessionID msg h =
     (case pairs h sessionID of
        None \<Rightarrow> (None, [], h)
      | Some p \<Rightarrow>
          if \<not> (agentOwnsSessionLocked apiKeyID agentConn sessionID h \<and> pr_agentConn p = agentConn)
          then (None, [], h)
          else hub_send write_err (pr_browserConn p) msg h)"

definition ForwardToBrowserByConnID ::
  "goerr option \<Rightarrow> string \<Rightarrow> ptr \<Rightarrow> string \<Rightarrow> json \<Rightarrow> Hub \<Rightarrow> goerr option \<times> hub_effect list \<times> Hub" where
  "ForwardToBrowserByConnID write_err apiKeyID agentConn connID msg h =
     (case browserForAgentLocked apiKeyID agentConn connID h of
        None \<Rightarrow> (None, [], h)
      | Some (conn, _) \<Rightarrow> hub_send write_err conn msg h)"

definition IncrementAuthFailure :: "string \<Rightarrow> ptr \<Rightarrow> string \<Rightarrow> Hub \<Rightarrow> int \<times> Hub" where
  "IncrementAuthFailure apiKeyID agentConn connID h =
     (if browserForAgentLocked apiKeyID agentConn connID h = None then (0, h)
      else
        let n = map_get 0 (connFails h) connID + 1
        in (n, h\<lparr>connFails := (connFails h)(connID \<mapsto> n)\<rparr>))"

definition IncrementImmichAuthFailure :: "string \<Rightarrow> ptr \<Rightarrow> string \<Rightarrow> Hub \<Rightarrow> int \<times> Hub" where
  "IncrementImmichAuthFailure apiKeyID agentConn connID h =
     (if browserForAgentLocked apiKeyID agentConn connID h = None then (0, h)
      else
        let n = map_get 0 (connImmichFails h) connID + 1
        in (n, h\<lparr>connImmichFails := (connImmichFails h)(connID \<mapsto> n)\<rparr>))"

definition CloseBrowserConnWithError ::
  "goerr option \<Rightarrow> string \<Rightarrow> ptr \<Rightarrow> string \<Rightarrow> string \<Rightarrow> Hub \<Rightarrow> hub_effect list \<times> Hub" where
  "CloseBrowserConnWithError write_err apiKeyID agentConn connID message h =
     (case browserForAgentLocked apiKeyID agentConn connID h of
        None \<Rightarrow> ([], h)
      | Some (conn, _) \<Rightarrow>
          let (_, effs, h1) = hub_send write_err conn (errorMsg message) h
          in (effs @ [HClose conn message], h1))"

section \<open>Revoking an API key\<close>

text \<open>
  \<open>order\<close> enumerates the codes of the map in the order Go's \<^verbatim>\<open>range\<close> visits them, which is arbitrary;
  it decides only the order in which the browsers are closed.
\<close>

definition staleCodes :: "string \<Rightarrow> string list \<Rightarrow> Hub \<Rightarrow> string list" where
  "staleCodes apiKeyID order h = filter (\<lambda>code. codes h code = Some apiKeyID) order"

definition staleBrowsers :: "string list \<Rightarrow> Hub \<Rightarrow> ptr list" where
  "staleBrowsers stale h =
     concat (map (\<lambda>code. case pairs h code of
                           None \<Rightarrow> []
                         | Some p \<Rightarrow> if pr_browserConn p = None then [] else [pr_browserConn p]) stale)"

definition CloseAgent :: "string \<Rightarrow> string list \<Rightarrow> Hub \<Rightarrow> hub_effect list \<times> Hub" where
  "CloseAgent apiKeyID order h =
     (let stale = staleCodes apiKeyID order h;
          browserConns = staleBrowsers stale h;
          h1 = h\<lparr>agents := (agents h)(apiKeyID := None),
                 codes := (\<lambda>code. if code \<in> set stale then None else codes h code),
                 pairs := (\<lambda>code. if code \<in> set stale then None else pairs h code)\<rparr>;
          (effs, h2) = (case agents h apiKeyID of
                          Some (Some c) \<Rightarrow> ([HClose (Some c) ''API key revoked''], dropWriteMu (Some c) h1)
                        | _ \<Rightarrow> ([], h1))
      in (effs @ map (\<lambda>b. HClose b ''agent disconnected'') browserConns, fold dropWriteMu browserConns h2))"

end
