(* ===== verification/Hub_Properties.thy ===== *)
theory Hub_Properties
  imports Hub_Model
begin

text \<open>
  Who can reach a browser through the hub. The properties range over every sequence of hub
  operations, as the handlers of any number of sockets may issue them.
\<close>

datatype hub_op =
    HRegisterAgent string nat | HUnregisterAgent string nat | HRegisterCode string string
  | HUnregisterCode "goerr option" string string string | HPair string string string nat | HUnpair string ptr
  | HUnregisterBrowser string | HSendToAgent "goerr option" string json | HForwardToAgent "goerr option" string json
  | HForwardToBrowser "goerr option" string ptr string json | HForwardByConnID "goerr option" string ptr string json
  | HAuthFailure string ptr string | HImmichFailure string ptr string
  | HCloseBrowser "goerr option" string ptr string string | HCloseAgent string "string list"
  | HSendDirect "goerr option" nat json

text \<open>The sockets the handlers register come from \<^verbatim>\<open>websocket.Accept\<close> and are not nil.\<close>

fun hub_do :: "hub_op \<Rightarrow> Hub \<Rightarrow> hub_effect list \<times> Hub" where
  "hub_do (HRegisterAgent k c) h = ([], RegisterAgent k (Some c) h)"
| "hub_do (HUnregisterAgent k c) h = ([], UnregisterAgent k (Some c) h)"
| "hub_do (HRegisterCode code k) h = ([], RegisterCode code k h)"
| "hub_do (HUnregisterCode e code k r) h = UnregisterCode e code k r h"
| "hub_do (HPair s i k b) h = ([], snd (PairSession s i k (Some b) h))"
| "hub_do (HUnpair s b) h = ([], UnpairSession s b h)"
| "hub_do (HUnregisterBrowser i) h = ([], UnregisterBrowserConn i h)"
| "hub_do (HSendToAgent e k m) h = snd (SendToAgent e k m h)"
| "hub_do (HForwardToAgent e s m) h = snd (ForwardToAgent e s m h)"
| "hub_do (HForwardToBrowser e k c s m) h = snd (ForwardToBrowser e k c s m h)"
| "hub_do (HForwardByConnID e k c i m) h = snd (ForwardToBrowserByConnID e k c i m h)"
| "hub_do (HAuthFailure k c i) h = ([], snd (IncrementAuthFailure k c i h))"
| "hub_do (HImmichFailure k c i) h = ([], snd (IncrementImmichAuthFailure k c i h))"
| "hub_do (HCloseBrowser e k c i m) h = CloseBrowserConnWithError e k c i m h"
| "hub_do (HCloseAgent k order) h = CloseAgent k order h"
| "hub_do (HSendDirect e c m) h = snd (SendDirect e (Some c) m h)"

definition hub_run :: "hub_op list \<Rightarrow> Hub \<Rightarrow> Hub" where
  "hub_run ops h = fold (\<lambda>op h. snd (hub_do op h)) ops h"

lemma hub_run_simps [simp]:
  "hub_run [] h = h" "hub_run (op # ops) h = hub_run ops (snd (hub_do op h))"
  "hub_run (xs @ ys) h = hub_run ys (hub_run xs h)"
  by (simp_all add: hub_run_def)

text \<open>The write mutexes do not matter for routing: \<open>same_routes\<close> compares everything else.\<close>

definition same_routes :: "Hub \<Rightarrow> Hub \<Rightarrow> bool" where
  "same_routes h g \<longleftrightarrow> agents g = agents h \<and> codes g = codes h \<and> pairs g = pairs h \<and> connBrowsers g = connBrowsers h
     \<and> browserOwners g = browserOwners h \<and> connFails g = connFails h \<and> connImmichFails g = connImmichFails h"

lemma same_routes_refl [simp]: "same_routes h h"
  by (simp add: same_routes_def)

lemma mu_fields [simp]:
  "agents (ensureWriteMuLocked c h) = agents h" "codes (ensureWriteMuLocked c h) = codes h"
  "pairs (ensureWriteMuLocked c h) = pairs h" "connBrowsers (ensureWriteMuLocked c h) = connBrowsers h"
  "browserOwners (ensureWriteMuLocked c h) = browserOwners h" "connFails (ensureWriteMuLocked c h) = connFails h"
  "connImmichFails (ensureWriteMuLocked c h) = connImmichFails h"
  "agents (dropWriteMu c h) = agents h" "codes (dropWriteMu c h) = codes h"
  "pairs (dropWriteMu c h) = pairs h" "connBrowsers (dropWriteMu c h) = connBrowsers h"
  "browserOwners (dropWriteMu c h) = browserOwners h" "connFails (dropWriteMu c h) = connFails h"
  "connImmichFails (dropWriteMu c h) = connImmichFails h"
  by (simp_all add: ensureWriteMuLocked_def dropWriteMu_def split: option.splits)

lemma fold_drop_fields [simp]:
  "agents (fold dropWriteMu cs h) = agents h" "codes (fold dropWriteMu cs h) = codes h"
  "pairs (fold dropWriteMu cs h) = pairs h" "connBrowsers (fold dropWriteMu cs h) = connBrowsers h"
  "browserOwners (fold dropWriteMu cs h) = browserOwners h" "connFails (fold dropWriteMu cs h) = connFails h"
  "connImmichFails (fold dropWriteMu cs h) = connImmichFails h"
  by (induction cs arbitrary: h) simp_all

lemma hub_send_fields [simp]:
  "agents (snd (snd (hub_send e c m h))) = agents h" "codes (snd (snd (hub_send e c m h))) = codes h"
  "pairs (snd (snd (hub_send e c m h))) = pairs h" "connBrowsers (snd (snd (hub_send e c m h))) = connBrowsers h"
  "browserOwners (snd (snd (hub_send e c m h))) = browserOwners h"
  "connFails (snd (snd (hub_send e c m h))) = connFails h"
  "connImmichFails (snd (snd (hub_send e c m h))) = connImmichFails h"
  "fst (snd (hub_send e c m h)) = [HSend c m]" "fst (hub_send e c m h) = e"
  by (simp_all add: hub_send_def writeMu_def)

text \<open>Sending and forwarding change no route; they are the operations that reach a connection.\<close>

fun sends_only :: "hub_op \<Rightarrow> bool" where
  "sends_only (HSendToAgent e k m) = True"
| "sends_only (HForwardToAgent e s m) = True"
| "sends_only (HForwardToBrowser e k c s m) = True"
| "sends_only (HForwardByConnID e k c i m) = True"
| "sends_only (HCloseBrowser e k c i m) = True"
| "sends_only (HSendDirect e c m) = True"
| "sends_only _ = False"

lemma sends_only_routes: "sends_only op \<Longrightarrow> same_routes h (snd (hub_do op h))"
  by (cases op) (auto simp: same_routes_def SendToAgent_def ForwardToAgent_def ForwardToBrowser_def
      ForwardToBrowserByConnID_def CloseBrowserConnWithError_def SendDirect_def case_prod_beta Let_def split: option.splits)

section \<open>Sockets are never nil\<close>

definition hub_inv :: "Hub \<Rightarrow> bool" where
  "hub_inv h \<longleftrightarrow>
     (\<forall>k c. agents h k = Some c \<longrightarrow> c \<noteq> None)
   \<and> (\<forall>s p. pairs h s = Some p \<longrightarrow> pr_agentConn p \<noteq> None \<and> pr_browserConn p \<noteq> None)
   \<and> (\<forall>i b. connBrowsers h i = Some b \<longrightarrow> b \<noteq> None)
   \<and> dom (browserOwners h) = dom (connBrowsers h)
   \<and> (\<forall>i o'. browserOwners h i = Some o' \<longrightarrow> bo_agentConn o' \<noteq> None)"

lemma hub_inv_fields:
  assumes "agents g = agents h" "pairs g = pairs h" "connBrowsers g = connBrowsers h" "browserOwners g = browserOwners h"
  shows "hub_inv g = hub_inv h"
  using assms by (simp add: hub_inv_def)

lemma hub_inv_cong: "same_routes h g \<Longrightarrow> hub_inv h \<Longrightarrow> hub_inv g"
  using hub_inv_fields [of g h] by (simp add: same_routes_def)

lemma dom_rebindOwner [simp]: "dom (rebindOwner k c h) = dom (browserOwners h)"
  by (auto simp: dom_def rebindOwner_def split: option.splits)

lemma RegisterAgent_inv: "hub_inv h \<Longrightarrow> hub_inv (RegisterAgent k (Some c) h)"
  by (auto simp: hub_inv_def RegisterAgent_def rebindPair_def rebindOwner_def split: option.splits if_splits)

lemma UnregisterAgent_inv: "hub_inv h \<Longrightarrow> hub_inv (UnregisterAgent k c h)"
  by (auto simp: hub_inv_def UnregisterAgent_def Let_def split: if_splits)

lemma PairSession_inv: "hub_inv h \<Longrightarrow> hub_inv (snd (PairSession s i k (Some b) h))"
  by (auto simp: hub_inv_def PairSession_def split: option.splits if_splits)

lemma UnpairSession_inv: "hub_inv h \<Longrightarrow> hub_inv (UnpairSession s b h)"
  by (auto simp: hub_inv_def UnpairSession_def split: option.splits if_splits)

lemma UnregisterBrowser_inv: "hub_inv h \<Longrightarrow> hub_inv (UnregisterBrowserConn i h)"
  by (auto simp: hub_inv_def UnregisterBrowserConn_def Let_def split: option.splits if_splits)

lemma UnregisterCode_inv: "hub_inv h \<Longrightarrow> hub_inv (snd (UnregisterCode e code k r h))"
  by (auto simp: hub_inv_def UnregisterCode_def case_prod_beta Let_def split: option.splits if_splits)

lemma CloseAgent_inv: "hub_inv h \<Longrightarrow> hub_inv (snd (CloseAgent k order h))"
  by (auto simp: hub_inv_def CloseAgent_def case_prod_beta Let_def split: option.splits if_splits)

lemma counters_inv:
  assumes "hub_inv h"
  shows "hub_inv (RegisterCode code k h)" "hub_inv (snd (IncrementAuthFailure k c i h))"
    "hub_inv (snd (IncrementImmichAuthFailure k c i h))"
  using assms hub_inv_fields [of "RegisterCode code k h" h] hub_inv_fields [of "snd (IncrementAuthFailure k c i h)" h]
    hub_inv_fields [of "snd (IncrementImmichAuthFailure k c i h)" h]
  by (simp_all add: RegisterCode_def IncrementAuthFailure_def IncrementImmichAuthFailure_def Let_def)

lemma hub_do_inv: "hub_inv h \<Longrightarrow> hub_inv (snd (hub_do op h))"
proof (cases "sends_only op")
  case True
  assume "hub_inv h"
  with hub_inv_cong [OF sends_only_routes [OF True]] show ?thesis by blast
next
  case False
  assume "hub_inv h"
  with False show ?thesis
    by (cases op) (simp_all add: RegisterAgent_inv UnregisterAgent_inv PairSession_inv UnpairSession_inv
        UnregisterBrowser_inv UnregisterCode_inv CloseAgent_inv counters_inv)
qed

lemma hub_New_inv: "hub_inv hub_New"
  by (simp add: hub_inv_def hub_New_def)

interpretation hub: guarded_machine "\<lambda>h. h = hub_New" "\<lambda>h g. \<exists>op. g = snd (hub_do op h)" hub_inv
  by unfold_locales (auto simp: hub_New_inv hub_do_inv)

lemma hub_run_steps: "(\<lambda>h g. \<exists>op. g = snd (hub_do op h))\<^sup>*\<^sup>* h (hub_run ops h)"
proof (induction ops arbitrary: h)
  case (Cons op ops)
  have "(\<lambda>h g. \<exists>op. g = snd (hub_do op h)) h (snd (hub_do op h))" by blast
  from converse_rtranclp_into_rtranclp [of "\<lambda>h g. \<exists>op. g = snd (hub_do op h)", OF this Cons.IH]
  show ?case by simp
qed simp

lemma hub_run_inv: "hub_inv (hub_run ops hub_New)"
  by (rule hub.reachable_safe [OF refl hub_run_steps])

text \<open>
  The hub never writes to a nil connection: in every state the hub can reach, every message an
  operation sends goes to a socket.
\<close>

theorem hub_never_sends_nil:
  "HSend None m \<notin> set (fst (hub_do op (hub_run ops hub_New)))"
proof -
  let ?h = "hub_run ops hub_New"
  have inv: "hub_inv ?h" by (rule hub_run_inv)
  have br: "browserForAgentLocked k c i ?h = Some (b, s) \<Longrightarrow> b \<noteq> None" for k c i b s
    by (auto simp: browserForAgentLocked_def Let_def split: option.splits if_splits)
  have ag: "agents ?h k = Some c \<Longrightarrow> c \<noteq> None" for k c using inv by (simp add: hub_inv_def)
  have pr: "pairs ?h s = Some p \<Longrightarrow> pr_agentConn p \<noteq> None \<and> pr_browserConn p \<noteq> None" for s p
    using inv by (simp add: hub_inv_def)
  show ?thesis
    by (cases op)
      (auto simp: SendToAgent_def ForwardToAgent_def ForwardToBrowser_def ForwardToBrowserByConnID_def
        CloseBrowserConnWithError_def SendDirect_def UnregisterCode_def CloseAgent_def case_prod_beta Let_def
        split: option.splits if_splits dest: br ag pr)
qed

section \<open>Fencing of superseded sockets\<close>

text \<open>Only registering a socket makes it current.\<close>

lemma agent_only_registered:
  assumes "agent_of (snd (hub_do op h)) k = Some c" "op \<noteq> HRegisterAgent k c"
  shows "agent_of h k = Some c"
proof (cases "sends_only op")
  case True
  then show ?thesis using sends_only_routes [OF True, of h] assms(1) by (simp add: same_routes_def)
next
  case False
  then show ?thesis
    using assms
    by (cases op) (auto simp: RegisterAgent_def UnregisterAgent_def RegisterCode_def UnregisterCode_def PairSession_def
        UnpairSession_def UnregisterBrowserConn_def IncrementAuthFailure_def IncrementImmichAuthFailure_def CloseAgent_def
        case_prod_beta Let_def map_get_def split: option.splits if_splits)
qed

lemma agent_stays_fenced:
  assumes "agent_of h k \<noteq> Some c" "HRegisterAgent k c \<notin> set ops"
  shows "agent_of (hub_run ops h) k \<noteq> Some c"
  using assms
proof (induction ops arbitrary: h)
  case (Cons op ops)
  then show ?case using agent_only_registered [of op h k c] by auto
qed simp



section \<open>Where a browser binding comes from\<close>

text \<open>
  \<open>bound_by ops i k s b\<close>: the last thing that happened to connection \<open>i\<close> in \<open>ops\<close> was its pairing of
  browser \<open>b\<close> with session \<open>s\<close> of key \<open>k\<close>.
\<close>

definition bound_by :: "hub_op list \<Rightarrow> string \<Rightarrow> string \<Rightarrow> string \<Rightarrow> nat \<Rightarrow> bool" where
  "bound_by ops i k s b \<longleftrightarrow>
     (\<exists>pre post. ops = pre @ HPair s i k b # post \<and> HUnregisterBrowser i \<notin> set post)"

lemma bound_by_snoc: "bound_by ops i k s b \<Longrightarrow> op \<noteq> HUnregisterBrowser i \<Longrightarrow> bound_by (ops @ [op]) i k s b"
  unfolding bound_by_def by (metis append.assoc append_Cons insertE list.set(1,2) rotate1.simps(2) set_append set_rotate1 singletonD Un_iff)

lemma bound_by_new: "bound_by (ops @ [HPair s i k b]) i k s b"
  unfolding bound_by_def by (intro exI [of _ ops] exI [of _ "[]"]) simp

definition bindings_ok :: "hub_op list \<Rightarrow> Hub \<Rightarrow> bool" where
  "bindings_ok ops h \<longleftrightarrow>
     (\<forall>i o' c. browserOwners h i = Some o' \<and> connBrowsers h i = Some c \<longrightarrow>
        (\<exists>b. c = Some b \<and> bound_by ops i (bo_apiKeyID o') (bo_sessionID o') b))"

text \<open>What one operation does to the binding of a connection.\<close>

lemma binding_step:
  assumes "browserOwners (snd (hub_do op h)) i = Some o'" "connBrowsers (snd (hub_do op h)) i = Some c"
  obtains (old) o1 where "browserOwners h i = Some o1" "connBrowsers h i = Some c" "bo_apiKeyID o1 = bo_apiKeyID o'"
      "bo_sessionID o1 = bo_sessionID o'" "op \<noteq> HUnregisterBrowser i"
  | (new) b where "op = HPair (bo_sessionID o') i (bo_apiKeyID o') b" "c = Some b"
proof (cases "sends_only op")
  case True
  then show thesis
    using sends_only_routes [OF True, of h] assms by (intro old [of o']) (auto simp: same_routes_def)
next
  case False
  note defs = RegisterCode_def UnregisterCode_def UnpairSession_def IncrementAuthFailure_def
    IncrementImmichAuthFailure_def CloseAgent_def UnregisterAgent_def
  show thesis
  proof (cases op)
    case (HRegisterAgent k a)
    then obtain o1 where "browserOwners h i = Some o1" "o' = o1 \<or> o' = o1\<lparr>bo_agentConn := Some a\<rparr>"
      using assms(1) by (auto simp: RegisterAgent_def rebindOwner_def split: option.splits if_splits)
    then show thesis using assms(2) HRegisterAgent by (intro old [of o1]) (auto simp: RegisterAgent_def)
  next
    case (HPair s j k b)
    show thesis
    proof (cases "j = i \<and> fst (PairSession s j k (Some b) h) = None")
      case True
      then show thesis
        using assms HPair by (intro new [of b]) (auto simp: PairSession_def split: option.splits if_splits)
    next
      case False
      then show thesis
        using assms HPair by (intro old [of o']) (auto simp: PairSession_def split: option.splits if_splits)
    qed
  next
    case (HUnregisterBrowser j)
    then show thesis
      using assms by (intro old [of o']) (auto simp: UnregisterBrowserConn_def Let_def split: option.splits if_splits)
  qed (use False assms in \<open>auto intro!: old [of o'] simp: defs case_prod_beta Let_def split: option.splits if_splits\<close>)
qed

lemma bindings_run: "bindings_ok ops (hub_run ops hub_New)"
proof (induction ops rule: rev_induct)
  case Nil
  then show ?case by (simp add: bindings_ok_def hub_New_def)
next
  case (snoc op ops)
  let ?h = "hub_run ops hub_New"
  show ?case
    unfolding bindings_ok_def
  proof (intro allI impI, elim conjE)
    fix i o' c
    assume "browserOwners (hub_run (ops @ [op]) hub_New) i = Some o'" "connBrowsers (hub_run (ops @ [op]) hub_New) i = Some c"
    then have "browserOwners (snd (hub_do op ?h)) i = Some o'" "connBrowsers (snd (hub_do op ?h)) i = Some c" by simp_all
    then show "\<exists>b. c = Some b \<and> bound_by (ops @ [op]) i (bo_apiKeyID o') (bo_sessionID o') b"
    proof (cases rule: binding_step)
      case (old o1)
      then show ?thesis using snoc unfolding bindings_ok_def by (metis bound_by_snoc)
    next
      case (new b)
      then show ?thesis using bound_by_new by blast
    qed
  qed
qed


definition demo_hub_ops :: "hub_op list" where
  "demo_hub_ops = [HRegisterAgent ''k'' 1, HRegisterCode ''s'' ''k'', HPair ''s'' ''i'' ''k'' 7]"

lemmas hub_eval =
  demo_hub_ops_def RegisterAgent_def RegisterCode_def PairSession_def rebindPair_def rebindOwner_def hub_New_def


section \<open>Reconnecting and revoking\<close>

lemma PairSession_None:
  assumes "PairSession s i k (Some b) h = (None, h1)"
  obtains a where "codes h1 s = Some k" "agents h1 k = Some a"
    "pairs h1 s = Some \<lparr>pr_apiKeyID = k, pr_agentConn = a, pr_browserConn = Some b\<rparr>"
    "connBrowsers h1 i = Some (Some b)"
    "browserOwners h1 i = Some \<lparr>bo_apiKeyID = k, bo_sessionID = s, bo_agentConn = a\<rparr>"
  using assms by (auto simp: PairSession_def split: option.splits if_splits)

lemma browserFor_cong:
  assumes "agents g = agents h" "codes g = codes h" "connBrowsers g = connBrowsers h" "browserOwners g = browserOwners h"
  shows "browserForAgentLocked k c i g = browserForAgentLocked k c i h"
  using assms unfolding browserForAgentLocked_def agentOwnsSessionLocked_def by (simp split: option.split)

text \<open>
  Reconnecting: when a browser has been paired with a connected agent and the agent's next
  socket registers for the same non-empty key, messages of the new socket reach that browser by
  session and by connection id, and the browser's messages reach the new socket.
\<close>

theorem reconnect_rebinds_browser:
  assumes "PairSession s i k (Some b) h = (None, h1)" "k \<noteq> []" "h2 = RegisterAgent k (Some new) h1"
  shows "fst (snd (ForwardToBrowser e k (Some new) s m h2)) = [HSend (Some b) m]
       \<and> fst (snd (ForwardToBrowserByConnID e k (Some new) i m h2)) = [HSend (Some b) m]
       \<and> fst (snd (ForwardToAgent e s m h2)) = [HSend (Some new) m]
       \<and> BrowserSessionForAgent k (Some new) i h2 = Some s"
  using assms(1)
proof (rule PairSession_None)
  fix a
  assume h1: "codes h1 s = Some k" "pairs h1 s = Some \<lparr>pr_apiKeyID = k, pr_agentConn = a, pr_browserConn = Some b\<rparr>"
    "connBrowsers h1 i = Some (Some b)" "browserOwners h1 i = Some \<lparr>bo_apiKeyID = k, bo_sessionID = s, bo_agentConn = a\<rparr>"
  have h2: "agents h2 k = Some (Some new)" "codes h2 s = Some k" "connBrowsers h2 i = Some (Some b)"
    "pairs h2 s = Some \<lparr>pr_apiKeyID = k, pr_agentConn = Some new, pr_browserConn = Some b\<rparr>"
    "browserOwners h2 i = Some \<lparr>bo_apiKeyID = k, bo_sessionID = s, bo_agentConn = Some new\<rparr>"
    using h1 by (simp_all add: assms(3) RegisterAgent_def rebindPair_def rebindOwner_def)
  then have own: "agentOwnsSessionLocked k (Some new) s h2" "browserForAgentLocked k (Some new) i h2 = Some (Some b, s)"
    using assms(2) by (simp_all add: agentOwnsSessionLocked_def browserForAgentLocked_def)
  with h2 show ?thesis
    by (simp add: ForwardToBrowser_def ForwardToBrowserByConnID_def ForwardToAgent_def BrowserSessionForAgent_def)
qed

theorem reconnect_rebinds_browser_witness:
  "fst (snd (ForwardToAgent None ''s'' JNull
     (RegisterAgent ''k'' (Some 2) (hub_run demo_hub_ops hub_New)))) = [HSend (Some 2) JNull]"
proof -
  let ?h = "RegisterCode ''s'' ''k'' (RegisterAgent ''k'' (Some 1) hub_New)"
  have "PairSession ''s'' ''i'' ''k'' (Some 7) ?h = (None, hub_run demo_hub_ops hub_New)"
    by (simp add: hub_eval)
  from reconnect_rebinds_browser [OF this _ refl, where new = 2 and e = None and m = JNull] show ?thesis by simp
qed

text \<open>
  Revoking an API key: with the codes of the hub enumerated, closing the agent leaves no socket
  and no code of the key, removes the pairs of its codes and closes their browsers and the agent's
  socket, and touches no code, pair or socket of another key.
\<close>

theorem CloseAgent_purges:
  assumes "dom (codes h) \<subseteq> set order" "CloseAgent k order h = (effs, g)"
  shows "agents g k = None \<and> (\<forall>code. codes g code \<noteq> Some k)
       \<and> (\<forall>code p b. codes h code = Some k \<and> pairs h code = Some p \<and> pr_browserConn p = Some b \<longrightarrow>
            pairs g code = None \<and> HClose (Some b) ''agent disconnected'' \<in> set effs)
       \<and> (\<forall>c. agents h k = Some (Some c) \<longrightarrow> HClose (Some c) ''API key revoked'' \<in> set effs)
       \<and> (\<forall>k'. k' \<noteq> k \<longrightarrow> agents g k' = agents h k')
       \<and> (\<forall>code. codes h code \<noteq> Some k \<longrightarrow> codes g code = codes h code \<and> pairs g code = pairs h code)"
proof -
  let ?stale = "staleCodes k order h"
  have stale: "code \<in> set ?stale \<longleftrightarrow> codes h code = Some k" for code
    using assms(1) by (auto simp: staleCodes_def)
  obtain effs1 h2 where e1: "effs = effs1 @ map (\<lambda>b. HClose b ''agent disconnected'') (staleBrowsers ?stale h)"
    "g = fold dropWriteMu (staleBrowsers ?stale h) h2"
    and h2: "agents h2 = (agents h)(k := None)" "codes h2 = (\<lambda>code. if code \<in> set ?stale then None else codes h code)"
      "pairs h2 = (\<lambda>code. if code \<in> set ?stale then None else pairs h code)"
    and closed: "\<forall>c. agents h k = Some (Some c) \<longrightarrow> HClose (Some c) ''API key revoked'' \<in> set effs1"
    using assms(2) by (auto simp: CloseAgent_def case_prod_beta Let_def split: option.splits)
  have "Some b \<in> set (staleBrowsers ?stale h)"
    if "codes h code = Some k" "pairs h code = Some p" "pr_browserConn p = Some b" for code p b
    using that stale [of code] by (auto simp: staleBrowsers_def intro!: bexI [of _ code])
  then show ?thesis using closed by (auto simp: e1 h2 stale)
qed

theorem CloseAgent_purges_witness:
  "agents (snd (CloseAgent ''k'' [''s''] (hub_run demo_hub_ops hub_New))) ''k'' = None
   \<and> codes (snd (CloseAgent ''k'' [''s''] (hub_run demo_hub_ops hub_New))) ''s'' \<noteq> Some ''k''
   \<and> HClose (Some 7) ''agent disconnected'' \<in> set (fst (CloseAgent ''k'' [''s''] (hub_run demo_hub_ops hub_New)))"
proof -
  let ?h = "hub_run demo_hub_ops hub_New"
  have d: "codes ?h = [''s'' \<mapsto> ''k'']"
    "pairs ?h ''s'' = Some \<lparr>pr_apiKeyID = ''k'', pr_agentConn = Some 1, pr_browserConn = Some 7\<rparr>"
    by (simp_all add: hub_eval)
  then have "dom (codes ?h) \<subseteq> set [''s'']" by simp
  note purged = CloseAgent_purges [OF this prod.collapse [symmetric], of "''k''"]
  have "HClose (Some 7) ''agent disconnected'' \<in> set (fst (CloseAgent ''k'' [''s''] ?h))"
    using purged [THEN conjunct2, THEN conjunct2, THEN conjunct1, rule_format, OF conjI [OF _ conjI [OF d(2)]], of 7] d(1)
    by simp
  with purged [THEN conjunct1] purged [THEN conjunct2, THEN conjunct1, rule_format, of "''s''"] show ?thesis by blast
qed

definition count_failure :: "string \<Rightarrow> ptr \<Rightarrow> string \<Rightarrow> Hub \<Rightarrow> Hub" where
  "count_failure k c i h = snd (IncrementAuthFailure k c i h)"

text \<open>
  Failure counting: an authorised agent that reports \<open>n\<close> failures of a browser in a row gets
  the counts one to \<open>n\<close> above the count so far, the counts of other browsers do not move, and an
  agent that does not own the browser gets zero and changes nothing.
\<close>

theorem auth_failures_counted:
  "(browserForAgentLocked k c i h \<noteq> None \<longrightarrow>
      map_get 0 (connFails ((count_failure k c i ^^ n) h)) i = map_get 0 (connFails h) i + int n
    \<and> fst (IncrementAuthFailure k c i ((count_failure k c i ^^ n) h)) = map_get 0 (connFails h) i + int n + 1
    \<and> (\<forall>j. j \<noteq> i \<longrightarrow> connFails ((count_failure k c i ^^ n) h) j = connFails h j))
   \<and> (browserForAgentLocked k c i h = None \<longrightarrow> IncrementAuthFailure k c i h = (0, h))"
proof -
  let ?f = "count_failure k c i"
  have br: "browserForAgentLocked k c i (?f g) = browserForAgentLocked k c i g" for g
    by (rule browserFor_cong) (simp_all add: count_failure_def IncrementAuthFailure_def Let_def)
  have step: "browserForAgentLocked k c i g \<noteq> None \<Longrightarrow> connFails (?f g) = (connFails g)(i \<mapsto> map_get 0 (connFails g) i + 1)" for g
    by (auto simp: count_failure_def IncrementAuthFailure_def Let_def)
  have run: "browserForAgentLocked k c i ((?f ^^ n) h) = browserForAgentLocked k c i h
     \<and> (browserForAgentLocked k c i h \<noteq> None \<longrightarrow>
        map_get 0 (connFails ((?f ^^ n) h)) i = map_get 0 (connFails h) i + int n
      \<and> (\<forall>j. j \<noteq> i \<longrightarrow> connFails ((?f ^^ n) h) j = connFails h j))" for n
  proof (induction n)
    case (Suc n)
    then show ?case using br [of "(?f ^^ n) h"] step [of "(?f ^^ n) h"] by auto
  qed simp
  from run [of n] show ?thesis by (auto simp: IncrementAuthFailure_def Let_def)
qed

theorem auth_failures_counted_witness:
  "map_get 0 (connFails ((count_failure ''k'' (Some 1) ''i'' ^^ 3) (hub_run demo_hub_ops hub_New))) ''i'' = 3"
proof -
  let ?h = "hub_run demo_hub_ops hub_New"
  have "browserForAgentLocked ''k'' (Some 1) ''i'' ?h \<noteq> None" "connFails ?h = Map.empty"
    by (simp_all add: hub_eval browserForAgentLocked_def agentOwnsSessionLocked_def map_get_def Let_def)
  with auth_failures_counted [of "''k''" "Some 1" "''i''" ?h 3] show ?thesis by (simp add: map_get_def)
qed

end
