(* ===== verification/Relay_Registry.thy ===== *)
theory Relay_Registry
  imports Hub_Model Go_Std
begin

text \<open>
  The relay side of the signaling server: the registry of relay sessions
  (\<^verbatim>\<open>internal/relay/registry.go\<close>), the tokens (\<^verbatim>\<open>tokens.go\<close>) and the websocket handler that pairs the two
  sockets and forwards frames (\<^verbatim>\<open>internal/handler/relay_ws.go\<close>). Times are integers, in seconds. A session entry
  has an identity, because waiters keep its channels after it has left the map; \<open>rg_closed\<close> holds the
  channels that are closed. \<open>forwardedBytes\<close> is Go's \<^verbatim>\<open>int64\<close>.
\<close>

definition ErrUnknownSID :: goerr where "ErrUnknownSID = Errorf ''relay: unknown sid'' []"
definition ErrReplay :: goerr where "ErrReplay = Errorf ''relay: replayed jti'' []"
definition ErrWaitExceeded :: goerr where "ErrWaitExceeded = Errorf ''relay: pending wait window exceeded'' []"

datatype SessionState = StatePendingBrowser | StatePendingAgent | StateActive

record PendingSession =
  ps_SID :: string
  ps_AccountID :: string
  ps_SessionCode :: string
  ps_AgentID :: string
  ps_RelayAllowed :: bool
  ps_RelayOnly :: bool
  ps_ExpectedStaticPub :: string
  ps_JTI :: string
  ps_ExpiresAt :: int

datatype chan_name = AgentReady | BrowserReady | Done

record sessionEntry =
  se_id :: nat
  se_session :: PendingSession
  agentSocket :: ptr
  browserSocket :: ptr
  se_active :: bool
  forwardedBytes :: "64 word"

record Registry =
  pendingWindow :: int
  sessions :: "string \<rightharpoonup> sessionEntry"
  spentJTI :: "string \<rightharpoonup> int"
  rg_next :: nat
  rg_closed :: "(nat \<times> chan_name) set"

definition NewRegistry :: "int \<Rightarrow> Registry" where
  "NewRegistry window = \<lparr>pendingWindow = window, sessions = Map.empty, spentJTI = Map.empty, rg_next = 0, rg_closed = {}\<rparr>"

definition CreatePendingSession :: "PendingSession \<Rightarrow> Registry \<Rightarrow> goerr option \<times> Registry" where
  "CreatePendingSession session r =
     (None, r\<lparr>rg_next := Suc (rg_next r),
              sessions := (sessions r)(ps_SID session \<mapsto>
                \<lparr>se_id = rg_next r, se_session = session, agentSocket = None, browserSocket = None,
                 se_active = False, forwardedBytes = 0\<rparr>)\<rparr>)"

definition closeCh :: "nat \<Rightarrow> chan_name \<Rightarrow> Registry \<Rightarrow> Registry" where
  "closeCh i ch r = r\<lparr>rg_closed := insert (i, ch) (rg_closed r)\<rparr>"

definition BindBrowserSocket ::
  "string \<Rightarrow> string \<Rightarrow> ptr \<Rightarrow> int \<Rightarrow> Registry \<Rightarrow> (ptr \<times> SessionState) result \<times> Registry" where
  "BindBrowserSocket sid jti conn now r =
     (if spentJTI r jti \<noteq> None then (Inl ErrReplay, r)
      else case sessions r sid of
             None \<Rightarrow> (Inl ErrUnknownSID, r)
           | Some entry \<Rightarrow>
               if now > ps_ExpiresAt (se_session entry) then (Inl ErrUnknownSID, r)
               else
                 let entry1 = entry\<lparr>browserSocket := conn\<rparr>;
                     r1 = closeCh (se_id entry) BrowserReady
                            (r\<lparr>spentJTI := (spentJTI r)(jti \<mapsto> now), sessions := (sessions r)(sid \<mapsto> entry1)\<rparr>)
                 in if (se_id entry, AgentReady) \<in> rg_closed r1
                    then (Inr (agentSocket entry1, StateActive),
                          r1\<lparr>sessions := (sessions r1)(sid \<mapsto> entry1\<lparr>se_active := True\<rparr>)\<rparr>)
                    else (Inr (None, StatePendingBrowser), r1))"

definition BindAgentSocket ::
  "string \<Rightarrow> string \<Rightarrow> ptr \<Rightarrow> int \<Rightarrow> Registry \<Rightarrow> (ptr \<times> SessionState) result \<times> Registry" where
  "BindAgentSocket sid agentID conn now r =
     (case sessions r sid of
        None \<Rightarrow> (Inl ErrUnknownSID, r)
      | Some entry \<Rightarrow>
          if now > ps_ExpiresAt (se_session entry) then (Inl ErrUnknownSID, r)
          else if ps_AgentID (se_session entry) \<noteq> [] \<and> ps_AgentID (se_session entry) \<noteq> agentID
          then (Inl ErrUnknownSID, r)
          else
            let entry1 = entry\<lparr>agentSocket := conn\<rparr>;
                r1 = closeCh (se_id entry) AgentReady (r\<lparr>sessions := (sessions r)(sid \<mapsto> entry1)\<rparr>)
            in if (se_id entry, BrowserReady) \<in> rg_closed r1
               then (Inr (browserSocket entry1, StateActive),
                     r1\<lparr>sessions := (sessions r1)(sid \<mapsto> entry1\<lparr>se_active := True\<rparr>)\<rparr>)
               else (Inr (None, StatePendingAgent), r1))"

definition cleanupSessionLocked :: "string \<Rightarrow> Registry \<Rightarrow> Registry" where
  "cleanupSessionLocked sid r =
     (case sessions r sid of
        None \<Rightarrow> r
      | Some entry \<Rightarrow>
          let r1 = fold (closeCh (se_id entry)) [AgentReady, BrowserReady, Done] r
          in r1\<lparr>sessions := (sessions r1)(sid := None), spentJTI := (spentJTI r1)(ps_JTI (se_session entry) := None)\<rparr>)"

text \<open>
  The two waits, cut where they block: the part before the \<^verbatim>\<open>select\<close> yields the entry whose channel is
  awaited and the deadline; afterwards the channel was closed, or the timer fired.
\<close>

definition Wait_begin :: "string \<Rightarrow> int \<Rightarrow> Registry \<Rightarrow> (nat \<times> int) result" where
  "Wait_begin sid now r =
     (case sessions r sid of
        None \<Rightarrow> Inl ErrUnknownSID
      | Some entry \<Rightarrow>
          let deadline = now + pendingWindow r
          in Inr (se_id entry, if ps_ExpiresAt (se_session entry) < deadline then ps_ExpiresAt (se_session entry) else deadline))"

definition Wait_timeout :: "string \<Rightarrow> Registry \<Rightarrow> ptr result \<times> Registry" where
  "Wait_timeout sid r = (Inl ErrWaitExceeded, cleanupSessionLocked sid r)"

definition WaitForAgent_ready :: "string \<Rightarrow> Registry \<Rightarrow> ptr result" where
  "WaitForAgent_ready sid r =
     (case sessions r sid of None \<Rightarrow> Inl ErrUnknownSID | Some entry \<Rightarrow> Inr (agentSocket entry))"

definition WaitForBrowser_ready :: "string \<Rightarrow> Registry \<Rightarrow> ptr result" where
  "WaitForBrowser_ready sid r =
     (case sessions r sid of None \<Rightarrow> Inl ErrUnknownSID | Some entry \<Rightarrow> Inr (browserSocket entry))"

definition WatchSession :: "string \<Rightarrow> Registry \<Rightarrow> nat result" where
  "WatchSession sid r = (case sessions r sid of None \<Rightarrow> Inl ErrUnknownSID | Some entry \<Rightarrow> Inr (se_id entry))"

definition AddForwardedBytes :: "string \<Rightarrow> int \<Rightarrow> Registry \<Rightarrow> Registry" where
  "AddForwardedBytes sid n r =
     (case sessions r sid of
        None \<Rightarrow> r
      | Some entry \<Rightarrow>
          r\<lparr>sessions := (sessions r)(sid \<mapsto> entry\<lparr>forwardedBytes := forwardedBytes entry + word_of_int n\<rparr>)\<rparr>)"

definition Registry_Get :: "string \<Rightarrow> Registry \<Rightarrow> PendingSession result" where
  "Registry_Get sid r = (case sessions r sid of None \<Rightarrow> Inl ErrUnknownSID | Some entry \<Rightarrow> Inr (se_session entry))"

definition MarkDirectSuccess :: "string \<Rightarrow> Registry \<Rightarrow> Registry" where
  "MarkDirectSuccess sid r = cleanupSessionLocked sid r"

definition CloseSession :: "string \<Rightarrow> Registry \<Rightarrow> (string \<times> 64 word) result \<times> Registry" where
  "CloseSession sid r =
     (case sessions r sid of
        None \<Rightarrow> (Inl ErrUnknownSID, r)
      | Some entry \<Rightarrow> (Inr (ps_AccountID (se_session entry), forwardedBytes entry), cleanupSessionLocked sid r))"

text \<open>\<open>order\<close> is the order in which \<^verbatim>\<open>range\<close> visits the map.\<close>

definition cleanupIfExpired :: "int \<Rightarrow> string \<Rightarrow> Registry \<Rightarrow> Registry" where
  "cleanupIfExpired now sid r =
     (case sessions r sid of
        None \<Rightarrow> r
      | Some entry \<Rightarrow>
          if \<not> se_active entry \<and> now > ps_ExpiresAt (se_session entry) then cleanupSessionLocked sid r else r)"

definition CleanupExpired :: "int \<Rightarrow> string list \<Rightarrow> Registry \<Rightarrow> Registry" where
  "CleanupExpired now order r = fold (cleanupIfExpired now) order r"

section \<open>Tokens\<close>

text \<open>
  The JWT library is the record \<open>jwt_lib\<close>: signing claims, and parsing with signature, algorithm and
  expiry checks; its token strings are the type \<open>'t\<close>. Claims are the JSON object of the token; a struct is read from it field by field,
  with Go's zero value for a field that is missing.
\<close>

type_synonym claims = "(string \<times> json) list"

record 't jwt_lib =
  jwt_sign :: "string \<Rightarrow> claims \<Rightarrow> 't"
  jwt_parse :: "string \<Rightarrow> 't \<Rightarrow> int \<Rightarrow> claims result"

definition TokenLifetime :: int where "TokenLifetime = 120"

definition claim_str :: "string \<Rightarrow> claims \<Rightarrow> string" where
  "claim_str f cl = (case map_of cl f of Some (JStr s) \<Rightarrow> s | _ \<Rightarrow> [])"

definition claim_bool :: "string \<Rightarrow> claims \<Rightarrow> bool" where
  "claim_bool f cl = (case map_of cl f of Some (JBool b) \<Rightarrow> b | _ \<Rightarrow> False)"

definition claim_int :: "string \<Rightarrow> claims \<Rightarrow> int" where
  "claim_int f cl = (case map_of cl f of Some (JInt n) \<Rightarrow> n | _ \<Rightarrow> 0)"

record BrowserPolicyClaims =
  bp_SID :: string
  bp_SessionCode :: string
  bp_RelayAllowed :: bool
  bp_RelayOnly :: bool
  bp_ExpectedStaticPub :: string
  bp_Purpose :: string
  bp_ID :: string

record AgentRelayClaims =
  ar_SID :: string
  ar_AgentID :: string
  ar_Purpose :: string
  ar_ID :: string

definition browser_wire :: "BrowserPolicyClaims \<Rightarrow> int \<Rightarrow> claims" where
  "browser_wire c issuedAt =
     [(''sid'', JStr (bp_SID c)), (''session_code'', JStr (bp_SessionCode c)), (''relay_allowed'', JBool (bp_RelayAllowed c)),
      (''relay_only'', JBool (bp_RelayOnly c)), (''expected_agent_static_pub'', JStr (bp_ExpectedStaticPub c)),
      (''purpose'', JStr (bp_Purpose c)), (''jti'', JStr (bp_ID c)), (''iat'', JInt issuedAt),
      (''exp'', JInt (issuedAt + TokenLifetime))]"

definition agent_wire :: "AgentRelayClaims \<Rightarrow> int \<Rightarrow> claims" where
  "agent_wire c issuedAt =
     [(''sid'', JStr (ar_SID c)), (''agent_id'', JStr (ar_AgentID c)), (''purpose'', JStr (ar_Purpose c)),
      (''jti'', JStr (ar_ID c)), (''iat'', JInt issuedAt), (''exp'', JInt (issuedAt + TokenLifetime))]"

definition SignBrowserPolicyJWT :: "'t jwt_lib \<Rightarrow> string \<Rightarrow> BrowserPolicyClaims \<Rightarrow> int \<Rightarrow> 't" where
  "SignBrowserPolicyJWT J secret c issuedAt = jwt_sign J secret (browser_wire (c\<lparr>bp_Purpose := ''browser_policy''\<rparr>) issuedAt)"

definition SignAgentRelayJWT :: "'t jwt_lib \<Rightarrow> string \<Rightarrow> AgentRelayClaims \<Rightarrow> int \<Rightarrow> 't" where
  "SignAgentRelayJWT J secret c issuedAt = jwt_sign J secret (agent_wire (c\<lparr>ar_Purpose := ''agent_relay''\<rparr>) issuedAt)"

definition invalidPurpose :: goerr where "invalidPurpose = Errorf ''relay: invalid token purpose'' []"

definition VerifyBrowserPolicyJWT :: "'t jwt_lib \<Rightarrow> string \<Rightarrow> 't \<Rightarrow> int \<Rightarrow> BrowserPolicyClaims result" where
  "VerifyBrowserPolicyJWT J secret token now =
     (case jwt_parse J secret token now of
        Inl err \<Rightarrow> Inl err
      | Inr cl \<Rightarrow>
          if claim_str ''purpose'' cl \<noteq> ''browser_policy'' then Inl invalidPurpose
          else Inr \<lparr>bp_SID = claim_str ''sid'' cl, bp_SessionCode = claim_str ''session_code'' cl,
                    bp_RelayAllowed = claim_bool ''relay_allowed'' cl, bp_RelayOnly = claim_bool ''relay_only'' cl,
                    bp_ExpectedStaticPub = claim_str ''expected_agent_static_pub'' cl,
                    bp_Purpose = claim_str ''purpose'' cl, bp_ID = claim_str ''jti'' cl\<rparr>)"

definition VerifyAgentRelayJWT :: "'t jwt_lib \<Rightarrow> string \<Rightarrow> 't \<Rightarrow> int \<Rightarrow> AgentRelayClaims result" where
  "VerifyAgentRelayJWT J secret token now =
     (case jwt_parse J secret token now of
        Inl err \<Rightarrow> Inl err
      | Inr cl \<Rightarrow>
          if claim_str ''purpose'' cl \<noteq> ''agent_relay'' then Inl invalidPurpose
          else Inr \<lparr>ar_SID = claim_str ''sid'' cl, ar_AgentID = claim_str ''agent_id'' cl,
                    ar_Purpose = claim_str ''purpose'' cl, ar_ID = claim_str ''jti'' cl\<rparr>)"

text \<open>\<^verbatim>\<open>newTokenID\<close> on the sixteen random bytes it draws.\<close>

definition newTokenID :: "string \<Rightarrow> bytes \<Rightarrow> string" where
  "newTokenID prefix rnd = prefix @ ''_'' @ hexEncode rnd"

definition NewSID :: "bytes \<Rightarrow> string" where "NewSID rnd = newTokenID ''sid'' rnd"
definition NewJTI :: "bytes \<Rightarrow> string" where "NewJTI rnd = newTokenID ''jti'' rnd"

section \<open>The relay websocket\<close>

text \<open>
  What the handler does with a socket up to the point where it blocks or returns: close it with a
  reason, wait for the other side and then proxy, or watch the session that the other side proxies.
\<close>

datatype relay_outcome =
    RelayRejected string
  | RelayWaitBrowser string nat int
  | RelayWaitAgent string nat int
  | RelayWatch string nat
  | RelayReturned

definition err_text :: "goerr \<Rightarrow> string" where
  "err_text e = (case e of Errorf s _ \<Rightarrow> s | ErrWrap s _ _ \<Rightarrow> s)"

definition relay_wait_or_watch ::
  "(string \<Rightarrow> nat \<Rightarrow> int \<Rightarrow> relay_outcome) \<Rightarrow> SessionState \<Rightarrow> SessionState \<Rightarrow> string \<Rightarrow> int \<Rightarrow> Registry \<Rightarrow> relay_outcome" where
  "relay_wait_or_watch wait pending state sid now r =
     (if state = pending then
        (case Wait_begin sid now r of Inl e \<Rightarrow> RelayRejected (err_text e) | Inr (i, deadline) \<Rightarrow> wait sid i deadline)
      else if state = StateActive then
        (case WatchSession sid r of Inl e \<Rightarrow> RelayRejected (err_text e) | Inr i \<Rightarrow> RelayWatch sid i)
      else RelayReturned)"

definition RelayWS :: "'t jwt_lib \<Rightarrow> string \<Rightarrow> 't option option \<Rightarrow> nat \<Rightarrow> int \<Rightarrow> Registry \<Rightarrow> relay_outcome \<times> Registry" where
  "RelayWS J secret hello conn now r =
     (case hello of
        None \<Rightarrow> (RelayRejected ''hello timeout'', r)
      | Some None \<Rightarrow> (RelayRejected ''invalid relay hello'', r)
      | Some (Some token) \<Rightarrow>
          (case VerifyAgentRelayJWT J secret token now of
             Inr claims \<Rightarrow>
               (case BindAgentSocket (ar_SID claims) (ar_AgentID claims) (Some conn) now r of
                  (Inl e, r1) \<Rightarrow> (RelayRejected (err_text e), r1)
                | (Inr (_, state), r1) \<Rightarrow>
                    (relay_wait_or_watch RelayWaitBrowser StatePendingAgent state (ar_SID claims) now r1, r1))
           | Inl _ \<Rightarrow>
               (case VerifyBrowserPolicyJWT J secret token now of
                  Inr claims \<Rightarrow>
                    (case BindBrowserSocket (bp_SID claims) (bp_ID claims) (Some conn) now r of
                       (Inl e, r1) \<Rightarrow> (RelayRejected (err_text e), r1)
                     | (Inr (_, state), r1) \<Rightarrow>
                         (relay_wait_or_watch RelayWaitAgent StatePendingBrowser state (bp_SID claims) now r1, r1))
                | Inl _ \<Rightarrow> (RelayRejected ''invalid relay token'', r))))"

text \<open>
  A proxied pair: what was written to each side, whether \<^verbatim>\<open>closeAndFlush\<close> has run, and what it
  billed. One step is one turn of one of the two forwarding loops with what \<^verbatim>\<open>Read\<close> returned and
  whether \<^verbatim>\<open>Write\<close> failed. A loop whose turn failed has returned.
\<close>

record proxy =
  px_reg :: Registry
  px_sid :: string
  px_toLeft :: "bytes list"
  px_toRight :: "bytes list"
  px_leftLoop :: bool
  px_rightLoop :: bool
  px_once :: bool
  px_billed :: "(string \<times> 64 word) list"

definition proxyRelayPair :: "string \<Rightarrow> Registry \<Rightarrow> proxy" where
  "proxyRelayPair sid r = \<lparr>px_reg = r, px_sid = sid, px_toLeft = [], px_toRight = [], px_leftLoop = True,
     px_rightLoop = True, px_once = False, px_billed = []\<rparr>"

definition closeAndFlush :: "proxy \<Rightarrow> proxy" where
  "closeAndFlush p =
     (if px_once p then p
      else case CloseSession (px_sid p) (px_reg p) of
             (Inl _, r) \<Rightarrow> p\<lparr>px_once := True, px_reg := r\<rparr>
           | (Inr (account, n), r) \<Rightarrow>
               p\<lparr>px_once := True, px_reg := r,
                 px_billed := px_billed p @ (if 0 <s n then [(account, n)] else [])\<rparr>)"

definition forwardRelayFrames :: "bool \<Rightarrow> bytes result \<Rightarrow> bool \<Rightarrow> proxy \<Rightarrow> proxy" where
  "forwardRelayFrames fromLeft read write_ok p =
     (if \<not> (if fromLeft then px_leftLoop p else px_rightLoop p) then p
      else
        let stop = (\<lambda>p. if fromLeft then p\<lparr>px_leftLoop := False\<rparr> else p\<lparr>px_rightLoop := False\<rparr>) in
        case read of
          Inl _ \<Rightarrow> closeAndFlush (stop p)
        | Inr data \<Rightarrow>
            let p1 = p\<lparr>px_reg := AddForwardedBytes (px_sid p) (int (length data)) (px_reg p)\<rparr>
            in if \<not> write_ok then closeAndFlush (stop p1)
               else if fromLeft then p1\<lparr>px_toRight := px_toRight p1 @ [data]\<rparr>
               else p1\<lparr>px_toLeft := px_toLeft p1 @ [data]\<rparr>)"


text \<open>
  The handler after its wait: the timer fired (\<open>timer\<close>), or the awaited channel was closed. Then the socket is
  closed with the error, or the pair is proxied.
\<close>

definition RelayWS_resume :: "relay_outcome \<Rightarrow> bool \<Rightarrow> Registry \<Rightarrow> (string + proxy) \<times> Registry" where
  "RelayWS_resume waiting timer r =
     (case waiting of
        RelayWaitBrowser sid _ _ \<Rightarrow>
          (case if timer then Wait_timeout sid r else (WaitForBrowser_ready sid r, r) of
             (Inl e, r1) \<Rightarrow> (Inl (err_text e), r1)
           | (Inr peer, r1) \<Rightarrow> (Inr (proxyRelayPair sid r1), r1))
      | RelayWaitAgent sid _ _ \<Rightarrow>
          (case if timer then Wait_timeout sid r else (WaitForAgent_ready sid r, r) of
             (Inl e, r1) \<Rightarrow> (Inl (err_text e), r1)
           | (Inr peer, r1) \<Rightarrow> (Inr (proxyRelayPair sid r1), r1))
      | RelayRejected reason \<Rightarrow> (Inl reason, r)
      | _ \<Rightarrow> (Inl [], r))"

end
