(* ===== verification/Relay_Registry_Properties.thy ===== *)
theory Relay_Registry_Properties
  imports Relay_Registry
begin

text \<open>
  The relay sessions of the server: browser tokens are single-use, each side is paired with the
  genuine other side, no waiter hangs, forwarded bytes are billed once and exactly, and the two
  kinds of tokens cannot stand in for each other.
\<close>

datatype reg_op =
    RCreate PendingSession | RBindBrowser string string nat int | RBindAgent string string nat int
  | RTimeout string | RAdd string int | RDirect string | RClose string | RExpire int "string list"

fun reg_do :: "reg_op \<Rightarrow> Registry \<Rightarrow> Registry" where
  "reg_do (RCreate s) r = snd (CreatePendingSession s r)"
| "reg_do (RBindBrowser sid jti c now) r = snd (BindBrowserSocket sid jti (Some c) now r)"
| "reg_do (RBindAgent sid a c now) r = snd (BindAgentSocket sid a (Some c) now r)"
| "reg_do (RTimeout sid) r = snd (Wait_timeout sid r)"
| "reg_do (RAdd sid n) r = AddForwardedBytes sid n r"
| "reg_do (RDirect sid) r = MarkDirectSuccess sid r"
| "reg_do (RClose sid) r = snd (CloseSession sid r)"
| "reg_do (RExpire now order) r = CleanupExpired now order r"

definition reg_run :: "reg_op list \<Rightarrow> Registry \<Rightarrow> Registry" where
  "reg_run ops r = fold reg_do ops r"

lemma reg_run_simps [simp]: "reg_run [] r = r" "reg_run (op # ops) r = reg_run ops (reg_do op r)"
  "reg_run (xs @ ys) r = reg_run ys (reg_run xs r)"
  by (simp_all add: reg_run_def)

section \<open>What an operation can do to a session\<close>

lemma closeCh_fields [simp]:
  "sessions (closeCh i ch r) = sessions r" "spentJTI (closeCh i ch r) = spentJTI r" "rg_next (closeCh i ch r) = rg_next r"
  "rg_closed (closeCh i ch r) = insert (i, ch) (rg_closed r)" "pendingWindow (closeCh i ch r) = pendingWindow r"
  by (simp_all add: closeCh_def)

lemma cleanup_fields:
  "sessions (cleanupSessionLocked sid r) = (sessions r)(sid := None)"
  "sessions r sid = Some e \<Longrightarrow> spentJTI (cleanupSessionLocked sid r) = (spentJTI r)(ps_JTI (se_session e) := None)"
  "sessions r sid = None \<Longrightarrow> cleanupSessionLocked sid r = r"
  "rg_next (cleanupSessionLocked sid r) = rg_next r"
  "sessions r sid = Some e \<Longrightarrow> rg_closed (cleanupSessionLocked sid r)
     = rg_closed r \<union> {(se_id e, AgentReady), (se_id e, BrowserReady), (se_id e, Done)}"
  by (auto simp: cleanupSessionLocked_def Let_def split: option.splits)

text \<open>Every operation but creating and binding is a sequence of clean-ups, or adds to a byte count.\<close>

lemma expire_induct:
  assumes "P r" "\<And>sid r. P r \<Longrightarrow> P (cleanupSessionLocked sid r)"
  shows "P (CleanupExpired now order r)"
  unfolding CleanupExpired_def using assms(1)
proof (induction order arbitrary: r)
  case (Cons sid order)
  then show ?case
    using assms(2) by (auto simp: cleanupIfExpired_def split: option.splits)
qed simp

lemma reg_do_cases:
  obtains (create) s where "op = RCreate s"
  | (browser) sid jti c now where "op = RBindBrowser sid jti c now"
  | (agent) sid a c now where "op = RBindAgent sid a c now"
  | (add) sid n where "op = RAdd sid n"
  | (clean) sid where "op \<in> {RTimeout sid, RDirect sid, RClose sid}" "\<And>r. reg_do op r = cleanupSessionLocked sid r"
  | (expire) now order where "op = RExpire now order"
proof (cases op)
  case (RClose sid)
  have "reg_do op r = cleanupSessionLocked sid r" for r
    by (auto simp: RClose CloseSession_def cleanup_fields(3) split: option.splits)
  then show thesis using clean RClose by blast
qed (auto simp: Wait_timeout_def MarkDirectSuccess_def intro: that)

section \<open>Browser tokens are single-use\<close>

fun created :: "reg_op list \<Rightarrow> string list" where
  "created [] = []"
| "created (RCreate s # ops) = ps_SID s # created ops"
| "created (_ # ops) = created ops"

text \<open>The browser bindings that were accepted in a run.\<close>

fun accepted :: "reg_op \<Rightarrow> Registry \<Rightarrow> (string \<times> string) list" where
  "accepted (RBindBrowser sid jti c now) r =
     (case fst (BindBrowserSocket sid jti (Some c) now r) of Inl _ \<Rightarrow> [] | Inr _ \<Rightarrow> [(sid, jti)])"
| "accepted _ r = []"

fun accepts :: "reg_op list \<Rightarrow> Registry \<Rightarrow> (string \<times> string) list" where
  "accepts [] r = []"
| "accepts (op # ops) r = accepted op r @ accepts ops (reg_do op r)"

text \<open>Sessions and browser tokens are issued together: session \<open>sid\<close> and its token carry the id \<open>tok sid\<close>.\<close>

fun issued_by :: "(string \<Rightarrow> string) \<Rightarrow> reg_op \<Rightarrow> bool" where
  "issued_by tok (RCreate s) = (ps_JTI s = tok (ps_SID s))"
| "issued_by tok (RBindBrowser sid jti c now) = (jti = tok sid)"
| "issued_by tok _ = True"

definition tokens_ok :: "(string \<Rightarrow> string) \<Rightarrow> string set \<Rightarrow> string set \<Rightarrow> Registry \<Rightarrow> bool" where
  "tokens_ok tok used made r \<longleftrightarrow>
     used \<subseteq> made \<and> dom (sessions r) \<subseteq> made
   \<and> (\<forall>sid e. sessions r sid = Some e \<longrightarrow> ps_JTI (se_session e) = tok sid)
   \<and> (\<forall>sid\<in>used. sessions r sid \<noteq> None \<longrightarrow> spentJTI r (tok sid) \<noteq> None)"

lemma tokens_cleanup:
  assumes "tokens_ok tok used made r" "inj tok"
  shows "tokens_ok tok used made (cleanupSessionLocked sid r)"
proof (cases "sessions r sid")
  case (Some e)
  then have "ps_JTI (se_session e) = tok sid" using assms(1) by (simp add: tokens_ok_def)
  with Some assms show ?thesis
    by (auto simp: tokens_ok_def cleanup_fields(1) cleanup_fields(2) [OF Some] inj_eq)
qed (simp add: cleanup_fields(3) assms(1))

lemma tokens_add: "tokens_ok tok used made r \<Longrightarrow> tokens_ok tok used made (AddForwardedBytes sid n r)"
  by (auto simp: tokens_ok_def AddForwardedBytes_def split: option.splits)

lemma tokens_agent: "tokens_ok tok used made r \<Longrightarrow> tokens_ok tok used made (snd (BindAgentSocket sid a c now r))"
  by (auto simp: tokens_ok_def BindAgentSocket_def Let_def split: option.splits if_splits)

lemma tokens_browser:
  assumes "tokens_ok tok used made r"
  shows "(case fst (BindBrowserSocket sid (tok sid) c now r) of
            Inl _ \<Rightarrow> tokens_ok tok used made (snd (BindBrowserSocket sid (tok sid) c now r))
          | Inr _ \<Rightarrow> sid \<notin> used \<and> tokens_ok tok (insert sid used) made (snd (BindBrowserSocket sid (tok sid) c now r)))"
  using assms
  by (auto simp: tokens_ok_def BindBrowserSocket_def Let_def split: option.splits if_splits)

lemma tokens_create:
  assumes "tokens_ok tok used made r" "ps_SID s \<notin> made" "ps_JTI s = tok (ps_SID s)"
  shows "tokens_ok tok used (insert (ps_SID s) made) (snd (CreatePendingSession s r))"
  using assms by (auto simp: tokens_ok_def CreatePendingSession_def)

lemma accepts_fresh:
  assumes "tokens_ok tok used made r" "inj tok" "\<forall>op\<in>set ops. issued_by tok op" "distinct (created ops)"
    "set (created ops) \<inter> made = {}"
  shows "distinct (map fst (accepts ops r)) \<and> fst ` set (accepts ops r) \<inter> used = {}"
  using assms
proof (induction ops arbitrary: r used made)
  case (Cons op ops)
  show ?case
  proof (cases op rule: reg_do_cases)
    case (create s)
    then show ?thesis
      using Cons.IH [of used "insert (ps_SID s) made" "reg_do op r"] tokens_create [OF Cons.prems(1), of s] Cons.prems by auto
  next
    case (browser sid jti c now)
    then have jti: "jti = tok sid" using Cons.prems(3) by auto
    note tb = tokens_browser [OF Cons.prems(1), of sid "Some c" now]
    show ?thesis
    proof (cases "fst (BindBrowserSocket sid (tok sid) (Some c) now r)")
      case (Inl e)
      then show ?thesis using tb Cons.IH [of used made "reg_do op r"] Cons.prems browser jti by auto
    next
      case (Inr x)
      then show ?thesis using tb Cons.IH [of "insert sid used" made "reg_do op r"] Cons.prems browser jti by auto
    qed
  next
    case (agent sid a c now)
    then show ?thesis using Cons.IH [of used made "reg_do op r"] tokens_agent [OF Cons.prems(1)] Cons.prems by auto
  next
    case (add sid n)
    then show ?thesis using Cons.IH [of used made "reg_do op r"] tokens_add [OF Cons.prems(1)] Cons.prems by auto
  next
    case (clean sid)
    have no: "accepted op r = []" "created (op # ops) = created ops"
      using clean(1) by auto
    then show ?thesis
      using Cons.IH [of used made "reg_do op r"] tokens_cleanup [OF Cons.prems(1,2), of sid] Cons.prems clean(2) by simp
  next
    case (expire now order)
    have "tokens_ok tok used made (CleanupExpired now order r)"
      by (rule expire_induct) (use Cons.prems(1,2) tokens_cleanup in auto)
    then show ?thesis using Cons.IH [of used made "reg_do op r"] Cons.prems expire by auto
  qed
qed simp


text \<open>
  (C28) A browser token admits at most one socket, whatever else happens to the registry: in every sequence of operations
  in which sessions get fresh ids and each token is presented for the session it was issued for, no two
  browser bindings of the same session are accepted, even after the session was cleaned up and its
  token id forgotten.
\<close>

theorem token_single_use:
  assumes "inj tok" "\<forall>op\<in>set ops. issued_by tok op" "distinct (created ops)"
  shows "distinct (map fst (accepts ops (NewRegistry w)))"
  using accepts_fresh [of tok "{}" "{}" "NewRegistry w" ops] assms
  by (simp add: tokens_ok_def NewRegistry_def)

definition demo_session :: PendingSession where
  "demo_session = \<lparr>ps_SID = ''s'', ps_AccountID = ''acc'', ps_SessionCode = ''code'', ps_AgentID = ''ag'',
     ps_RelayAllowed = True, ps_RelayOnly = False, ps_ExpectedStaticPub = ''k'', ps_JTI = ''j'' @ ''s'', ps_ExpiresAt = 100\<rparr>"

definition demo_ops :: "reg_op list" where
  "demo_ops = [RCreate demo_session, RBindBrowser ''s'' ''js'' 5 10, RBindBrowser ''s'' ''js'' 6 11, RClose ''s'',
     RBindBrowser ''s'' ''js'' 7 12]"

lemma demo_accepts: "accepts demo_ops (NewRegistry 30) = [(''s'', ''js'')]"
  by (simp add: demo_ops_def demo_session_def NewRegistry_def CreatePendingSession_def BindBrowserSocket_def
      CloseSession_def cleanupSessionLocked_def closeCh_def Let_def)

theorem token_single_use_witness:
  "created demo_ops = [''s''] \<and> accepts demo_ops (NewRegistry 30) = [(''s'', ''js'')]
   \<and> distinct (map fst (accepts demo_ops (NewRegistry 30)))"
proof -
  have c: "created demo_ops = [''s'']" by (simp add: demo_ops_def demo_session_def)
  have "distinct (map fst (accepts demo_ops (NewRegistry 30)))"
    by (rule token_single_use [of "\<lambda>s. ''j'' @ s"])
       (auto simp: c inj_def, auto simp: demo_ops_def demo_session_def)
  with c demo_accepts show ?thesis by blast
qed

section \<open>The channels of a session follow its state\<close>

definition tracked :: "Registry \<Rightarrow> bool" where
  "tracked r \<longleftrightarrow>
     (\<forall>sid e. sessions r sid = Some e \<longrightarrow>
        se_id e < rg_next r \<and> ps_SID (se_session e) = sid
      \<and> ((se_id e, AgentReady) \<in> rg_closed r \<longleftrightarrow> agentSocket e \<noteq> None)
      \<and> ((se_id e, BrowserReady) \<in> rg_closed r \<longleftrightarrow> browserSocket e \<noteq> None)
      \<and> (se_id e, Done) \<notin> rg_closed r
      \<and> (se_active e \<longleftrightarrow> agentSocket e \<noteq> None \<and> browserSocket e \<noteq> None))
   \<and> (\<forall>sid sid' e e'. sessions r sid = Some e \<longrightarrow> sessions r sid' = Some e' \<longrightarrow> se_id e = se_id e' \<longrightarrow> sid = sid')
   \<and> (\<forall>i<rg_next r. (\<exists>sid e. sessions r sid = Some e \<and> se_id e = i) \<or> (\<forall>ch. (i, ch) \<in> rg_closed r))
   \<and> (\<forall>(i, ch)\<in>rg_closed r. i < rg_next r)"

lemma tracked_New: "tracked (NewRegistry w)"
  by (simp add: tracked_def NewRegistry_def)


lemma trackedD:
  assumes "tracked r" "sessions r sid = Some e"
  shows "se_id e < rg_next r" "ps_SID (se_session e) = sid"
    "(se_id e, AgentReady) \<in> rg_closed r \<longleftrightarrow> agentSocket e \<noteq> None"
    "(se_id e, BrowserReady) \<in> rg_closed r \<longleftrightarrow> browserSocket e \<noteq> None"
    "(se_id e, Done) \<notin> rg_closed r" "se_active e \<longleftrightarrow> agentSocket e \<noteq> None \<and> browserSocket e \<noteq> None"
    "\<And>sid' e'. sessions r sid' = Some e' \<Longrightarrow> se_id e' = se_id e \<Longrightarrow> sid' = sid"
  using assms unfolding tracked_def by blast+

text \<open>Replacing the entry of one session by one of the same identity, closing some of its channels.\<close>

lemma tracked_update:
  assumes "tracked r" "sessions r sid = Some e"
    "sessions r' = (sessions r)(sid \<mapsto> e')" "se_id e' = se_id e" "se_session e' = se_session e" "rg_next r' = rg_next r"
    "rg_closed r' = rg_closed r \<union> {(se_id e, ch) |ch. ch \<in> C}" "Done \<notin> C"
    "AgentReady \<in> C \<or> agentSocket e \<noteq> None \<longleftrightarrow> agentSocket e' \<noteq> None"
    "BrowserReady \<in> C \<or> browserSocket e \<noteq> None \<longleftrightarrow> browserSocket e' \<noteq> None"
    "se_active e' \<longleftrightarrow> agentSocket e' \<noteq> None \<and> browserSocket e' \<noteq> None"
  shows "tracked r'"
  unfolding tracked_def
proof (intro conjI allI impI)
  note T = trackedD [OF assms(1)]
  fix s x assume x: "sessions r' s = Some x"
  have e: "s = sid \<Longrightarrow> x = e'" and o: "s \<noteq> sid \<Longrightarrow> sessions r s = Some x" using x assms(3) by auto
  have ne: "s \<noteq> sid \<Longrightarrow> se_id x \<noteq> se_id e" using T(7) [OF assms(2)] o by blast
  show "se_id x < rg_next r'" "ps_SID (se_session x) = s" "(se_id x, AgentReady) \<in> rg_closed r' \<longleftrightarrow> agentSocket x \<noteq> None"
    "(se_id x, BrowserReady) \<in> rg_closed r' \<longleftrightarrow> browserSocket x \<noteq> None" "(se_id x, Done) \<notin> rg_closed r'"
    "se_active x \<longleftrightarrow> agentSocket x \<noteq> None \<and> browserSocket x \<noteq> None"
    using e o ne T(1-6) [of s x] T(1-6) [OF assms(2)] assms(4-11) by (cases "s = sid"; auto)+
next
  note T = trackedD [OF assms(1)]
  fix s s' x x' assume "sessions r' s = Some x" "sessions r' s' = Some x'" "se_id x = se_id x'"
  then show "s = s'"
    using T(7) assms(2,3,4) by (auto split: if_splits)
next
  fix i assume "i < rg_next r'"
  then have "(\<exists>sid e. sessions r sid = Some e \<and> se_id e = i) \<or> (\<forall>ch. (i, ch) \<in> rg_closed r)"
    using assms(1,6) by (simp add: tracked_def)
  then show "(\<exists>sid e. sessions r' sid = Some e \<and> se_id e = i) \<or> (\<forall>ch. (i, ch) \<in> rg_closed r')"
  proof
    assume "\<exists>sid e. sessions r sid = Some e \<and> se_id e = i"
    then obtain s x where "sessions r s = Some x" "se_id x = i" by blast
    then have "sessions r' s = Some (if s = sid then e' else x)" "se_id (if s = sid then e' else x) = i"
      using assms(2,3,4) by auto
    then show ?thesis by blast
  qed (use assms(7) in blast)
next
  show "\<forall>(i, ch)\<in>rg_closed r'. i < rg_next r'"
    using assms(1,6,7) trackedD(1) [OF assms(1,2)] by (auto simp: tracked_def)
qed

lemma tracked_browser:
  assumes "tracked r" "conn \<noteq> None"
  shows "tracked (snd (BindBrowserSocket sid jti conn now r))"
proof (cases "sessions r sid")
  case (Some e)
  let ?act = "(se_id e, AgentReady) \<in> rg_closed r"
  have *: "tracked r'" if "sessions r' = (sessions r)(sid \<mapsto> e\<lparr>browserSocket := conn, se_active := se_active e \<or> ?act\<rparr>)"
      "rg_next r' = rg_next r" "rg_closed r' = insert (se_id e, BrowserReady) (rg_closed r)" for r'
    by (rule tracked_update [OF assms(1) Some that(1), where C = "{BrowserReady}"])
       (use that assms(2) trackedD [OF assms(1) Some] in auto)
  show ?thesis
    using assms(1) Some trackedD(6) [OF assms(1) Some] trackedD(3) [OF assms(1) Some] assms(2)
    by (cases e) (auto simp: BindBrowserSocket_def Let_def intro!: *)
qed (use assms in \<open>simp add: BindBrowserSocket_def\<close>)

lemma tracked_agent:
  assumes "tracked r" "conn \<noteq> None"
  shows "tracked (snd (BindAgentSocket sid a conn now r))"
proof (cases "sessions r sid")
  case (Some e)
  let ?act = "(se_id e, BrowserReady) \<in> rg_closed r"
  have *: "tracked r'" if "sessions r' = (sessions r)(sid \<mapsto> e\<lparr>agentSocket := conn, se_active := se_active e \<or> ?act\<rparr>)"
      "rg_next r' = rg_next r" "rg_closed r' = insert (se_id e, AgentReady) (rg_closed r)" for r'
    by (rule tracked_update [OF assms(1) Some that(1), where C = "{AgentReady}"])
       (use that assms(2) trackedD [OF assms(1) Some] in auto)
  show ?thesis
    using assms(1) Some trackedD(6) [OF assms(1) Some] trackedD(4) [OF assms(1) Some] assms(2)
    by (cases e) (auto simp: BindAgentSocket_def Let_def intro!: *)
qed (use assms in \<open>simp add: BindAgentSocket_def\<close>)

lemma tracked_add: "tracked r \<Longrightarrow> tracked (AddForwardedBytes sid n r)"
proof (cases "sessions r sid")
  case (Some e)
  assume "tracked r"
  then show ?thesis
    by (rule tracked_update [OF _ Some, where C = "{}" and e' = "e\<lparr>forwardedBytes := forwardedBytes e + word_of_int n\<rparr>"])
       (use trackedD(6) [OF \<open>tracked r\<close> Some] in \<open>auto simp: AddForwardedBytes_def Some\<close>)
qed (simp add: AddForwardedBytes_def)

lemma tracked_cleanup: "tracked r \<Longrightarrow> tracked (cleanupSessionLocked sid r)"
proof (cases "sessions r sid")
  case (Some e)
  let ?r = "cleanupSessionLocked sid r"
  assume t: "tracked r"
  note T = trackedD [OF t]
  note fs = cleanup_fields(1,4) cleanup_fields(5) [OF Some]
  have other: "se_id x \<noteq> se_id e" if "sessions r s = Some x" "s \<noteq> sid" for s x using T(7) [OF Some] that by blast
  have "(\<exists>sid e. sessions ?r sid = Some e \<and> se_id e = i) \<or> (\<forall>ch. (i, ch) \<in> rg_closed ?r)" if i: "i < rg_next r" for i
  proof (cases "i = se_id e")
    case True
    then have "(i, ch) \<in> rg_closed ?r" for ch by (cases ch) (auto simp: fs)
    then show ?thesis by blast
  next
    case False
    have "(\<exists>sid e. sessions r sid = Some e \<and> se_id e = i) \<or> (\<forall>ch. (i, ch) \<in> rg_closed r)"
      using t i by (simp add: tracked_def)
    then show ?thesis
    proof
      assume "\<exists>sid e. sessions r sid = Some e \<and> se_id e = i"
      then obtain s x where "sessions r s = Some x" "se_id x = i" by blast
      then have "sessions ?r s = Some x \<and> se_id x = i" using False Some by (auto simp: fs)
      then show ?thesis by blast
    qed (auto simp: fs)
  qed
  moreover have "se_id x < rg_next ?r \<and> ps_SID (se_session x) = s
      \<and> ((se_id x, AgentReady) \<in> rg_closed ?r \<longleftrightarrow> agentSocket x \<noteq> None)
      \<and> ((se_id x, BrowserReady) \<in> rg_closed ?r \<longleftrightarrow> browserSocket x \<noteq> None)
      \<and> (se_id x, Done) \<notin> rg_closed ?r
      \<and> (se_active x \<longleftrightarrow> agentSocket x \<noteq> None \<and> browserSocket x \<noteq> None)" if x: "sessions ?r s = Some x" for s x
    using x T(1-6) [of s x] other [of s x] by (auto simp: fs split: if_splits)
  moreover have "\<forall>s s' x x'. sessions ?r s = Some x \<longrightarrow> sessions ?r s' = Some x' \<longrightarrow> se_id x = se_id x' \<longrightarrow> s = s'"
    using T(7) by (auto simp: fs)
  moreover have "\<forall>(i, ch)\<in>rg_closed ?r. i < rg_next ?r"
    using t T(1) [OF Some] by (auto simp: tracked_def fs)
  ultimately show ?thesis by (simp add: tracked_def cleanup_fields(4))
qed (simp add: cleanup_fields(3))

lemma tracked_create:
  assumes "tracked r" "sessions r (ps_SID s) = None"
  shows "tracked (snd (CreatePendingSession s r))"
proof -
  let ?r = "snd (CreatePendingSession s r)"
  let ?e = "\<lparr>se_id = rg_next r, se_session = s, agentSocket = None, browserSocket = None, se_active = False, forwardedBytes = 0\<rparr>"
  have fs: "sessions ?r = (sessions r)(ps_SID s \<mapsto> ?e)" "rg_next ?r = Suc (rg_next r)" "rg_closed ?r = rg_closed r"
    by (simp_all add: CreatePendingSession_def)
  have new: "(rg_next r, ch) \<notin> rg_closed r" for ch using assms(1) by (auto simp: tracked_def)
  have ids: "se_id x < rg_next r" if "sessions r sid = Some x" for sid x using trackedD(1) [OF assms(1) that] .
  have "(\<exists>sid e. sessions ?r sid = Some e \<and> se_id e = i) \<or> (\<forall>ch. (i, ch) \<in> rg_closed ?r)" if i: "i < Suc (rg_next r)" for i
  proof (cases "i = rg_next r")
    case True
    then have "sessions ?r (ps_SID s) = Some ?e \<and> se_id ?e = i" by (simp add: fs)
    then show ?thesis by blast
  next
    case False
    with i have "i < rg_next r" by simp
    then have "(\<exists>sid e. sessions r sid = Some e \<and> se_id e = i) \<or> (\<forall>ch. (i, ch) \<in> rg_closed r)"
      using assms(1) by (simp add: tracked_def)
    then show ?thesis
    proof
      assume "\<exists>sid e. sessions r sid = Some e \<and> se_id e = i"
      then obtain s' x where "sessions r s' = Some x" "se_id x = i" by blast
      then have "sessions ?r s' = Some x \<and> se_id x = i" using assms(2) by (auto simp: fs)
      then show ?thesis by blast
    qed (simp add: fs)
  qed
  moreover have "s1 = s2" if "sessions ?r s1 = Some x1" "sessions ?r s2 = Some x2" "se_id x1 = se_id x2" for s1 s2 x1 x2
    using that trackedD(7) [OF assms(1), of s2 x2 s1 x1] ids [of s1 x1] ids [of s2 x2] by (auto simp: fs split: if_splits)
  moreover have "\<forall>(i, ch)\<in>rg_closed ?r. i < rg_next ?r"
    using assms(1) by (auto simp: tracked_def fs less_Suc_eq)
  moreover have "se_id x < rg_next ?r \<and> ps_SID (se_session x) = s'
      \<and> ((se_id x, AgentReady) \<in> rg_closed ?r \<longleftrightarrow> agentSocket x \<noteq> None)
      \<and> ((se_id x, BrowserReady) \<in> rg_closed ?r \<longleftrightarrow> browserSocket x \<noteq> None)
      \<and> (se_id x, Done) \<notin> rg_closed ?r
      \<and> (se_active x \<longleftrightarrow> agentSocket x \<noteq> None \<and> browserSocket x \<noteq> None)" if x: "sessions ?r s' = Some x" for s' x
    using x trackedD(1-6) [OF assms(1), of s' x] new by (auto simp: fs split: if_splits)
  ultimately show ?thesis unfolding tracked_def by (simp add: fs(2))
qed


lemma sessions_created:
  assumes "dom (sessions r) \<subseteq> made"
  shows "dom (sessions (reg_do op r)) \<subseteq> made \<union> set (created [op])"
proof (cases op rule: reg_do_cases)
  case (browser sid jti c now)
  then show ?thesis using assms by (auto simp: BindBrowserSocket_def Let_def split: option.splits if_splits)
next
  case (agent sid a c now)
  then show ?thesis using assms by (auto simp: BindAgentSocket_def Let_def split: option.splits if_splits)
next
  case (add sid n)
  then show ?thesis using assms by (auto simp: AddForwardedBytes_def split: option.splits if_splits)
next
  case (clean sid)
  then show ?thesis using assms by (auto simp: cleanup_fields(1))
next
  case (expire now order)
  have "dom (sessions (CleanupExpired now order r)) \<subseteq> made"
    by (rule expire_induct) (use assms in \<open>auto simp: cleanup_fields(1) split: if_splits\<close>)
  then show ?thesis using expire by simp
qed (use assms in \<open>auto simp: CreatePendingSession_def\<close>)

lemma tracked_do:
  assumes "tracked r" "\<And>s. op = RCreate s \<Longrightarrow> sessions r (ps_SID s) = None"
  shows "tracked (reg_do op r)"
  by (cases op rule: reg_do_cases)
     (use assms in \<open>auto simp: tracked_browser tracked_agent tracked_add tracked_cleanup tracked_create intro: expire_induct\<close>)

lemma created_Cons: "created (op # ops) = created [op] @ created ops"
  by (cases op) auto

lemma tracked_run:
  assumes "tracked r" "dom (sessions r) \<subseteq> made" "distinct (created ops)" "set (created ops) \<inter> made = {}"
  shows "tracked (reg_run ops r)"
  using assms
proof (induction ops arbitrary: r made)
  case (Cons op ops)
  have "tracked (reg_do op r)"
    by (rule tracked_do) (use Cons.prems in auto)
  moreover have "set (created ops) \<inter> (made \<union> set (created [op])) = {}" "distinct (created ops)"
    using Cons.prems(3,4) unfolding created_Cons [of op ops] by auto
  ultimately show ?case using Cons.IH sessions_created [OF Cons.prems(2), of op] by simp
qed simp

lemma relay_waiters_released_parts:
  assumes "distinct (created ops)" "r = reg_run ops (NewRegistry w)"
  shows "sessions r sid = Some e \<Longrightarrow>
           ((se_id e, AgentReady) \<in> rg_closed r \<longleftrightarrow> agentSocket e \<noteq> None)
         \<and> ((se_id e, BrowserReady) \<in> rg_closed r \<longleftrightarrow> browserSocket e \<noteq> None)
         \<and> (se_id e, Done) \<notin> rg_closed r
         \<and> (se_active e \<longleftrightarrow> agentSocket e \<noteq> None \<and> browserSocket e \<noteq> None)"
    and "i < rg_next r \<Longrightarrow> \<forall>sid e. sessions r sid = Some e \<longrightarrow> se_id e \<noteq> i \<Longrightarrow> (i, ch) \<in> rg_closed r"
proof -
  have t: "tracked r"
    unfolding assms(2) by (rule tracked_run [OF tracked_New, where made = "{}"]) (simp_all add: NewRegistry_def assms(1))
  show "sessions r sid = Some e \<Longrightarrow>
           ((se_id e, AgentReady) \<in> rg_closed r \<longleftrightarrow> agentSocket e \<noteq> None)
         \<and> ((se_id e, BrowserReady) \<in> rg_closed r \<longleftrightarrow> browserSocket e \<noteq> None)
         \<and> (se_id e, Done) \<notin> rg_closed r
         \<and> (se_active e \<longleftrightarrow> agentSocket e \<noteq> None \<and> browserSocket e \<noteq> None)"
    using trackedD(3-6) [OF t] by blast
  show "i < rg_next r \<Longrightarrow> \<forall>sid e. sessions r sid = Some e \<longrightarrow> se_id e \<noteq> i \<Longrightarrow> (i, ch) \<in> rg_closed r"
    using t unfolding tracked_def by blast
qed

text \<open>
  Nobody waits in vain on a relay session. In every state the registry reaches (with fresh session ids), a live
  session's readiness channels are closed exactly when the socket they announce is bound, its done
  channel is open, and it is active exactly when both sockets are bound; once a session has left the map,
  for whatever reason, all of its three channels are closed, so every waiter and watcher returns.
\<close>

theorem relay_waiters_released:
  assumes "distinct (created ops)" "r = reg_run ops (NewRegistry w)"
  shows "(\<forall>sid e. sessions r sid = Some e \<longrightarrow>
           ((se_id e, AgentReady) \<in> rg_closed r \<longleftrightarrow> agentSocket e \<noteq> None)
         \<and> ((se_id e, BrowserReady) \<in> rg_closed r \<longleftrightarrow> browserSocket e \<noteq> None)
         \<and> (se_id e, Done) \<notin> rg_closed r
         \<and> (se_active e \<longleftrightarrow> agentSocket e \<noteq> None \<and> browserSocket e \<noteq> None))
       \<and> (\<forall>i<rg_next r. (\<forall>sid e. sessions r sid = Some e \<longrightarrow> se_id e \<noteq> i) \<longrightarrow> (\<forall>ch. (i, ch) \<in> rg_closed r))"
  using relay_waiters_released_parts [OF assms] by blast

lemma demo_run:
  "sessions (reg_run demo_ops (NewRegistry 30)) sid = None" "rg_next (reg_run demo_ops (NewRegistry 30)) = 1"
  by (simp_all add: demo_ops_def demo_session_def NewRegistry_def CreatePendingSession_def BindBrowserSocket_def
      CloseSession_def cleanupSessionLocked_def closeCh_def Let_def)

theorem relay_waiters_released_witness:
  "(0, Done) \<in> rg_closed (reg_run demo_ops (NewRegistry 30))
   \<and> (0, BrowserReady) \<notin> rg_closed (reg_run [RCreate demo_session] (NewRegistry 30))"
proof
  have c: "distinct (created demo_ops)" by (simp add: demo_ops_def demo_session_def)
  show "(0, Done) \<in> rg_closed (reg_run demo_ops (NewRegistry 30))"
    using conjunct2 [OF relay_waiters_released [OF c refl, of 30], rule_format, of 0 Done] demo_run by simp
  have c1: "distinct (created [RCreate demo_session])" by simp
  show "(0, BrowserReady) \<notin> rg_closed (reg_run [RCreate demo_session] (NewRegistry 30))"
    using conjunct1 [OF relay_waiters_released [OF c1 refl, of 30], rule_format, of "''s''"]
    by (simp add: NewRegistry_def CreatePendingSession_def demo_session_def)
qed

section \<open>Who is on the other side\<close>

definition genuine_entry :: "reg_op set \<Rightarrow> string \<Rightarrow> sessionEntry \<Rightarrow> bool" where
  "genuine_entry past sid e \<longleftrightarrow>
     (\<forall>c. agentSocket e = Some c \<longrightarrow>
        (\<exists>a now. RBindAgent sid a c now \<in> past \<and> now \<le> ps_ExpiresAt (se_session e)
           \<and> (ps_AgentID (se_session e) = [] \<or> a = ps_AgentID (se_session e))))
   \<and> (\<forall>c. browserSocket e = Some c \<longrightarrow>
        (\<exists>jti now. RBindBrowser sid jti c now \<in> past \<and> now \<le> ps_ExpiresAt (se_session e)))"

definition genuine :: "reg_op set \<Rightarrow> Registry \<Rightarrow> bool" where
  "genuine past r \<longleftrightarrow> (\<forall>sid e. sessions r sid = Some e \<longrightarrow> genuine_entry past sid e)"

lemma genuineD: "genuine P r \<Longrightarrow> sessions r sid = Some e \<Longrightarrow> genuine_entry P sid e"
  by (simp add: genuine_def)

lemma genuine_entry_mono: "genuine_entry P sid e \<Longrightarrow> P \<subseteq> Q \<Longrightarrow> genuine_entry Q sid e"
  unfolding genuine_entry_def by blast

lemma genuine_mono: "genuine P r \<Longrightarrow> P \<subseteq> Q \<Longrightarrow> genuine Q r"
  unfolding genuine_def using genuine_entry_mono by blast

lemma genuine_cleanup: "genuine P r \<Longrightarrow> genuine P (cleanupSessionLocked sid r)"
  unfolding genuine_def cleanup_fields(1) by auto

lemma genuine_put:
  assumes "genuine P r" "genuine_entry P sid e" "sessions r' = (sessions r)(sid \<mapsto> e)"
  shows "genuine P r'"
  using assms unfolding genuine_def by auto

lemma browser_bound:
  assumes "fst (BindBrowserSocket sid jti conn now r) = Inr x" "sessions r sid = Some e"
  shows "\<exists>b. sessions (snd (BindBrowserSocket sid jti conn now r)) = (sessions r)(sid \<mapsto> e\<lparr>browserSocket := conn, se_active := b\<rparr>)"
  using assms
  by (intro exI [of _ "se_active e \<or> (se_id e, AgentReady) \<in> rg_closed r"])
     (cases e, auto simp: BindBrowserSocket_def Let_def split: if_splits)

lemma agent_bound:
  assumes "fst (BindAgentSocket sid a conn now r) = Inr x" "sessions r sid = Some e"
  shows "\<exists>b. sessions (snd (BindAgentSocket sid a conn now r)) = (sessions r)(sid \<mapsto> e\<lparr>agentSocket := conn, se_active := b\<rparr>)"
  using assms
  by (intro exI [of _ "se_active e \<or> (se_id e, BrowserReady) \<in> rg_closed r"])
     (cases e, auto simp: BindAgentSocket_def Let_def split: if_splits)

lemma genuine_browser:
  assumes "genuine P r"
  shows "genuine (insert (RBindBrowser sid jti c now) P) (snd (BindBrowserSocket sid jti (Some c) now r))"
proof -
  let ?P = "insert (RBindBrowser sid jti c now) P"
  have g: "genuine ?P r" by (rule genuine_mono [OF assms]) blast
  show ?thesis
  proof (cases "fst (BindBrowserSocket sid jti (Some c) now r)")
    case (Inl err)
    then show ?thesis using g by (auto simp: BindBrowserSocket_def Let_def split: option.splits if_splits)
  next
    case (Inr x)
    then obtain e where e: "sessions r sid = Some e" "now \<le> ps_ExpiresAt (se_session e)"
      by (auto simp: BindBrowserSocket_def Let_def split: option.splits if_splits)
    have "genuine_entry ?P sid (e\<lparr>browserSocket := Some c, se_active := b\<rparr>)" for b
      using genuineD [OF g e(1)] e(2) unfolding genuine_entry_def by auto
    moreover obtain b where "sessions (snd (BindBrowserSocket sid jti (Some c) now r)) = (sessions r)(sid \<mapsto> e\<lparr>browserSocket := Some c, se_active := b\<rparr>)"
      using browser_bound [OF Inr e(1)] by blast
    ultimately show ?thesis using genuine_put [OF g] by blast
  qed
qed

lemma genuine_agent:
  assumes "genuine P r"
  shows "genuine (insert (RBindAgent sid a c now) P) (snd (BindAgentSocket sid a (Some c) now r))"
proof -
  let ?P = "insert (RBindAgent sid a c now) P"
  have g: "genuine ?P r" by (rule genuine_mono [OF assms]) blast
  show ?thesis
  proof (cases "fst (BindAgentSocket sid a (Some c) now r)")
    case (Inl err)
    then show ?thesis using g by (auto simp: BindAgentSocket_def Let_def split: option.splits if_splits)
  next
    case (Inr x)
    then obtain e where e: "sessions r sid = Some e" "now \<le> ps_ExpiresAt (se_session e)"
      "ps_AgentID (se_session e) = [] \<or> a = ps_AgentID (se_session e)"
      by (auto simp: BindAgentSocket_def Let_def split: option.splits if_splits)
    have "genuine_entry ?P sid (e\<lparr>agentSocket := Some c, se_active := b\<rparr>)" for b
      using genuineD [OF g e(1)] e(2,3) unfolding genuine_entry_def by auto
    moreover obtain b where "sessions (snd (BindAgentSocket sid a (Some c) now r)) = (sessions r)(sid \<mapsto> e\<lparr>agentSocket := Some c, se_active := b\<rparr>)"
      using agent_bound [OF Inr e(1)] by blast
    ultimately show ?thesis using genuine_put [OF g] by blast
  qed
qed

lemma genuine_do:
  assumes "genuine P r"
  shows "genuine (insert op P) (reg_do op r)"
proof -
  have g: "genuine (insert op P) r" by (rule genuine_mono [OF assms]) blast
  show ?thesis
  proof (cases op rule: reg_do_cases)
    case (create s)
    have "sessions (reg_do op r) = (sessions r)(ps_SID s \<mapsto> \<lparr>se_id = rg_next r, se_session = s, agentSocket = None,
        browserSocket = None, se_active = False, forwardedBytes = 0\<rparr>)"
      by (simp add: create CreatePendingSession_def)
    then show ?thesis by (rule genuine_put [OF g, rotated]) (simp add: genuine_entry_def)
  next
    case (add sid n)
    then show ?thesis
      using g by (auto simp: AddForwardedBytes_def genuine_def genuine_entry_def split: option.splits if_splits)
  next
    case (expire now order)
    then show ?thesis using expire_induct [of "genuine (insert op P)"] g genuine_cleanup by simp
  qed (use assms g in \<open>auto simp: genuine_browser genuine_agent intro: genuine_cleanup\<close>)
qed

lemma genuine_run: "genuine P r \<Longrightarrow> genuine (P \<union> set ops) (reg_run ops r)"
proof (induction ops arbitrary: P r)
  case (Cons op ops)
  then show ?case using Cons.IH [OF genuine_do [OF Cons.prems, of op]] by simp
qed simp


lemma relay_sockets_genuine_parts:
  assumes "sessions (reg_run ops (NewRegistry w)) sid = Some e"
  shows "agentSocket e = Some c \<Longrightarrow> ps_AgentID (se_session e) \<noteq> [] \<Longrightarrow>
           \<exists>now \<le> ps_ExpiresAt (se_session e). RBindAgent sid (ps_AgentID (se_session e)) c now \<in> set ops"
    and "browserSocket e = Some c \<Longrightarrow> \<exists>jti. \<exists>now \<le> ps_ExpiresAt (se_session e). RBindBrowser sid jti c now \<in> set ops"
proof -
  have "genuine ({} \<union> set ops) (reg_run ops (NewRegistry w))"
    by (rule genuine_run) (simp add: genuine_def NewRegistry_def)
  from genuineD [OF this assms] have g: "genuine_entry (set ops) sid e" by simp
  show "agentSocket e = Some c \<Longrightarrow> ps_AgentID (se_session e) \<noteq> [] \<Longrightarrow>
           \<exists>now \<le> ps_ExpiresAt (se_session e). RBindAgent sid (ps_AgentID (se_session e)) c now \<in> set ops"
    using g unfolding genuine_entry_def by blast
  show "browserSocket e = Some c \<Longrightarrow> \<exists>jti. \<exists>now \<le> ps_ExpiresAt (se_session e). RBindBrowser sid jti c now \<in> set ops"
    using g unfolding genuine_entry_def by blast
qed

text \<open>
  (C29) A socket that a relay session hands to the other side is genuine: it was presented for this session, before the
  session expired, and the agent's socket was presented with the agent id the session was created for. This
  holds after every sequence of registry operations.
\<close>

theorem relay_sockets_genuine:
  assumes "sessions (reg_run ops (NewRegistry w)) sid = Some e"
  shows "(\<forall>c. agentSocket e = Some c \<and> ps_AgentID (se_session e) \<noteq> [] \<longrightarrow>
            (\<exists>now. now \<le> ps_ExpiresAt (se_session e) \<and> RBindAgent sid (ps_AgentID (se_session e)) c now \<in> set ops))
       \<and> (\<forall>c. browserSocket e = Some c \<longrightarrow>
            (\<exists>jti now. now \<le> ps_ExpiresAt (se_session e) \<and> RBindBrowser sid jti c now \<in> set ops))"
  using relay_sockets_genuine_parts [OF assms] by blast

theorem relay_sockets_genuine_witness:
  "\<exists>now. now \<le> 100 \<and> RBindAgent ''s'' ''ag'' 4 now \<in> set [RCreate demo_session, RBindAgent ''s'' ''evil'' 3 20, RBindAgent ''s'' ''ag'' 4 21]"
proof -
  let ?ops = "[RCreate demo_session, RBindAgent ''s'' ''evil'' 3 20, RBindAgent ''s'' ''ag'' 4 21]"
  have e: "sessions (reg_run ?ops (NewRegistry 30)) ''s''
      = Some \<lparr>se_id = 0, se_session = demo_session, agentSocket = Some 4, browserSocket = None, se_active = False, forwardedBytes = 0\<rparr>"
    by (simp add: demo_session_def NewRegistry_def CreatePendingSession_def BindAgentSocket_def closeCh_def Let_def)
  show ?thesis using relay_sockets_genuine [OF e] by (simp add: demo_session_def)
qed

section \<open>Pairing\<close>

text \<open>
  The two sides may arrive in either order. On a fresh session, whichever side is first is told to wait, the second is told that
  the session is active and gets the first one's socket, the waiting side then finds the second one's
  socket, and both orders leave the same session behind: active, with both sockets.
\<close>

theorem relay_pairs_in_either_order:
  assumes "sessions r sid = Some e" "agentSocket e = None" "browserSocket e = None" "\<not> se_active e"
    "(se_id e, AgentReady) \<notin> rg_closed r" "(se_id e, BrowserReady) \<notin> rg_closed r"
    "spentJTI r jti = None" "now \<le> ps_ExpiresAt (se_session e)" "now' \<le> ps_ExpiresAt (se_session e)"
    "ps_AgentID (se_session e) \<in> {[], a}"
  shows "(\<exists>r1 r2. BindBrowserSocket sid jti (Some b) now r = (Inr (None, StatePendingBrowser), r1)
           \<and> BindAgentSocket sid a (Some c) now' r1 = (Inr (Some b, StateActive), r2)
           \<and> WaitForAgent_ready sid r2 = Inr (Some c)
           \<and> sessions r2 sid = Some (e\<lparr>agentSocket := Some c, browserSocket := Some b, se_active := True\<rparr>))
       \<and> (\<exists>r1 r2. BindAgentSocket sid a (Some c) now r = (Inr (None, StatePendingAgent), r1)
           \<and> BindBrowserSocket sid jti (Some b) now' r1 = (Inr (Some c, StateActive), r2)
           \<and> WaitForBrowser_ready sid r2 = Inr (Some b)
           \<and> sessions r2 sid = Some (e\<lparr>agentSocket := Some c, browserSocket := Some b, se_active := True\<rparr>))"
  using assms
  by (cases e; auto simp: BindBrowserSocket_def BindAgentSocket_def Let_def WaitForAgent_ready_def WaitForBrowser_ready_def)

theorem relay_pairs_in_either_order_witness:
  "\<exists>r1 r2. BindAgentSocket ''s'' ''ag'' (Some 4) 10 (snd (CreatePendingSession demo_session (NewRegistry 30)))
        = (Inr (None, StatePendingAgent), r1)
      \<and> BindBrowserSocket ''s'' ''js'' (Some 5) 11 r1 = (Inr (Some 4, StateActive), r2)
      \<and> WaitForBrowser_ready ''s'' r2 = Inr (Some 5)"
proof -
  let ?e = "\<lparr>se_id = 0, se_session = demo_session, agentSocket = None, browserSocket = None, se_active = False, forwardedBytes = 0\<rparr>"
  let ?r = "snd (CreatePendingSession demo_session (NewRegistry 30))"
  have "sessions ?r ''s'' = Some ?e" "(0, AgentReady) \<notin> rg_closed ?r" "(0, BrowserReady) \<notin> rg_closed ?r" "spentJTI ?r ''js'' = None"
    by (simp_all add: demo_session_def NewRegistry_def CreatePendingSession_def)
  then show ?thesis
    using relay_pairs_in_either_order [of ?r "''s''" ?e "''js''" 10 11 "''ag''" 5 4]
    by (simp add: demo_session_def) blast
qed

section \<open>Metering\<close>

text \<open>A proxied pair's run: turns of the two loops, in any order, with what each read and whether its write succeeded.\<close>

type_synonym turn = "bool \<times> bytes result \<times> bool"

fun proxy_turn :: "turn \<Rightarrow> proxy \<Rightarrow> proxy" where
  "proxy_turn (fromLeft, read, ok) p = forwardRelayFrames fromLeft read ok p"

definition proxy_run :: "turn list \<Rightarrow> proxy \<Rightarrow> proxy" where
  "proxy_run ts p = fold proxy_turn ts p"

text \<open>The bytes that were read from either socket up to the turn that ended the session, and whether one did.\<close>

fun metered :: "turn list \<Rightarrow> nat" where
  "metered [] = 0"
| "metered ((_, Inl _, _) # ts) = 0"
| "metered ((_, Inr data, ok) # ts) = length data + (if ok then metered ts else 0)"

fun ended :: "turn list \<Rightarrow> bool" where
  "ended [] = False"
| "ended ((_, Inl _, _) # ts) = True"
| "ended ((_, Inr _, ok) # ts) = (\<not> ok \<or> ended ts)"

lemma forward_once:
  assumes "px_once p"
  shows "px_once (proxy_turn t p)" "px_billed (proxy_turn t p) = px_billed p"
  using assms by (cases t; auto simp: forwardRelayFrames_def closeAndFlush_def Let_def split: sum.splits)+

lemma run_once:
  assumes "px_once p"
  shows "px_billed (proxy_run ts p) = px_billed p"
  using assms by (induction ts arbitrary: p) (simp_all add: proxy_run_def forward_once)


text \<open>Before the session ends, its count is what was read so far.\<close>

definition metering :: "string \<Rightarrow> nat \<Rightarrow> proxy \<Rightarrow> bool" where
  "metering account n p \<longleftrightarrow> \<not> px_once p \<and> px_leftLoop p \<and> px_rightLoop p \<and> px_billed p = []
     \<and> (\<exists>e. sessions (px_reg p) (px_sid p) = Some e \<and> forwardedBytes e = word_of_nat n \<and> ps_AccountID (se_session e) = account)"

lemma metering_ok:
  assumes "metering account n p"
  shows "metering account (n + length data) (forwardRelayFrames fromLeft (Inr data) True p)"
  using assms by (auto simp: metering_def forwardRelayFrames_def AddForwardedBytes_def Let_def)

definition bill :: "string \<Rightarrow> nat \<Rightarrow> (string \<times> 64 word) list" where
  "bill account n = (if n = 0 then [] else [(account, word_of_nat n)])"

definition billed :: "string \<Rightarrow> nat \<Rightarrow> proxy \<Rightarrow> bool" where
  "billed account n p \<longleftrightarrow> px_once p \<and> sessions (px_reg p) (px_sid p) = None
     \<and> px_billed p = bill account n"

lemma signed_positive:
  assumes "n < 2 ^ 63"
  shows "0 <s (word_of_nat n :: 64 word) \<longleftrightarrow> 0 < n"
proof -
  have "sint (word_of_nat n :: 64 word) = int n"
    using assms by (simp add: signed_of_nat signed_take_bit_int_eq_self)
  then show ?thesis by (simp add: word_sless_alt)
qed

lemma metering_fails:
  assumes "metering account n p" "n + m < 2 ^ 63"
  shows "m = 0 \<Longrightarrow> billed account (n + m) (forwardRelayFrames fromLeft (Inl e) ok p)"
    and "length data = m \<Longrightarrow> billed account (n + m) (forwardRelayFrames fromLeft (Inr data) False p)"
  using assms signed_positive [of n] signed_positive [of "n + m"]
  by (auto simp: metering_def billed_def bill_def forwardRelayFrames_def closeAndFlush_def CloseSession_def AddForwardedBytes_def
      cleanup_fields(1) Let_def simp flip: of_nat_add split: prod.splits sum.splits)


lemma proxy_run_simps [simp]: "proxy_run [] p = p" "proxy_run (t # ts) p = proxy_run ts (proxy_turn t p)"
  by (simp_all add: proxy_run_def)

lemma run_metered:
  assumes "metering account n p" "n + metered ts < 2 ^ 63"
  shows "if ended ts then px_billed (proxy_run ts p) = bill account (n + metered ts)
         else metering account (n + metered ts) (proxy_run ts p)"
  using assms
proof (induction ts arbitrary: n p rule: metered.induct)
  case (2 l e ok ts)
  then have "billed account n (forwardRelayFrames l (Inl e) ok p)" using metering_fails(1) [OF 2(1), of 0] by simp
  then show ?case using run_once [of "forwardRelayFrames l (Inl e) ok p" ts] by (simp add: billed_def)
next
  case (3 l data ok ts)
  show ?case
  proof (cases ok)
    case True
    then show ?thesis using 3(1) [OF _ metering_ok [OF 3(2)], of data l] 3(3) by (simp add: add.assoc split: if_splits)
  next
    case False
    then have "billed account (n + length data) (forwardRelayFrames l (Inr data) False p)"
      using metering_fails(2) [OF 3(2)] 3(3) by simp
    then show ?thesis
      using run_once [of "forwardRelayFrames l (Inr data) False p" ts] False by (simp add: billed_def)
  qed
qed simp

text \<open>
  (C30) Relayed traffic is billed exactly once and exactly. However the turns of the two forwarding loops
  interleave, whichever of them fails first, and however often the closing code is reached, the account of the
  session is charged one time, for precisely the bytes read from both sockets up to the turn that ended
  the session (and not at all for none); while no loop has failed nothing is charged and the session's
  counter holds that number. Below \<open>2 ^ 63\<close> bytes the \<^verbatim>\<open>int64\<close> counter does not wrap.
\<close>

theorem relay_bytes_billed_once:
  assumes "sessions r sid = Some e" "forwardedBytes e = 0" "metered ts < 2 ^ 63"
  shows "px_billed (proxy_run ts (proxyRelayPair sid r)) =
           (if ended ts \<and> 0 < metered ts then [(ps_AccountID (se_session e), word_of_nat (metered ts))] else [])"
proof -
  have "metering (ps_AccountID (se_session e)) 0 (proxyRelayPair sid r)"
    using assms by (simp add: metering_def proxyRelayPair_def)
  from run_metered [OF this, of ts] show ?thesis using assms(3) by (auto simp: metering_def bill_def split: if_splits)
qed

theorem relay_bytes_billed_once_witness:
  "px_billed (proxy_run [(True, Inr [1, 2, 3], True), (False, Inr [4], True), (False, Inr [5, 6], False), (True, Inl ErrReplay, True)]
     (proxyRelayPair ''s'' (snd (CreatePendingSession demo_session (NewRegistry 30))))) = [(''acc'', 6)]"
proof -
  let ?e = "\<lparr>se_id = 0, se_session = demo_session, agentSocket = None, browserSocket = None, se_active = False, forwardedBytes = 0\<rparr>"
  have e: "sessions (snd (CreatePendingSession demo_session (NewRegistry 30))) ''s'' = Some ?e"
    by (simp add: demo_session_def NewRegistry_def CreatePendingSession_def)
  show ?thesis
    using relay_bytes_billed_once [OF e, of "[(True, Inr [1, 2, 3], True), (False, Inr [4], True), (False, Inr [5, 6], False), (True, Inl ErrReplay, True)]"]
    by (simp add: demo_session_def)
qed

section \<open>Tokens\<close>

text \<open>
  What the server relies on of the JWT library: a token signed with a secret parses under that secret to the claims that
  were signed while the expiry claim is in the future, and not later; under another secret it does
  not parse.
\<close>

definition jwt_ok :: "'t jwt_lib \<Rightarrow> bool" where
  "jwt_ok J \<longleftrightarrow>
     (\<forall>secret cl now. now < claim_int ''exp'' cl \<longrightarrow> jwt_parse J secret (jwt_sign J secret cl) now = Inr cl)
   \<and> (\<forall>secret cl now. claim_int ''exp'' cl \<le> now \<longrightarrow> (\<exists>e. jwt_parse J secret (jwt_sign J secret cl) now = Inl e))
   \<and> (\<forall>secret secret' cl now. secret' \<noteq> secret \<longrightarrow> (\<exists>e. jwt_parse J secret' (jwt_sign J secret cl) now = Inl e))"

lemma jwt_okD:
  assumes "jwt_ok J"
  shows "now < claim_int ''exp'' cl \<Longrightarrow> jwt_parse J secret (jwt_sign J secret cl) now = Inr cl"
    "claim_int ''exp'' cl \<le> now \<or> secret' \<noteq> secret \<Longrightarrow> \<exists>e. jwt_parse J secret' (jwt_sign J secret cl) now = Inl e"
  using assms by (simp_all add: jwt_ok_def) (cases "secret' = secret", simp_all)

lemma relay_tokens_separate_parts:
  assumes "jwt_ok J" "tb = SignBrowserPolicyJWT J secret c t" "ta = SignAgentRelayJWT J secret a t"
  shows "now < t + TokenLifetime \<Longrightarrow> VerifyBrowserPolicyJWT J secret tb now = Inr (c\<lparr>bp_Purpose := ''browser_policy''\<rparr>)"
    and "now < t + TokenLifetime \<Longrightarrow> VerifyAgentRelayJWT J secret ta now = Inr (a\<lparr>ar_Purpose := ''agent_relay''\<rparr>)"
    and "\<exists>e. VerifyAgentRelayJWT J secret' tb now = Inl e" and "\<exists>e. VerifyBrowserPolicyJWT J secret' ta now = Inl e"
    and "t + TokenLifetime \<le> now \<or> secret' \<noteq> secret \<Longrightarrow> \<exists>e. VerifyBrowserPolicyJWT J secret' tb now = Inl e"
    and "t + TokenLifetime \<le> now \<or> secret' \<noteq> secret \<Longrightarrow> \<exists>e. VerifyAgentRelayJWT J secret' ta now = Inl e"
proof -
  have exp: "claim_int ''exp'' (browser_wire x t) = t + TokenLifetime" "claim_int ''exp'' (agent_wire y t) = t + TokenLifetime" for x y
    by (simp_all add: claim_int_def browser_wire_def agent_wire_def)
  note J = jwt_okD [OF assms(1)] and tb_def = assms(2) and ta_def = assms(3)
  show B: "now < t + TokenLifetime \<Longrightarrow> VerifyBrowserPolicyJWT J secret tb now = Inr (c\<lparr>bp_Purpose := ''browser_policy''\<rparr>)"
    by (cases c) (simp add: VerifyBrowserPolicyJWT_def tb_def SignBrowserPolicyJWT_def J(1) exp, simp add: browser_wire_def claim_str_def claim_bool_def)
  show A: "now < t + TokenLifetime \<Longrightarrow> VerifyAgentRelayJWT J secret ta now = Inr (a\<lparr>ar_Purpose := ''agent_relay''\<rparr>)"
    by (cases a) (simp add: VerifyAgentRelayJWT_def ta_def SignAgentRelayJWT_def J(1) exp, simp add: agent_wire_def claim_str_def)
  show late_b: "t + TokenLifetime \<le> now \<or> secret' \<noteq> secret \<Longrightarrow> \<exists>e. VerifyBrowserPolicyJWT J secret' tb now = Inl e"
    using J(2) [of "browser_wire (c\<lparr>bp_Purpose := ''browser_policy''\<rparr>) t" now secret' secret]
    by (auto simp: VerifyBrowserPolicyJWT_def tb_def SignBrowserPolicyJWT_def exp)
  show late_a: "t + TokenLifetime \<le> now \<or> secret' \<noteq> secret \<Longrightarrow> \<exists>e. VerifyAgentRelayJWT J secret' ta now = Inl e"
    using J(2) [of "agent_wire (a\<lparr>ar_Purpose := ''agent_relay''\<rparr>) t" now secret' secret]
    by (auto simp: VerifyAgentRelayJWT_def ta_def SignAgentRelayJWT_def exp)
  show "\<exists>e. VerifyAgentRelayJWT J secret' tb now = Inl e"
  proof (cases "t + TokenLifetime \<le> now \<or> secret' \<noteq> secret")
    case True
    then show ?thesis using J(2) [of "browser_wire (c\<lparr>bp_Purpose := ''browser_policy''\<rparr>) t" now secret' secret]
      by (auto simp: VerifyAgentRelayJWT_def tb_def SignBrowserPolicyJWT_def exp)
  next
    case False
    then show ?thesis
      by (simp add: VerifyAgentRelayJWT_def tb_def SignBrowserPolicyJWT_def J(1) exp, simp add: browser_wire_def claim_str_def)
  qed
  show "\<exists>e. VerifyBrowserPolicyJWT J secret' ta now = Inl e"
  proof (cases "t + TokenLifetime \<le> now \<or> secret' \<noteq> secret")
    case True
    then show ?thesis using J(2) [of "agent_wire (a\<lparr>ar_Purpose := ''agent_relay''\<rparr>) t" now secret' secret]
      by (auto simp: VerifyBrowserPolicyJWT_def ta_def SignAgentRelayJWT_def exp)
  next
    case False
    then show ?thesis
      by (simp add: VerifyBrowserPolicyJWT_def ta_def SignAgentRelayJWT_def J(1) exp, simp add: agent_wire_def claim_str_def)
  qed
qed

text \<open>
  The two kinds of relay tokens cannot stand in for each other, and neither outlives its two
  minutes. A browser token verifies as a browser token to exactly the claims it was issued with, and never as an agent token,
  whatever its claims say; the same with the roles exchanged; expired tokens and tokens signed with
  another secret verify as neither.
\<close>

theorem relay_tokens_separate:
  assumes "jwt_ok J" "tb = SignBrowserPolicyJWT J secret c t" "ta = SignAgentRelayJWT J secret a t"
  shows "(now < t + TokenLifetime \<longrightarrow>
            VerifyBrowserPolicyJWT J secret tb now = Inr (c\<lparr>bp_Purpose := ''browser_policy''\<rparr>)
          \<and> VerifyAgentRelayJWT J secret ta now = Inr (a\<lparr>ar_Purpose := ''agent_relay''\<rparr>))
       \<and> (\<forall>secret'. (\<exists>e. VerifyAgentRelayJWT J secret' tb now = Inl e) \<and> (\<exists>e. VerifyBrowserPolicyJWT J secret' ta now = Inl e)
            \<and> (t + TokenLifetime \<le> now \<or> secret' \<noteq> secret \<longrightarrow>
                 (\<exists>e. VerifyBrowserPolicyJWT J secret' tb now = Inl e) \<and> (\<exists>e. VerifyAgentRelayJWT J secret' ta now = Inl e)))"
  by (intro conjI allI impI relay_tokens_separate_parts [OF assms])

definition plain_jwt :: "(string \<times> claims) jwt_lib" where
  "plain_jwt = \<lparr>jwt_sign = Pair,
     jwt_parse = \<lambda>secret t now. if fst t = secret \<and> now < claim_int ''exp'' (snd t) then Inr (snd t) else Inl ErrReplay\<rparr>"

lemma plain_jwt_ok: "jwt_ok plain_jwt"
  by (auto simp: jwt_ok_def plain_jwt_def)

theorem relay_tokens_separate_witness:
  "VerifyAgentRelayJWT plain_jwt ''k'' (SignAgentRelayJWT plain_jwt ''k'' \<lparr>ar_SID = ''s'', ar_AgentID = ''ag'', ar_Purpose = [], ar_ID = ''j''\<rparr> 100) 219
     = Inr \<lparr>ar_SID = ''s'', ar_AgentID = ''ag'', ar_Purpose = ''agent_relay'', ar_ID = ''j''\<rparr>
   \<and> (\<exists>e. VerifyBrowserPolicyJWT plain_jwt ''k'' (SignAgentRelayJWT plain_jwt ''k'' \<lparr>ar_SID = ''s'', ar_AgentID = ''ag'', ar_Purpose = [], ar_ID = ''j''\<rparr> 100) 219 = Inl e)"
  using relay_tokens_separate [OF plain_jwt_ok refl refl] by (simp add: TokenLifetime_def)

end
