(* ===== verification/Transfer_State.thy ===== *)
theory Transfer_State
  imports Lanes Go_Std
begin

text \<open>
  The transfer manager of the agent (\<^verbatim>\<open>agent/internal/transfer/manager.go\<close>), first part: its state, the
  binary frames, the messages, and the small operations that every transfer is built from, each one
  critical section of a mutex. The file and gallery backends are parameters of the handlers. \<open>tm_out\<close> is the list of
  calls made to the transport and to the callbacks; objects that are compared by identity (cancellable
  contexts, album batches, timers) are numbers drawn from \<open>tm_next\<close>.
\<close>

section \<open>Constants and data\<close>

definition chunkSize :: nat where "chunkSize = 64 * 1024"
definition maxBuffer :: nat where "maxBuffer = 5 * 1024 * 1024"
definition maxConcurrentGalleryThumbnails :: nat where "maxConcurrentGalleryThumbnails = 6"
definition maxAdvertisedGalleryItems :: nat where "maxAdvertisedGalleryItems = 65536"
definition maxThumbnailBatchSize :: int where "maxThumbnailBatchSize = 120"

datatype thumbnailMode = thumbnailModeWaiting | thumbnailModePull | thumbnailModeLegacy

definition binaryFrameFileChunk :: byte where "binaryFrameFileChunk = 0x10"
definition binaryFrameThumbnail :: byte where "binaryFrameThumbnail = 0x11"
definition chunkEnvelopeVersion :: byte where "chunkEnvelopeVersion = 0x01"
definition chunkEnvelopeSize :: nat where "chunkEnvelopeSize = 14"

record FileInfo =
  fi_Name :: string
  fi_Size :: int
  fi_ContentType :: string
  fi_SHA1 :: string
  fi_RequestPath :: string
  fi_json :: json

record StorageBackend =
  ListFiles :: "string \<Rightarrow> string + FileInfo list"
  GetSHA1 :: "string \<Rightarrow> string"

record AlbumArchive =
  AssetIDs :: "string list"
  EstimatedSize :: int

record AlbumDownload =
  AlbumName :: string
  Archives :: "AlbumArchive list"

record GalleryBackend =
  GetAssetInfo :: "string \<Rightarrow> string + string \<times> int \<times> string"
  HeadVideoPlayback :: "string \<Rightarrow> string + int"

record GalleryItem =
  gi_ID :: string
  gi_json :: json

record Gallery =
  gl_AlbumName :: string
  gl_AlbumDescription :: string
  gl_Items :: "GalleryItem list"

record albumArchiveAck =
  ack_partIndex :: int
  ack_operationID :: u64
  ack_ok :: bool

datatype tx_event =
    TxControl json
  | TxBinary TrafficClass bytes
  | TxSessionExpired
  | TxDownloadComplete int

record Manager =
  tm_client :: bool
  tm_gallery :: bool
  tm_albumBackend :: bool
  mediaTransfer :: bool
  bulkTransfer :: bool
  maxDownloads :: int
  downloads :: "32 word"
  mediaCancel :: ptr
  mediaID :: string
  mediaQuality :: string
  operationSequence :: u64
  mediaOperation :: u64
  bulkOperation :: u64
  currentGeneration :: u32
  tm_albumBatch :: ptr
  galleryItems :: "GalleryItem list"
  galleryGeneration :: u64
  galleryContext :: ptr
  galleryCancel :: ptr
  tm_thumbnailMode :: thumbnailMode
  thumbnailBatchActive :: bool
  thumbnailBatchRequestID :: string
  thumbnailSeenRequestIDs :: "string set option"
  thumbnailFallback :: ptr
  tm_next :: nat
  tm_cancelled :: "nat set"
  tm_stopped :: "nat set"
  tm_batches :: "nat \<rightharpoonup> string \<times> albumArchiveAck option"
  tm_out :: "tx_event list"

definition blankManager :: "int \<Rightarrow> Manager" where
  "blankManager limit = \<lparr>tm_client = False, tm_gallery = False, tm_albumBackend = False, mediaTransfer = False,
     bulkTransfer = False, maxDownloads = limit, downloads = 0, mediaCancel = None, mediaID = [], mediaQuality = [],
     operationSequence = 0, mediaOperation = 0, bulkOperation = 0, currentGeneration = 0, tm_albumBatch = None,
     galleryItems = [], galleryGeneration = 0, galleryContext = None, galleryCancel = None,
     tm_thumbnailMode = thumbnailModeWaiting, thumbnailBatchActive = False, thumbnailBatchRequestID = [],
     thumbnailSeenRequestIDs = None, thumbnailFallback = None, tm_next = 0, tm_cancelled = {}, tm_stopped = {},
     tm_batches = Map.empty, tm_out = []\<rparr>"

definition NewManager :: "bool \<Rightarrow> int \<Rightarrow> Manager" where
  "NewManager client limit = (blankManager limit)\<lparr>tm_client := client\<rparr>"

text \<open>\<open>album\<close>: the gallery backend also implements \<^verbatim>\<open>AlbumDownloadBackend\<close>.\<close>

definition NewGalleryManager :: "bool \<Rightarrow> bool \<Rightarrow> int \<Rightarrow> Manager" where
  "NewGalleryManager gallery album limit = (blankManager limit)\<lparr>tm_gallery := gallery, tm_albumBackend := gallery \<and> album\<rparr>"

definition SetDownloadCount :: "int \<Rightarrow> Manager \<Rightarrow> Manager" where
  "SetDownloadCount n m = m\<lparr>downloads := word_of_int n\<rparr>"

section \<open>Binary frames\<close>

definition encodeThumbnailFrame :: "u16 \<Rightarrow> bytes \<Rightarrow> bytes" where
  "encodeThumbnailFrame index jpg = [binaryFrameThumbnail, ucast (drop_bit 8 index), ucast index] @ jpg"

definition encodeChunkFrame :: "u64 \<Rightarrow> u32 \<Rightarrow> bytes \<Rightarrow> bytes" where
  "encodeChunkFrame operationID generation data =
     [binaryFrameFileChunk, chunkEnvelopeVersion] @ be_put 8 (unat operationID) @ be_put 4 (unat generation) @ data"

definition decodeChunkFrame :: "bytes \<Rightarrow> (u64 \<times> u32 \<times> bytes) result" where
  "decodeChunkFrame frame =
     (if length frame < chunkEnvelopeSize then Inl (Errorf ''chunk envelope too short: %d'' [int (length frame)])
      else if frame ! 0 \<noteq> binaryFrameFileChunk then Inl (Errorf ''unexpected chunk frame type: 0x%02x'' [uint (frame ! 0)])
      else if frame ! 1 \<noteq> chunkEnvelopeVersion
      then Inl (Errorf ''unsupported chunk envelope version: %d'' [uint (frame ! 1)])
      else Inr (word_of_nat (be_get (take 8 (drop 2 frame))), word_of_nat (be_get (take 4 (drop 10 frame))),
                drop chunkEnvelopeSize frame))"

section \<open>Messages\<close>

definition emit :: "tx_event \<Rightarrow> Manager \<Rightarrow> Manager" where
  "emit e m = m\<lparr>tm_out := tm_out m @ [e]\<rparr>"

text \<open>A JSON field with \<^verbatim>\<open>omitempty\<close>.\<close>

definition omitempty :: "string \<Rightarrow> string \<Rightarrow> (string \<times> json) list" where
  "omitempty field s = (if s = [] then [] else [(field, JStr s)])"

definition operationIDString :: "u64 \<Rightarrow> string" where
  "operationIDString operation = FormatUint operation"

definition sendError :: "string \<Rightarrow> string \<Rightarrow> string \<Rightarrow> Manager \<Rightarrow> Manager" where
  "sendError scope requestID message m =
     emit (TxControl (JObj ([(''type'', JStr ''error''), (''scope'', JStr scope)] @ omitempty ''request_id'' requestID
            @ [(''message'', JStr message)]))) m"

definition sendOperationError :: "string \<Rightarrow> string \<Rightarrow> u64 \<Rightarrow> string \<Rightarrow> Manager \<Rightarrow> Manager" where
  "sendOperationError scope requestID operation message m =
     (if operation = 0 then m
      else emit (TxControl (JObj ([(''type'', JStr ''error''), (''scope'', JStr scope)] @ omitempty ''request_id'' requestID
                  @ [(''operation_id'', JStr (operationIDString operation)), (''message'', JStr message)]))) m)"

section \<open>Qualities\<close>

definition normalizeAssetQuality :: "string \<Rightarrow> string \<times> bool" where
  "normalizeAssetQuality quality =
     (if quality = [] \<or> quality = ''original'' then (''original'', True)
      else if quality = ''thumbnail'' then (''thumbnail'', True)
      else if quality = ''video'' then (''video'', True)
      else (quality, False))"

definition normalizePreviewQuality :: "string \<Rightarrow> string \<times> bool" where
  "normalizePreviewQuality quality =
     (if quality = [] \<or> quality = ''preview'' then (''preview'', True)
      else if quality = ''video'' then (''video'', True)
      else (quality, False))"

section \<open>Operation numbers\<close>

function nextOperation_loop :: "u64 \<Rightarrow> u64" where
  "nextOperation_loop sequence =
     (let operation = sequence + 1 in if operation \<noteq> 0 then operation else nextOperation_loop operation)"
  by auto
termination nextOperation_loop
  by (relation "measure (\<lambda>s. if s + 1 = 0 then 1 else 0)") auto

declare nextOperation_loop.simps [simp del]

definition nextOperationID :: "Manager \<Rightarrow> u64 \<times> Manager" where
  "nextOperationID m =
     (let operation = nextOperation_loop (operationSequence m) in (operation, m\<lparr>operationSequence := operation\<rparr>))"

section \<open>The bulk slot\<close>

definition acquireBulk :: "string \<Rightarrow> Manager \<Rightarrow> u64 option \<times> Manager" where
  "acquireBulk requestID m =
     (if bulkTransfer m then (None, sendError ''bulk'' requestID ''transfer in progress'' m)
      else case nextOperationID m of
             (operation, m1) \<Rightarrow> (Some operation, m1\<lparr>bulkOperation := operation, bulkTransfer := True\<rparr>))"

definition releaseBulk :: "u64 \<Rightarrow> Manager \<Rightarrow> Manager" where
  "releaseBulk operation m =
     (if bulkOperation m = operation then m\<lparr>bulkOperation := 0, bulkTransfer := False\<rparr> else m)"

definition advanceBulkOperation :: "u64 \<Rightarrow> Manager \<Rightarrow> u64 option \<times> Manager" where
  "advanceBulkOperation current m =
     (if \<not> bulkTransfer m \<or> bulkOperation m \<noteq> current then (None, m)
      else case nextOperationID m of (next, m1) \<Rightarrow> (Some next, m1\<lparr>bulkOperation := next\<rparr>))"

definition finishAlbumBatch :: "nat \<Rightarrow> u64 \<Rightarrow> Manager \<Rightarrow> Manager" where
  "finishAlbumBatch batch operationID m =
     releaseBulk operationID (if tm_albumBatch m = Some batch then m\<lparr>tm_albumBatch := None\<rparr> else m)"

definition sendBulkErrorIfActive :: "u64 \<Rightarrow> string \<Rightarrow> string \<Rightarrow> Manager \<Rightarrow> Manager" where
  "sendBulkErrorIfActive operation requestID message m =
     (if bulkOperation m \<noteq> operation \<or> \<not> bulkTransfer m then m
      else sendOperationError ''bulk'' requestID operation message m)"

section \<open>The media slot\<close>

definition cancelCtx :: "ptr \<Rightarrow> Manager \<Rightarrow> Manager" where
  "cancelCtx ctx m = (case ctx of None \<Rightarrow> m | Some c \<Rightarrow> m\<lparr>tm_cancelled := insert c (tm_cancelled m)\<rparr>)"

text \<open>\<^verbatim>\<open>context.Background()\<close> is \<open>None\<close> and never cancelled.\<close>

definition ctx_err :: "ptr \<Rightarrow> Manager \<Rightarrow> bool" where
  "ctx_err ctx m = (case ctx of None \<Rightarrow> False | Some c \<Rightarrow> c \<in> tm_cancelled m)"

definition beginMediaLocked :: "string \<Rightarrow> string \<Rightarrow> u32 \<Rightarrow> Manager \<Rightarrow> ptr \<times> u64 \<times> Manager" where
  "beginMediaLocked aid quality generation m =
     (let m1 = cancelCtx (mediaCancel m) m;
          ctx = tm_next m1;
          m2 = m1\<lparr>tm_next := Suc ctx, mediaCancel := Some ctx\<rparr>
      in case nextOperationID m2 of
           (operation, m3) \<Rightarrow>
             (Some ctx, operation,
              m3\<lparr>mediaOperation := operation, mediaID := aid, mediaQuality := quality,
                 currentGeneration := generation, mediaTransfer := True\<rparr>))"

definition beginMedia :: "string \<Rightarrow> string \<Rightarrow> u32 \<Rightarrow> Manager \<Rightarrow> ptr \<times> u64 \<times> Manager" where
  "beginMedia aid quality generation m = beginMediaLocked aid quality generation m"

definition beginMediaIfNewer :: "u64 \<Rightarrow> string \<Rightarrow> string \<Rightarrow> u32 \<Rightarrow> Manager \<Rightarrow> (ptr \<times> u64 \<times> Manager) option" where
  "beginMediaIfNewer parentOperation aid quality generation m =
     (if mediaOperation m \<noteq> parentOperation \<or> mediaID m \<noteq> aid \<or> mediaQuality m \<noteq> ''video'' \<or> quality \<noteq> ''video''
         \<or> generation \<le> currentGeneration m
      then None else Some (beginMediaLocked aid quality generation m))"

definition isCurrentMediaOperation :: "u64 \<Rightarrow> string \<Rightarrow> string \<Rightarrow> Manager \<Rightarrow> bool" where
  "isCurrentMediaOperation operation aid quality m \<longleftrightarrow>
     operation \<noteq> 0 \<and> mediaOperation m = operation \<and> mediaID m = aid \<and> mediaQuality m = quality"

definition finishMedia :: "u64 \<Rightarrow> Manager \<Rightarrow> Manager" where
  "finishMedia operation m =
     (if mediaOperation m = operation
      then (cancelCtx (mediaCancel m) m)\<lparr>mediaCancel := None, mediaTransfer := False\<rparr>
      else m)"

section \<open>Sending with backpressure\<close>

text \<open>
  The polling loops look at \<^verbatim>\<open>BufferedAmount\<close> until it is at most \<open>maxBuffer\<close>; \<open>polls\<close> are the amounts they saw.
  They end when one is small enough or the context is done, so \<open>None\<close> means still waiting.
\<close>

fun drained :: "nat list \<Rightarrow> bool" where
  "drained [] = False"
| "drained (amount # polls) = (amount \<le> maxBuffer \<or> drained polls)"

definition ctxCanceled :: goerr where "ctxCanceled = Errorf ''context canceled'' []"

definition sendWithBackpressure ::
  "nat list \<Rightarrow> goerr option \<Rightarrow> ptr \<Rightarrow> TrafficClass \<Rightarrow> bytes \<Rightarrow> Manager \<Rightarrow> (goerr option \<times> Manager) option" where
  "sendWithBackpressure polls err ctx cls data m =
     (if ctx_err ctx m then Some (Some ctxCanceled, m)
      else if \<not> drained polls then None
      else Some (err, emit (TxBinary cls data) m))"

definition sendInteractiveMedia ::
  "nat list \<Rightarrow> goerr option \<Rightarrow> ptr \<Rightarrow> u64 \<Rightarrow> bytes \<Rightarrow> Manager \<Rightarrow> (goerr option \<times> Manager) option" where
  "sendInteractiveMedia polls err ctx operation data m =
     (if ctx_err ctx m then Some (Some ctxCanceled, m)
      else if \<not> drained polls then None
      else if mediaOperation m \<noteq> operation then Some (Some ctxCanceled, m)
      else Some (err, emit (TxBinary ClassInteractiveMedia data) m))"

definition sendMediaControlIfCurrent :: "goerr option \<Rightarrow> u64 \<Rightarrow> json \<Rightarrow> Manager \<Rightarrow> goerr option \<times> Manager" where
  "sendMediaControlIfCurrent err operation text m =
     (if mediaOperation m \<noteq> operation then (Some ctxCanceled, m) else (err, emit (TxControl text) m))"

definition sendMediaErrorIfActive :: "u64 \<Rightarrow> string \<Rightarrow> string \<Rightarrow> Manager \<Rightarrow> Manager" where
  "sendMediaErrorIfActive operation requestID message m =
     (if mediaOperation m \<noteq> operation then m else sendOperationError ''media'' requestID operation message m)"

end
