(* ===== verification/Transfer_Gallery.thy ===== *)
theory Transfer_Gallery
  imports Transfer_State
begin

text \<open>
  The transfer manager, second part: the gallery and its thumbnails. A gallery is advertised once per
  connection; its thumbnails are then pulled in batches by the browser, or pushed by the legacy stream when
  no batch was asked for in time. Each function below is one critical section of \<^verbatim>\<open>galleryMu\<close> or the straight-line
  code between two of them; the goroutines that the code starts are returned as values of \<open>gallery_job\<close>.
\<close>

definition stopTimer :: "ptr \<Rightarrow> Manager \<Rightarrow> Manager" where
  "stopTimer t m = (case t of None \<Rightarrow> m | Some i \<Rightarrow> m\<lparr>tm_stopped := insert i (tm_stopped m)\<rparr>)"

definition handleClose :: "Manager \<Rightarrow> Manager" where
  "handleClose m =
     (let m1 = (stopTimer (thumbnailFallback m) m)\<lparr>thumbnailFallback := None\<rparr>;
          m2 = (cancelCtx (galleryCancel m1) m1)\<lparr>galleryCancel := None\<rparr>
      in m2\<lparr>galleryGeneration := galleryGeneration m2 + 1, thumbnailBatchActive := False, thumbnailBatchRequestID := []\<rparr>)"

text \<open>\<^verbatim>\<open>HandleOpen\<close>: either the gallery is sent (the result says so) or the hello message.\<close>

definition HandleOpen :: "Manager \<Rightarrow> bool \<times> Manager" where
  "HandleOpen m = (if tm_gallery m then (True, m) else (False, emit (TxControl (JObj [(''type'', JStr ''hello'')])) m))"

section \<open>Advertising the gallery\<close>

definition nextGeneration :: "u64 \<Rightarrow> u64" where
  "nextGeneration g = (if g + 1 = 0 then g + 2 else g + 1)"

definition sendGallery_install :: "GalleryItem list \<Rightarrow> Manager \<Rightarrow> u64 \<times> Manager" where
  "sendGallery_install items m =
     (let m1 = stopTimer (thumbnailFallback m) m;
          m2 = cancelCtx (galleryCancel m1) m1;
          generation = nextGeneration (galleryGeneration m2);
          ctx = tm_next m2
      in (generation,
          m2\<lparr>galleryGeneration := generation, tm_next := Suc ctx, galleryContext := Some ctx, galleryCancel := Some ctx,
             galleryItems := items, tm_thumbnailMode := thumbnailModeWaiting, thumbnailBatchActive := False,
             thumbnailBatchRequestID := [], thumbnailSeenRequestIDs := Some {}, thumbnailFallback := None\<rparr>))"

text \<open>\<^verbatim>\<open>sendGallery\<close> up to the announcement: the result is the generation when the announcement was sent.\<close>

definition sendGallery :: "string + Gallery \<Rightarrow> goerr option \<Rightarrow> Manager \<Rightarrow> u64 option \<times> Manager" where
  "sendGallery listed err m =
     (case listed of
        Inl e \<Rightarrow> (None, sendError ''media'' [] (''share unavailable: '' @ e) m)
      | Inr gallery \<Rightarrow>
          let items = take maxAdvertisedGalleryItems (gl_Items gallery) in
          case sendGallery_install items m of
            (generation, m1) \<Rightarrow>
              let m2 = emit (TxControl (JObj [(''type'', JStr ''thumbnail_list''), (''thumbnailMode'', JStr ''pull-v1''),
                         (''albumName'', JStr (gl_AlbumName gallery)), (''albumDescription'', JStr (gl_AlbumDescription gallery)),
                         (''items'', JArr (map gi_json items))])) m1
              in if err \<noteq> None then (None, m2) else (Some generation, m2))"

text \<open>Its last critical section arms the fallback timer; the timer's number is \<open>tm_next\<close>.\<close>

definition sendGallery_arm :: "u64 \<Rightarrow> Manager \<Rightarrow> Manager" where
  "sendGallery_arm generation m =
     (if galleryGeneration m = generation \<and> tm_thumbnailMode m = thumbnailModeWaiting
      then m\<lparr>tm_next := Suc (tm_next m), thumbnailFallback := Some (tm_next m)\<rparr>
      else m)"

section \<open>The collector of a thumbnail stream\<close>

text \<open>
  \<^verbatim>\<open>sendGalleryThumbnails\<close> starts workers that fetch thumbnails concurrently; the collector sees their results in any
  order. One turn of its loop is \<open>collect_turn\<close>: a result is an index with the data or a fetch error; \<open>polls\<close> and \<open>err\<close>
  are what the transport answers. \<open>cl_stop\<close> says that \<^verbatim>\<open>cancelWork\<close> has been called.
\<close>

record collector =
  cl_sent :: int
  cl_failed :: int
  cl_failedIndices :: "int list"
  cl_accounted :: "int set"
  cl_stop :: bool

definition collector_start :: collector where
  "collector_start = \<lparr>cl_sent = 0, cl_failed = 0, cl_failedIndices = [], cl_accounted = {}, cl_stop = False\<rparr>"

definition thumbnailWorkers :: "GalleryItem list \<Rightarrow> nat" where
  "thumbnailWorkers items =
     (if length items < maxConcurrentGalleryThumbnails then length items else maxConcurrentGalleryThumbnails)"

text \<open>The jobs that are handed to the workers, with the index the browser knows.\<close>

definition thumbnailJobs :: "GalleryItem list \<Rightarrow> nat \<Rightarrow> (int \<times> GalleryItem) list" where
  "thumbnailJobs items indexOffset = map (\<lambda>i. (int indexOffset + int i, items ! i)) [0..<length items]"

definition sendThumbnailWithBackpressure ::
  "nat list \<Rightarrow> goerr option \<Rightarrow> bool \<Rightarrow> u64 \<Rightarrow> bytes \<Rightarrow> Manager \<Rightarrow> (goerr option \<times> Manager) option" where
  "sendThumbnailWithBackpressure polls err done generation data m =
     (if done then Some (Some ctxCanceled, m)
      else if \<not> drained polls then None
      else if galleryGeneration m \<noteq> generation then Some (Some ctxCanceled, m)
      else Some (err, emit (TxBinary ClassThumbnail data) m))"

definition collect_failed :: "int \<Rightarrow> collector \<Rightarrow> collector" where
  "collect_failed i c = c\<lparr>cl_failed := cl_failed c + 1, cl_failedIndices := cl_failedIndices c @ [i]\<rparr>"

definition collect_turn ::
  "ptr \<Rightarrow> u64 \<Rightarrow> int \<times> (string + bytes) \<Rightarrow> nat list \<Rightarrow> goerr option \<Rightarrow> collector \<Rightarrow> Manager
   \<Rightarrow> (collector \<times> Manager) option" where
  "collect_turn ctx generation result polls err c m =
     (let c1 = c\<lparr>cl_accounted := insert (fst result) (cl_accounted c)\<rparr> in
      case snd result of
        Inl e \<Rightarrow> Some (collect_failed (fst result) c1, m)
      | Inr data \<Rightarrow>
          (case sendThumbnailWithBackpressure polls err (ctx_err ctx m \<or> cl_stop c1) generation
                  (encodeThumbnailFrame (word_of_int (fst result)) data) m of
             None \<Rightarrow> None
           | Some (Some e, m1) \<Rightarrow> Some ((collect_failed (fst result) c1)\<lparr>cl_stop := True\<rparr>, m1)
           | Some (None, m1) \<Rightarrow> Some (c1\<lparr>cl_sent := cl_sent c1 + 1\<rparr>, m1)))"

text \<open>After the results are closed, the unaccounted indices count as failed unless the gallery was cancelled.\<close>

definition collect_end :: "ptr \<Rightarrow> nat \<Rightarrow> nat \<Rightarrow> collector \<Rightarrow> Manager \<Rightarrow> int \<times> int \<times> int list" where
  "collect_end ctx indexOffset n c m =
     (let missing = (if ctx_err ctx m then []
                     else filter (\<lambda>i. i \<notin> cl_accounted c) (map (\<lambda>i. int indexOffset + int i) [0..<n]))
      in (cl_sent c, cl_failed c + int (length missing), sort (cl_failedIndices c @ missing)))"

fun collect_loop ::
  "ptr \<Rightarrow> u64 \<Rightarrow> ((int \<times> (string + bytes)) \<times> nat list \<times> goerr option) list \<Rightarrow> collector \<Rightarrow> Manager
   \<Rightarrow> (collector \<times> Manager) option" where
  "collect_loop ctx generation [] c m = Some (c, m)"
| "collect_loop ctx generation ((result, polls, err) # rest) c m =
     (case collect_turn ctx generation result polls err c m of
        None \<Rightarrow> None
      | Some (c1, m1) \<Rightarrow> collect_loop ctx generation rest c1 m1)"

definition sendGalleryThumbnails ::
  "ptr \<Rightarrow> u64 \<Rightarrow> GalleryItem list \<Rightarrow> nat \<Rightarrow> ((int \<times> (string + bytes)) \<times> nat list \<times> goerr option) list \<Rightarrow> Manager
   \<Rightarrow> ((int \<times> int \<times> int list) \<times> Manager) option" where
  "sendGalleryThumbnails ctx generation items indexOffset results m =
     (if items = [] then Some ((0, 0, []), m)
      else case collect_loop ctx generation results collector_start m of
             None \<Rightarrow> None
           | Some (c, m1) \<Rightarrow> Some (collect_end ctx indexOffset (length items) c m1, m1))"

section \<open>The legacy stream\<close>

definition startLegacyThumbnailFallback :: "u64 \<Rightarrow> Manager \<Rightarrow> (ptr \<times> GalleryItem list) option \<times> Manager" where
  "startLegacyThumbnailFallback generation m =
     (if galleryGeneration m \<noteq> generation \<or> tm_thumbnailMode m \<noteq> thumbnailModeWaiting then (None, m)
      else
        let m1 = stopTimer (thumbnailFallback m) m
        in (Some (galleryContext m1, galleryItems m1),
            m1\<lparr>tm_thumbnailMode := thumbnailModeLegacy, thumbnailFallback := None\<rparr>))"

definition failed_field :: "int list \<Rightarrow> (string \<times> json) list" where
  "failed_field is = (if is = [] then [] else [(''failed_indices'', JArr (map JInt is))])"

definition legacyComplete :: "u64 \<Rightarrow> ptr \<Rightarrow> int \<times> int \<times> int list \<Rightarrow> Manager \<Rightarrow> Manager" where
  "legacyComplete generation ctx counts m =
     (if galleryGeneration m \<noteq> generation \<or> tm_thumbnailMode m \<noteq> thumbnailModeLegacy \<or> ctx_err ctx m then m
      else case counts of
             (sent, failed, failedIndices) \<Rightarrow>
               emit (TxControl (JObj ([(''type'', JStr ''thumbnail_complete''), (''sent'', JInt sent), (''failed'', JInt failed)]
                      @ failed_field failedIndices))) m)"

section \<open>Batches\<close>

text \<open>
  A batch request is rejected with an error, or starts the batch goroutine. Writing to the nil map of seen request ids
  would panic.
\<close>

datatype batch_answer = BatchRejected | BatchStarted ptr u64 nat "GalleryItem list" string | BatchPanic

definition batch_reject :: "string \<Rightarrow> string \<Rightarrow> Manager \<Rightarrow> batch_answer \<times> Manager" where
  "batch_reject requestID message m = (BatchRejected, sendError ''media'' requestID message m)"

definition handleThumbnailBatchRequest :: "int \<Rightarrow> int \<Rightarrow> string \<Rightarrow> Manager \<Rightarrow> batch_answer \<times> Manager" where
  "handleThumbnailBatchRequest start count requestID m =
     (if requestID = [] then batch_reject requestID ''thumbnail batch request_id required'' m
      else if start < 0 \<or> count < 1 \<or> count > maxThumbnailBatchSize
      then batch_reject requestID ''thumbnail batch range invalid'' m
      else if start \<ge> int (length (galleryItems m))
      then batch_reject requestID ''thumbnail batch start outside gallery'' m
      else if tm_thumbnailMode m = thumbnailModeLegacy
      then batch_reject requestID ''thumbnail batch unavailable after legacy stream started'' m
      else if requestID \<in> (case thumbnailSeenRequestIDs m of None \<Rightarrow> {} | Some seen \<Rightarrow> seen)
      then batch_reject requestID ''thumbnail batch request_id already used'' m
      else if thumbnailBatchActive m then batch_reject requestID ''thumbnail batch already active'' m
      else
        let m1 = (if tm_thumbnailMode m = thumbnailModeWaiting
                  then (stopTimer (thumbnailFallback m) m)\<lparr>tm_thumbnailMode := thumbnailModePull, thumbnailFallback := None\<rparr>
                  else m);
            end = min (start + count) (int (length (galleryItems m1)));
            items = take (nat end - nat start) (drop (nat start) (galleryItems m1))
        in case thumbnailSeenRequestIDs m1 of
             None \<Rightarrow> (BatchPanic, m1)
           | Some seen \<Rightarrow>
               (BatchStarted (galleryContext m1) (galleryGeneration m1) (nat start) items requestID,
                m1\<lparr>thumbnailSeenRequestIDs := Some (insert requestID seen), thumbnailBatchActive := True,
                   thumbnailBatchRequestID := requestID\<rparr>))"

definition sendThumbnailBatch_complete ::
  "ptr \<Rightarrow> u64 \<Rightarrow> nat \<Rightarrow> nat \<Rightarrow> string \<Rightarrow> int \<times> int \<times> int list \<Rightarrow> Manager \<Rightarrow> Manager" where
  "sendThumbnailBatch_complete ctx generation start count requestID counts m =
     (if galleryGeneration m \<noteq> generation \<or> tm_thumbnailMode m \<noteq> thumbnailModePull
         \<or> thumbnailBatchRequestID m \<noteq> requestID \<or> ctx_err ctx m then m
      else case counts of
             (sent, failed, failedIndices) \<Rightarrow>
               (emit (TxControl (JObj ([(''type'', JStr ''thumbnail_batch_complete'')] @ omitempty ''request_id'' requestID
                        @ [(''start'', JInt (int start)), (''count'', JInt (int count)), (''sent'', JInt sent),
                           (''failed'', JInt failed)] @ failed_field failedIndices))) m)
               \<lparr>thumbnailBatchActive := False, thumbnailBatchRequestID := []\<rparr>)"

end
