(* ===== verification/Transfer_Streams.thy ===== *)
theory Transfer_Streams
  imports Transfer_Gallery
begin

text \<open>
  The transfer manager, third part: file, asset and album downloads on the bulk lane, previews on the media lane, and
  the dispatch of the browser's messages. A goroutine is a value of \<open>job\<close> that holds its local variables; one
  turn of its loop is a function of the state and of what the backend and the transport answer. A handler whose
  guards are not in one critical section with what follows is cut between the two, so that
  goroutines can run in between.
\<close>

datatype read_err = EOF | ReadFail string

datatype job =
    BulkStream u64 string int
  | AlbumFetch nat u64 string
  | AlbumPart nat string AlbumDownload nat u64 int
  | AlbumChunks nat string AlbumDownload nat u64 int int
  | AlbumAwait nat string AlbumDownload nat u64 int
  | PreviewTop ptr string u32 u64 string int
  | PreviewRead ptr string u32 u64 string int

section \<open>The download limit\<close>

definition limitReached :: "Manager \<Rightarrow> bool" where
  "limitReached m \<longleftrightarrow> maxDownloads m > 0 \<and> sint (downloads m) \<ge> maxDownloads m"

definition refuseLimit :: "string \<Rightarrow> Manager \<Rightarrow> Manager" where
  "refuseLimit requestID m =
     emit TxSessionExpired (sendError ''bulk'' requestID ''share has reached its download limit'' m)"

section \<open>Listing\<close>

definition handleListRequest :: "StorageBackend \<Rightarrow> string \<Rightarrow> string \<Rightarrow> Manager \<Rightarrow> Manager" where
  "handleListRequest client subpath requestID m =
     (if limitReached m then refuseLimit requestID m
      else if \<not> tm_client m then sendError ''connection'' requestID ''share unavailable: client not initialized'' m
      else case ListFiles client subpath of
             Inl e \<Rightarrow> sendError ''connection'' requestID (''share unavailable: '' @ e) m
           | Inr files \<Rightarrow> emit (TxControl (JObj [(''type'', JStr ''file_list''), (''files'', JArr (map fi_json files))])) m)"

section \<open>Downloads of files and assets\<close>

definition fileHeader :: "string \<Rightarrow> int \<Rightarrow> string \<Rightarrow> string \<Rightarrow> string \<Rightarrow> u64 \<Rightarrow> json" where
  "fileHeader name fsize mimeType sha1 requestID operationID =
     JObj ([(''type'', JStr ''file_header''), (''name'', JStr name), (''size'', JInt fsize), (''mimeType'', JStr mimeType)]
       @ omitempty ''sha1'' sha1 @ [(''binary_envelope'', JBool True), (''scope'', JStr ''bulk'')]
       @ omitempty ''request_id'' requestID @ [(''operation_id'', JStr (operationIDString operationID))])"

definition chunkEnd :: "string \<Rightarrow> u64 \<Rightarrow> int \<Rightarrow> json" where
  "chunkEnd requestID operationID bytesSent =
     JObj ([(''type'', JStr ''chunk_end''), (''scope'', JStr ''bulk'')] @ omitempty ''request_id'' requestID
       @ [(''operation_id'', JStr (operationIDString operationID)), (''bytes_sent'', JStr (FormatInt bytesSent))])"

definition resolveRequestPath :: "string \<Rightarrow> FileInfo \<Rightarrow> string" where
  "resolveRequestPath dir fileInfo =
     (if fi_RequestPath fileInfo = [] then []
      else if dir = [] then fi_RequestPath fileInfo
      else path_Join dir (fi_RequestPath fileInfo))"

text \<open>The guards of a file request; \<open>True\<close> lets it go on.\<close>

definition handleFileRequest_check :: "string \<Rightarrow> string \<Rightarrow> Manager \<Rightarrow> bool \<times> Manager" where
  "handleFileRequest_check filePath requestID m =
     (if limitReached m then (False, refuseLimit requestID m)
      else if strings_Contains filePath ''..'' then (False, sendError ''bulk'' requestID ''invalid path'' m)
      else if filePath = [] then (False, sendError ''bulk'' requestID ''file path required'' m)
      else (True, m))"

definition requestDir :: "string \<Rightarrow> string" where
  "requestDir filePath = (let dir = path_Dir filePath in if dir = ''.'' then [] else dir)"

text \<open>The rest of the handler: the job, if one was started, and the path it streams.\<close>

definition handleFileRequest_run ::
  "StorageBackend \<Rightarrow> goerr option \<Rightarrow> string \<Rightarrow> string \<Rightarrow> Manager \<Rightarrow> (job \<times> string) option \<times> Manager" where
  "handleFileRequest_run client err filePath requestID m =
     (case acquireBulk requestID m of
        (None, m1) \<Rightarrow> (None, m1)
      | (Some operationID, m1) \<Rightarrow>
          let dir = requestDir filePath;
              name = path_Base filePath;
              fail = (\<lambda>msg. (None, releaseBulk operationID (sendBulkErrorIfActive operationID requestID msg m1)))
          in if \<not> tm_client m1 then fail ''share unavailable: client not initialized''
             else case ListFiles client dir of
                    Inl e \<Rightarrow> fail ''share unavailable''
                  | Inr files \<Rightarrow>
                      (case find (\<lambda>f. fi_Name f = name) files of
                         None \<Rightarrow> fail (''file not found: '' @ name)
                       | Some fileInfo \<Rightarrow>
                           let sha1 = (if fi_SHA1 fileInfo = [] then GetSHA1 client filePath else fi_SHA1 fileInfo);
                               m2 = emit (TxControl (fileHeader (fi_Name fileInfo) (fi_Size fileInfo) (fi_ContentType fileInfo)
                                      sha1 requestID operationID)) m1
                           in if err \<noteq> None then (None, releaseBulk operationID m2)
                              else (Some (BulkStream operationID requestID 0, resolveRequestPath dir fileInfo), m2)))"

definition handleAssetRequest_check :: "string \<Rightarrow> string \<Rightarrow> string \<Rightarrow> Manager \<Rightarrow> bool \<times> Manager" where
  "handleAssetRequest_check aid quality requestID m =
     (if limitReached m then (False, refuseLimit requestID m)
      else if aid = [] then (False, sendError ''bulk'' requestID ''asset id required'' m)
      else case normalizeAssetQuality quality of
             (q, ok) \<Rightarrow>
               if \<not> ok then (False, sendError ''bulk'' requestID (''unsupported asset quality: '' @ q) m) else (True, m))"

definition handleAssetRequest_run ::
  "GalleryBackend \<Rightarrow> goerr option \<Rightarrow> string \<Rightarrow> string \<Rightarrow> Manager \<Rightarrow> job option \<times> Manager" where
  "handleAssetRequest_run gallery err aid requestID m =
     (case acquireBulk requestID m of
        (None, m1) \<Rightarrow> (None, m1)
      | (Some operationID, m1) \<Rightarrow>
          let fail = (\<lambda>msg. (None, releaseBulk operationID (sendBulkErrorIfActive operationID requestID msg m1)))
          in if \<not> tm_gallery m1 then fail ''share unavailable: client not initialized''
             else case GetAssetInfo gallery aid of
                    Inl e \<Rightarrow> fail (''asset info unavailable: '' @ e)
                  | Inr (assetName, assetSize, assetMimeType) \<Rightarrow>
                      let m2 = emit (TxControl (fileHeader assetName assetSize assetMimeType [] requestID operationID)) m1
                      in if err \<noteq> None then (None, releaseBulk operationID m2)
                         else (Some (BulkStream operationID requestID 0), m2))"

text \<open>
  One turn of the loop that \<^verbatim>\<open>streamFile\<close> and \<^verbatim>\<open>streamAsset\<close> share word for word, with the code after the loop: a read
  returned \<open>data\<close> and \<open>rerr\<close>; \<open>err\<close> and \<open>enderr\<close> are the answers of the two sends. The result is the new count
  of bytes while the loop goes on; \<open>None\<close> outside means that the send is still waiting for the buffer to drain.
\<close>

definition bulkDone :: "string \<Rightarrow> goerr option \<Rightarrow> u64 \<Rightarrow> int \<Rightarrow> Manager \<Rightarrow> Manager" where
  "bulkDone requestID enderr operationID totalBytes m =
     (let m1 = emit (TxControl (chunkEnd requestID operationID totalBytes)) m
      in if enderr \<noteq> None then m1
         else emit (TxDownloadComplete totalBytes) (m1\<lparr>downloads := downloads m1 + 1\<rparr>))"

definition streamFile_turn ::
  "bytes \<Rightarrow> read_err option \<Rightarrow> nat list \<Rightarrow> goerr option \<Rightarrow> goerr option \<Rightarrow> u64 \<Rightarrow> string \<Rightarrow> int \<Rightarrow> Manager
   \<Rightarrow> (int option \<times> Manager) option" where
  "streamFile_turn data rerr polls err enderr operationID requestID totalBytes m =
     (case (if data = [] then Some (None, m)
            else sendWithBackpressure polls err None ClassBulk (encodeChunkFrame operationID 0 data) m) of
        None \<Rightarrow> None
      | Some (Some e, m1) \<Rightarrow> Some (None, releaseBulk operationID m1)
      | Some (None, m1) \<Rightarrow>
          let total1 = totalBytes + int (length data) in
          (case rerr of
             None \<Rightarrow> Some (Some total1, m1)
           | Some (ReadFail e) \<Rightarrow>
               Some (None, releaseBulk operationID (sendBulkErrorIfActive operationID requestID (''transfer failed: '' @ e) m1))
           | Some EOF \<Rightarrow> Some (None, releaseBulk operationID (bulkDone requestID enderr operationID total1 m1))))"

definition streamAsset_turn ::
  "bytes \<Rightarrow> read_err option \<Rightarrow> nat list \<Rightarrow> goerr option \<Rightarrow> goerr option \<Rightarrow> u64 \<Rightarrow> string \<Rightarrow> int \<Rightarrow> Manager
   \<Rightarrow> (int option \<times> Manager) option" where
  "streamAsset_turn data rerr polls err enderr operationID requestID totalBytes m =
     streamFile_turn data rerr polls err enderr operationID requestID totalBytes m"

text \<open>The whole stream, alone: the reads of the backend in order, each with the answer of its send.\<close>

fun streamFile ::
  "(bytes \<times> read_err option \<times> nat list \<times> goerr option) list \<Rightarrow> goerr option \<Rightarrow> u64 \<Rightarrow> string \<Rightarrow> int \<Rightarrow> Manager
   \<Rightarrow> Manager option" where
  "streamFile [] enderr operationID requestID totalBytes m = None"
| "streamFile ((data, rerr, polls, err) # reads) enderr operationID requestID totalBytes m =
     (case streamFile_turn data rerr polls err enderr operationID requestID totalBytes m of
        None \<Rightarrow> None
      | Some (None, m1) \<Rightarrow> Some m1
      | Some (Some total1, m1) \<Rightarrow> streamFile reads enderr operationID requestID total1 m1)"

section \<open>Album downloads\<close>

definition albumArchiveName :: "string \<Rightarrow> nat \<Rightarrow> nat \<Rightarrow> string \<Rightarrow> string" where
  "albumArchiveName albumName partIndex partCount stamp =
     replace_one (albumName @ ''.zip'') ''.zip''
       ((if partCount > 1 then ''+'' @ FormatInt (int partIndex) else []) @ ''-'' @ stamp @ ''.zip'')"

definition handleAlbumDownloadRequest_check :: "string \<Rightarrow> Manager \<Rightarrow> bool \<times> Manager" where
  "handleAlbumDownloadRequest_check requestID m =
     (if limitReached m then (False, refuseLimit requestID m)
      else if requestID = [] then (False, sendError ''bulk'' requestID ''album download request_id required'' m)
      else if \<not> tm_albumBackend m then (False, sendError ''bulk'' requestID ''album download unavailable'' m)
      else (True, m))"

definition handleAlbumDownloadRequest_run :: "string \<Rightarrow> Manager \<Rightarrow> job option \<times> Manager" where
  "handleAlbumDownloadRequest_run requestID m =
     (case acquireBulk requestID m of
        (None, m1) \<Rightarrow> (None, m1)
      | (Some operationID, m1) \<Rightarrow>
          let batch = tm_next m1
          in (Some (AlbumFetch batch operationID requestID),
              m1\<lparr>tm_next := Suc batch, tm_batches := (tm_batches m1)(batch \<mapsto> (requestID, None)), tm_albumBatch := Some batch\<rparr>))"

definition handleAlbumArchiveAck :: "string \<Rightarrow> int \<Rightarrow> string \<Rightarrow> bool \<Rightarrow> Manager \<Rightarrow> Manager" where
  "handleAlbumArchiveAck batchID partIndex rawOperationID ok m =
     (case ParseUint rawOperationID of
        None \<Rightarrow> m
      | Some operationID \<Rightarrow>
          if operationID = 0 then m
          else case tm_albumBatch m of
                 None \<Rightarrow> m
               | Some batch \<Rightarrow>
                   (case tm_batches m batch of
                      Some (requestID, None) \<Rightarrow>
                        if requestID \<noteq> batchID then m
                        else m\<lparr>tm_batches := (tm_batches m)(batch \<mapsto> (requestID,
                               Some \<lparr>ack_partIndex = partIndex, ack_operationID = operationID, ack_ok = ok\<rparr>))\<rparr>
                    | _ \<Rightarrow> m))"

text \<open>The album goroutine after \<^verbatim>\<open>GetAlbumDownload\<close>.\<close>

definition albumFetched :: "string + AlbumDownload \<Rightarrow> nat \<Rightarrow> u64 \<Rightarrow> string \<Rightarrow> Manager \<Rightarrow> job option \<times> Manager" where
  "albumFetched fetched batch operationID requestID m =
     (case fetched of
        Inl e \<Rightarrow> (None, finishAlbumBatch batch operationID
                         (sendBulkErrorIfActive operationID requestID (''album download unavailable: '' @ e) m))
      | Inr download \<Rightarrow>
          if Archives download = []
          then (None, finishAlbumBatch batch operationID
                        (sendBulkErrorIfActive operationID requestID ''album contains no downloadable assets'' m))
          else (Some (AlbumPart batch requestID download 0 operationID 0), m))"

definition albumHeader :: "string \<Rightarrow> AlbumDownload \<Rightarrow> nat \<Rightarrow> string \<Rightarrow> u64 \<Rightarrow> json" where
  "albumHeader stamp download index requestID operation =
     JObj [(''type'', JStr ''file_header''),
       (''name'', JStr (albumArchiveName (AlbumName download) (index + 1) (length (Archives download)) stamp)),
       (''size'', JInt 0), (''estimated_size'', JInt (EstimatedSize (Archives download ! index))),
       (''mimeType'', JStr ''application/zip''), (''binary_envelope'', JBool True), (''scope'', JStr ''bulk''),
       (''request_id'', JStr requestID), (''operation_id'', JStr (operationIDString operation)),
       (''batch_id'', JStr requestID), (''part_index'', JInt (int index + 1)), (''part_count'', JInt (int (length (Archives download))))]"

definition albumPart_begin ::
  "string \<Rightarrow> goerr option \<Rightarrow> nat \<Rightarrow> string \<Rightarrow> AlbumDownload \<Rightarrow> nat \<Rightarrow> u64 \<Rightarrow> int \<Rightarrow> Manager \<Rightarrow> job option \<times> Manager" where
  "albumPart_begin stamp err batch requestID download index operation totalBytes m =
     (case (if index > 0 then advanceBulkOperation operation m else (Some operation, m)) of
        (None, m1) \<Rightarrow> (None, finishAlbumBatch batch operation m1)
      | (Some current, m1) \<Rightarrow>
          let m2 = emit (TxControl (albumHeader stamp download index requestID current)) m1
          in if err \<noteq> None then (None, finishAlbumBatch batch current m2)
             else (Some (AlbumChunks batch requestID download index current totalBytes 0), m2))"

text \<open>A turn of \<^verbatim>\<open>streamAlbumArchive\<close> with the code that follows it in \<^verbatim>\<open>streamAlbumDownload\<close>; \<open>errtext\<close> is the text of a send error.\<close>

definition albumChunk_turn ::
  "bytes \<Rightarrow> read_err option \<Rightarrow> nat list \<Rightarrow> goerr option \<Rightarrow> string \<Rightarrow> goerr option
   \<Rightarrow> nat \<Rightarrow> string \<Rightarrow> AlbumDownload \<Rightarrow> nat \<Rightarrow> u64 \<Rightarrow> int \<Rightarrow> int \<Rightarrow> Manager \<Rightarrow> (job option \<times> Manager) option" where
  "albumChunk_turn data rerr polls err errtext enderr batch requestID download index operation totalBytes partBytes m =
     (let part1 = partBytes + int (length data);
          failed = (\<lambda>text m'. Some (None, finishAlbumBatch batch operation
                      (sendBulkErrorIfActive operation requestID (''album archive transfer failed: '' @ text) m')))
      in case (if data = [] then Some (None, m)
               else sendWithBackpressure polls err None ClassBulk (encodeChunkFrame operation 0 data) m) of
           None \<Rightarrow> None
         | Some (Some e, m1) \<Rightarrow> failed errtext m1
         | Some (None, m1) \<Rightarrow>
             (case rerr of
                None \<Rightarrow> Some (Some (AlbumChunks batch requestID download index operation totalBytes part1), m1)
              | Some (ReadFail e) \<Rightarrow> failed e m1
              | Some EOF \<Rightarrow>
                  let m2 = emit (TxControl (JObj [(''type'', JStr ''chunk_end''), (''scope'', JStr ''bulk''),
                             (''request_id'', JStr requestID), (''operation_id'', JStr (operationIDString operation)),
                             (''bytes_sent'', JStr (FormatInt part1))])) m1
                  in if enderr \<noteq> None then Some (None, finishAlbumBatch batch operation m2)
                     else Some (Some (AlbumAwait batch requestID download index operation (totalBytes + part1)), m2)))"

definition albumComplete :: "nat \<Rightarrow> string \<Rightarrow> AlbumDownload \<Rightarrow> u64 \<Rightarrow> int \<Rightarrow> Manager \<Rightarrow> Manager" where
  "albumComplete batch requestID download operation totalBytes m =
     finishAlbumBatch batch operation
       (emit (TxControl (JObj [(''type'', JStr ''album_download_complete''), (''batch_id'', JStr requestID),
                (''part_count'', JInt (int (length (Archives download)))), (''bytes_sent'', JStr (FormatInt totalBytes))]))
          (emit (TxDownloadComplete totalBytes) (m\<lparr>downloads := downloads m + 1\<rparr>)))"

text \<open>The wait for the acknowledgement: the timer fired, or the channel's value is taken (\<open>None\<close>: still waiting).\<close>

definition albumAwait_turn ::
  "bool \<Rightarrow> nat \<Rightarrow> string \<Rightarrow> AlbumDownload \<Rightarrow> nat \<Rightarrow> u64 \<Rightarrow> int \<Rightarrow> Manager \<Rightarrow> (job option \<times> Manager) option" where
  "albumAwait_turn timer batch requestID download index operation totalBytes m =
     (if timer
      then Some (None, finishAlbumBatch batch operation
                   (sendBulkErrorIfActive operation requestID ''album download acknowledgement timed out'' m))
      else case tm_batches m batch of
             Some (req, Some ack) \<Rightarrow>
               let m1 = m\<lparr>tm_batches := (tm_batches m)(batch \<mapsto> (req, None))\<rparr> in
               if \<not> ack_ok ack \<or> ack_partIndex ack \<noteq> int index + 1 \<or> ack_operationID ack \<noteq> operation
               then Some (None, finishAlbumBatch batch operation m1)
               else if index + 1 < length (Archives download)
               then Some (Some (AlbumPart batch requestID download (index + 1) operation totalBytes), m1)
               else Some (None, albumComplete batch requestID download operation totalBytes m1)
           | _ \<Rightarrow> None)"

section \<open>Previews\<close>

definition previewHeader :: "string \<Rightarrow> string \<Rightarrow> int \<Rightarrow> (string \<times> json) list \<Rightarrow> string \<Rightarrow> u64 \<Rightarrow> json" where
  "previewHeader aid mimeType fsize position requestID operation =
     JObj ([(''type'', JStr ''asset_preview_header''), (''id'', JStr aid), (''mimeType'', JStr mimeType), (''size'', JInt fsize),
       (''binary_envelope'', JBool True)] @ position @ [(''scope'', JStr ''media'')]
       @ omitempty ''request_id'' requestID @ [(''operation_id'', JStr (operationIDString operation))])"

definition maxGeneration :: int where "maxGeneration = 2 ^ 32 - 1"

definition handleAssetPreviewRequest ::
  "GalleryBackend \<Rightarrow> goerr option \<Rightarrow> string \<Rightarrow> string \<Rightarrow> int \<Rightarrow> string \<Rightarrow> Manager \<Rightarrow> job option \<times> Manager" where
  "handleAssetPreviewRequest gallery err aid quality0 generation requestID m =
     (if aid = [] then (None, sendError ''media'' requestID ''asset id required'' m)
      else case normalizePreviewQuality quality0 of (quality, ok) \<Rightarrow>
        if \<not> ok then (None, sendError ''media'' requestID (''unsupported preview quality: '' @ quality) m)
        else if \<not> tm_gallery m then (None, sendError ''media'' requestID ''share unavailable: client not initialized'' m)
        else if generation < 0 \<or> generation > maxGeneration
        then (None, sendError ''media'' requestID ''preview generation out of range'' m)
        else case beginMedia aid quality (word_of_int generation) m of (ctx, operation, m1) \<Rightarrow>
          let infoSize = (case GetAssetInfo gallery aid of Inl _ \<Rightarrow> 0 | Inr (_, fsize, _) \<Rightarrow> fsize) in
          if quality = ''video'' then
            let previewSize = (case HeadVideoPlayback gallery aid of Inr fsize \<Rightarrow> if fsize > 0 then fsize else 0 | Inl _ \<Rightarrow> 0);
                header = previewHeader aid ''video/mp4'' previewSize
                           [(''generation'', JInt generation), (''byte_offset'', JInt 0)] requestID operation
            in case sendMediaControlIfCurrent err operation header m1 of
                 (Some e, m2) \<Rightarrow> (None, finishMedia operation m2)
               | (None, m2) \<Rightarrow> (Some (PreviewTop ctx aid (word_of_int generation) operation requestID 0), m2)
          else
            case sendMediaControlIfCurrent err operation
                   (previewHeader aid ''image/jpeg'' infoSize [] requestID operation) m1 of
              (Some e, m2) \<Rightarrow> (None, finishMedia operation m2)
            | (None, m2) \<Rightarrow> (Some (PreviewTop ctx aid 0 operation requestID 0), m2))"

text \<open>A seek up to the first read of the new range: \<open>True\<close> when the read is waited for.\<close>

definition handleAssetPreviewSeek ::
  "string \<Rightarrow> string \<Rightarrow> int \<Rightarrow> int \<Rightarrow> string \<Rightarrow> u64 \<Rightarrow> Manager \<Rightarrow> bool \<times> Manager" where
  "handleAssetPreviewSeek aid quality startOffset generation requestID parentOperation m =
     (let reject = (\<lambda>msg. (False, sendMediaErrorIfActive parentOperation requestID msg m)) in
      if aid = [] \<or> quality = [] then reject ''asset_preview_seek: id and quality required''
      else if startOffset < 0 then reject ''asset_preview_seek: start_offset must be >= 0''
      else case normalizePreviewQuality quality of (normalizedQuality, ok) \<Rightarrow>
        if \<not> ok \<or> normalizedQuality \<noteq> ''video'' then reject ''asset_preview_seek: video quality required''
        else if generation \<le> 0 \<or> generation > maxGeneration then reject ''asset_preview_seek: generation out of range''
        else if \<not> tm_gallery m then reject ''share unavailable: client not initialized''
        else if \<not> isCurrentMediaOperation parentOperation aid normalizedQuality m then (False, m)
        else (True, m))"

text \<open>The rest of the seek, after the first byte was read (\<open>Inr\<close>) or the read failed.\<close>

definition handleAssetPreviewSeek_read ::
  "string option \<Rightarrow> goerr option \<Rightarrow> string \<Rightarrow> string \<Rightarrow> int \<Rightarrow> int \<Rightarrow> string \<Rightarrow> u64 \<Rightarrow> Manager \<Rightarrow> job option \<times> Manager" where
  "handleAssetPreviewSeek_read readErr err aid quality startOffset generation requestID parentOperation m =
     (case readErr of
        Some e \<Rightarrow> (None, sendMediaErrorIfActive parentOperation requestID (''preview seek failed: '' @ e) m)
      | None \<Rightarrow>
          (case beginMediaIfNewer parentOperation aid (fst (normalizePreviewQuality quality)) (word_of_int generation) m of
             None \<Rightarrow> (None, m)
           | Some (ctx, operation, m1) \<Rightarrow>
               (case sendMediaControlIfCurrent err operation
                       (previewHeader aid ''video/mp4'' 0 [(''generation'', JInt generation), (''byte_offset'', JInt startOffset)]
                          requestID operation) m1 of
                  (Some e, m2) \<Rightarrow> (None, finishMedia operation m2)
                | (None, m2) \<Rightarrow> (Some (PreviewTop ctx aid (word_of_int generation) operation requestID 0), m2))))"

text \<open>\<^verbatim>\<open>streamAssetPreviewFromReader\<close>: the checks at the top of the loop, and the part after the read returned.\<close>

definition previewBufSize :: "int \<Rightarrow> int" where
  "previewBufSize bufSize = (if bufSize \<le> 0 \<or> bufSize > int chunkSize then int chunkSize else bufSize)"

definition preview_top :: "ptr \<Rightarrow> string \<Rightarrow> u32 \<Rightarrow> u64 \<Rightarrow> string \<Rightarrow> int \<Rightarrow> Manager \<Rightarrow> job option \<times> Manager" where
  "preview_top ctx aid generation operation requestID totalBytes m =
     (if ctx_err ctx m \<or> currentGeneration m \<noteq> generation then (None, finishMedia operation m)
      else (Some (PreviewRead ctx aid generation operation requestID totalBytes), m))"

definition previewEnd :: "string \<Rightarrow> u32 \<Rightarrow> string \<Rightarrow> u64 \<Rightarrow> int \<Rightarrow> json" where
  "previewEnd aid generation requestID operation totalBytes =
     JObj ([(''type'', JStr ''asset_preview_end''), (''id'', JStr aid), (''generation'', JInt (uint generation)),
       (''scope'', JStr ''media'')] @ omitempty ''request_id'' requestID
       @ [(''operation_id'', JStr (operationIDString operation)), (''bytes_sent'', JStr (FormatInt totalBytes))])"

definition preview_read ::
  "bytes \<Rightarrow> read_err option \<Rightarrow> nat list \<Rightarrow> goerr option \<Rightarrow> goerr option \<Rightarrow> ptr \<Rightarrow> string \<Rightarrow> u32 \<Rightarrow> u64 \<Rightarrow> string \<Rightarrow> int \<Rightarrow> Manager
   \<Rightarrow> (job option \<times> Manager) option" where
  "preview_read data rerr polls err enderr ctx aid generation operation requestID totalBytes m =
     (let total1 = totalBytes + int (length data) in
      case (if data = [] then Some (None, m)
            else if ctx_err ctx m \<or> mediaOperation m \<noteq> operation then Some (Some ctxCanceled, m)
            else sendInteractiveMedia polls err ctx operation (encodeChunkFrame operation generation data) m) of
        None \<Rightarrow> None
      | Some (Some e, m1) \<Rightarrow> Some (None, finishMedia operation m1)
      | Some (None, m1) \<Rightarrow>
          (case rerr of
             None \<Rightarrow> Some (Some (PreviewTop ctx aid generation operation requestID total1), m1)
           | Some (ReadFail e) \<Rightarrow>
               Some (None, finishMedia operation
                 (if ctx_err ctx m1 then m1
                  else sendMediaErrorIfActive operation requestID (''preview failed: '' @ e) m1))
           | Some EOF \<Rightarrow>
               Some (None, finishMedia operation
                 (if \<not> ctx_err ctx m1 \<and> mediaOperation m1 = operation \<and> currentGeneration m1 = generation
                  then snd (sendMediaControlIfCurrent enderr operation (previewEnd aid generation requestID operation total1) m1)
                  else m1))))"

section \<open>Dispatch\<close>

record TransferMsg =
  msg_Type :: string
  msg_Path :: string
  msg_ID :: string
  msg_Quality :: string
  msg_StartOffset :: int
  msg_Generation :: int
  msg_RequestID :: string
  msg_OperationID :: string
  msg_BatchID :: string
  msg_PartIndex :: int
  msg_Start :: int
  msg_Count :: int
  msg_OK :: bool

text \<open>Where a handler stands: returned, or with its guards passed and the rest still to run.\<close>

datatype handler =
    HReturned "job list"
  | HFile string string
  | HAsset string string string
  | HAlbum string
  | HSeek string string int int string u64
  | HBatch batch_answer

definition dispatchSeek :: "TransferMsg \<Rightarrow> Manager \<Rightarrow> handler \<times> Manager" where
  "dispatchSeek msg m =
     (if msg_OperationID msg = [] then
        (HReturned [], sendError ''media'' (msg_RequestID msg) ''asset_preview_seek: operation_id required'' m)
      else case ParseUint (msg_OperationID msg) of
             None \<Rightarrow> (HReturned [], sendError ''media'' (msg_RequestID msg) ''asset_preview_seek: invalid operation_id'' m)
           | Some parentOperation \<Rightarrow>
               if parentOperation = 0
               then (HReturned [], sendError ''media'' (msg_RequestID msg) ''asset_preview_seek: invalid operation_id'' m)
               else case handleAssetPreviewSeek (msg_ID msg) (msg_Quality msg) (msg_StartOffset msg) (msg_Generation msg)
                           (msg_RequestID msg) parentOperation m of
                      (False, m1) \<Rightarrow> (HReturned [], m1)
                    | (True, m1) \<Rightarrow> (HSeek (msg_ID msg) (msg_Quality msg) (msg_StartOffset msg) (msg_Generation msg)
                                        (msg_RequestID msg) parentOperation, m1))"

definition HandleMessage ::
  "StorageBackend \<Rightarrow> GalleryBackend \<Rightarrow> goerr option \<Rightarrow> TransferMsg option \<Rightarrow> Manager \<Rightarrow> handler \<times> Manager" where
  "HandleMessage client gallery err decoded m =
     (case decoded of
        None \<Rightarrow> (HReturned [], sendError ''connection'' [] ''invalid message format'' m)
      | Some msg \<Rightarrow>
          let typ = msg_Type msg; req = msg_RequestID msg in
          if typ = ''list_request'' then (HReturned [], handleListRequest client (msg_Path msg) req m)
          else if typ = ''file_request'' then
            (case handleFileRequest_check (msg_Path msg) req m of
               (go, m1) \<Rightarrow> (if go then HFile (msg_Path msg) req else HReturned [], m1))
          else if typ = ''asset_request'' then
            (case handleAssetRequest_check (msg_ID msg) (msg_Quality msg) req m of
               (go, m1) \<Rightarrow> (if go then HAsset (msg_ID msg) (msg_Quality msg) req else HReturned [], m1))
          else if typ = ''album_download_request'' then
            (case handleAlbumDownloadRequest_check req m of
               (go, m1) \<Rightarrow> (if go then HAlbum req else HReturned [], m1))
          else if typ = ''album_archive_ack'' then
            (HReturned [], handleAlbumArchiveAck (msg_BatchID msg) (msg_PartIndex msg) (msg_OperationID msg) (msg_OK msg) m)
          else if typ = ''thumbnail_batch_request'' then
            (case handleThumbnailBatchRequest (msg_Start msg) (msg_Count msg) req m of (answer, m1) \<Rightarrow> (HBatch answer, m1))
          else if typ = ''asset_preview_request'' then
            (case handleAssetPreviewRequest gallery err (msg_ID msg) (msg_Quality msg) (msg_Generation msg) req m of
               (j, m1) \<Rightarrow> (HReturned (case j of None \<Rightarrow> [] | Some x \<Rightarrow> [x]), m1))
          else if typ = ''asset_preview_seek'' then dispatchSeek msg m
          else (HReturned [], sendError ''connection'' req (''unknown message type: '' @ typ) m))"

text \<open>The rest of a handler whose guards have passed.\<close>

definition jobs_of :: "job option \<Rightarrow> job list" where
  "jobs_of j = (case j of None \<Rightarrow> [] | Some x \<Rightarrow> [x])"

fun handler_rest ::
  "StorageBackend \<Rightarrow> GalleryBackend \<Rightarrow> goerr option \<Rightarrow> string option \<Rightarrow> handler \<Rightarrow> Manager \<Rightarrow> job list \<times> Manager" where
  "handler_rest client gallery err readErr (HFile path req) m =
     (case handleFileRequest_run client err path req m of (j, m1) \<Rightarrow> (jobs_of (map_option fst j), m1))"
| "handler_rest client gallery err readErr (HAsset aid quality req) m =
     (case handleAssetRequest_run gallery err aid req m of (j, m1) \<Rightarrow> (jobs_of j, m1))"
| "handler_rest client gallery err readErr (HAlbum req) m =
     (case handleAlbumDownloadRequest_run req m of (j, m1) \<Rightarrow> (jobs_of j, m1))"
| "handler_rest client gallery err readErr (HSeek aid quality offset generation req parent) m =
     (case handleAssetPreviewSeek_read readErr err aid quality offset generation req parent m of (j, m1) \<Rightarrow> (jobs_of j, m1))"
| "handler_rest client gallery err readErr (HReturned js) m = (js, m)"
| "handler_rest client gallery err readErr (HBatch answer) m = ([], m)"

end
