(* ===== verification/Transfer_System.thy ===== *)
theory Transfer_System
  imports Transfer_Streams
begin

text \<open>
  The transfer manager as a concurrent system: the goroutines that run, the handler of the control lane (messages are
  handled one at a time) and the manager they share. A step is one turn of a goroutine, a message, the rest of a
  handler, or a critical section of the gallery. The invariant \<open>tx_inv\<close> ties the bulk slot to the one goroutine that
  holds it.
\<close>

section \<open>Steps\<close>

text \<open>What the backend and the transport answer in a turn.\<close>

record turn_env =
  te_data :: bytes
  te_rerr :: "read_err option"
  te_polls :: "nat list"
  te_err :: "goerr option"
  te_errtext :: string
  te_enderr :: "goerr option"
  te_fetched :: "string + AlbumDownload"
  te_stamp :: string
  te_timer :: bool

fun job_turn :: "turn_env \<Rightarrow> job \<Rightarrow> Manager \<Rightarrow> (job option \<times> Manager) option" where
  "job_turn v (BulkStream operation req bytes) m =
     map_option (\<lambda>(b, m1). (map_option (BulkStream operation req) b, m1))
       (streamFile_turn (te_data v) (te_rerr v) (te_polls v) (te_err v) (te_enderr v) operation req bytes m)"
| "job_turn v (AlbumFetch batch operation req) m = Some (albumFetched (te_fetched v) batch operation req m)"
| "job_turn v (AlbumPart batch req download index operation bytes) m =
     Some (albumPart_begin (te_stamp v) (te_err v) batch req download index operation bytes m)"
| "job_turn v (AlbumChunks batch req download index operation bytes part) m =
     albumChunk_turn (te_data v) (te_rerr v) (te_polls v) (te_err v) (te_errtext v) (te_enderr v)
       batch req download index operation bytes part m"
| "job_turn v (AlbumAwait batch req download index operation bytes) m =
     albumAwait_turn (te_timer v) batch req download index operation bytes m"
| "job_turn v (PreviewTop ctx aid generation operation req bytes) m =
     Some (preview_top ctx aid generation operation req bytes m)"
| "job_turn v (PreviewRead ctx aid generation operation req bytes) m =
     preview_read (te_data v) (te_rerr v) (te_polls v) (te_err v) (te_enderr v) ctx aid generation operation req bytes m"

text \<open>The critical sections of the gallery.\<close>

inductive gallery_step :: "Manager \<Rightarrow> Manager \<Rightarrow> bool" where
  g_close: "gallery_step m (handleClose m)"
| g_open: "gallery_step m (snd (HandleOpen m))"
| g_send: "gallery_step m (snd (sendGallery listed err m))"
| g_arm: "gallery_step m (sendGallery_arm generation m)"
| g_legacy: "gallery_step m (snd (startLegacyThumbnailFallback generation m))"
| g_legacy_done: "gallery_step m (legacyComplete generation ctx counts m)"
| g_collect: "collect_turn ctx generation result polls err c m = Some (c1, m1) \<Longrightarrow> gallery_step m m1"
| g_batch_done: "gallery_step m (sendThumbnailBatch_complete ctx generation start count req counts m)"

record tsys =
  ts_m :: Manager
  ts_jobs :: "job list"
  ts_handler :: handler

text \<open>A handler that returned leaves its goroutines behind.\<close>

fun after_dispatch :: "handler \<Rightarrow> job list \<times> handler" where
  "after_dispatch (HReturned js) = (js, HReturned [])"
| "after_dispatch (HBatch answer) = ([], HReturned [])"
| "after_dispatch h = ([], h)"

inductive tx_step :: "tsys \<Rightarrow> tsys \<Rightarrow> bool" where
  tx_message: "ts_handler s = HReturned [] \<Longrightarrow> HandleMessage client gallery err msg (ts_m s) = (h, m1) \<Longrightarrow>
     tx_step s \<lparr>ts_m = m1, ts_jobs = ts_jobs s @ fst (after_dispatch h), ts_handler = snd (after_dispatch h)\<rparr>"
| tx_rest: "ts_handler s \<noteq> HReturned [] \<Longrightarrow> handler_rest client gallery err readErr (ts_handler s) (ts_m s) = (js, m1) \<Longrightarrow>
     tx_step s \<lparr>ts_m = m1, ts_jobs = ts_jobs s @ js, ts_handler = HReturned []\<rparr>"
| tx_job: "ts_jobs s = xs @ j # ys \<Longrightarrow> job_turn v j (ts_m s) = Some (j', m1) \<Longrightarrow>
     tx_step s (s\<lparr>ts_m := m1, ts_jobs := xs @ jobs_of j' @ ys\<rparr>)"
| tx_gallery: "gallery_step (ts_m s) m1 \<Longrightarrow> tx_step s (s\<lparr>ts_m := m1\<rparr>)"

definition tx_start :: "tsys \<Rightarrow> bool" where
  "tx_start s \<longleftrightarrow> ts_jobs s = [] \<and> ts_handler s = HReturned [] \<and> \<not> bulkTransfer (ts_m s) \<and> bulkOperation (ts_m s) = 0
     \<and> mediaOperation (ts_m s) = 0 \<and> operationSequence (ts_m s) = 0 \<and> tm_out (ts_m s) = []"

section \<open>What a step leaves alone\<close>

text \<open>The part of the manager that belongs to the bulk slot and the counters.\<close>

definition bulk_part :: "Manager \<Rightarrow> bool \<times> u64 \<times> 32 word \<times> int" where
  "bulk_part m = (bulkTransfer m, bulkOperation m, downloads m, maxDownloads m)"

named_theorems frame_simps

lemma emit_fields [simp, frame_simps]:
  "bulkTransfer (emit e m) = bulkTransfer m" "bulkOperation (emit e m) = bulkOperation m"
  "downloads (emit e m) = downloads m" "maxDownloads (emit e m) = maxDownloads m"
  "mediaOperation (emit e m) = mediaOperation m" "operationSequence (emit e m) = operationSequence m"
  "currentGeneration (emit e m) = currentGeneration m" "tm_cancelled (emit e m) = tm_cancelled m"
  "tm_out (emit e m) = tm_out m @ [e]" "tm_client (emit e m) = tm_client m" "tm_gallery (emit e m) = tm_gallery m"
  "mediaCancel (emit e m) = mediaCancel m" "tm_next (emit e m) = tm_next m" "tm_batches (emit e m) = tm_batches m"
  "tm_albumBatch (emit e m) = tm_albumBatch m" "mediaID (emit e m) = mediaID m" "mediaQuality (emit e m) = mediaQuality m"
  by (simp_all add: emit_def)

lemma nextOperation_loop_nonzero: "nextOperation_loop s \<noteq> 0"
proof (induction s rule: nextOperation_loop.induct)
  case (1 s)
  then show ?case by (subst nextOperation_loop.simps) (auto simp: Let_def)
qed

lemma nextOperation_loop_Suc: "s \<noteq> - 1 \<Longrightarrow> nextOperation_loop s = s + 1"
  by (subst nextOperation_loop.simps) (auto simp: Let_def add_eq_0_iff2)

lemma cancelCtx_bulk [simp]: "bulk_part (cancelCtx c m) = bulk_part m"
  by (simp add: cancelCtx_def bulk_part_def split: option.splits)

lemma stopTimer_bulk [simp]: "bulk_part (stopTimer c m) = bulk_part m"
  by (simp add: stopTimer_def bulk_part_def split: option.splits)

lemma emit_bulk [simp]: "bulk_part (emit e m) = bulk_part m"
  by (simp add: bulk_part_def)

lemma sendError_bulk [simp]: "bulk_part (sendError a b c m) = bulk_part m"
  by (simp add: sendError_def)

lemma sendOperationError_bulk [simp]: "bulk_part (sendOperationError a b c d m) = bulk_part m"
  by (simp add: sendOperationError_def)

lemma sendBulkError_bulk [simp]: "bulk_part (sendBulkErrorIfActive a b c m) = bulk_part m"
  by (simp add: sendBulkErrorIfActive_def)

lemma sendMediaError_bulk [simp]: "bulk_part (sendMediaErrorIfActive a b c m) = bulk_part m"
  by (simp add: sendMediaErrorIfActive_def)

lemma finishMedia_bulk [simp]: "bulk_part (finishMedia a m) = bulk_part m"
  using cancelCtx_bulk [of "mediaCancel m" m] by (simp add: finishMedia_def bulk_part_def)

lemma sendMediaControl_bulk: "sendMediaControlIfCurrent e a j m = (r, m1) \<Longrightarrow> bulk_part m1 = bulk_part m"
  by (auto simp: sendMediaControlIfCurrent_def split: if_splits)

lemma beginMedia_bulk: "beginMediaLocked a q g m = (ctx, operation, m1) \<Longrightarrow> bulk_part m1 = bulk_part m"
  using cancelCtx_bulk [of "mediaCancel m" m] by (auto simp: beginMediaLocked_def nextOperationID_def bulk_part_def Let_def)

lemma bulk_part_eqD:
  "bulk_part a = bulk_part b \<Longrightarrow> bulkTransfer a = bulkTransfer b \<and> bulkOperation a = bulkOperation b
     \<and> downloads a = downloads b \<and> maxDownloads a = maxDownloads b"
  by (simp add: bulk_part_def)

lemma gallery_step_bulk: "gallery_step m m1 \<Longrightarrow> bulk_part m1 = bulk_part m"
proof (induction rule: gallery_step.induct)
  case (g_close m)
  show ?case
    using stopTimer_bulk [of "thumbnailFallback m" m] cancelCtx_bulk
    by (simp add: handleClose_def Let_def bulk_part_def cancelCtx_def stopTimer_def split: option.splits)
next
  case (g_send m listed err)
  then show ?case
    by (auto simp: sendGallery_def sendGallery_install_def Let_def bulk_part_def cancelCtx_def stopTimer_def sendError_def
        split: sum.splits option.splits)
qed (auto simp: HandleOpen_def sendGallery_arm_def startLegacyThumbnailFallback_def legacyComplete_def collect_turn_def
    sendThumbnailBatch_complete_def sendThumbnailWithBackpressure_def bulk_part_def Let_def stopTimer_def
    split: option.splits sum.splits prod.splits if_splits)


section \<open>Who holds the bulk slot\<close>

fun holder :: "job \<Rightarrow> u64 option" where
  "holder (BulkStream operation req bytes) = Some operation"
| "holder (AlbumFetch batch operation req) = Some operation"
| "holder (AlbumPart batch req download index operation bytes) = Some operation"
| "holder (AlbumChunks batch req download index operation bytes part) = Some operation"
| "holder (AlbumAwait batch req download index operation bytes) = Some operation"
| "holder (PreviewTop ctx aid generation operation req bytes) = None"
| "holder (PreviewRead ctx aid generation operation req bytes) = None"

definition holders :: "job list \<Rightarrow> u64 list" where
  "holders js = List.map_filter holder js"

lemma holders_simps [simp]:
  "holders [] = []" "holders (j # js) = (case holder j of None \<Rightarrow> holders js | Some x \<Rightarrow> x # holders js)"
  "holders (xs @ ys) = holders xs @ holders ys"
  by (simp_all add: holders_def map_filter_def split: option.splits)

text \<open>The slot is free, or held by operation \<open>x\<close>.\<close>

definition slot_free :: "Manager \<Rightarrow> bool" where
  "slot_free m \<longleftrightarrow> \<not> bulkTransfer m \<and> bulkOperation m = 0"

definition slot_held :: "u64 \<Rightarrow> Manager \<Rightarrow> bool" where
  "slot_held x m \<longleftrightarrow> bulkTransfer m \<and> bulkOperation m = x \<and> x \<noteq> 0"

lemma slot_cong:
  assumes "bulk_part m1 = bulk_part m"
  shows "slot_free m1 = slot_free m" "slot_held x m1 = slot_held x m"
  using assms by (simp_all add: slot_free_def slot_held_def bulk_part_def)

lemma releaseBulk_held:
  assumes "slot_held x m"
  shows "slot_free (releaseBulk x m)" "downloads (releaseBulk x m) = downloads m"
    "maxDownloads (releaseBulk x m) = maxDownloads m"
  using assms by (simp_all add: slot_held_def slot_free_def releaseBulk_def)

lemma finishAlbumBatch_held:
  assumes "slot_held x m"
  shows "slot_free (finishAlbumBatch b x m)" "downloads (finishAlbumBatch b x m) = downloads m"
    "maxDownloads (finishAlbumBatch b x m) = maxDownloads m"
  using assms by (simp_all add: slot_held_def slot_free_def releaseBulk_def finishAlbumBatch_def)

lemma slot_not_both: "slot_held x m \<Longrightarrow> \<not> slot_free m"
  by (simp add: slot_held_def slot_free_def)

lemma slot_held_fields:
  "slot_held x (emit e m) = slot_held x m" "slot_held x (m\<lparr>downloads := d\<rparr>) = slot_held x m"
  "slot_held x (m\<lparr>tm_batches := b\<rparr>) = slot_held x m" "slot_held x (sendBulkErrorIfActive a b' c m) = slot_held x m"
  by (simp_all add: slot_held_def bulk_part_eqD [OF sendBulkError_bulk])

text \<open>
  The three things that can happen to a held slot in a turn: it stays with the goroutine (perhaps under a new operation number),
  it is released, or it is released with one more download counted.
\<close>

definition slot_turn :: "u64 option \<Rightarrow> Manager \<Rightarrow> Manager \<Rightarrow> bool" where
  "slot_turn y m m1 \<longleftrightarrow> maxDownloads m1 = maxDownloads m \<and>
     (case y of
        Some y \<Rightarrow> slot_held y m1 \<and> downloads m1 = downloads m
      | None \<Rightarrow> slot_free m1 \<and> (downloads m1 = downloads m \<or> downloads m1 = downloads m + 1))"

lemma slot_turn_release:
  "slot_held x m1 \<Longrightarrow> maxDownloads m1 = maxDownloads m \<Longrightarrow> downloads m1 = downloads m \<or> downloads m1 = downloads m + 1
   \<Longrightarrow> slot_turn None m (releaseBulk x m1)"
  "slot_held x m1 \<Longrightarrow> maxDownloads m1 = maxDownloads m \<Longrightarrow> downloads m1 = downloads m \<or> downloads m1 = downloads m + 1
   \<Longrightarrow> slot_turn None m (finishAlbumBatch b x m1)"
  by (auto simp: slot_turn_def releaseBulk_held finishAlbumBatch_held)

lemma sendBulkError_fields [simp]:
  "downloads (sendBulkErrorIfActive a b c m) = downloads m" "maxDownloads (sendBulkErrorIfActive a b c m) = maxDownloads m"
  using bulk_part_eqD [OF sendBulkError_bulk [of a b c m]] by simp_all

lemma sendWithBackpressure_cases:
  assumes "(if data = [] then Some (None, m) else sendWithBackpressure polls err None cls frame m) = Some (r, m1)"
  shows "m1 = m \<or> m1 = emit (TxBinary cls frame) m"
  using assms by (auto simp: sendWithBackpressure_def split: if_splits)

lemma streamFile_turn_slot:
  assumes "streamFile_turn data rerr polls err enderr x req bytes m = Some (b, m1)" "slot_held x m"
  shows "slot_turn (case b of None \<Rightarrow> None | Some _ \<Rightarrow> Some x) m m1"
proof -
  from assms(1) obtain r m2 where s: "(if data = [] then Some (None, m)
      else sendWithBackpressure polls err None ClassBulk (encodeChunkFrame x 0 data) m) = Some (r, m2)"
    unfolding streamFile_turn_def by (cases "if data = [] then Some (None, m)
      else sendWithBackpressure polls err None ClassBulk (encodeChunkFrame x 0 data) m") auto
  have h: "slot_held x m2" "downloads m2 = downloads m" "maxDownloads m2 = maxDownloads m"
    using sendWithBackpressure_cases [OF s] assms(2) by (auto simp: slot_held_fields)
  show ?thesis
    using assms(1) h unfolding streamFile_turn_def s
    by (auto simp: bulkDone_def Let_def slot_held_fields slot_turn_def releaseBulk_held
        split: option.splits read_err.splits if_splits)
qed


lemma advanceBulk_held:
  assumes "slot_held x m" "advanceBulkOperation x m = (y, m1)"
  obtains z where "y = Some z" "slot_held z m1" "downloads m1 = downloads m" "maxDownloads m1 = maxDownloads m"
  using assms nextOperation_loop_nonzero [of "operationSequence m"]
  by (auto simp: advanceBulkOperation_def slot_held_def nextOperationID_def Let_def)

lemma slot_turn_stay:
  "slot_held y m1 \<Longrightarrow> downloads m1 = downloads m \<Longrightarrow> maxDownloads m1 = maxDownloads m \<Longrightarrow> slot_turn (Some y) m m1"
  by (simp add: slot_turn_def)

lemmas slot_intros = slot_turn_release slot_turn_stay

abbreviation next_holder :: "job option \<Rightarrow> u64 option" where
  "next_holder j \<equiv> Option.bind j holder"

lemma albumFetched_slot:
  "albumFetched fetched batch x req m = (j, m1) \<Longrightarrow> slot_held x m \<Longrightarrow> slot_turn (next_holder j) m m1"
  by (auto simp: albumFetched_def slot_held_fields intro!: slot_intros split: sum.splits if_splits)

lemma albumPart_slot:
  assumes "albumPart_begin stamp err batch req download index x bytes m = (j, m1)" "slot_held x m"
  shows "slot_turn (next_holder j) m m1"
proof (cases "index > 0")
  case True
  obtain y m2 where a: "advanceBulkOperation x m = (y, m2)" by fastforce
  from advanceBulk_held [OF assms(2) a] obtain z where "y = Some z" "slot_held z m2" "downloads m2 = downloads m"
      "maxDownloads m2 = maxDownloads m" .
  with a assms(1) True show ?thesis
    by (auto simp: albumPart_begin_def Let_def slot_held_fields intro!: slot_intros split: if_splits)
next
  case False
  with assms show ?thesis
    by (auto simp: albumPart_begin_def Let_def slot_held_fields intro!: slot_intros split: if_splits)
qed

lemma albumChunk_slot:
  assumes "albumChunk_turn data rerr polls err errtext enderr batch req download index x bytes part m = Some (j, m1)"
    "slot_held x m"
  shows "slot_turn (next_holder j) m m1"
proof -
  let ?s = "if data = [] then Some (None, m) else sendWithBackpressure polls err None ClassBulk (encodeChunkFrame x 0 data) m"
  from assms(1) obtain r m2 where s: "?s = Some (r, m2)"
    unfolding albumChunk_turn_def by (cases ?s) auto
  have h: "slot_held x m2" "downloads m2 = downloads m" "maxDownloads m2 = maxDownloads m"
    using sendWithBackpressure_cases [OF s] assms(2) by (auto simp: slot_held_fields)
  show ?thesis
    using assms(1) h unfolding albumChunk_turn_def s
    by (auto simp: Let_def slot_held_fields intro!: slot_intros split: option.splits read_err.splits if_splits)
qed

lemma albumAwait_slot:
  "albumAwait_turn timer batch req download index x bytes m = Some (j, m1) \<Longrightarrow> slot_held x m \<Longrightarrow> slot_turn (next_holder j) m m1"
  by (auto simp: albumAwait_turn_def albumComplete_def Let_def slot_held_fields intro!: slot_intros
      split: option.splits if_splits prod.splits)

lemma preview_top_bulk:
  "preview_top ctx aid g x req b m = (j, m1) \<Longrightarrow> bulk_part m1 = bulk_part m \<and> next_holder j = None"
  by (auto simp: preview_top_def split: if_splits)

lemma preview_read_bulk:
  assumes "preview_read data rerr polls err enderr ctx aid g x req b m = Some (j, m1)"
  shows "bulk_part m1 = bulk_part m \<and> next_holder j = None"
proof -
  let ?s = "if data = [] then Some (None, m)
            else if ctx_err ctx m \<or> mediaOperation m \<noteq> x then Some (Some ctxCanceled, m)
            else sendInteractiveMedia polls err ctx x (encodeChunkFrame x g data) m"
  from assms obtain r m2 where s: "?s = Some (r, m2)" unfolding preview_read_def by (cases ?s) auto
  then have b: "bulk_part m2 = bulk_part m" by (auto simp: sendInteractiveMedia_def split: if_splits)
  show ?thesis
    using assms b unfolding preview_read_def s
    by (auto simp: Let_def sendMediaControlIfCurrent_def split: option.splits read_err.splits if_splits)
qed

lemma job_turn_slot:
  assumes "job_turn v j m = Some (j', m1)" "holder j = Some x" "slot_held x m"
  shows "slot_turn (next_holder j') m m1"
  using assms
  by (cases j) (auto dest!: streamFile_turn_slot albumFetched_slot albumPart_slot albumChunk_slot albumAwait_slot
      split: option.splits)

lemma job_turn_other:
  assumes "job_turn v j m = Some (j', m1)" "holder j = None"
  shows "bulk_part m1 = bulk_part m \<and> next_holder j' = None"
  using assms by (cases j) (auto dest: preview_top_bulk preview_read_bulk)


section \<open>Handlers and the bulk slot\<close>

fun wants_bulk :: "handler \<Rightarrow> bool" where
  "wants_bulk (HFile path req) = True"
| "wants_bulk (HAsset aid quality req) = True"
| "wants_bulk (HAlbum req) = True"
| "wants_bulk _ = False"

lemma previewRequest_bulk:
  assumes "handleAssetPreviewRequest gallery err aid q g req m = (j, m1)"
  shows "bulk_part m1 = bulk_part m \<and> next_holder j = None"
proof -
  obtain ctx x m2 where b: "beginMedia aid (fst (normalizePreviewQuality q)) (word_of_int g) m = (ctx, x, m2)"
    by (metis prod_cases3)
  then have "bulk_part m2 = bulk_part m" by (auto simp: beginMedia_def dest: beginMedia_bulk)
  with assms b show ?thesis
    by (cases "normalizePreviewQuality q")
       (auto simp: handleAssetPreviewRequest_def sendMediaControlIfCurrent_def Let_def split: if_splits option.splits)
qed

lemma seekRead_bulk:
  assumes "handleAssetPreviewSeek_read rerr err aid q off g req parent m = (j, m1)"
  shows "bulk_part m1 = bulk_part m \<and> next_holder j = None"
proof -
  obtain ctx x m2 where b: "beginMediaLocked aid (fst (normalizePreviewQuality q)) (word_of_int g) m = (ctx, x, m2)"
    by (metis prod_cases3)
  from beginMedia_bulk [OF b] assms b show ?thesis
    by (auto simp: handleAssetPreviewSeek_read_def beginMediaIfNewer_def sendMediaControlIfCurrent_def
        split: if_splits option.splits)
qed

lemma batchRequest_bulk: "bulk_part (snd (handleThumbnailBatchRequest a b c m)) = bulk_part m"
  by (auto simp: handleThumbnailBatchRequest_def batch_reject_def Let_def bulk_part_def stopTimer_def sendError_def
      split: option.splits)

lemma seek_bulk: "bulk_part (snd (handleAssetPreviewSeek a q off g req parent m)) = bulk_part m"
  by (auto simp: handleAssetPreviewSeek_def Let_def split: prod.splits)

lemma ack_bulk: "bulk_part (handleAlbumArchiveAck a b c d m) = bulk_part m"
  by (auto simp: handleAlbumArchiveAck_def bulk_part_def split: option.splits prod.splits)

lemma list_bulk: "bulk_part (handleListRequest client p req m) = bulk_part m"
  by (auto simp: handleListRequest_def refuseLimit_def split: sum.splits)

lemma checks_bulk:
  "handleFileRequest_check p req m = (go, m1) \<Longrightarrow> bulk_part m1 = bulk_part m \<and> (go \<longrightarrow> \<not> limitReached m)"
  "handleAssetRequest_check a q req m = (go, m1) \<Longrightarrow> bulk_part m1 = bulk_part m \<and> (go \<longrightarrow> \<not> limitReached m)"
  "handleAlbumDownloadRequest_check req m = (go, m1) \<Longrightarrow> bulk_part m1 = bulk_part m \<and> (go \<longrightarrow> \<not> limitReached m)"
  by (auto simp: handleFileRequest_check_def handleAssetRequest_check_def handleAlbumDownloadRequest_check_def refuseLimit_def
      split: if_splits prod.splits)

lemma dispatchSeek_bulk:
  "dispatchSeek msg m = (h, m1) \<Longrightarrow> bulk_part m1 = bulk_part m \<and> \<not> wants_bulk h \<and> holders (fst (after_dispatch h)) = []
     \<and> \<not> wants_bulk (snd (after_dispatch h))"
  using seek_bulk [of "msg_ID msg" "msg_Quality msg" "msg_StartOffset msg" "msg_Generation msg" "msg_RequestID msg" _ m]
  by (auto simp: dispatchSeek_def split: if_splits option.splits prod.splits bool.splits) (metis snd_conv)+

lemma HandleMessage_bulk:
  assumes "HandleMessage client gallery err msg m = (h, m1)"
  shows "bulk_part m1 = bulk_part m" "holders (fst (after_dispatch h)) = []"
    "wants_bulk (snd (after_dispatch h)) \<Longrightarrow> \<not> limitReached m"
proof -
  have "bulk_part m1 = bulk_part m \<and> holders (fst (after_dispatch h)) = []
      \<and> (wants_bulk (snd (after_dispatch h)) \<longrightarrow> \<not> limitReached m)"
    using assms batchRequest_bulk
    by (auto simp: HandleMessage_def Let_def list_bulk ack_bulk jobs_of_def
        split: option.splits if_splits prod.splits
        dest!: checks_bulk previewRequest_bulk dispatchSeek_bulk) (metis snd_conv batchRequest_bulk)+
  then show "bulk_part m1 = bulk_part m" "holders (fst (after_dispatch h)) = []"
    "wants_bulk (snd (after_dispatch h)) \<Longrightarrow> \<not> limitReached m" by blast+
qed


lemma acquireBulk_cases:
  assumes "acquireBulk req m = (y, m1)"
  shows "slot_held x m \<Longrightarrow> y = None \<and> bulk_part m1 = bulk_part m"
    "slot_free m \<Longrightarrow> \<exists>z. y = Some z \<and> slot_held z m1 \<and> downloads m1 = downloads m \<and> maxDownloads m1 = maxDownloads m"
  using assms nextOperation_loop_nonzero [of "operationSequence m"]
  by (auto simp: acquireBulk_def slot_held_def slot_free_def nextOperationID_def Let_def)

text \<open>What the rest of a handler does to the slot: nothing when it is held, and otherwise take it for its goroutine or leave it free.\<close>

definition slot_acquire :: "job list \<Rightarrow> Manager \<Rightarrow> Manager \<Rightarrow> bool" where
  "slot_acquire js m m1 \<longleftrightarrow> maxDownloads m1 = maxDownloads m \<and> downloads m1 = downloads m \<and>
     ((slot_free m1 \<and> holders js = []) \<or> (\<exists>y. holders js = [y] \<and> slot_held y m1))"

lemma fail_slot:
  assumes "slot_held z m1" "downloads m1 = downloads m" "maxDownloads m1 = maxDownloads m"
  shows "slot_acquire [] m (releaseBulk z (sendBulkErrorIfActive z req msg m1))" "slot_acquire [] m (releaseBulk z (emit e m1))"
  using assms releaseBulk_held [of z "sendBulkErrorIfActive z req msg m1"] releaseBulk_held [of z "emit e m1"]
  by (simp_all add: slot_acquire_def slot_held_fields)

lemma file_run_slot:
  assumes "handleFileRequest_run client err path req m = (j, m1)"
  shows "slot_held x m \<Longrightarrow> bulk_part m1 = bulk_part m \<and> j = None"
    "slot_free m \<Longrightarrow> slot_acquire (jobs_of (map_option fst j)) m m1"
proof -
  obtain y m2 where a: "acquireBulk req m = (y, m2)" by fastforce
  show "slot_held x m \<Longrightarrow> bulk_part m1 = bulk_part m \<and> j = None"
    using assms acquireBulk_cases(1) [OF a] by (auto simp: handleFileRequest_run_def a)
  assume "slot_free m"
  then obtain z where z: "y = Some z" "slot_held z m2" "downloads m2 = downloads m" "maxDownloads m2 = maxDownloads m"
    using acquireBulk_cases(2) [OF a] by blast
  show "slot_acquire (jobs_of (map_option fst j)) m m1"
    using assms z fail_slot [OF z(2-4)]
    by (auto simp: handleFileRequest_run_def a Let_def jobs_of_def slot_held_fields slot_acquire_def
        split: if_splits sum.splits option.splits)
qed

lemma asset_run_slot:
  assumes "handleAssetRequest_run gallery err aid req m = (j, m1)"
  shows "slot_held x m \<Longrightarrow> bulk_part m1 = bulk_part m \<and> j = None" "slot_free m \<Longrightarrow> slot_acquire (jobs_of j) m m1"
proof -
  obtain y m2 where a: "acquireBulk req m = (y, m2)" by fastforce
  show "slot_held x m \<Longrightarrow> bulk_part m1 = bulk_part m \<and> j = None"
    using assms acquireBulk_cases(1) [OF a] by (auto simp: handleAssetRequest_run_def a)
  assume "slot_free m"
  then obtain z where z: "y = Some z" "slot_held z m2" "downloads m2 = downloads m" "maxDownloads m2 = maxDownloads m"
    using acquireBulk_cases(2) [OF a] by blast
  show "slot_acquire (jobs_of j) m m1"
    using assms z fail_slot [OF z(2-4)]
    by (auto simp: handleAssetRequest_run_def a Let_def jobs_of_def slot_held_fields slot_acquire_def
        split: if_splits sum.splits option.splits prod.splits)
qed

lemma album_run_slot:
  assumes "handleAlbumDownloadRequest_run req m = (j, m1)"
  shows "slot_held x m \<Longrightarrow> bulk_part m1 = bulk_part m \<and> j = None" "slot_free m \<Longrightarrow> slot_acquire (jobs_of j) m m1"
proof -
  obtain y m2 where a: "acquireBulk req m = (y, m2)" by fastforce
  show "slot_held x m \<Longrightarrow> bulk_part m1 = bulk_part m \<and> j = None"
    using assms acquireBulk_cases(1) [OF a] by (auto simp: handleAlbumDownloadRequest_run_def a)
  assume "slot_free m"
  then obtain z where "y = Some z" "slot_held z m2" "downloads m2 = downloads m" "maxDownloads m2 = maxDownloads m"
    using acquireBulk_cases(2) [OF a] by blast
  then show "slot_acquire (jobs_of j) m m1"
    using assms by (auto simp: handleAlbumDownloadRequest_run_def a Let_def jobs_of_def slot_acquire_def slot_held_def)
qed

lemma handler_rest_slot:
  assumes "handler_rest client gallery err readErr h m = (js, m1)" "\<And>js. h = HReturned js \<Longrightarrow> js = []"
  shows "\<not> wants_bulk h \<Longrightarrow> bulk_part m1 = bulk_part m \<and> holders js = []"
    "slot_held x m \<Longrightarrow> bulk_part m1 = bulk_part m \<and> holders js = []"
    "slot_free m \<Longrightarrow> slot_acquire js m m1"
proof -
  show quiet: "bulk_part m1 = bulk_part m \<and> holders js = []" if "\<not> wants_bulk h"
    using assms that by (cases h) (auto simp: jobs_of_def split: prod.splits option.splits dest!: seekRead_bulk)
  have loud: "\<exists>j. js = jobs_of j
      \<and> (slot_held x m \<longrightarrow> bulk_part m1 = bulk_part m \<and> j = None) \<and> (slot_free m \<longrightarrow> slot_acquire (jobs_of j) m m1)"
    if w: "wants_bulk h"
  proof (cases h)
    case (HFile p req)
    obtain j m2 where j: "handleFileRequest_run client err p req m = (j, m2)" by fastforce
    then show ?thesis
      using assms(1) HFile file_run_slot [OF j] by (intro exI [of _ "map_option fst j"]) auto
  next
    case (HAsset aid q req)
    obtain j m2 where j: "handleAssetRequest_run gallery err aid req m = (j, m2)" by fastforce
    then show ?thesis using assms(1) HAsset asset_run_slot [OF j] by (intro exI [of _ j]) auto
  next
    case (HAlbum req)
    obtain j m2 where j: "handleAlbumDownloadRequest_run req m = (j, m2)" by fastforce
    then show ?thesis using assms(1) HAlbum album_run_slot [OF j] by (intro exI [of _ j]) auto
  qed (use w in auto)
  show "slot_held x m \<Longrightarrow> bulk_part m1 = bulk_part m \<and> holders js = []"
    using quiet loud by (cases "wants_bulk h") (auto simp: jobs_of_def)
  assume f: "slot_free m"
  have "slot_acquire js m m1" if "bulk_part m1 = bulk_part m \<and> holders js = []"
    using that f bulk_part_eqD [of m1 m] slot_cong(1) [of m1 m] by (simp add: slot_acquire_def)
  then show "slot_acquire js m m1"
    using quiet loud f by (cases "wants_bulk h") auto
qed

section \<open>The invariant\<close>

definition tx_inv :: "tsys \<Rightarrow> bool" where
  "tx_inv s \<longleftrightarrow> (\<forall>js. ts_handler s = HReturned js \<longrightarrow> js = []) \<and>
     (if bulkTransfer (ts_m s) then \<exists>x. holders (ts_jobs s) = [x] \<and> slot_held x (ts_m s)
      else holders (ts_jobs s) = [] \<and> slot_free (ts_m s))"

lemma tx_inv_cases:
  assumes "tx_inv s"
  obtains (held) x where "holders (ts_jobs s) = [x]" "slot_held x (ts_m s)"
  | (free) "holders (ts_jobs s) = []" "slot_free (ts_m s)"
  using assms by (auto simp: tx_inv_def split: if_splits)

lemma tx_invI:
  "holders (ts_jobs s) = [x] \<Longrightarrow> slot_held x (ts_m s) \<Longrightarrow> (\<And>js. ts_handler s = HReturned js \<Longrightarrow> js = []) \<Longrightarrow> tx_inv s"
  "holders (ts_jobs s) = [] \<Longrightarrow> slot_free (ts_m s) \<Longrightarrow> (\<And>js. ts_handler s = HReturned js \<Longrightarrow> js = []) \<Longrightarrow> tx_inv s"
  by (auto simp: tx_inv_def slot_held_def slot_free_def)

text \<open>The bulk slot as an abstract lock with a counter of completed downloads.\<close>

datatype slot = Free | Held

definition slot_abs :: "tsys \<Rightarrow> slot \<times> 32 word" where
  "slot_abs s = (if bulkTransfer (ts_m s) then Held else Free, downloads (ts_m s))"

inductive slot_spec :: "slot \<times> 32 word \<Rightarrow> slot \<times> 32 word \<Rightarrow> bool" where
  spec_acquire: "slot_spec (Free, n) (Held, n)"
| spec_abort: "slot_spec (Held, n) (Free, n)"
| spec_complete: "slot_spec (Held, n) (Free, n + 1)"

inductive_simps slot_spec_simps [simp]: "slot_spec (a, n) (b, k)"

text \<open>Every step either leaves the slot and its holder alone or moves the slot as the specification allows.\<close>

lemma same_slot:
  assumes "tx_inv s" "bulk_part (ts_m t) = bulk_part (ts_m s)" "holders (ts_jobs t) = holders (ts_jobs s)"
    "\<And>js. ts_handler t = HReturned js \<Longrightarrow> js = []"
  shows "tx_inv t \<and> slot_abs t = slot_abs s \<and> maxDownloads (ts_m t) = maxDownloads (ts_m s)"
proof -
  have "tx_inv t"
  proof (rule tx_inv_cases [OF assms(1)])
    fix x assume "holders (ts_jobs s) = [x]" "slot_held x (ts_m s)"
    then show "tx_inv t" by (intro tx_invI(1) [of t x]) (simp_all add: slot_cong [OF assms(2)] assms(3,4))
  next
    assume "holders (ts_jobs s) = []" "slot_free (ts_m s)"
    then show "tx_inv t" by (intro tx_invI(2)) (simp_all add: slot_cong [OF assms(2)] assms(3,4))
  qed
  then show ?thesis using bulk_part_eqD [OF assms(2)] by (simp add: slot_abs_def)
qed

lemma after_dispatch_idle: "snd (after_dispatch h) = HReturned js \<Longrightarrow> js = []"
  by (cases h) auto

lemma tx_step_slot:
  assumes "tx_step s t" "tx_inv s"
  shows "tx_inv t \<and> (slot_abs t = slot_abs s \<or> slot_spec (slot_abs s) (slot_abs t)) \<and> maxDownloads (ts_m t) = maxDownloads (ts_m s)"
  using assms
proof (induction rule: tx_step.induct)
  case (tx_message s client gallery err msg h m1)
  note b = HandleMessage_bulk [OF tx_message(2)]
  show ?case
    using same_slot [OF tx_message(3), of "\<lparr>ts_m = m1, ts_jobs = ts_jobs s @ fst (after_dispatch h), ts_handler = snd (after_dispatch h)\<rparr>"]
      b(1,2) after_dispatch_idle by simp
next
  case (tx_rest s client gallery err readErr js m1)
  have idle: "ts_handler s = HReturned js \<Longrightarrow> js = []" for js using tx_rest(3) by (simp add: tx_inv_def)
  note r = handler_rest_slot [OF tx_rest(2) idle]
  from tx_rest(3) show ?case
  proof (cases rule: tx_inv_cases)
    case (held x)
    then show ?thesis
      using same_slot [OF tx_rest(3), of "\<lparr>ts_m = m1, ts_jobs = ts_jobs s @ js, ts_handler = HReturned []\<rparr>"] r(2) by simp
  next
    case free
    with r(3) have a: "slot_acquire js (ts_m s) m1" by blast
    then have "tx_inv \<lparr>ts_m = m1, ts_jobs = ts_jobs s @ js, ts_handler = HReturned []\<rparr>"
      using free by (auto simp: slot_acquire_def intro: tx_invI)
    then show ?thesis using a free by (auto simp: slot_abs_def slot_acquire_def slot_free_def slot_held_def)
  qed
next
  case (tx_job s xs j ys v j' m1)
  have idle: "ts_handler s = HReturned js \<Longrightarrow> js = []" for js using tx_job(3) by (simp add: tx_inv_def)
  show ?case
  proof (cases "holder j")
    case None
    with job_turn_other [OF tx_job(2)] show ?thesis
      using same_slot [OF tx_job(3), of "s\<lparr>ts_m := m1, ts_jobs := xs @ jobs_of j' @ ys\<rparr>"] idle
      by (auto simp: tx_job(1) jobs_of_def split: option.splits)
  next
    case (Some x)
    then have h: "holders xs = []" "holders ys = []" "slot_held x (ts_m s)"
      using tx_job(3) by (auto elim!: tx_inv_cases simp: tx_job(1) append_eq_Cons_conv)
    from job_turn_slot [OF tx_job(2) Some h(3)] have t: "slot_turn (next_holder j') (ts_m s) m1" .
    then have "tx_inv (s\<lparr>ts_m := m1, ts_jobs := xs @ jobs_of j' @ ys\<rparr>)"
    proof (cases "next_holder j'")
      case None
      then show ?thesis using t h idle by (intro tx_invI(2)) (auto simp: slot_turn_def jobs_of_def split: option.splits)
    next
      case (Some y)
      then show ?thesis using t h idle by (intro tx_invI(1) [of _ y]) (cases j'; auto simp: slot_turn_def jobs_of_def)+
    qed
    then show ?thesis
      using t h by (cases "next_holder j'") (auto simp: slot_turn_def slot_abs_def slot_held_def slot_free_def)
  qed
next
  case (tx_gallery s m1)
  have idle: "ts_handler s = HReturned js \<Longrightarrow> js = []" for js using tx_gallery(2) by (simp add: tx_inv_def)
  show ?case
    using same_slot [OF tx_gallery(2), of "s\<lparr>ts_m := m1\<rparr>"] gallery_step_bulk [OF tx_gallery(1)] idle by simp
qed

lemma tx_start_inv: "tx_start s \<Longrightarrow> tx_inv s"
  by (auto simp: tx_start_def tx_inv_def slot_free_def)

interpretation bulk_slot: refined_machine tx_start tx_step tx_inv slot_abs slot_spec
  by unfold_locales (use tx_start_inv tx_step_slot in blast)+

end
