(* ===== verification/Transfer_Properties.thy ===== *)
theory Transfer_Properties
  imports Transfer_System
begin

text \<open>
  The transfer manager's guarantees: one download at a time and the slot always given back, the download limit, no bytes of
  a replaced preview after its replacement, complete and correctly announced files, and the chunk format.
\<close>

section \<open>The bulk slot\<close>

lemma tx_reachable_inv: "tx_start s \<Longrightarrow> tx_step\<^sup>*\<^sup>* s t \<Longrightarrow> tx_inv t"
  by (rule bulk_slot.reachable_safe)

text \<open>
  (C9) At most one download runs at a time, and the bulk slot is never lost. In every state that is reachable by any interleaving
  of messages, handlers and goroutines, with any answers of the backends and the transport, the slot is marked busy exactly when a
  download goroutine is alive, there is only one, and the slot carries its current operation number.
\<close>

theorem bulk_slot_exclusive:
  assumes "tx_start s" "tx_step\<^sup>*\<^sup>* s t"
  shows "holders (ts_jobs t) = (if bulkTransfer (ts_m t) then [bulkOperation (ts_m t)] else [])
       \<and> (bulkTransfer (ts_m t) \<longleftrightarrow> bulkOperation (ts_m t) \<noteq> 0)"
  using tx_reachable_inv [OF assms] by (elim tx_inv_cases) (auto simp: slot_held_def slot_free_def)

definition demo_files :: StorageBackend where
  "demo_files = \<lparr>ListFiles = \<lambda>p. Inr [\<lparr>fi_Name = ''a'', fi_Size = 3, fi_ContentType = ''t'', fi_SHA1 = ''h'', fi_RequestPath = ''a'', fi_json = JNull\<rparr>],
     GetSHA1 = \<lambda>p. []\<rparr>"

definition demo_gallery :: GalleryBackend where
  "demo_gallery = \<lparr>GetAssetInfo = \<lambda>i. Inl ''x'', HeadVideoPlayback = \<lambda>i. Inl ''x''\<rparr>"

definition demo_request :: TransferMsg where
  "demo_request = \<lparr>msg_Type = ''file_request'', msg_Path = ''a'', msg_ID = [], msg_Quality = [], msg_StartOffset = 0, msg_Generation = 0,
     msg_RequestID = ''r'', msg_OperationID = [], msg_BatchID = [], msg_PartIndex = 0, msg_Start = 0, msg_Count = 0, msg_OK = False\<rparr>"

definition demo_start :: tsys where
  "demo_start = \<lparr>ts_m = NewManager True 1, ts_jobs = [], ts_handler = HReturned []\<rparr>"

lemma demo_start_ok: "tx_start demo_start"
  by (simp add: tx_start_def demo_start_def NewManager_def blankManager_def)

lemma demo_check:
  "handleFileRequest_check ''a'' ''r'' m = (if limitReached m then (False, refuseLimit ''r'' m) else (True, m))"
  by (simp add: handleFileRequest_check_def)

lemma demo_message:
  assumes "\<not> limitReached (ts_m s)" "ts_handler s = HReturned []"
  shows "tx_step s (s\<lparr>ts_handler := HFile ''a'' ''r''\<rparr>)"
proof -
  have "HandleMessage demo_files demo_gallery None (Some demo_request) (ts_m s) = (HFile ''a'' ''r'', ts_m s)"
    using assms(1) by (simp add: HandleMessage_def demo_request_def demo_check Let_def)
  from tx_message [OF assms(2) this] have "tx_step s \<lparr>ts_m = ts_m s, ts_jobs = ts_jobs s, ts_handler = HFile ''a'' ''r''\<rparr>" by simp
  also have "\<lparr>ts_m = ts_m s, ts_jobs = ts_jobs s, ts_handler = HFile ''a'' ''r''\<rparr> = s\<lparr>ts_handler := HFile ''a'' ''r''\<rparr>" by simp
  finally show ?thesis .
qed

text \<open>The header that is sent for operation \<open>x\<close>.\<close>

definition demo_header :: "u64 \<Rightarrow> tx_event" where
  "demo_header x = TxControl (fileHeader ''a'' 3 ''t'' ''h'' ''r'' x)"

lemma demo_rest:
  assumes "ts_handler s = HFile ''a'' ''r''" "\<not> bulkTransfer (ts_m s)" "tm_client (ts_m s)"
    "x = nextOperation_loop (operationSequence (ts_m s))"
  shows "tx_step s \<lparr>ts_m = emit (demo_header x) (ts_m s\<lparr>operationSequence := x, bulkOperation := x, bulkTransfer := True\<rparr>),
                    ts_jobs = ts_jobs s @ [BulkStream x ''r'' 0], ts_handler = HReturned []\<rparr>"
proof -
  have "path_Dir ''a'' = ''.''" "path_Base ''a'' = ''a''"
    by (simp_all add: path_Dir_def path_Base_def path_Clean_def Let_def)
  then have "handler_rest demo_files demo_gallery None None (ts_handler s) (ts_m s) =
      ([BulkStream x ''r'' 0], emit (demo_header x) (ts_m s\<lparr>operationSequence := x, bulkOperation := x, bulkTransfer := True\<rparr>))"
    using assms by (simp add: handleFileRequest_run_def acquireBulk_def nextOperationID_def Let_def requestDir_def demo_files_def
        demo_header_def jobs_of_def)
  from tx_rest [OF _ this] assms(1) show ?thesis by simp
qed

text \<open>The end of the file, read at once.\<close>

definition demo_eof :: turn_env where
  "demo_eof = \<lparr>te_data = [], te_rerr = Some EOF, te_polls = [], te_err = None, te_errtext = [], te_enderr = None,
     te_fetched = Inl [], te_stamp = [], te_timer = False\<rparr>"

definition demo_done :: "u64 \<Rightarrow> Manager \<Rightarrow> Manager" where
  "demo_done x m = releaseBulk x (bulkDone ''r'' None x 0 m)"

lemma demo_end:
  assumes "ts_jobs s = [BulkStream x ''r'' 0]"
  shows "tx_step s (s\<lparr>ts_m := demo_done x (ts_m s), ts_jobs := []\<rparr>)"
proof -
  have "job_turn demo_eof (BulkStream x ''r'' 0) (ts_m s) = Some (None, demo_done x (ts_m s))"
    by (simp add: demo_eof_def demo_done_def streamFile_turn_def)
  from tx_job [of s "[]" _ "[]", OF _ this] assms show ?thesis by (simp add: jobs_of_def)
qed

lemma demo_done_fields:
  assumes "bulkOperation m = x"
  shows "downloads (demo_done x m) = downloads m + 1" "bulkTransfer (demo_done x m) = False"
    "tm_client (demo_done x m) = tm_client m" "maxDownloads (demo_done x m) = maxDownloads m"
    "operationSequence (demo_done x m) = operationSequence m"
  using assms by (simp_all add: demo_done_def bulkDone_def releaseBulk_def Let_def)

text \<open>The run that starts one download and passes the guards for a second one while the first is running.\<close>

lemma demo_first:
  obtains s1 where "tx_step\<^sup>*\<^sup>* demo_start s1" "ts_jobs s1 = [BulkStream 1 ''r'' 0]" "ts_handler s1 = HReturned []"
    "bulkTransfer (ts_m s1)" "bulkOperation (ts_m s1) = 1" "operationSequence (ts_m s1) = 1" "downloads (ts_m s1) = 0"
    "tm_client (ts_m s1)" "maxDownloads (ts_m s1) = 1"
proof -
  let ?s = "demo_start\<lparr>ts_handler := HFile ''a'' ''r''\<rparr>"
  have one: "nextOperation_loop 0 = 1" by (simp add: nextOperation_loop_Suc)
  have a: "tx_step demo_start ?s"
    by (rule demo_message) (simp_all add: demo_start_def limitReached_def NewManager_def blankManager_def)
  let ?t = "\<lparr>ts_m = emit (demo_header 1) (ts_m ?s\<lparr>operationSequence := 1, bulkOperation := 1, bulkTransfer := True\<rparr>),
      ts_jobs = ts_jobs ?s @ [BulkStream 1 ''r'' 0], ts_handler = HReturned []\<rparr>"
  have b: "tx_step ?s ?t"
    by (rule demo_rest) (simp_all add: demo_start_def NewManager_def blankManager_def one)
  from a b have "tx_step\<^sup>*\<^sup>* demo_start ?t" by (meson r_into_rtranclp rtranclp_trans)
  then show thesis
    by (rule that) (simp_all add: demo_start_def NewManager_def blankManager_def)
qed

theorem bulk_slot_exclusive_witness:
  "\<exists>s t. tx_start s \<and> tx_step\<^sup>*\<^sup>* s t \<and> bulkTransfer (ts_m t) \<and> holders (ts_jobs t) = [bulkOperation (ts_m t)]"
proof -
  obtain t where t: "tx_step\<^sup>*\<^sup>* demo_start t" "bulkTransfer (ts_m t)" by (rule demo_first) blast
  then show ?thesis using bulk_slot_exclusive [OF demo_start_ok t(1)] demo_start_ok by (intro exI [of _ demo_start] exI [of _ t]) simp
qed



section \<open>The download limit\<close>

text \<open>The downloads counted and the one under way.\<close>

definition usage :: "tsys \<Rightarrow> int" where
  "usage s = sint (downloads (ts_m s)) + (if bulkTransfer (ts_m s) then 1 else 0)"

definition limit_inv :: "int \<Rightarrow> tsys \<Rightarrow> bool" where
  "limit_inv limit s \<longleftrightarrow> tx_inv s \<and> maxDownloads (ts_m s) = limit \<and> usage s \<le> limit + 1
     \<and> (wants_bulk (ts_handler s) \<longrightarrow> usage s \<le> limit)"

lemma sint_Suc:
  assumes "sint (w :: 32 word) < 2 ^ 31 - 1"
  shows "sint (w + 1) = sint w + 1"
proof -
  have "- (2 ^ 31) \<le> sint w" using sint_ge [of w] by simp
  then have "signed_take_bit 31 (sint w + 1) = sint w + 1"
    using assms by (intro signed_take_bit_int_eq_self) simp_all
  then show ?thesis by (simp add: sint_word_ariths(1))
qed

lemma usage_bulk: "bulk_part (ts_m t) = bulk_part (ts_m s) \<Longrightarrow> usage t = usage s"
  by (auto simp: usage_def dest: bulk_part_eqD)

lemma job_usage:
  assumes "ts_jobs s = xs @ j # ys" "job_turn v j (ts_m s) = Some (j', m1)" "tx_inv s" "usage s \<le> 2 ^ 31 - 1"
  shows "usage (s\<lparr>ts_m := m1, ts_jobs := js\<rparr>) \<le> usage s"
proof (cases "holder j")
  case None
  then show ?thesis using job_turn_other [OF assms(2)] usage_bulk [of "s\<lparr>ts_m := m1, ts_jobs := js\<rparr>" s] by simp
next
  case (Some x)
  then have h: "slot_held x (ts_m s)" using assms(1,3) by (auto elim!: tx_inv_cases simp: append_eq_Cons_conv)
  have "sint (downloads (ts_m s)) < 2 ^ 31 - 1" using assms(4) h by (simp add: usage_def slot_held_def)
  then show ?thesis
    using job_turn_slot [OF assms(2) Some h] h sint_Suc [of "downloads (ts_m s)"]
    by (auto simp: slot_turn_def usage_def slot_held_def slot_free_def split: option.splits)
qed

lemma limit_step:
  assumes "tx_step s t" "limit_inv limit s" "0 < limit" "limit < 2 ^ 31 - 1"
  shows "limit_inv limit t"
proof -
  have inv: "tx_inv t" "maxDownloads (ts_m t) = limit"
    using tx_step_slot [OF assms(1)] assms(2) by (auto simp: limit_inv_def)
  have "usage t \<le> limit + 1 \<and> (wants_bulk (ts_handler t) \<longrightarrow> usage t \<le> limit)"
    using assms
  proof (induction rule: tx_step.induct)
    case (tx_message s client gallery err msg h m1)
    note b = HandleMessage_bulk [OF tx_message(2)]
    have u: "usage \<lparr>ts_m = m1, ts_jobs = ts_jobs s @ fst (after_dispatch h), ts_handler = snd (after_dispatch h)\<rparr> = usage s"
      by (rule usage_bulk) (simp add: b(1))
    have "\<not> limitReached (ts_m s) \<Longrightarrow> usage s \<le> limit"
      using tx_message(3,4) by (auto simp: limitReached_def usage_def limit_inv_def)
    then show ?case using u b(3) tx_message(3) by (auto simp: limit_inv_def)
  next
    case (tx_rest s client gallery err readErr js m1)
    let ?t = "\<lparr>ts_m = m1, ts_jobs = ts_jobs s @ js, ts_handler = HReturned []\<rparr>"
    have i: "tx_inv s" using tx_rest(3) by (simp add: limit_inv_def)
    have idle: "ts_handler s = HReturned js \<Longrightarrow> js = []" for js using i by (simp add: tx_inv_def)
    note r = handler_rest_slot [OF tx_rest(2) idle]
    have "usage ?t \<le> limit + 1"
    proof (cases "wants_bulk (ts_handler s)")
      case False
      then show ?thesis using usage_bulk [of ?t s] r(1) tx_rest(3) by (auto simp: limit_inv_def)
    next
      case True
      then have u: "usage s \<le> limit" using tx_rest(3) by (simp add: limit_inv_def)
      from i show ?thesis
      proof (cases rule: tx_inv_cases)
        case (held x)
        then show ?thesis using usage_bulk [of ?t s] r(2) u by auto
      next
        case free
        then show ?thesis using r(3) u by (auto simp: slot_acquire_def usage_def slot_free_def)
      qed
    qed
    then show ?case by simp
  next
    case (tx_job s xs j ys v j' m1)
    have "usage s \<le> 2 ^ 31 - 1" using tx_job(3,5) by (auto simp: limit_inv_def)
    then have "usage (s\<lparr>ts_m := m1, ts_jobs := xs @ jobs_of j' @ ys\<rparr>) \<le> usage s"
      using job_usage [OF tx_job(1,2)] tx_job(3) by (auto simp: limit_inv_def)
    then show ?case using tx_job(3) by (auto simp: limit_inv_def)
  next
    case (tx_gallery s m1)
    then show ?case using usage_bulk [of "s\<lparr>ts_m := m1\<rparr>" s] gallery_step_bulk [of "ts_m s" m1] by (auto simp: limit_inv_def)
  qed
  then show ?thesis using inv by (simp add: limit_inv_def)
qed


lemma limit_run:
  assumes "tx_step\<^sup>*\<^sup>* s t" "limit_inv limit s" "0 < limit" "limit < 2 ^ 31 - 1"
  shows "limit_inv limit t"
  using assms by (induction rule: rtranclp_induct) (auto intro: limit_step)


text \<open>The race: the second request passes its guards, then the first download completes, then the second one runs.\<close>

lemma race_run:
  obtains t where "tx_step\<^sup>*\<^sup>* demo_start t" "downloads (ts_m t) = 2"
proof -
  obtain s1 where s1: "tx_step\<^sup>*\<^sup>* demo_start s1" "ts_jobs s1 = [BulkStream 1 ''r'' 0]" "ts_handler s1 = HReturned []"
    "bulkTransfer (ts_m s1)" "bulkOperation (ts_m s1) = 1" "operationSequence (ts_m s1) = 1" "downloads (ts_m s1) = 0"
    "tm_client (ts_m s1)" "maxDownloads (ts_m s1) = 1" by (rule demo_first)
  define s2 where "s2 = s1\<lparr>ts_handler := HFile ''a'' ''r''\<rparr>"
  have 2: "tx_step s1 s2" unfolding s2_def by (rule demo_message) (simp_all add: s1 limitReached_def)
  define s3 where "s3 = s2\<lparr>ts_m := demo_done 1 (ts_m s2), ts_jobs := []\<rparr>"
  have 3: "tx_step s2 s3" unfolding s3_def by (rule demo_end) (simp add: s2_def s1)
  have m3: "downloads (ts_m s3) = 1" "\<not> bulkTransfer (ts_m s3)" "tm_client (ts_m s3)" "operationSequence (ts_m s3) = 1"
    "ts_handler s3 = HFile ''a'' ''r''" "ts_jobs s3 = []"
    using demo_done_fields [OF s1(5)] s1 by (simp_all add: s3_def s2_def)
  define s4 where "s4 = \<lparr>ts_m = emit (demo_header 2) (ts_m s3\<lparr>operationSequence := 2, bulkOperation := 2, bulkTransfer := True\<rparr>),
      ts_jobs = ts_jobs s3 @ [BulkStream 2 ''r'' 0], ts_handler = HReturned []\<rparr>"
  have 4: "tx_step s3 s4"
    unfolding s4_def by (rule demo_rest) (simp_all add: m3 nextOperation_loop_Suc)
  define s5 where "s5 = s4\<lparr>ts_m := demo_done 2 (ts_m s4), ts_jobs := []\<rparr>"
  have 5: "tx_step s4 s5" unfolding s5_def by (rule demo_end) (simp add: s4_def m3)
  have "downloads (ts_m s5) = 2" using demo_done_fields(1) [of "ts_m s4" 2] by (simp add: s5_def s4_def m3)
  moreover have "tx_step\<^sup>*\<^sup>* demo_start s5"
    using s1(1) 2 3 4 5 by (meson rtranclp.rtrancl_into_rtrancl)
  ultimately show thesis using that by blast
qed


text \<open>
  (C13) The limit can be overshot: with a limit of one, two requests for a file lead to two completed downloads when the
  first one ends between the second request's check of the limit and its acquisition of the slot.
\<close>

theorem download_limit_race:
  "\<exists>s t. tx_start s \<and> maxDownloads (ts_m s) = 1 \<and> downloads (ts_m s) = 0 \<and> tx_step\<^sup>*\<^sup>* s t \<and> downloads (ts_m t) = 2"
proof -
  obtain t where "tx_step\<^sup>*\<^sup>* demo_start t" "downloads (ts_m t) = 2" by (rule race_run)
  then show ?thesis using demo_start_ok
    by (intro exI [of _ demo_start] exI [of _ t]) (simp add: demo_start_def NewManager_def blankManager_def)
qed

section \<open>Chunk frames\<close>

interpretation chunk_frame: canonical_codec "\<lambda>(operation, generation, data). Inr (encodeChunkFrame operation generation data)" decodeChunkFrame
proof
  fix a bs assume "(case a of (operation, generation, data) \<Rightarrow> Inr (encodeChunkFrame operation generation data)) = Inr bs"
  then obtain x g d where a: "a = (x, g, d)" and bs: "bs = encodeChunkFrame x g d" by (cases a) auto
  have n: "unat x < 256 ^ 8" "unat g < 256 ^ 4" using unsigned_less [of x] unsigned_less [of g] by simp_all
  have "drop 2 bs = be_put 8 (unat x) @ be_put 4 (unat g) @ d" by (simp add: bs encodeChunkFrame_def)
  then have "take 8 (drop 2 bs) = be_put 8 (unat x)" "take 4 (drop 8 (drop 2 bs)) = be_put 4 (unat g)" "drop 12 (drop 2 bs) = d"
    by simp_all
  then show "decodeChunkFrame bs = Inr a"
    using n by (simp add: decodeChunkFrame_def a be_get_put chunkEnvelopeSize_def) (simp add: bs encodeChunkFrame_def)
next
  fix bs a assume d: "decodeChunkFrame bs = Inr a"
  then have l: "14 \<le> length bs" and h: "bs ! 0 = binaryFrameFileChunk" "bs ! 1 = chunkEnvelopeVersion"
    and a: "a = (word_of_nat (be_get (take 8 (drop 2 bs))), word_of_nat (be_get (take 4 (drop 10 bs))), drop 14 bs)"
    by (auto simp: decodeChunkFrame_def chunkEnvelopeSize_def split: if_splits)
  have "be_get (take 8 (drop 2 bs)) < 2 ^ 64" "be_get (take 4 (drop 10 bs)) < 2 ^ 32"
    using be_get_bound [of "take 8 (drop 2 bs)"] be_get_bound [of "take 4 (drop 10 bs)"] l by simp_all
  then have u: "unat (word_of_nat (be_get (take 8 (drop 2 bs))) :: u64) = be_get (take 8 (drop 2 bs))"
      "unat (word_of_nat (be_get (take 4 (drop 10 bs))) :: u32) = be_get (take 4 (drop 10 bs))"
    by (simp_all add: unat_of_nat)
  have p: "be_put 8 (be_get (take 8 (drop 2 bs))) = take 8 (drop 2 bs)" "be_put 4 (be_get (take 4 (drop 10 bs))) = take 4 (drop 10 bs)"
    using be_put_get [of "take 8 (drop 2 bs)"] be_put_get [of "take 4 (drop 10 bs)"] l by simp_all
  have "drop 10 bs = take 4 (drop 10 bs) @ drop 14 bs" "drop 2 bs = take 8 (drop 2 bs) @ drop 10 bs"
    using append_take_drop_id [of 4 "drop 10 bs"] append_take_drop_id [of 8 "drop 2 bs"] by simp_all
  then have "bs = take 2 bs @ take 8 (drop 2 bs) @ take 4 (drop 10 bs) @ drop 14 bs"
    using append_take_drop_id [of 2 bs] by argo
  moreover have "take 2 bs = [bs ! 0, bs ! 1]" using l by (cases bs; cases "tl bs") auto
  ultimately show "(case a of (operation, generation, data) \<Rightarrow> Inr (encodeChunkFrame operation generation data)) = Inr bs"
    by (simp add: a encodeChunkFrame_def u p flip: h)
qed


lemma decode_chunk: "decodeChunkFrame (encodeChunkFrame x g d) = Inr (x, g, d)"
  using chunk_frame.decode_encode [of "(x, g, d)"] by simp

text \<open>
  The chunk envelope is canonical: an encoded chunk decodes to its operation number, generation and payload, and every byte string
  that decodes is the encoding of what it decodes to, so the browser and the agent agree on which operation a chunk belongs to.
\<close>

theorem chunk_frame_canonical:
  "decodeChunkFrame bs = Inr (x, g, d) \<longleftrightarrow> bs = encodeChunkFrame x g d"
  using chunk_frame.decode_iff [of bs "(x, g, d)"] by auto

section \<open>A whole file\<close>

text \<open>
  The chunks a file is read in, each with the buffer levels seen before it is sent. A chunk may be empty; the last
  one comes with the end of the file.
\<close>

type_synonym chunk = "bytes \<times> nat list"

definition chunk_ready :: "chunk \<Rightarrow> bool" where
  "chunk_ready c \<longleftrightarrow> fst c = [] \<or> drained (snd c)"

fun chunk_reads :: "chunk list \<Rightarrow> chunk \<Rightarrow> read_err \<Rightarrow> (bytes \<times> read_err option \<times> nat list \<times> goerr option) list" where
  "chunk_reads [] (d, p) e = [(d, Some e, p, None)]"
| "chunk_reads ((d, p) # cs) l e = (d, None, p, None) # chunk_reads cs l e"

definition chunk_frames :: "u64 \<Rightarrow> bytes list \<Rightarrow> bytes list" where
  "chunk_frames x ds = map (encodeChunkFrame x 0) (filter (\<lambda>d. d \<noteq> []) ds)"

lemma chunk_frames_Cons: "chunk_frames x (d # ds) = (if d = [] then [] else [encodeChunkFrame x 0 d]) @ chunk_frames x ds"
  by (simp add: chunk_frames_def)

definition sent_chunks :: "u64 \<Rightarrow> bytes list \<Rightarrow> Manager \<Rightarrow> Manager" where
  "sent_chunks x ds m = m\<lparr>tm_out := tm_out m @ map (TxBinary ClassBulk) (chunk_frames x ds)\<rparr>"

lemma sent_chunks_Nil [simp]: "sent_chunks x [] m = m"
  by (simp add: sent_chunks_def chunk_frames_def)

lemma sent_chunks_Cons:
  "sent_chunks x (d # ds) m = sent_chunks x ds (if d = [] then m else emit (TxBinary ClassBulk (encodeChunkFrame x 0 d)) m)"
  by (simp add: sent_chunks_def chunk_frames_Cons emit_def)

lemma ready_send:
  assumes "chunk_ready (d, p)"
  shows "(if d = [] then Some (None, m) else sendWithBackpressure p None None ClassBulk (encodeChunkFrame x 0 d) m)
       = Some (None, sent_chunks x [d] m)"
  using assms by (auto simp: chunk_ready_def sendWithBackpressure_def ctx_err_def sent_chunks_Cons)

lemma streamFile_chunks:
  assumes "\<forall>c\<in>set (cs @ [l]). chunk_ready c"
  shows "streamFile (chunk_reads cs l e) enderr x req n m =
     (let ds = map fst cs @ [fst l]; m1 = sent_chunks x ds m; bytes = n + int (length (concat ds)) in
      Some (releaseBulk x (case e of EOF \<Rightarrow> bulkDone req enderr x bytes m1
                            | ReadFail text \<Rightarrow> sendBulkErrorIfActive x req (''transfer failed: '' @ text) m1)))"
  using assms
proof (induction cs arbitrary: n m)
  case Nil
  obtain d p where l: "l = (d, p)" by (cases l)
  then show ?case
    using Nil ready_send [of d p m x] by (simp add: streamFile_turn_def Let_def split: read_err.splits)
next
  case (Cons c cs)
  obtain d p where c: "c = (d, p)" by (cases c)
  have "streamFile (chunk_reads (c # cs) l e) enderr x req n m =
      streamFile (chunk_reads cs l e) enderr x req (n + int (length d)) (sent_chunks x [d] m)"
    using Cons.prems ready_send [of d p m x] by (simp add: c streamFile_turn_def Let_def)
  then show ?case
    using Cons by (cases e) (simp_all add: c Let_def sent_chunks_Cons [of x d] add.assoc)
qed

text \<open>
  (C14) A file arrives complete and in order. When the backend delivers the chunks \<open>cs\<close> and then \<open>l\<close> with the end of the file, and the transport accepts what it is given,
  the stream ends after handing the transport one bulk frame per non-empty chunk, in order, each decoding to this operation and
  the chunk, then the end message with the exact number of bytes; the download is reported with that number and counted once, and the
  slot is free again.
\<close>

theorem file_stream_complete:
  assumes "slot_held x m" "\<forall>c\<in>set (cs @ [l]). chunk_ready c" "file = concat (map fst cs @ [fst l])"
  shows "\<exists>m' frames. streamFile (chunk_reads cs l EOF) None x req 0 m = Some m'
       \<and> tm_out m' = tm_out m @ map (TxBinary ClassBulk) frames
            @ [TxControl (chunkEnd req x (int (length file))), TxDownloadComplete (int (length file))]
       \<and> map decodeChunkFrame frames = map (\<lambda>d. Inr (x, 0, d)) (filter (\<lambda>d. d \<noteq> []) (map fst cs @ [fst l]))
       \<and> concat (filter (\<lambda>d. d \<noteq> []) (map fst cs @ [fst l])) = file
       \<and> downloads m' = downloads m + 1 \<and> \<not> bulkTransfer m' \<and> bulkOperation m' = 0"
proof -
  let ?ds = "map fst cs @ [fst l]"
  let ?m = "releaseBulk x (bulkDone req None x (int (length file)) (sent_chunks x ?ds m))"
  have run: "streamFile (chunk_reads cs l EOF) None x req 0 m = Some ?m"
    using streamFile_chunks [OF assms(2)] by (simp add: assms(3) Let_def)
  have out: "tm_out ?m = tm_out m @ map (TxBinary ClassBulk) (chunk_frames x ?ds)
      @ [TxControl (chunkEnd req x (int (length file))), TxDownloadComplete (int (length file))]"
    "downloads ?m = downloads m + 1" "\<not> bulkTransfer ?m" "bulkOperation ?m = 0"
    using assms(1) by (simp_all add: releaseBulk_def bulkDone_def Let_def sent_chunks_def slot_held_def)
  have dec: "map decodeChunkFrame (chunk_frames x ?ds) = map (\<lambda>d. Inr (x, 0, d)) (filter (\<lambda>d. d \<noteq> []) ?ds)"
    by (simp add: chunk_frames_def decode_chunk)
  have "concat (filter (\<lambda>d. d \<noteq> []) ds) = concat ds" for ds :: "bytes list" by (induction ds) auto
  then have "concat (filter (\<lambda>d. d \<noteq> []) ?ds) = file" by (simp only: assms(3))
  with run out dec show ?thesis by blast
qed

theorem file_stream_complete_witness:
  "\<exists>m'. streamFile (chunk_reads [([1, 2], [6000000, 0])] ([3], [7]) EOF) None 5 ''r'' 0
          (blankManager 0\<lparr>bulkTransfer := True, bulkOperation := 5\<rparr>) = Some m'
      \<and> downloads m' = 1 \<and> \<not> bulkTransfer m'"
  using file_stream_complete [of 5 "blankManager 0\<lparr>bulkTransfer := True, bulkOperation := 5\<rparr>" "[([1, 2], [6000000, 0])]" "([3], [7])"
      "[1, 2, 3]" "''r''"]
  by (auto simp: slot_held_def blankManager_def chunk_ready_def maxBuffer_def)

end
