(* ===== verification/Transfer_Media.thy ===== *)
theory Transfer_Media
  imports Transfer_Properties
begin

text \<open>
  Previews are replaced by newer ones while their streams still run. This theory shows that nothing of a replaced operation
  follows anything of its replacement, on the wire: in the frames of the media lane and in the messages about
  previews on the control lane.
\<close>

section \<open>The operation a message belongs to\<close>

fun media_op :: "tx_event \<Rightarrow> u64 option" where
  "media_op (TxBinary cls frame) =
     (if cls = ClassInteractiveMedia then (case decodeChunkFrame frame of Inr (x, _, _) \<Rightarrow> Some x | Inl _ \<Rightarrow> None) else None)"
| "media_op (TxControl (JObj fs)) =
     (if map_of fs ''scope'' = Some (JStr ''media'')
      then (case map_of fs ''operation_id'' of Some (JStr s) \<Rightarrow> ParseUint s | _ \<Rightarrow> None) else None)"
| "media_op _ = None"

definition media_ops :: "tx_event list \<Rightarrow> u64 list" where
  "media_ops es = List.map_filter media_op es"

lemma media_ops_simps [simp]:
  "media_ops [] = []" "media_ops (e # es) = (case media_op e of None \<Rightarrow> media_ops es | Some x \<Rightarrow> x # media_ops es)"
  "media_ops (xs @ ys) = media_ops xs @ media_ops ys"
  by (simp_all add: media_ops_def map_filter_def split: option.splits)

section \<open>How a step changes the media lane\<close>

definition grow :: "Manager \<Rightarrow> Manager \<Rightarrow> bool" where
  "grow m m1 \<longleftrightarrow> mediaOperation m1 = mediaOperation m \<and> operationSequence m1 = operationSequence m
     \<and> (\<exists>es. tm_out m1 = tm_out m @ es \<and> set (media_ops es) \<subseteq> {mediaOperation m})"

definition draw :: "Manager \<Rightarrow> Manager \<Rightarrow> bool" where
  "draw m m1 \<longleftrightarrow> mediaOperation m1 = mediaOperation m \<and> tm_out m1 = tm_out m
     \<and> operationSequence m1 = nextOperation_loop (operationSequence m)"

definition takeover :: "Manager \<Rightarrow> Manager \<Rightarrow> bool" where
  "takeover m m1 \<longleftrightarrow> tm_out m1 = tm_out m \<and> operationSequence m1 = nextOperation_loop (operationSequence m)
     \<and> mediaOperation m1 = operationSequence m1"

definition media_move :: "Manager \<Rightarrow> Manager \<Rightarrow> bool" where
  "media_move m m1 \<longleftrightarrow> grow m m1 \<or> (\<exists>m2. (draw m m2 \<or> takeover m m2) \<and> grow m2 m1)"

text \<open>The fields above, which most updates do not touch.\<close>

definition media_part :: "Manager \<Rightarrow> u64 \<times> u64 \<times> tx_event list" where
  "media_part m = (mediaOperation m, operationSequence m, tm_out m)"

lemma grow_trans: "grow a b \<Longrightarrow> grow b c \<Longrightarrow> grow a c"
  unfolding grow_def by auto

lemma grow_same: "media_part b = media_part a \<Longrightarrow> grow a b"
  by (simp add: grow_def media_part_def)

lemma grow_refl [simp]: "grow m m"
  by (rule grow_same) simp

lemma grow_emit: "media_op e = None \<or> media_op e = Some (mediaOperation m) \<Longrightarrow> grow m (emit e m)"
  by (auto simp: grow_def split: option.splits)

lemma grow_after: "media_part c = media_part b \<Longrightarrow> grow a b \<Longrightarrow> grow a c"
  using grow_same grow_trans by blast

lemma move_grow: "grow m m1 \<Longrightarrow> media_move m m1"
  by (simp add: media_move_def)

lemma move_then: "media_move a b \<Longrightarrow> grow b c \<Longrightarrow> media_move a c"
  unfolding media_move_def using grow_trans by blast

lemma part_updates [simp]:
  "media_part (m\<lparr>bulkOperation := a\<rparr>) = media_part m" "media_part (m\<lparr>bulkTransfer := b\<rparr>) = media_part m"
  "media_part (m\<lparr>downloads := c\<rparr>) = media_part m" "media_part (m\<lparr>tm_albumBatch := d\<rparr>) = media_part m"
  "media_part (m\<lparr>tm_batches := e\<rparr>) = media_part m" "media_part (m\<lparr>tm_next := f\<rparr>) = media_part m"
  by (simp_all add: media_part_def)

lemma part_helpers [simp]:
  "media_part (cancelCtx c m) = media_part m" "media_part (stopTimer c m) = media_part m"
  "media_part (releaseBulk x m) = media_part m" "media_part (finishAlbumBatch b x m) = media_part m"
  "media_part (finishMedia x m) = media_part m"
  by (auto simp: media_part_def cancelCtx_def stopTimer_def releaseBulk_def finishAlbumBatch_def finishMedia_def split: option.splits)

section \<open>Messages\<close>

lemma sendError_grow: "grow m (sendError a b c m)"
  unfolding sendError_def by (rule grow_emit) (simp add: omitempty_def)

lemma bulkError_grow: "grow m (sendBulkErrorIfActive x b c m)"
  by (auto simp: sendBulkErrorIfActive_def sendOperationError_def omitempty_def intro!: grow_emit)

lemma mediaError_grow: "grow m (sendMediaErrorIfActive x b c m)"
  by (auto simp: sendMediaErrorIfActive_def sendOperationError_def omitempty_def operationIDString_def ParseUint_FormatUint
      intro!: grow_emit)

lemma mediaControl_grow:
  assumes "media_op (TxControl j) = Some x" "sendMediaControlIfCurrent err x j m = (r, m1)"
  shows "grow m m1"
  using assms by (auto simp: sendMediaControlIfCurrent_def split: if_splits intro!: grow_emit)

lemma bulk_events [simp]:
  "media_op (TxControl (fileHeader a b c d e f)) = None" "media_op (TxControl (chunkEnd g h i)) = None"
  "media_op (TxControl (albumHeader j k l n p)) = None"
  by (simp_all add: fileHeader_def chunkEnd_def albumHeader_def omitempty_def)

lemma preview_events [simp]:
  "media_op (TxControl (previewEnd aid g req x n)) = Some x"
  by (simp_all add: previewEnd_def omitempty_def operationIDString_def ParseUint_FormatUint)

lemma previewHeader_op:
  "fst ` set pos \<subseteq> {''generation'', ''byte_offset''} \<Longrightarrow> media_op (TxControl (previewHeader aid mime n pos req x)) = Some x"
  by (auto simp: previewHeader_def omitempty_def operationIDString_def ParseUint_FormatUint map_add_def
      dest!: map_of_SomeD split: option.splits)

lemma bulk_send_grow:
  assumes "(if data = [] then Some (None, m) else sendWithBackpressure polls err None ClassBulk frame m) = Some (r, m1)"
  shows "grow m m1"
  using sendWithBackpressure_cases [OF assms] by (auto intro!: grow_emit simp: ClassBulk_def ClassInteractiveMedia_def)

section \<open>Goroutines\<close>

lemma bulkDone_grow: "grow m (bulkDone req e x n m)"
proof -
  have a: "grow m (emit (TxControl (chunkEnd req x n)) m)" by (rule grow_emit) simp
  show ?thesis
    unfolding bulkDone_def Let_def using a by (auto intro!: grow_trans [OF a] grow_trans [OF grow_same grow_emit])
qed

lemma streamFile_grow:
  assumes "streamFile_turn data rerr polls err enderr x req n m = Some (b, m1)"
  shows "grow m m1"
proof -
  let ?s = "if data = [] then Some (None, m) else sendWithBackpressure polls err None ClassBulk (encodeChunkFrame x 0 data) m"
  from assms obtain r m2 where s: "?s = Some (r, m2)" unfolding streamFile_turn_def by (cases ?s) auto
  note g = bulk_send_grow [OF s]
  show ?thesis
    using assms g grow_trans [OF g bulkDone_grow] grow_trans [OF g bulkError_grow] unfolding streamFile_turn_def s
    by (auto simp: Let_def intro: grow_after split: option.splits read_err.splits)
qed

lemma albumChunk_grow:
  assumes "albumChunk_turn data rerr polls err text enderr batch req dl i x n p m = Some (j, m1)"
  shows "grow m m1"
proof -
  let ?s = "if data = [] then Some (None, m) else sendWithBackpressure polls err None ClassBulk (encodeChunkFrame x 0 data) m"
  from assms obtain r m2 where s: "?s = Some (r, m2)" unfolding albumChunk_turn_def by (cases ?s) auto
  note g = bulk_send_grow [OF s]
  have e: "grow m (emit (TxControl (JObj [(''type'', JStr ''chunk_end''), (''scope'', JStr ''bulk''),
      (''request_id'', JStr req), (''operation_id'', JStr o'), (''bytes_sent'', JStr b)])) m2)" for o' b
    by (rule grow_trans [OF g grow_emit]) simp
  show ?thesis
    using assms g e grow_trans [OF g bulkError_grow] unfolding albumChunk_turn_def s
    by (auto simp: Let_def intro: grow_after split: option.splits read_err.splits if_splits)
qed

lemma albumFetched_grow: "albumFetched fetched batch x req m = (j, m1) \<Longrightarrow> grow m m1"
  by (auto simp: albumFetched_def intro: grow_after bulkError_grow split: sum.splits if_splits)

lemma albumAwait_grow:
  assumes "albumAwait_turn timer batch req dl i x n m = Some (j, m1)"
  shows "grow m m1"
proof -
  have c: "grow m (albumComplete batch req dl x n (m\<lparr>tm_batches := b\<rparr>))" for b
    unfolding albumComplete_def
    by (rule grow_after [OF part_helpers(4)], rule grow_trans [OF grow_trans [OF grow_same grow_emit] grow_emit]) simp_all
  show ?thesis
    using assms c
    by (auto simp: albumAwait_turn_def Let_def intro: grow_after [OF _ bulkError_grow] grow_same
        split: option.splits if_splits prod.splits)
qed

lemma draw_then:
  assumes "media_part m1 = (mediaOperation m, nextOperation_loop (operationSequence m), tm_out m)" "grow m1 m2"
  shows "media_move m m2"
  using assms unfolding media_move_def draw_def media_part_def by auto

lemma albumPart_move:
  assumes "albumPart_begin stamp err batch req dl i x n m = (j, m1)"
  shows "media_move m m1"
proof -
  obtain y m2 where a: "(if i > 0 then advanceBulkOperation x m else (Some x, m)) = (y, m2)" by fastforce
  have mv: "media_move m m2"
    using a move_grow [OF grow_refl] draw_then [OF _ grow_refl, of m2 m]
    by (auto simp: advanceBulkOperation_def nextOperationID_def Let_def media_part_def split: if_splits)
  have g: "grow m2 m1"
  proof (cases y)
    case None
    then show ?thesis using assms a by (auto simp: albumPart_begin_def intro: grow_same)
  next
    case (Some z)
    have e: "grow m2 (emit (TxControl (albumHeader stamp dl i req z)) m2)" by (rule grow_emit) simp
    show ?thesis using assms a Some e by (auto simp: albumPart_begin_def Let_def intro: grow_after split: if_splits)
  qed
  show ?thesis by (rule move_then [OF mv g])
qed

lemma preview_top_grow: "preview_top ctx aid g x req n m = (j, m1) \<Longrightarrow> grow m m1"
  by (auto simp: preview_top_def intro: grow_same split: if_splits)

lemma preview_read_grow:
  assumes "preview_read data rerr polls err enderr ctx aid g x req n m = Some (j, m1)"
  shows "grow m m1"
proof -
  let ?s = "if data = [] then Some (None, m)
            else if ctx_err ctx m \<or> mediaOperation m \<noteq> x then Some (Some ctxCanceled, m)
            else sendInteractiveMedia polls err ctx x (encodeChunkFrame x g data) m"
  from assms obtain r m2 where s: "?s = Some (r, m2)" unfolding preview_read_def by (cases ?s) auto
  then have k: "grow m m2"
    by (auto simp: sendInteractiveMedia_def decode_chunk split: if_splits intro!: grow_emit)
  have e: "grow m (snd (sendMediaControlIfCurrent enderr x (previewEnd aid g req x b) m2))" for b
    by (rule grow_trans [OF k], rule mediaControl_grow [of "previewEnd aid g req x b" x enderr m2]) (auto intro: prod.collapse [symmetric])
  show ?thesis
    using assms k e grow_trans [OF k mediaError_grow] unfolding preview_read_def s
    by (auto simp: Let_def intro: grow_after split: option.splits read_err.splits if_splits)
qed

lemma job_turn_move:
  assumes "job_turn v j m = Some (j', m1)"
  shows "media_move m m1"
  using assms
  by (cases j) (auto intro: move_grow streamFile_grow albumFetched_grow albumPart_move albumChunk_grow albumAwait_grow
      preview_top_grow preview_read_grow)

section \<open>Handlers\<close>

lemma begin_takeover:
  assumes "beginMediaLocked aid q g m = (ctx, x, m1)"
  shows "takeover m m1" "mediaOperation m1 = x"
  using assms part_helpers(1) [of "mediaCancel m" m]
  by (auto simp: beginMediaLocked_def nextOperationID_def Let_def takeover_def media_part_def)

lemma takeover_then: "takeover m m1 \<Longrightarrow> grow m1 m2 \<Longrightarrow> media_move m m2"
  unfolding media_move_def by blast

lemma previewRequest_move:
  assumes "handleAssetPreviewRequest gallery err aid q g req m = (j, m1)"
  shows "media_move m m1"
proof -
  obtain quality ok where q: "normalizePreviewQuality q = (quality, ok)" by fastforce
  obtain ctx x m2 where b: "beginMedia aid quality (word_of_int g) m = (ctx, x, m2)" by (metis prod_cases3)
  note t = begin_takeover [OF b [unfolded beginMedia_def]]
  have h: "media_move m m3 \<and> media_move m (finishMedia x m3)"
    if "sendMediaControlIfCurrent err x (previewHeader a mime n pos req x) m2 = (r, m3)"
      "fst ` set pos \<subseteq> {''generation'', ''byte_offset''}" for a mime n pos r m3
    using takeover_then [OF t(1)] mediaControl_grow [OF previewHeader_op [OF that(2)] that(1)] grow_after by auto
  show ?thesis
    using assms b q sendError_grow move_grow
    by (auto simp: handleAssetPreviewRequest_def Let_def split: if_splits prod.splits option.splits dest!: h)
qed

lemma seekRead_move:
  assumes "handleAssetPreviewSeek_read rerr err aid q off g req parent m = (j, m1)"
  shows "media_move m m1"
proof -
  obtain ctx x m2 where b: "beginMediaLocked aid (fst (normalizePreviewQuality q)) (word_of_int g) m = (ctx, x, m2)"
    by (metis prod_cases3)
  note t = begin_takeover [OF b]
  have h: "media_move m m3 \<and> media_move m (finishMedia x m3)"
    if "sendMediaControlIfCurrent err x (previewHeader a mime n pos req x) m2 = (r, m3)"
      "fst ` set pos \<subseteq> {''generation'', ''byte_offset''}" for a mime n pos r m3
    using takeover_then [OF t(1)] mediaControl_grow [OF previewHeader_op [OF that(2)] that(1)] grow_after by auto
  show ?thesis
    using assms b mediaError_grow move_grow
    by (auto simp: handleAssetPreviewSeek_read_def beginMediaIfNewer_def split: if_splits prod.splits option.splits dest!: h)
qed

lemma acquire_move: "acquireBulk req m = (y, m1) \<Longrightarrow> media_move m m1"
  using move_grow [OF sendError_grow] draw_then [OF _ grow_refl, of m1 m]
  by (cases "bulkTransfer m") (auto simp: acquireBulk_def nextOperationID_def Let_def media_part_def)

lemma file_run_move:
  assumes "handleFileRequest_run client err path req m = (j, m1)"
  shows "media_move m m1"
proof -
  obtain y m2 where a: "acquireBulk req m = (y, m2)" by fastforce
  have h: "grow m2 (emit (TxControl (fileHeader b c d e f g)) m2)" for b c d e f g by (rule grow_emit) simp
  have "grow m2 m1"
    using assms h by (auto simp: handleFileRequest_run_def a Let_def intro: grow_after [OF _ bulkError_grow] grow_after
        split: option.splits if_splits sum.splits)
  then show ?thesis by (rule move_then [OF acquire_move [OF a]])
qed

lemma asset_run_move:
  assumes "handleAssetRequest_run gallery err aid req m = (j, m1)"
  shows "media_move m m1"
proof -
  obtain y m2 where a: "acquireBulk req m = (y, m2)" by fastforce
  have h: "grow m2 (emit (TxControl (fileHeader b c d e f g)) m2)" for b c d e f g by (rule grow_emit) simp
  have "grow m2 m1"
    using assms h by (auto simp: handleAssetRequest_run_def a Let_def intro: grow_after [OF _ bulkError_grow] grow_after
        split: option.splits if_splits sum.splits prod.splits)
  then show ?thesis by (rule move_then [OF acquire_move [OF a]])
qed

lemma album_run_move:
  assumes "handleAlbumDownloadRequest_run req m = (j, m1)"
  shows "media_move m m1"
proof -
  obtain y m2 where a: "acquireBulk req m = (y, m2)" by fastforce
  have "grow m2 m1"
    using assms by (auto simp: handleAlbumDownloadRequest_run_def a Let_def media_part_def intro!: grow_same split: option.splits)
  then show ?thesis by (rule move_then [OF acquire_move [OF a]])
qed

lemma handler_rest_move:
  assumes "handler_rest client gallery err readErr h m = (js, m1)"
  shows "media_move m m1"
  using assms
  by (cases h) (auto split: prod.splits intro: move_grow file_run_move asset_run_move album_run_move seekRead_move)


lemma batchRequest_grow: "grow m (snd (handleThumbnailBatchRequest a b c m))"
proof -
  have s: "media_part (stopTimer t m) = media_part m" for t by simp
  show ?thesis
    using sendError_grow s
    by (auto simp: handleThumbnailBatchRequest_def batch_reject_def Let_def media_part_def intro!: grow_same split: option.splits)
qed

lemma seek_grow: "grow m (snd (handleAssetPreviewSeek a q off g req parent m))"
  using mediaError_grow by (auto simp: handleAssetPreviewSeek_def Let_def split: prod.splits)

lemma dispatchSeek_grow: "grow m (snd (dispatchSeek msg m))"
  using seek_grow [of m "msg_ID msg" "msg_Quality msg" "msg_StartOffset msg" "msg_Generation msg" "msg_RequestID msg"] sendError_grow
  by (auto simp: dispatchSeek_def split: option.splits prod.splits bool.splits) (metis snd_conv)+

lemma refuse_grow: "grow m (refuseLimit req m)"
  unfolding refuseLimit_def by (rule grow_trans [OF sendError_grow grow_emit]) simp

lemma list_grow: "grow m (handleListRequest client p req m)"
  using refuse_grow sendError_grow by (auto simp: handleListRequest_def intro!: grow_emit split: sum.splits)

lemma ack_grow: "grow m (handleAlbumArchiveAck a b c d m)"
  by (auto simp: handleAlbumArchiveAck_def intro!: grow_same split: option.splits prod.splits)

lemma checks_grow:
  "grow m (snd (handleFileRequest_check p req m))" "grow m (snd (handleAssetRequest_check a q req m))"
  "grow m (snd (handleAlbumDownloadRequest_check req m))"
  using refuse_grow sendError_grow
  by (auto simp: handleFileRequest_check_def handleAssetRequest_check_def handleAlbumDownloadRequest_check_def split: prod.splits)

lemma HandleMessage_move:
  assumes "HandleMessage client gallery err msg m = (h, m1)"
  shows "media_move m m1"
proof (cases msg)
  case None
  then show ?thesis using assms sendError_grow move_grow by (auto simp: HandleMessage_def)
next
  case (Some x)
  note grows = list_grow checks_grow ack_grow batchRequest_grow dispatchSeek_grow sendError_grow
  have "media_move m m1 \<or> (\<exists>j. handleAssetPreviewRequest gallery err (msg_ID x) (msg_Quality x) (msg_Generation x) (msg_RequestID x) m = (j, m1))"
    using assms grows [THEN move_grow]
    by (auto simp: HandleMessage_def Some Let_def split: if_splits prod.splits) (metis snd_conv)+
  then show ?thesis using previewRequest_move by blast
qed

lemma sendGallery_grow: "grow m (snd (sendGallery listed err m))"
proof -
  have i: "grow m (snd (sendGallery_install items m))" for items
    by (rule grow_same)
       (auto simp: sendGallery_install_def Let_def media_part_def cancelCtx_def stopTimer_def split: option.splits)
  have e: "grow m (emit (TxControl (JObj [(''type'', JStr a), (''thumbnailMode'', JStr b), (''albumName'', JStr c), (''albumDescription'', JStr d),
      (''items'', f)])) (snd (sendGallery_install items m)))" for a b c d f items
    by (rule grow_trans [OF i grow_emit]) simp
  show ?thesis
    using sendError_grow e by (auto simp: sendGallery_def Let_def split: sum.splits prod.splits) (metis snd_conv)+
qed

lemma thumbnail_send_grow:
  "sendThumbnailWithBackpressure polls err d g data m = Some (r, m1) \<Longrightarrow> grow m m1"
  by (auto simp: sendThumbnailWithBackpressure_def ClassThumbnail_def ClassInteractiveMedia_def intro!: grow_emit split: if_splits)

lemma gallery_move: "gallery_step m m1 \<Longrightarrow> media_move m m1"
proof (induction rule: gallery_step.induct)
  case (g_close m)
  show ?case
    by (rule move_grow, rule grow_same)
       (auto simp: handleClose_def Let_def media_part_def cancelCtx_def stopTimer_def split: option.splits)
next
  case (g_open m)
  show ?case by (auto simp: HandleOpen_def intro!: move_grow grow_emit)
next
  case (g_send m listed err)
  show ?case by (rule move_grow [OF sendGallery_grow])
next
  case (g_arm m generation)
  show ?case by (rule move_grow, rule grow_same) (auto simp: sendGallery_arm_def media_part_def)
next
  case (g_legacy m generation)
  show ?case
    by (rule move_grow, rule grow_same)
       (auto simp: startLegacyThumbnailFallback_def Let_def media_part_def stopTimer_def split: option.splits)
next
  case (g_legacy_done m generation ctx counts)
  show ?case
    by (auto simp: legacyComplete_def failed_field_def split: prod.splits intro!: move_grow grow_emit)
next
  case (g_collect ctx generation result polls err c m c1 m1)
  then show ?case
    by (auto simp: collect_turn_def Let_def split: sum.splits option.splits prod.splits intro!: move_grow dest!: thumbnail_send_grow)
next
  case (g_batch_done m ctx generation start count req counts)
  have e: "grow m (emit (TxControl (JObj ([(''type'', JStr a)] @ omitempty ''request_id'' req
      @ [(''start'', b), (''count'', c), (''sent'', d), (''failed'', f)] @ failed_field is))) m)" for a b c d f "is"
    by (rule grow_emit) (simp add: omitempty_def failed_field_def)
  have "grow m (emit (TxControl (JObj ([(''type'', JStr a)] @ omitempty ''request_id'' req
      @ [(''start'', b), (''count'', c), (''sent'', d), (''failed'', f)] @ failed_field is))) m
      \<lparr>thumbnailBatchActive := False, thumbnailBatchRequestID := []\<rparr>)" for a b c d f "is"
    by (rule grow_after [OF _ e]) (simp add: media_part_def)
  then show ?case by (auto simp: sendThumbnailBatch_complete_def split: prod.splits intro!: move_grow)
qed

lemma tx_step_move: "tx_step s t \<Longrightarrow> media_move (ts_m s) (ts_m t)"
  by (induction rule: tx_step.induct) (auto intro: HandleMessage_move handler_rest_move job_turn_move gallery_move)

section \<open>No stale bytes\<close>

definition ordered :: "nat \<Rightarrow> Manager \<Rightarrow> bool" where
  "ordered n m \<longleftrightarrow> sorted (map unat (media_ops (tm_out m)))
     \<and> (\<forall>x\<in>set (media_ops (tm_out m)). unat x \<le> unat (mediaOperation m))
     \<and> unat (mediaOperation m) \<le> unat (operationSequence m) \<and> unat (operationSequence m) \<le> n"

lemma ordered_grow: "ordered n m \<Longrightarrow> grow m m1 \<Longrightarrow> ordered n m1"
proof -
  assume o: "ordered n m" and g: "grow m m1"
  then obtain es where es: "tm_out m1 = tm_out m @ es" "set (media_ops es) \<subseteq> {mediaOperation m}"
      "mediaOperation m1 = mediaOperation m" "operationSequence m1 = operationSequence m" by (auto simp: grow_def)
  have "media_ops es = replicate (length (media_ops es)) (mediaOperation m)"
    using es(2) by (intro replicate_eqI) auto
  then have "sorted (map unat (media_ops es))" by (metis map_replicate sorted_replicate)
  then show ?thesis using o es by (auto simp: ordered_def sorted_append)
qed

lemma next_unat:
  assumes "unat (s :: u64) \<le> n" "n < 2 ^ 64 - 1"
  shows "unat (nextOperation_loop s) = Suc (unat s)"
proof -
  have "unat s < 2 ^ 64 - 1" using assms by simp
  then have "s \<noteq> - 1" by (auto simp: unsigned_minus_1_eq_mask mask_eq_exp_minus_1)
  moreover from this have "unat (s + 1) = Suc (unat s)"
    using \<open>unat s < 2 ^ 64 - 1\<close> by (simp add: unat_word_ariths(1))
  ultimately show ?thesis by (simp add: nextOperation_loop_Suc)
qed

lemma ordered_move:
  assumes "ordered n m" "media_move m m1" "n < 2 ^ 64 - 1"
  shows "ordered (Suc n) m1"
proof -
  have up: "ordered (Suc n) m" using assms(1) by (auto simp: ordered_def)
  have u: "unat (nextOperation_loop (operationSequence m)) = Suc (unat (operationSequence m))"
    by (rule next_unat [of _ n]) (use assms(1,3) in \<open>simp_all add: ordered_def\<close>)
  have "ordered (Suc n) m2" if "draw m m2 \<or> takeover m m2" for m2
    using that assms(1) u by (fastforce simp: ordered_def draw_def takeover_def)
  then show ?thesis
    using assms(2) ordered_grow up unfolding media_move_def by blast
qed


lemma run_ordered:
  assumes "(tx_step ^^ n) s t" "tx_start s" "n < 2 ^ 64"
  shows "ordered n (ts_m t)"
  using assms
proof (induction n arbitrary: t)
  case 0
  then show ?case by (auto simp: ordered_def tx_start_def)
next
  case (Suc n)
  then obtain u where u: "(tx_step ^^ n) s u" "tx_step u t" by auto
  show ?case
    by (rule ordered_move [OF Suc.IH [OF u(1)] tx_step_move [OF u(2)]]) (use Suc.prems in auto)
qed


text \<open>Two previews, the second of which replaces the first while its stream is at a read.\<close>

definition demo_preview :: "string \<Rightarrow> TransferMsg" where
  "demo_preview i = demo_request\<lparr>msg_Type := ''asset_preview_request'', msg_ID := i\<rparr>"

definition preview_start :: tsys where
  "preview_start = \<lparr>ts_m = NewGalleryManager True False 0, ts_jobs = [], ts_handler = HReturned []\<rparr>"

definition preview_sys :: "string \<Rightarrow> tsys \<Rightarrow> tsys" where
  "preview_sys i s = (case HandleMessage demo_files demo_gallery None (Some (demo_preview i)) (ts_m s) of
     (h, m1) \<Rightarrow> \<lparr>ts_m = m1, ts_jobs = ts_jobs s @ fst (after_dispatch h), ts_handler = snd (after_dispatch h)\<rparr>)"

lemma preview_sys_step: "ts_handler s = HReturned [] \<Longrightarrow> tx_step s (preview_sys i s)"
  unfolding preview_sys_def by (auto split: prod.splits intro: tx_message)

lemma preview_sys_ops:
  assumes "tm_gallery (ts_m s)" "i \<noteq> []" "mediaCancel (ts_m s) = c"
  shows "ts_handler (preview_sys i s) = HReturned [] \<and> tm_gallery (ts_m (preview_sys i s))
    \<and> operationSequence (ts_m (preview_sys i s)) = nextOperation_loop (operationSequence (ts_m s))
    \<and> media_ops (tm_out (ts_m (preview_sys i s))) = media_ops (tm_out (ts_m s)) @ [nextOperation_loop (operationSequence (ts_m s))]"
  using assms previewHeader_op [of "[]"]
  by (auto simp: preview_sys_def HandleMessage_def demo_preview_def demo_request_def handleAssetPreviewRequest_def
      normalizePreviewQuality_def maxGeneration_def beginMedia_def beginMediaLocked_def nextOperationID_def
      sendMediaControlIfCurrent_def cancelCtx_def Let_def split: option.splits)


end
