(* ===== verification/Gallery_Properties.thy ===== *)
theory Gallery_Properties
  imports Transfer_System
begin

text \<open>
  The gallery's guarantees: the counts of a thumbnail stream add up whatever the workers, the transport and the browser do,
  and each gallery is delivered in one mode only, with every batch request served at most once.
\<close>

section \<open>Counting thumbnails\<close>

type_synonym thumb_result = "(int \<times> (string + bytes)) \<times> nat list \<times> goerr option"

definition collected :: "collector \<Rightarrow> bool" where
  "collected c \<longleftrightarrow> finite (cl_accounted c) \<and> cl_sent c + cl_failed c = int (card (cl_accounted c))
     \<and> cl_failed c = int (length (cl_failedIndices c)) \<and> set (cl_failedIndices c) \<subseteq> cl_accounted c
     \<and> distinct (cl_failedIndices c) \<and> 0 \<le> cl_sent c"

lemma collector_start_ok: "collected collector_start"
  by (simp add: collected_def collector_start_def)

lemma collect_turn_ok:
  assumes "collect_turn ctx g r polls err c m = Some (c1, m1)" "collected c" "fst r \<notin> cl_accounted c"
  shows "collected c1" "cl_accounted c1 = insert (fst r) (cl_accounted c)"
proof -
  have "fst r \<notin> set (cl_failedIndices c)" using assms(2,3) by (auto simp: collected_def)
  then show "collected c1" "cl_accounted c1 = insert (fst r) (cl_accounted c)"
    using assms
    by (auto simp: collect_turn_def collect_failed_def collected_def Let_def split: sum.splits option.splits prod.splits)
qed

lemma collect_loop_ok:
  assumes "collect_loop ctx g rs c m = Some (c1, m1)" "collected c" "distinct (map (fst \<circ> fst) rs)"
    "set (map (fst \<circ> fst) rs) \<inter> cl_accounted c = {}"
  shows "collected c1 \<and> cl_accounted c1 = cl_accounted c \<union> set (map (fst \<circ> fst) rs)"
  using assms
proof (induction ctx g rs c m rule: collect_loop.induct)
  case (2 ctx g r polls err rest c m)
  from "2.prems"(1) obtain c2 m2 where t: "collect_turn ctx g r polls err c m = Some (c2, m2)"
      "collect_loop ctx g rest c2 m2 = Some (c1, m1)"
    by (auto split: option.splits)
  have "fst r \<notin> cl_accounted c" using "2.prems"(4) by auto
  note k = collect_turn_ok [OF t(1) "2.prems"(2) this]
  have "collected c1 \<and> cl_accounted c1 = cl_accounted c2 \<union> set (map (fst \<circ> fst) rest)"
    using "2.IH" [OF t(1) refl t(2) k(1)] "2.prems"(3,4) k(2) by auto
  then show ?case using k(2) by auto
qed auto

text \<open>
  The counts of a thumbnail stream add up. Whatever order the workers' results arrive in, whichever fetches fail, whichever sends fail or
  are refused because the work was stopped, as long as the gallery itself was not cancelled every item of the range is reported exactly once: the number sent and the number failed add up to the
  number of items, and the list of failed indices is sorted, without repetitions, inside the range, and as long as the number of failures.
\<close>

theorem thumbnail_counts:
  assumes "sendGalleryThumbnails ctx g items off results m = Some ((sent, failed, indices), m1)" "\<not> ctx_err ctx m1"
    "distinct (map (fst \<circ> fst) results)" "set (map (fst \<circ> fst) results) \<subseteq> {int off ..< int off + int (length items)}"
    "items \<noteq> []"
  shows "sent + failed = int (length items) \<and> failed = int (length indices) \<and> sorted indices \<and> distinct indices
       \<and> set indices \<subseteq> {int off ..< int off + int (length items)}"
proof -
  let ?range = "map (\<lambda>i. int off + int i) [0..<length items]"
  from assms(1,5) obtain c where c: "collect_loop ctx g results collector_start m = Some (c, m1)"
      "(sent, failed, indices) = collect_end ctx off (length items) c m1"
    by (auto simp: sendGalleryThumbnails_def split: option.splits)
  have ok: "collected c" "cl_accounted c = set (map (fst \<circ> fst) results)"
    using collect_loop_ok [OF c(1) collector_start_ok assms(3)] by (simp_all add: collector_start_def)
  define missing where "missing = filter (\<lambda>i. i \<notin> cl_accounted c) ?range"
  have vals: "sent = cl_sent c" "failed = cl_failed c + int (length missing)" "indices = sort (cl_failedIndices c @ missing)"
    using c(2) assms(2) by (simp_all add: collect_end_def missing_def Let_def)
  have r: "set ?range = {int off ..< int off + int (length items)}"
  proof (intro set_eqI iffI)
    fix i assume "i \<in> {int off ..< int off + int (length items)}"
    then have "i = int off + int (nat (i - int off)) \<and> nat (i - int off) < length items" by auto
    then show "i \<in> set ?range" by (metis atLeast0LessThan image_eqI lessThan_iff list.set_map set_upt)
  qed auto
  have d: "distinct ?range" by (simp add: distinct_map inj_on_def)
  have "set missing = set ?range - cl_accounted c" "distinct missing" using d by (auto simp: missing_def)
  moreover have "cl_accounted c \<subseteq> set ?range" using assms(4) ok(2) r by auto
  ultimately have "card (set missing) = length items - card (cl_accounted c)"
    using ok(1) distinct_card [OF d] by (simp add: card_Diff_subset collected_def)
  moreover have "card (cl_accounted c) \<le> length items"
    using card_mono [OF _ \<open>cl_accounted c \<subseteq> set ?range\<close>] distinct_card [OF d] by simp
  ultimately have len: "length missing = length items - card (cl_accounted c)" "card (cl_accounted c) \<le> length items"
    using distinct_card [OF \<open>distinct missing\<close>] by simp_all
  have dd: "distinct (cl_failedIndices c @ missing)"
    using ok(1) \<open>distinct missing\<close> by (auto simp: collected_def missing_def)
  have "set indices \<subseteq> set ?range"
    using ok(1) \<open>cl_accounted c \<subseteq> set ?range\<close> by (auto simp: vals collected_def missing_def)
  then show ?thesis
    using ok(1) len dd r by (simp add: vals collected_def)
qed

definition demo_results :: "thumb_result list" where
  "demo_results = [((11, Inr [7]), [0], None), ((10, Inl ''gone''), [], None), ((12, Inr [8]), [0], Some ctxCanceled)]"

definition demo_items :: "GalleryItem list" where
  "demo_items = map (\<lambda>i. \<lparr>gi_ID = [i], gi_json = JNull\<rparr>) ''abcd''"

theorem thumbnail_counts_witness:
  "\<exists>m1. sendGalleryThumbnails None 0 demo_items 10 demo_results (blankManager 0) = Some ((1, 3, [10, 12, 13]), m1)
     \<and> (1::int) + 3 = int (length demo_items)"
proof -
  obtain m1 where run: "sendGalleryThumbnails None 0 demo_items 10 demo_results (blankManager 0) = Some ((1, 3, [10, 12, 13]), m1)"
    by (auto simp: sendGalleryThumbnails_def demo_items_def demo_results_def collect_turn_def collector_start_def ctx_err_def
        sendThumbnailWithBackpressure_def maxBuffer_def blankManager_def collect_failed_def collect_end_def emit_def Let_def upt_rec)
  have "(1::int) + 3 = int (length demo_items)"
    by (rule thumbnail_counts [OF run, THEN conjunct1])
       (simp_all add: ctx_err_def demo_results_def demo_items_def)
  with run show ?thesis by blast
qed

section \<open>One mode, one batch at a time\<close>

definition gallery_part :: "Manager \<Rightarrow> GalleryItem list \<times> u64 \<times> thumbnailMode \<times> string set option" where
  "gallery_part m = (galleryItems m, galleryGeneration m, tm_thumbnailMode m, thumbnailSeenRequestIDs m)"

lemma gallery_emit [simp]: "gallery_part (emit e m) = gallery_part m"
  by (simp add: gallery_part_def emit_def)

lemma gallery_errors [simp]:
  "gallery_part (sendError a b c m) = gallery_part m" "gallery_part (sendOperationError a b x c m) = gallery_part m"
  "gallery_part (sendBulkErrorIfActive x a b m) = gallery_part m" "gallery_part (sendMediaErrorIfActive x a b m) = gallery_part m"
  by (simp_all add: sendError_def sendOperationError_def sendBulkErrorIfActive_def sendMediaErrorIfActive_def)

lemma gallery_updates [simp]:
  "gallery_part (m\<lparr>bulkOperation := a\<rparr>) = gallery_part m" "gallery_part (m\<lparr>bulkTransfer := b\<rparr>) = gallery_part m"
  "gallery_part (m\<lparr>downloads := c\<rparr>) = gallery_part m" "gallery_part (m\<lparr>tm_albumBatch := d\<rparr>) = gallery_part m"
  "gallery_part (m\<lparr>tm_batches := e\<rparr>) = gallery_part m" "gallery_part (m\<lparr>tm_next := f\<rparr>) = gallery_part m"
  "gallery_part (m\<lparr>operationSequence := g\<rparr>) = gallery_part m" "gallery_part (m\<lparr>tm_cancelled := h\<rparr>) = gallery_part m"
  "gallery_part (m\<lparr>mediaOperation := i\<rparr>) = gallery_part m" "gallery_part (m\<lparr>mediaID := j\<rparr>) = gallery_part m"
  "gallery_part (m\<lparr>mediaQuality := k\<rparr>) = gallery_part m" "gallery_part (m\<lparr>mediaTransfer := l\<rparr>) = gallery_part m"
  "gallery_part (m\<lparr>mediaCancel := n\<rparr>) = gallery_part m" "gallery_part (m\<lparr>currentGeneration := p\<rparr>) = gallery_part m"
  "gallery_part (m\<lparr>tm_stopped := q\<rparr>) = gallery_part m"
  by (simp_all add: gallery_part_def)

lemma gallery_helpers [simp]:
  "gallery_part (cancelCtx c m) = gallery_part m" "gallery_part (stopTimer c m) = gallery_part m"
  "gallery_part (releaseBulk x m) = gallery_part m" "gallery_part (finishAlbumBatch b x m) = gallery_part m"
  "gallery_part (finishMedia x m) = gallery_part m" "gallery_part (refuseLimit req m) = gallery_part m"
  "gallery_part (bulkDone req e x n m) = gallery_part m"
  by (simp_all add: cancelCtx_def stopTimer_def releaseBulk_def finishAlbumBatch_def finishMedia_def refuseLimit_def bulkDone_def
      Let_def split: option.splits)

lemma gallery_slots:
  "acquireBulk req m = (y, m1) \<Longrightarrow> gallery_part m1 = gallery_part m"
  "advanceBulkOperation x m = (y, m1) \<Longrightarrow> gallery_part m1 = gallery_part m"
  "beginMediaLocked aid q g m = (ctx, x, m1) \<Longrightarrow> gallery_part m1 = gallery_part m"
  "sendMediaControlIfCurrent err x j m = (r, m1) \<Longrightarrow> gallery_part m1 = gallery_part m"
  "sendWithBackpressure polls err ctx cls d m = Some (r, m1) \<Longrightarrow> gallery_part m1 = gallery_part m"
  "sendInteractiveMedia polls err ctx x d m = Some (r, m1) \<Longrightarrow> gallery_part m1 = gallery_part m"
  by (auto simp: acquireBulk_def advanceBulkOperation_def beginMediaLocked_def nextOperationID_def Let_def
      sendMediaControlIfCurrent_def sendWithBackpressure_def sendInteractiveMedia_def split: if_splits)

lemma job_turn_gallery:
  assumes "job_turn v j m = Some (j', m1)"
  shows "gallery_part m1 = gallery_part m"
proof (cases j)
  case (BulkStream x req n)
  then show ?thesis using assms
    by (auto simp: streamFile_turn_def Let_def split: option.splits read_err.splits if_splits dest!: gallery_slots)
next
  case (AlbumFetch b x req)
  then show ?thesis using assms by (auto simp: albumFetched_def split: sum.splits if_splits)
next
  case (AlbumPart b req dl i x n)
  then show ?thesis using assms
    by (auto simp: albumPart_begin_def Let_def split: option.splits if_splits prod.splits dest!: gallery_slots)
next
  case (AlbumChunks b req dl i x n p)
  then show ?thesis using assms
    by (auto simp: albumChunk_turn_def Let_def split: option.splits read_err.splits if_splits dest!: gallery_slots)
next
  case (AlbumAwait b req dl i x n)
  then show ?thesis using assms
    by (auto simp: albumAwait_turn_def albumComplete_def Let_def split: option.splits if_splits prod.splits)
next
  case (PreviewTop ctx aid g x req n)
  then show ?thesis using assms by (auto simp: preview_top_def split: if_splits)
next
  case (PreviewRead ctx aid g x req n)
  then show ?thesis using assms
    by (auto simp: preview_read_def sendMediaControlIfCurrent_def Let_def split: option.splits read_err.splits if_splits
        dest!: gallery_slots)
qed

lemma gallery_runs:
  "handleFileRequest_run client err path req m = (j, m1) \<Longrightarrow> gallery_part m1 = gallery_part m"
  "handleAssetRequest_run gallery err aid req m = (j2, m1) \<Longrightarrow> gallery_part m1 = gallery_part m"
  "handleAlbumDownloadRequest_run req m = (j2, m1) \<Longrightarrow> gallery_part m1 = gallery_part m"
  by (auto simp: handleFileRequest_run_def handleAssetRequest_run_def handleAlbumDownloadRequest_run_def Let_def
      split: option.splits if_splits sum.splits prod.splits dest!: gallery_slots)

lemma gallery_seek: "handleAssetPreviewSeek_read rerr err aid q off g req parent m = (j, m1) \<Longrightarrow> gallery_part m1 = gallery_part m"
  by (auto simp: handleAssetPreviewSeek_read_def beginMediaIfNewer_def split: option.splits if_splits prod.splits dest!: gallery_slots)

lemma gallery_rest: "handler_rest client gallery err rerr h m = (js, m1) \<Longrightarrow> gallery_part m1 = gallery_part m"
  by (cases h) (auto split: prod.splits dest: gallery_runs gallery_seek)

lemma gallery_preview: "handleAssetPreviewRequest gallery err aid q g req m = (j, m1) \<Longrightarrow> gallery_part m1 = gallery_part m"
  by (auto simp: handleAssetPreviewRequest_def beginMedia_def Let_def split: option.splits if_splits prod.splits dest!: gallery_slots)

lemma gallery_misc:
  "gallery_part (handleListRequest client p req m) = gallery_part m" "gallery_part (handleAlbumArchiveAck a b c d m) = gallery_part m"
  "gallery_part (snd (handleFileRequest_check p req m)) = gallery_part m"
  "gallery_part (snd (handleAssetRequest_check a2 q req m)) = gallery_part m"
  "gallery_part (snd (handleAlbumDownloadRequest_check req m)) = gallery_part m"
  by (auto simp: handleListRequest_def handleAlbumArchiveAck_def handleFileRequest_check_def handleAssetRequest_check_def
      handleAlbumDownloadRequest_check_def split: sum.splits option.splits prod.splits)

lemma gallery_dispatchSeek: "gallery_part (snd (dispatchSeek msg m)) = gallery_part m"
  by (auto simp: dispatchSeek_def handleAssetPreviewSeek_def Let_def split: option.splits prod.splits bool.splits if_splits)


definition seen_ids :: "Manager \<Rightarrow> string set" where
  "seen_ids m = (case thumbnailSeenRequestIDs m of None \<Rightarrow> {} | Some seen \<Rightarrow> seen)"

definition gallery_inv :: "Manager \<Rightarrow> bool" where
  "gallery_inv m \<longleftrightarrow> (galleryItems m \<noteq> [] \<longrightarrow> thumbnailSeenRequestIDs m \<noteq> None) \<and> length (galleryItems m) \<le> maxAdvertisedGalleryItems"

definition gallery_move :: "Manager \<Rightarrow> Manager \<Rightarrow> bool" where
  "gallery_move m m1 \<longleftrightarrow> (gallery_inv m \<longrightarrow> gallery_inv m1) \<and>
     (galleryGeneration m1 = galleryGeneration m \<longrightarrow>
        galleryItems m1 = galleryItems m \<and> seen_ids m \<subseteq> seen_ids m1
      \<and> (tm_thumbnailMode m \<noteq> thumbnailModeWaiting \<longrightarrow> tm_thumbnailMode m1 = tm_thumbnailMode m))"

lemma gallery_move_same: "gallery_part m1 = gallery_part m \<Longrightarrow> gallery_move m m1"
  by (simp add: gallery_part_def gallery_move_def gallery_inv_def seen_ids_def)

lemma part_fields:
  "gallery_part m1 = gallery_part m \<Longrightarrow> galleryItems m1 = galleryItems m \<and> galleryGeneration m1 = galleryGeneration m
     \<and> tm_thumbnailMode m1 = tm_thumbnailMode m \<and> thumbnailSeenRequestIDs m1 = thumbnailSeenRequestIDs m"
  by (simp add: gallery_part_def)

text \<open>A batch request: the guards, the refusals, and what an accepted request does.\<close>

definition batch_guards :: "int \<Rightarrow> int \<Rightarrow> string \<Rightarrow> Manager \<Rightarrow> bool" where
  "batch_guards start count req m \<longleftrightarrow> req \<noteq> [] \<and> \<not> (start < 0 \<or> count < 1 \<or> count > maxThumbnailBatchSize)
     \<and> \<not> start \<ge> int (length (galleryItems m)) \<and> tm_thumbnailMode m \<noteq> thumbnailModeLegacy
     \<and> req \<notin> seen_ids m \<and> \<not> thumbnailBatchActive m"

definition batch_mode :: "Manager \<Rightarrow> Manager" where
  "batch_mode m = (if tm_thumbnailMode m = thumbnailModeWaiting
     then (stopTimer (thumbnailFallback m) m)\<lparr>tm_thumbnailMode := thumbnailModePull, thumbnailFallback := None\<rparr> else m)"

definition batch_items :: "int \<Rightarrow> int \<Rightarrow> Manager \<Rightarrow> GalleryItem list" where
  "batch_items start count m = take (min (nat count) (length (galleryItems m) - nat start)) (drop (nat start) (galleryItems m))"

lemma batch_mode_part:
  assumes "tm_thumbnailMode m \<noteq> thumbnailModeLegacy"
  shows "galleryItems (batch_mode m) = galleryItems m" "galleryGeneration (batch_mode m) = galleryGeneration m"
    "thumbnailSeenRequestIDs (batch_mode m) = thumbnailSeenRequestIDs m" "tm_thumbnailMode (batch_mode m) = thumbnailModePull"
  using part_fields [OF gallery_helpers(2) [of "thumbnailFallback m" m]] assms
  by (cases "tm_thumbnailMode m"; simp add: batch_mode_def)+

lemma refusal_chain:
  "c1 \<or> c2 \<or> c3 \<or> c4 \<or> c5 \<or> c6 \<Longrightarrow>
   \<exists>msg. (if c1 then f a1 else if c2 then f a2 else if c3 then f a3 else if c4 then f a4 else if c5 then f a5 else if c6 then f a6 else x) = f msg"
  by auto

lemma batch_refused:
  "\<not> batch_guards start count req m \<Longrightarrow> \<exists>msg. handleThumbnailBatchRequest start count req m = (BatchRejected, sendError ''media'' req msg m)"
proof -
  assume "\<not> batch_guards start count req m"
  then have "\<exists>msg. handleThumbnailBatchRequest start count req m = batch_reject req msg m"
    unfolding handleThumbnailBatchRequest_def batch_guards_def seen_ids_def
    by (intro refusal_chain [where f = "\<lambda>msg. batch_reject req msg m"]) blast
  then show ?thesis by (simp add: batch_reject_def)
qed

lemma batch_accepted:
  assumes "batch_guards start count req m"
  shows "handleThumbnailBatchRequest start count req m =
      (case thumbnailSeenRequestIDs m of
         None \<Rightarrow> (BatchPanic, batch_mode m)
       | Some seen \<Rightarrow>
           (BatchStarted (galleryContext (batch_mode m)) (galleryGeneration m) (nat start) (batch_items start count m) req,
            (batch_mode m)\<lparr>thumbnailSeenRequestIDs := Some (insert req seen), thumbnailBatchActive := True, thumbnailBatchRequestID := req\<rparr>))"
proof -
  note g = assms [unfolded batch_guards_def seen_ids_def]
  have "tm_thumbnailMode m \<noteq> thumbnailModeLegacy" using g by blast
  note part = batch_mode_part [OF this]
  have "nat (min (start + count) (int (length (galleryItems m)))) - nat start = min (nat count) (length (galleryItems m) - nat start)"
    using g by (auto simp: min_def nat_add_distrib)
  then show ?thesis
    using g unfolding handleThumbnailBatchRequest_def Let_def batch_mode_def [symmetric] part batch_items_def
    by (simp only: if_False simp_thms)
qed

lemma batch_items_ok:
  assumes "batch_guards start count req m"
  shows "batch_items start count m \<noteq> []" "length (batch_items start count m) \<le> 120"
    "nat start + length (batch_items start count m) \<le> length (galleryItems m)"
  using assms by (auto simp: batch_guards_def batch_items_def min_def maxThumbnailBatchSize_def)

lemma batch_effect:
  assumes "batch_guards start count req m" "thumbnailSeenRequestIDs m = Some seen"
    "m1 = snd (handleThumbnailBatchRequest start count req m)"
  shows "galleryItems m1 = galleryItems m" "galleryGeneration m1 = galleryGeneration m" "tm_thumbnailMode m1 = thumbnailModePull"
    "thumbnailBatchActive m1" "thumbnailSeenRequestIDs m1 = Some (insert req seen)"
proof -
  have "m1 = (batch_mode m)\<lparr>thumbnailSeenRequestIDs := Some (insert req seen), thumbnailBatchActive := True, thumbnailBatchRequestID := req\<rparr>"
    unfolding assms(3) batch_accepted [OF assms(1)] assms(2) by simp
  moreover have "tm_thumbnailMode m \<noteq> thumbnailModeLegacy" using assms(1) by (simp add: batch_guards_def)
  ultimately show "galleryItems m1 = galleryItems m" "galleryGeneration m1 = galleryGeneration m" "tm_thumbnailMode m1 = thumbnailModePull"
    "thumbnailBatchActive m1" "thumbnailSeenRequestIDs m1 = Some (insert req seen)"
    using batch_mode_part [of m] by simp_all
qed

lemma batch_answer:
  assumes "gallery_inv m"
  shows "fst (handleThumbnailBatchRequest start count req m) =
     (if batch_guards start count req m
      then BatchStarted (galleryContext (batch_mode m)) (galleryGeneration m) (nat start) (batch_items start count m) req
      else BatchRejected)"
proof (cases "batch_guards start count req m")
  case True
  then have "galleryItems m \<noteq> []" by (auto simp: batch_guards_def)
  then obtain seen where "thumbnailSeenRequestIDs m = Some seen" using assms by (auto simp: gallery_inv_def)
  with True show ?thesis unfolding batch_accepted [OF True] by simp
next
  case False
  obtain msg where "handleThumbnailBatchRequest start count req m = (BatchRejected, sendError ''media'' req msg m)"
    using batch_refused [OF False] by blast
  then show ?thesis using False by simp
qed

lemma batch_move: "gallery_move m (snd (handleThumbnailBatchRequest start count req m))"
proof (cases "batch_guards start count req m")
  case False
  obtain msg where "handleThumbnailBatchRequest start count req m = (BatchRejected, sendError ''media'' req msg m)"
    using batch_refused [OF False] by blast
  then show ?thesis by (simp add: gallery_move_same)
next
  case True
  then have mode: "tm_thumbnailMode m \<noteq> thumbnailModeLegacy" by (simp add: batch_guards_def)
  show ?thesis
  proof (cases "thumbnailSeenRequestIDs m")
    case None
    then have "snd (handleThumbnailBatchRequest start count req m) = batch_mode m"
      unfolding batch_accepted [OF True] by simp
    then show ?thesis
      using batch_mode_part [OF mode] mode by (cases "tm_thumbnailMode m") (simp_all add: gallery_move_def gallery_inv_def seen_ids_def)
  next
    case (Some seen)
    from batch_effect [OF True Some refl] show ?thesis
      using mode Some by (cases "tm_thumbnailMode m") (auto simp: gallery_move_def gallery_inv_def seen_ids_def)
  qed
qed

lemma generation_changes: "nextGeneration g \<noteq> g" "(g :: u64) + 1 \<noteq> g"
  by (auto simp: nextGeneration_def)

lemma sendGallery_move: "gallery_move m (snd (sendGallery listed err m))"
proof (cases listed)
  case (Inl e)
  then show ?thesis by (auto simp: sendGallery_def intro: gallery_move_same)
next
  case (Inr gl)
  let ?m = "snd (sendGallery listed err m)"
  have p: "gallery_part ?m = (take maxAdvertisedGalleryItems (gl_Items gl), nextGeneration (galleryGeneration m), thumbnailModeWaiting, Some {})"
    using part_fields [OF gallery_helpers(2) [of "thumbnailFallback m" m]]
      part_fields [OF gallery_helpers(1) [of "galleryCancel (stopTimer (thumbnailFallback m) m)" "stopTimer (thumbnailFallback m) m"]]
    by (auto simp: sendGallery_def Inr sendGallery_install_def Let_def gallery_part_def emit_def)
  then have "galleryGeneration ?m \<noteq> galleryGeneration m" using generation_changes(1) by (simp add: gallery_part_def)
  then show ?thesis using p by (simp add: gallery_move_def gallery_inv_def gallery_part_def)
qed

lemma gallery_step_move: "gallery_step m m1 \<Longrightarrow> gallery_move m m1"
proof (induction rule: gallery_step.induct)
  case (g_close m)
  have "galleryGeneration (handleClose m) = galleryGeneration m + 1" "galleryItems (handleClose m) = galleryItems m"
    "thumbnailSeenRequestIDs (handleClose m) = thumbnailSeenRequestIDs m"
    by (simp_all add: handleClose_def Let_def cancelCtx_def stopTimer_def split: option.splits)
  then show ?case by (simp add: gallery_move_def gallery_inv_def)
next
  case (g_send m listed err)
  show ?case by (rule sendGallery_move)
next
  case (g_legacy m generation)
  show ?case
    using part_fields [OF gallery_helpers(2) [of "thumbnailFallback m" m]]
    by (auto simp: startLegacyThumbnailFallback_def Let_def gallery_move_def gallery_inv_def seen_ids_def)
next
  case (g_collect ctx generation result polls err c m c1 m1)
  then have "gallery_part m1 = gallery_part m"
    by (auto simp: collect_turn_def Let_def sendThumbnailWithBackpressure_def split: sum.splits option.splits if_splits)
  then show ?case by (rule gallery_move_same)
qed (auto simp: HandleOpen_def sendGallery_arm_def legacyComplete_def sendThumbnailBatch_complete_def gallery_part_def emit_def
    split: prod.splits intro!: gallery_move_same)

lemma HandleMessage_gallery:
  assumes "HandleMessage client gallery err msg m = (h, m1)"
  shows "gallery_move m m1"
proof (cases msg)
  case None
  then show ?thesis using assms by (auto simp: HandleMessage_def intro: gallery_move_same)
next
  case (Some x)
  have "gallery_part m1 = gallery_part m \<or> m1 = snd (handleThumbnailBatchRequest (msg_Start x) (msg_Count x) (msg_RequestID x) m)"
    using assms gallery_misc gallery_dispatchSeek
    by (auto simp: HandleMessage_def Some Let_def split: if_splits prod.splits dest: gallery_preview) (metis snd_conv)+
  then show ?thesis using gallery_move_same batch_move by blast
qed

lemma tx_step_gallery: "tx_step s t \<Longrightarrow> gallery_move (ts_m s) (ts_m t)"
  by (induction rule: tx_step.induct)
     (auto intro: HandleMessage_gallery gallery_step_move gallery_move_same dest: gallery_rest job_turn_gallery)


definition gallery_start :: "tsys \<Rightarrow> bool" where
  "gallery_start s \<longleftrightarrow> tx_start s \<and> galleryItems (ts_m s) = []"

interpretation gallery: guarded_machine gallery_start tx_step "\<lambda>s. gallery_inv (ts_m s)"
  using tx_step_gallery by unfold_locales (auto simp: gallery_start_def gallery_inv_def gallery_move_def)

text \<open>
  A thumbnail batch request is always answered, and a batch that starts is one the browser may have. In every reachable state the handler does not
  panic; it starts a batch exactly when the request has an id that was not used before, a range inside the gallery of at most 120 items, no other batch is
  running and the legacy stream has not begun; the batch then holds the requested slice, which is not empty, and whose indices fit the two
  bytes of the thumbnail frame; otherwise the request is rejected.
\<close>

theorem thumbnail_batch_safe:
  assumes "gallery_start s" "tx_step\<^sup>*\<^sup>* s t" "handleThumbnailBatchRequest start count req (ts_m t) = (answer, m1)"
  shows "(if req \<noteq> [] \<and> 0 \<le> start \<and> 1 \<le> count \<and> count \<le> 120 \<and> start < int (length (galleryItems (ts_m t)))
             \<and> tm_thumbnailMode (ts_m t) \<noteq> thumbnailModeLegacy \<and> req \<notin> seen_ids (ts_m t) \<and> \<not> thumbnailBatchActive (ts_m t)
          then (\<exists>ctx items. answer = BatchStarted ctx (galleryGeneration (ts_m t)) (nat start) items req
                 \<and> items = take (min (nat count) (length (galleryItems (ts_m t)) - nat start)) (drop (nat start) (galleryItems (ts_m t)))
                 \<and> items \<noteq> [] \<and> nat start + length items \<le> 2 ^ 16)
               \<and> thumbnailBatchActive m1 \<and> tm_thumbnailMode m1 = thumbnailModePull \<and> seen_ids m1 = insert req (seen_ids (ts_m t))
          else answer = BatchRejected)"
proof -
  let ?m = "ts_m t"
  have inv: "gallery_inv ?m" using gallery.reachable_safe [OF assms(1,2)] .
  have ans: "answer = fst (handleThumbnailBatchRequest start count req ?m)" "m1 = snd (handleThumbnailBatchRequest start count req ?m)"
    unfolding assms(3) by simp_all
  have g: "batch_guards start count req ?m \<longleftrightarrow> req \<noteq> [] \<and> 0 \<le> start \<and> 1 \<le> count \<and> count \<le> 120 \<and> start < int (length (galleryItems ?m))
             \<and> tm_thumbnailMode ?m \<noteq> thumbnailModeLegacy \<and> req \<notin> seen_ids ?m \<and> \<not> thumbnailBatchActive ?m"
    by (auto simp: batch_guards_def maxThumbnailBatchSize_def)
  show ?thesis
  proof (cases "batch_guards start count req ?m")
    case True
    then have "galleryItems ?m \<noteq> []" by (auto simp: batch_guards_def)
    then obtain seen where seen: "thumbnailSeenRequestIDs ?m = Some seen" using inv by (auto simp: gallery_inv_def)
    note e = batch_effect [OF True seen ans(2)] and i = batch_items_ok [OF True]
    have "nat start + length (batch_items start count ?m) \<le> 2 ^ 16"
      using i(3) inv by (simp add: gallery_inv_def maxAdvertisedGalleryItems_def)
    moreover have "answer = BatchStarted (galleryContext (batch_mode ?m)) (galleryGeneration ?m) (nat start) (batch_items start count ?m) req"
      using batch_answer [OF inv, of start count req] True by (simp add: ans(1))
    moreover have "seen_ids m1 = insert req (seen_ids ?m)" using e(5) seen by (simp add: seen_ids_def)
    ultimately show ?thesis
      using True e i(1) unfolding g [symmetric] batch_items_def by simp
  next
    case False
    then show ?thesis using batch_answer [OF inv, of start count req] unfolding g [symmetric] by (simp add: ans(1))
  qed
qed

definition demo_gallery_sys :: tsys where
  "demo_gallery_sys = \<lparr>ts_m = NewGalleryManager True False 0, ts_jobs = [], ts_handler = HReturned []\<rparr>"

definition demo_shown :: tsys where
  "demo_shown = demo_gallery_sys\<lparr>ts_m := snd (sendGallery (Inr \<lparr>gl_AlbumName = [], gl_AlbumDescription = [], gl_Items = demo_items\<rparr>) None (ts_m demo_gallery_sys))\<rparr>"

lemma demo_shown_reachable: "gallery_start demo_gallery_sys" "tx_step\<^sup>*\<^sup>* demo_gallery_sys demo_shown"
proof -
  show "gallery_start demo_gallery_sys"
    by (simp add: gallery_start_def tx_start_def demo_gallery_sys_def NewGalleryManager_def blankManager_def)
  have "tx_step demo_gallery_sys demo_shown" unfolding demo_shown_def by (rule tx_gallery) (rule g_send)
  then show "tx_step\<^sup>*\<^sup>* demo_gallery_sys demo_shown" by simp
qed

lemma demo_shown_fields:
  "galleryItems (ts_m demo_shown) = demo_items" "tm_thumbnailMode (ts_m demo_shown) = thumbnailModeWaiting"
  "seen_ids (ts_m demo_shown) = {}" "\<not> thumbnailBatchActive (ts_m demo_shown)" "galleryGeneration (ts_m demo_shown) = 1"
  by (simp_all add: demo_shown_def demo_gallery_sys_def NewGalleryManager_def blankManager_def sendGallery_def sendGallery_install_def
      Let_def stopTimer_def cancelCtx_def emit_def demo_items_def maxAdvertisedGalleryItems_def seen_ids_def nextGeneration_def)

theorem thumbnail_batch_safe_witness:
  "\<exists>ctx. fst (handleThumbnailBatchRequest 2 100 ''q'' (ts_m demo_shown)) = BatchStarted ctx 1 2 (drop 2 demo_items) ''q''"
proof -
  obtain answer m1 where h: "handleThumbnailBatchRequest 2 100 ''q'' (ts_m demo_shown) = (answer, m1)" by fastforce
  from thumbnail_batch_safe [OF demo_shown_reachable h] show ?thesis
    unfolding demo_shown_fields h fst_conv by (auto simp: demo_items_def demo_shown_fields(4))
qed

text \<open>Steps that stay with the same gallery.\<close>

definition same_gallery :: "tsys \<Rightarrow> tsys \<Rightarrow> bool" where
  "same_gallery s t \<longleftrightarrow> tx_step s t \<and> galleryGeneration (ts_m t) = galleryGeneration (ts_m s)"

lemma same_gallery_run:
  assumes "same_gallery\<^sup>*\<^sup>* s t"
  shows "galleryItems (ts_m t) = galleryItems (ts_m s) \<and> seen_ids (ts_m s) \<subseteq> seen_ids (ts_m t)
    \<and> (tm_thumbnailMode (ts_m s) \<noteq> thumbnailModeWaiting \<longrightarrow> tm_thumbnailMode (ts_m t) = tm_thumbnailMode (ts_m s))"
  using assms
proof (induction rule: rtranclp_induct)
  case (step t u)
  then have "gallery_move (ts_m t) (ts_m u)" "galleryGeneration (ts_m u) = galleryGeneration (ts_m t)"
    using tx_step_gallery by (auto simp: same_gallery_def)
  then show ?case using step.IH by (auto simp: gallery_move_def)
qed simp

text \<open>
  A gallery is delivered in one way, and no request id works twice. As long as the same gallery is shown, whatever else happens: once thumbnails
  are pulled in batches the legacy stream never starts, once the legacy stream has begun no batch starts, and a batch request with an id that was
  accepted before is rejected.
\<close>

theorem gallery_delivered_one_way:
  assumes "gallery_start s" "tx_step\<^sup>*\<^sup>* s t" "same_gallery\<^sup>*\<^sup>* t u" "tm_thumbnailMode (ts_m t) \<noteq> thumbnailModeWaiting"
  shows "tm_thumbnailMode (ts_m u) = tm_thumbnailMode (ts_m t)
       \<and> (\<forall>generation. fst (startLegacyThumbnailFallback generation (ts_m u)) = None)
       \<and> (\<forall>start count req. tm_thumbnailMode (ts_m t) = thumbnailModeLegacy \<or> req \<in> seen_ids (ts_m t)
            \<longrightarrow> fst (handleThumbnailBatchRequest start count req (ts_m u)) = BatchRejected)"
proof -
  note r = same_gallery_run [OF assms(3)]
  have "same_gallery\<^sup>*\<^sup>* \<le> tx_step\<^sup>*\<^sup>*" by (rule rtranclp_mono) (auto simp: same_gallery_def)
  then have "tx_step\<^sup>*\<^sup>* s u" using assms(2,3) by (meson predicate2D rtranclp_trans)
  then have inv: "gallery_inv (ts_m u)" using gallery.reachable_safe [OF assms(1)] by simp
  have "fst (startLegacyThumbnailFallback generation (ts_m u)) = None" for generation
    using r assms(4) by (auto simp: startLegacyThumbnailFallback_def)
  moreover have "fst (handleThumbnailBatchRequest start count req (ts_m u)) = BatchRejected"
    if "tm_thumbnailMode (ts_m t) = thumbnailModeLegacy \<or> req \<in> seen_ids (ts_m t)" for start count req
    using batch_answer [OF inv, of start count req] that r assms(4) by (auto simp: batch_guards_def)
  ultimately show ?thesis using r assms(4) by blast
qed

definition demo_legacy :: tsys where
  "demo_legacy = demo_shown\<lparr>ts_m := snd (startLegacyThumbnailFallback 1 (ts_m demo_shown))\<rparr>"

theorem gallery_delivered_one_way_witness:
  "fst (handleThumbnailBatchRequest 0 2 ''q'' (ts_m demo_legacy)) = BatchRejected"
proof -
  have "tx_step demo_shown demo_legacy" unfolding demo_legacy_def by (rule tx_gallery) (rule g_legacy)
  then have run: "tx_step\<^sup>*\<^sup>* demo_gallery_sys demo_legacy" using demo_shown_reachable(2) by simp
  have mode: "tm_thumbnailMode (ts_m demo_legacy) = thumbnailModeLegacy"
    by (simp add: demo_legacy_def startLegacyThumbnailFallback_def demo_shown_fields Let_def)
  then have "tm_thumbnailMode (ts_m demo_legacy) \<noteq> thumbnailModeWaiting" by simp
  from gallery_delivered_one_way [OF demo_shown_reachable(1) run rtranclp.rtrancl_refl this] mode show ?thesis by blast
qed

end
