(* ===== verification/Share_Store.thy ===== *)
theory Share_Store
  imports Go_Std
begin

text \<open>
  The agent's share store, \<^verbatim>\<open>agent/internal/store/store.go\<close>: the sessions it remembers across restarts, in memory
  and in the file \<^verbatim>\<open>sessions.json\<close>. A file holds a JSON value or bytes that are no JSON. The file system is a map from paths
  to contents; what goes wrong in one call of \<^verbatim>\<open>save\<close> is an argument of it. Times are integers with zero for
  Go's zero time; how \<^verbatim>\<open>time.Time\<close> prints itself and reads itself back is the parameter \<open>time_text\<close>.
\<close>

section \<open>Data\<close>

record SessionEntry =
  en_Code :: string
  en_ShareURL :: string
  en_ShareType :: string
  en_IsPasswordProtected :: bool
  en_FileID :: string
  en_Password :: string
  en_ExpiresAt :: int
  en_MaxDownloads :: "64 word"
  en_Downloads :: "64 word"
  en_RelayOnly :: bool
  en_CreatedAt :: int

record storeData =
  sd_AgentID :: string
  sd_RelayStaticPrivateHex :: string
  sd_Sessions :: "SessionEntry list"

datatype file_content = JsonFile json | NotJson

type_synonym files = "string \<rightharpoonup> file_content"

record Store =
  filePath :: string
  st_data :: storeData

record time_text =
  tt_format :: "int \<Rightarrow> string result"
  tt_parse :: "string \<Rightarrow> int result"

definition time_text_ok :: "time_text \<Rightarrow> bool" where
  "time_text_ok T \<longleftrightarrow> (\<forall>t s. tt_format T t = Inr s \<longrightarrow> tt_parse T s = Inr t)"

section \<open>JSON\<close>

text \<open>
  Marshalling a struct writes its fields in order, leaving out the zero values of those marked \<^verbatim>\<open>omitempty\<close>.
  Unmarshalling starts from zero values and takes the members of the object in order; names are compared without regard to
  the case of letters, \<^verbatim>\<open>null\<close> changes nothing, and a value of the wrong type is an error.
\<close>

definition opt_str :: "string \<Rightarrow> string \<Rightarrow> (string \<times> json) list" where
  "opt_str name v = (if v = [] then [] else [(name, JStr v)])"

definition opt_bool :: "string \<Rightarrow> bool \<Rightarrow> (string \<times> json) list" where
  "opt_bool name v = (if v then [(name, JBool v)] else [])"

definition opt_int :: "string \<Rightarrow> 64 word \<Rightarrow> (string \<times> json) list" where
  "opt_int name v = (if v = 0 then [] else [(name, JInt (sint v))])"

definition marshal_entry :: "time_text \<Rightarrow> SessionEntry \<Rightarrow> json result" where
  "marshal_entry T e =
     (case tt_format T (en_ExpiresAt e) of
        Inl err \<Rightarrow> Inl err
      | Inr expires \<Rightarrow>
          case tt_format T (en_CreatedAt e) of
            Inl err \<Rightarrow> Inl err
          | Inr created \<Rightarrow> Inr (JObj
              ([(''code'', JStr (en_Code e)), (''share_url'', JStr (en_ShareURL e)), (''share_type'', JStr (en_ShareType e))]
               @ opt_bool ''is_password_protected'' (en_IsPasswordProtected e) @ opt_str ''file_id'' (en_FileID e)
               @ opt_str ''password'' (en_Password e) @ [(''expires_at'', JStr expires)]
               @ opt_int ''max_downloads'' (en_MaxDownloads e)
               @ [(''downloads'', JInt (sint (en_Downloads e))), (''relay_only'', JBool (en_RelayOnly e)),
                  (''created_at'', JStr created)])))"

fun marshal_list :: "('a \<Rightarrow> json result) \<Rightarrow> 'a list \<Rightarrow> json list result" where
  "marshal_list f [] = Inr []"
| "marshal_list f (x # xs) =
     (case f x of Inl err \<Rightarrow> Inl err
      | Inr j \<Rightarrow> (case marshal_list f xs of Inl err \<Rightarrow> Inl err | Inr js \<Rightarrow> Inr (j # js)))"

definition marshal_store :: "time_text \<Rightarrow> storeData \<Rightarrow> json result" where
  "marshal_store T d =
     (case marshal_list (marshal_entry T) (sd_Sessions d) of
        Inl err \<Rightarrow> Inl err
      | Inr entries \<Rightarrow> Inr (JObj ([(''agent_id'', JStr (sd_AgentID d))]
          @ opt_str ''relay_static_private_hex'' (sd_RelayStaticPrivateHex d) @ [(''sessions'', JArr entries)])))"

definition lower_char :: "char \<Rightarrow> char" where
  "lower_char c = (let n = of_char c :: nat in if 65 \<le> n \<and> n \<le> 90 then char_of (n + 32) else c)"

definition typeError :: goerr where
  "typeError = Errorf ''json: cannot unmarshal value into Go struct field'' []"

definition un_str :: "json \<Rightarrow> (string \<Rightarrow> 'r \<Rightarrow> 'r) \<Rightarrow> 'r \<Rightarrow> 'r result" where
  "un_str j upd r = (case j of JNull \<Rightarrow> Inr r | JStr s \<Rightarrow> Inr (upd s r) | _ \<Rightarrow> Inl typeError)"

definition un_bool :: "json \<Rightarrow> (bool \<Rightarrow> 'r \<Rightarrow> 'r) \<Rightarrow> 'r \<Rightarrow> 'r result" where
  "un_bool j upd r = (case j of JNull \<Rightarrow> Inr r | JBool b \<Rightarrow> Inr (upd b r) | _ \<Rightarrow> Inl typeError)"

definition un_int :: "json \<Rightarrow> (64 word \<Rightarrow> 'r \<Rightarrow> 'r) \<Rightarrow> 'r \<Rightarrow> 'r result" where
  "un_int j upd r =
     (case j of JNull \<Rightarrow> Inr r
      | JInt n \<Rightarrow> if - (2 ^ 63) \<le> n \<and> n < 2 ^ 63 then Inr (upd (word_of_int n) r) else Inl typeError
      | _ \<Rightarrow> Inl typeError)"

definition un_time :: "time_text \<Rightarrow> json \<Rightarrow> (int \<Rightarrow> 'r \<Rightarrow> 'r) \<Rightarrow> 'r \<Rightarrow> 'r result" where
  "un_time T j upd r =
     (case j of JNull \<Rightarrow> Inr r
      | JStr s \<Rightarrow> (case tt_parse T s of Inl err \<Rightarrow> Inl err | Inr t \<Rightarrow> Inr (upd t r))
      | _ \<Rightarrow> Inl typeError)"

definition entry_member :: "time_text \<Rightarrow> string \<Rightarrow> json \<Rightarrow> SessionEntry \<Rightarrow> SessionEntry result" where
  "entry_member T name j e =
     (let n = map lower_char name in
      if n = ''code'' then un_str j (\<lambda>v e. e\<lparr>en_Code := v\<rparr>) e
      else if n = ''share_url'' then un_str j (\<lambda>v e. e\<lparr>en_ShareURL := v\<rparr>) e
      else if n = ''share_type'' then un_str j (\<lambda>v e. e\<lparr>en_ShareType := v\<rparr>) e
      else if n = ''is_password_protected'' then un_bool j (\<lambda>v e. e\<lparr>en_IsPasswordProtected := v\<rparr>) e
      else if n = ''file_id'' then un_str j (\<lambda>v e. e\<lparr>en_FileID := v\<rparr>) e
      else if n = ''password'' then un_str j (\<lambda>v e. e\<lparr>en_Password := v\<rparr>) e
      else if n = ''expires_at'' then un_time T j (\<lambda>v e. e\<lparr>en_ExpiresAt := v\<rparr>) e
      else if n = ''max_downloads'' then un_int j (\<lambda>v e. e\<lparr>en_MaxDownloads := v\<rparr>) e
      else if n = ''downloads'' then un_int j (\<lambda>v e. e\<lparr>en_Downloads := v\<rparr>) e
      else if n = ''relay_only'' then un_bool j (\<lambda>v e. e\<lparr>en_RelayOnly := v\<rparr>) e
      else if n = ''created_at'' then un_time T j (\<lambda>v e. e\<lparr>en_CreatedAt := v\<rparr>) e
      else Inr e)"

fun un_members :: "(string \<Rightarrow> json \<Rightarrow> 'r \<Rightarrow> 'r result) \<Rightarrow> (string \<times> json) list \<Rightarrow> 'r \<Rightarrow> 'r result" where
  "un_members f [] r = Inr r"
| "un_members f ((name, j) # ms) r = (case f name j r of Inl err \<Rightarrow> Inl err | Inr r1 \<Rightarrow> un_members f ms r1)"

definition zero_entry :: SessionEntry where
  "zero_entry = \<lparr>en_Code = [], en_ShareURL = [], en_ShareType = [], en_IsPasswordProtected = False, en_FileID = [],
     en_Password = [], en_ExpiresAt = 0, en_MaxDownloads = 0, en_Downloads = 0, en_RelayOnly = False, en_CreatedAt = 0\<rparr>"

definition unmarshal_entry :: "time_text \<Rightarrow> json \<Rightarrow> SessionEntry result" where
  "unmarshal_entry T j =
     (case j of JNull \<Rightarrow> Inr zero_entry | JObj ms \<Rightarrow> un_members (entry_member T) ms zero_entry | _ \<Rightarrow> Inl typeError)"

fun unmarshal_list :: "(json \<Rightarrow> 'a result) \<Rightarrow> json list \<Rightarrow> 'a list result" where
  "unmarshal_list f [] = Inr []"
| "unmarshal_list f (j # js) =
     (case f j of Inl err \<Rightarrow> Inl err
      | Inr x \<Rightarrow> (case unmarshal_list f js of Inl err \<Rightarrow> Inl err | Inr xs \<Rightarrow> Inr (x # xs)))"

definition store_member :: "time_text \<Rightarrow> string \<Rightarrow> json \<Rightarrow> storeData \<Rightarrow> storeData result" where
  "store_member T name j d =
     (let n = map lower_char name in
      if n = ''agent_id'' then un_str j (\<lambda>v d. d\<lparr>sd_AgentID := v\<rparr>) d
      else if n = ''relay_static_private_hex'' then un_str j (\<lambda>v d. d\<lparr>sd_RelayStaticPrivateHex := v\<rparr>) d
      else if n = ''sessions'' then
        (case j of JNull \<Rightarrow> Inr (d\<lparr>sd_Sessions := []\<rparr>)
         | JArr js \<Rightarrow> (case unmarshal_list (unmarshal_entry T) js of
                        Inl err \<Rightarrow> Inl err | Inr es \<Rightarrow> Inr (d\<lparr>sd_Sessions := es\<rparr>))
         | _ \<Rightarrow> Inl typeError)
      else Inr d)"

definition zero_store :: storeData where
  "zero_store = \<lparr>sd_AgentID = [], sd_RelayStaticPrivateHex = [], sd_Sessions = []\<rparr>"

definition unmarshal_store :: "time_text \<Rightarrow> json \<Rightarrow> storeData result" where
  "unmarshal_store T j =
     (case j of JNull \<Rightarrow> Inr zero_store | JObj ms \<Rightarrow> un_members (store_member T) ms zero_store | _ \<Rightarrow> Inl typeError)"

section \<open>Loading and saving\<close>

text \<open>
  What can go wrong in one \<^verbatim>\<open>save\<close>: writing the temporary file fails and leaves some content there, or renaming it
  fails, and then removing it may fail too.
\<close>

datatype save_fault = SaveOk | WriteFails "file_content option" | RenameFails bool

definition tempFile :: "string \<Rightarrow> string" where
  "tempFile path = path @ ''.tmp''"

definition store_save :: "time_text \<Rightarrow> save_fault \<Rightarrow> Store \<Rightarrow> files \<Rightarrow> goerr option \<times> files" where
  "store_save T fault s fs =
     (case marshal_store T (st_data s) of
        Inl err \<Rightarrow> (Some (ErrWrap ''failed to marshal store data'' [] err), fs)
      | Inr jsonData \<Rightarrow>
          case fault of
            WriteFails rest \<Rightarrow>
              (Some (Errorf ''failed to write temp file'' []),
               (case rest of None \<Rightarrow> fs | Some c \<Rightarrow> fs(tempFile (filePath s) \<mapsto> c)))
          | RenameFails kept \<Rightarrow>
              (Some (Errorf ''failed to rename temp file'' []),
               if kept then fs(tempFile (filePath s) \<mapsto> JsonFile jsonData) else fs(tempFile (filePath s) := None))
          | SaveOk \<Rightarrow> (None, (fs(filePath s \<mapsto> JsonFile jsonData))(tempFile (filePath s) := None)))"

definition store_load :: "time_text \<Rightarrow> bool \<Rightarrow> string \<Rightarrow> files \<Rightarrow> storeData result" where
  "store_load T readable path fs =
     (case fs path of
        None \<Rightarrow> Inr zero_store
      | Some content \<Rightarrow>
          if \<not> readable then Inl (Errorf ''failed to read sessions file'' [])
          else case content of
                 NotJson \<Rightarrow> Inl (Errorf ''malformed sessions.json'' [])
               | JsonFile j \<Rightarrow>
                   (case unmarshal_store T j of
                      Inl err \<Rightarrow> Inl (ErrWrap ''malformed sessions.json'' [] err) | Inr d \<Rightarrow> Inr d))"

text \<open>
  \<^verbatim>\<open>New\<close> with the value of the environment variable, the home directory and whether the directory can be made; \<open>join\<close>
  is \<^verbatim>\<open>filepath.Join\<close>.
\<close>

definition store_New ::
  "(string \<Rightarrow> string \<Rightarrow> string) \<Rightarrow> time_text \<Rightarrow> string \<Rightarrow> string result \<Rightarrow> goerr option \<Rightarrow> bool \<Rightarrow> files \<Rightarrow> Store result" where
  "store_New join T envDir home mkdir readable fs =
     (case (if envDir \<noteq> [] then Inr envDir
            else case home of
                   Inl err \<Rightarrow> Inl (ErrWrap ''failed to get user home directory'' [] err)
                 | Inr homeDir \<Rightarrow> Inr (join homeDir ''.sharebridge'')) of
        Inl err \<Rightarrow> Inl err
      | Inr dataDir \<Rightarrow>
          case mkdir of
            Some err \<Rightarrow> Inl (ErrWrap (''failed to create data directory '' @ dataDir) [] err)
          | None \<Rightarrow>
              let path = join dataDir ''sessions.json'' in
              case store_load T readable path fs of
                Inl err \<Rightarrow> Inl (ErrWrap (''sessions.json is malformed: '' @ path) [] err)
              | Inr d \<Rightarrow> Inr \<lparr>filePath = path, st_data = d\<rparr>)"

section \<open>Identity\<close>

text \<open>\<open>fresh\<close> is the UUID that \<^verbatim>\<open>uuid.New\<close> would draw.\<close>

definition GetAgentID ::
  "time_text \<Rightarrow> save_fault \<Rightarrow> string \<Rightarrow> Store \<Rightarrow> files \<Rightarrow> string \<times> Store \<times> files" where
  "GetAgentID T fault fresh s fs =
     (if sd_AgentID (st_data s) = [] then
        (let s1 = s\<lparr>st_data := (st_data s)\<lparr>sd_AgentID := fresh\<rparr>\<rparr>;
             (_, fs1) = store_save T fault s1 fs
         in (sd_AgentID (st_data s1), s1, fs1))
      else (sd_AgentID (st_data s), s, fs))"

text \<open>\<open>priv\<close> is what the key generator returns.\<close>

definition GetRelayStaticPrivateKey ::
  "time_text \<Rightarrow> save_fault \<Rightarrow> bytes result \<Rightarrow> Store \<Rightarrow> files \<Rightarrow> bytes result \<times> Store \<times> files" where
  "GetRelayStaticPrivateKey T fault priv s fs =
     (if sd_RelayStaticPrivateHex (st_data s) = [] then
        (case priv of
           Inl err \<Rightarrow> (Inl (ErrWrap ''generate relay static key'' [] err), s, fs)
         | Inr raw \<Rightarrow>
             let s1 = s\<lparr>st_data := (st_data s)\<lparr>sd_RelayStaticPrivateHex := hexEncode raw\<rparr>\<rparr>
             in case store_save T fault s1 fs of
                  (Some err, fs1) \<Rightarrow> (Inl (ErrWrap ''persist relay static key'' [] err), s1, fs1)
                | (None, fs1) \<Rightarrow> (Inr raw, s1, fs1))
      else
        (case hexDecode (sd_RelayStaticPrivateHex (st_data s)) of
           None \<Rightarrow> (Inl (Errorf ''decode relay static key'' []), s, fs)
         | Some raw \<Rightarrow> (Inr raw, s, fs)))"

section \<open>Sessions\<close>

text \<open>A pointer to a session is the index of the element of the slice it points to.\<close>

fun index_where :: "('a \<Rightarrow> bool) \<Rightarrow> 'a list \<Rightarrow> nat option" where
  "index_where P [] = None"
| "index_where P (x # xs) = (if P x then Some 0 else map_option Suc (index_where P xs))"

definition GetSession :: "string \<Rightarrow> Store \<Rightarrow> nat option" where
  "GetSession code s = index_where (\<lambda>e. en_Code e = code) (sd_Sessions (st_data s))"

definition GetByShareURL :: "string \<Rightarrow> Store \<Rightarrow> nat option" where
  "GetByShareURL shareURL s = index_where (\<lambda>e. en_ShareURL e = shareURL) (sd_Sessions (st_data s))"

definition ListSessions :: "bool \<Rightarrow> int \<Rightarrow> Store \<Rightarrow> SessionEntry list" where
  "ListSessions filterExpired now s =
     (if \<not> filterExpired then sd_Sessions (st_data s)
      else filter (\<lambda>e. en_ExpiresAt e = 0 \<or> now < en_ExpiresAt e) (sd_Sessions (st_data s)))"

definition set_sessions :: "SessionEntry list \<Rightarrow> Store \<Rightarrow> Store" where
  "set_sessions es s = s\<lparr>st_data := (st_data s)\<lparr>sd_Sessions := es\<rparr>\<rparr>"

definition SaveSession ::
  "time_text \<Rightarrow> save_fault \<Rightarrow> SessionEntry \<Rightarrow> Store \<Rightarrow> files \<Rightarrow> goerr option \<times> Store \<times> files" where
  "SaveSession T fault session s fs =
     (let es = sd_Sessions (st_data s);
          s1 = (case index_where (\<lambda>e. en_Code e = en_Code session) es of
                  Some i \<Rightarrow> set_sessions (es[i := session]) s
                | None \<Rightarrow> set_sessions (es @ [session]) s);
          (err, fs1) = store_save T fault s1 fs
      in (err, s1, fs1))"

definition DeleteSession ::
  "time_text \<Rightarrow> save_fault \<Rightarrow> string \<Rightarrow> Store \<Rightarrow> files \<Rightarrow> goerr option \<times> Store \<times> files" where
  "DeleteSession T fault code s fs =
     (let es = sd_Sessions (st_data s) in
      case index_where (\<lambda>e. en_Code e = code) es of
        Some i \<Rightarrow>
          let s1 = set_sessions (take i es @ drop (Suc i) es) s;
              (err, fs1) = store_save T fault s1 fs
          in (err, s1, fs1)
      | None \<Rightarrow> (None, s, fs))"

definition IncrementDownloads ::
  "time_text \<Rightarrow> save_fault \<Rightarrow> string \<Rightarrow> Store \<Rightarrow> files \<Rightarrow> (64 word \<times> goerr option) \<times> Store \<times> files" where
  "IncrementDownloads T fault code s fs =
     (let es = sd_Sessions (st_data s) in
      case index_where (\<lambda>e. en_Code e = code) es of
        Some i \<Rightarrow>
          let newCount = en_Downloads (es ! i) + 1;
              s1 = set_sessions (es[i := (es ! i)\<lparr>en_Downloads := newCount\<rparr>]) s;
              (err, fs1) = store_save T fault s1 fs
          in ((newCount, err), s1, fs1)
      | None \<Rightarrow> ((0, Some (Errorf ''session with code not found'' [])), s, fs))"

section \<open>Runs\<close>

text \<open>
  The calls that change the store, each with what goes wrong when it saves, and the state after a sequence of them. The
  mutex of the store makes each call atomic.
\<close>

datatype store_op =
    OpAgentID string
  | OpRelayKey "bytes result"
  | OpSave SessionEntry
  | OpDelete string
  | OpIncrement string

definition store_do :: "time_text \<Rightarrow> save_fault \<times> store_op \<Rightarrow> Store \<times> files \<Rightarrow> Store \<times> files" where
  "store_do T fop sf =
     (let (s, fs) = sf; (fault, op) = fop in
      case op of
        OpAgentID fresh \<Rightarrow> snd (GetAgentID T fault fresh s fs)
      | OpRelayKey priv \<Rightarrow> snd (GetRelayStaticPrivateKey T fault priv s fs)
      | OpSave e \<Rightarrow> snd (SaveSession T fault e s fs)
      | OpDelete code \<Rightarrow> snd (DeleteSession T fault code s fs)
      | OpIncrement code \<Rightarrow> snd (IncrementDownloads T fault code s fs))"

definition store_run :: "time_text \<Rightarrow> (save_fault \<times> store_op) list \<Rightarrow> Store \<times> files \<Rightarrow> Store \<times> files" where
  "store_run T ops sf = fold (store_do T) ops sf"

end
