(* ===== verification/Store_Properties.thy ===== *)
theory Store_Properties
  imports Share_Store
begin

text \<open>
  The share store seen from the daemon: in memory it is a map from share codes to sessions, whatever the disk does; and the
  file is at every moment the complete image of a state the memory has been in, so that a restart finds one.
\<close>

section \<open>The file format\<close>

lemma un_members_append:
  "un_members f (xs @ ys) r = (case un_members f xs r of Inl err \<Rightarrow> Inl err | Inr r1 \<Rightarrow> un_members f ys r1)"
  by (induction f xs r rule: un_members.induct) (auto split: sum.splits)

lemma un_int_sint [simp]: "un_int (JInt (sint w)) upd r = Inr (upd w r)"
proof -
  have "- (2 ^ 63) \<le> sint w" "sint w < 2 ^ 63"
    using sint_ge [of w] sint_lt [of w] by simp_all
  then show ?thesis by (simp add: un_int_def)
qed

lemma entry_names:
  "map lower_char ''code'' = ''code''" "map lower_char ''share_url'' = ''share_url''"
  "map lower_char ''share_type'' = ''share_type''" "map lower_char ''is_password_protected'' = ''is_password_protected''"
  "map lower_char ''file_id'' = ''file_id''" "map lower_char ''password'' = ''password''"
  "map lower_char ''expires_at'' = ''expires_at''" "map lower_char ''max_downloads'' = ''max_downloads''"
  "map lower_char ''downloads'' = ''downloads''" "map lower_char ''relay_only'' = ''relay_only''"
  "map lower_char ''created_at'' = ''created_at''" "map lower_char ''agent_id'' = ''agent_id''"
  "map lower_char ''relay_static_private_hex'' = ''relay_static_private_hex''"
  "map lower_char ''sessions'' = ''sessions''"
  by code_simp+

lemma entry_member_simps [simp]:
  "entry_member T ''code'' j e = un_str j (\<lambda>v e. e\<lparr>en_Code := v\<rparr>) e"
  "entry_member T ''share_url'' j e = un_str j (\<lambda>v e. e\<lparr>en_ShareURL := v\<rparr>) e"
  "entry_member T ''share_type'' j e = un_str j (\<lambda>v e. e\<lparr>en_ShareType := v\<rparr>) e"
  "entry_member T ''is_password_protected'' j e = un_bool j (\<lambda>v e. e\<lparr>en_IsPasswordProtected := v\<rparr>) e"
  "entry_member T ''file_id'' j e = un_str j (\<lambda>v e. e\<lparr>en_FileID := v\<rparr>) e"
  "entry_member T ''password'' j e = un_str j (\<lambda>v e. e\<lparr>en_Password := v\<rparr>) e"
  "entry_member T ''expires_at'' j e = un_time T j (\<lambda>v e. e\<lparr>en_ExpiresAt := v\<rparr>) e"
  "entry_member T ''max_downloads'' j e = un_int j (\<lambda>v e. e\<lparr>en_MaxDownloads := v\<rparr>) e"
  "entry_member T ''downloads'' j e = un_int j (\<lambda>v e. e\<lparr>en_Downloads := v\<rparr>) e"
  "entry_member T ''relay_only'' j e = un_bool j (\<lambda>v e. e\<lparr>en_RelayOnly := v\<rparr>) e"
  "entry_member T ''created_at'' j e = un_time T j (\<lambda>v e. e\<lparr>en_CreatedAt := v\<rparr>) e"
  by (simp_all only: entry_member_def entry_names Let_def) simp_all

lemma unmarshal_marshal_entry:
  assumes T: "time_text_ok T" and j: "marshal_entry T e = Inr j"
  shows "unmarshal_entry T j = Inr e"
proof -
  obtain expires created where
    f: "tt_format T (en_ExpiresAt e) = Inr expires" "tt_format T (en_CreatedAt e) = Inr created"
    using j by (auto simp: marshal_entry_def split: sum.splits)
  have p: "tt_parse T expires = Inr (en_ExpiresAt e)" "tt_parse T created = Inr (en_CreatedAt e)"
    using T f by (auto simp: time_text_ok_def)
  show ?thesis
    using j f p
    by (cases e) (auto simp: marshal_entry_def unmarshal_entry_def un_members_append opt_str_def opt_bool_def opt_int_def
        un_str_def un_bool_def un_time_def zero_entry_def)
qed

lemma unmarshal_marshal_list:
  assumes "\<And>x j. f x = Inr j \<Longrightarrow> g j = Inr x" "marshal_list f xs = Inr js"
  shows "unmarshal_list g js = Inr xs"
  using assms(2) by (induction xs arbitrary: js) (auto split: sum.splits simp: assms(1))

lemma store_member_simps [simp]:
  "store_member T ''agent_id'' j d = un_str j (\<lambda>v d. d\<lparr>sd_AgentID := v\<rparr>) d"
  "store_member T ''relay_static_private_hex'' j d = un_str j (\<lambda>v d. d\<lparr>sd_RelayStaticPrivateHex := v\<rparr>) d"
  "store_member T ''sessions'' (JArr js) d =
     (case unmarshal_list (unmarshal_entry T) js of Inl err \<Rightarrow> Inl err | Inr es \<Rightarrow> Inr (d\<lparr>sd_Sessions := es\<rparr>))"
  by (simp_all only: store_member_def entry_names Let_def) simp_all

lemma unmarshal_marshal_store:
  assumes T: "time_text_ok T" and j: "marshal_store T d = Inr j"
  shows "unmarshal_store T j = Inr d"
proof -
  obtain js where js: "marshal_list (marshal_entry T) (sd_Sessions d) = Inr js"
    using j by (auto simp: marshal_store_def split: sum.splits)
  have "unmarshal_list (unmarshal_entry T) js = Inr (sd_Sessions d)"
    using unmarshal_marshal_entry [OF T] js by (rule unmarshal_marshal_list)
  with j js show ?thesis
    by (cases d) (auto simp: marshal_store_def unmarshal_store_def un_members_append opt_str_def un_str_def zero_store_def)
qed

section \<open>In memory: a map\<close>

definition store_map :: "Store \<Rightarrow> string \<rightharpoonup> SessionEntry" where
  "store_map s = map_of (map (\<lambda>e. (en_Code e, e)) (sd_Sessions (st_data s)))"

definition codes_distinct :: "Store \<Rightarrow> bool" where
  "codes_distinct s \<longleftrightarrow> distinct (map en_Code (sd_Sessions (st_data s)))"

text \<open>What a client of the store relies on: three operations on a map from codes to sessions.\<close>

locale session_store =
  fixes ok :: "'s \<Rightarrow> bool"
    and lookup :: "'s \<Rightarrow> string \<rightharpoonup> SessionEntry"
    and put :: "SessionEntry \<Rightarrow> 's \<Rightarrow> 's"
    and del :: "string \<Rightarrow> 's \<Rightarrow> 's"
    and bump :: "string \<Rightarrow> 's \<Rightarrow> 's"
  assumes ok_put: "ok s \<Longrightarrow> ok (put e s)"
    and ok_del: "ok s \<Longrightarrow> ok (del c s)"
    and ok_bump: "ok s \<Longrightarrow> ok (bump c s)"
    and lookup_put: "ok s \<Longrightarrow> lookup (put e s) = (lookup s)(en_Code e \<mapsto> e)"
    and lookup_del: "ok s \<Longrightarrow> lookup (del c s) = (lookup s)(c := None)"
    and lookup_bump: "ok s \<Longrightarrow> lookup (bump c s) =
      (lookup s)(c := map_option (\<lambda>e. e\<lparr>en_Downloads := en_Downloads e + 1\<rparr>) (lookup s c))"
    and lookup_code: "lookup s c = Some e \<Longrightarrow> en_Code e = c"
begin

lemma bumps:
  assumes "ok s" "lookup s c = Some e"
  shows "ok ((bump c ^^ n) s) \<and>
    lookup ((bump c ^^ n) s) = (lookup s)(c \<mapsto> e\<lparr>en_Downloads := en_Downloads e + word_of_nat n\<rparr>)"
  using assms by (induction n) (auto simp: ok_bump lookup_bump fun_upd_idem algebra_simps)

lemma put_put: "ok s \<Longrightarrow> lookup (put e (put e' s)) = (if en_Code e = en_Code e' then lookup (put e s)
    else (lookup s)(en_Code e' \<mapsto> e', en_Code e \<mapsto> e))"
  by (simp add: lookup_put ok_put)

end

lemma index_where_Some:
  "index_where P xs = Some i \<longleftrightarrow> i < length xs \<and> P (xs ! i) \<and> (\<forall>j<i. \<not> P (xs ! j))"
proof (induction xs arbitrary: i)
  case (Cons x xs)
  then show ?case by (cases i) (auto simp: less_Suc_eq_0_disj)
qed simp

lemma index_where_None: "index_where P xs = None \<longleftrightarrow> (\<forall>x\<in>set xs. \<not> P x)"
  by (induction xs) auto

text \<open>A list of entries with distinct codes at the place of one of them.\<close>

lemma index_where_split:
  assumes "index_where (\<lambda>e. en_Code e = c) es = Some i"
  obtains pre e post where "es = pre @ e # post" "i = length pre" "en_Code e = c" "c \<notin> en_Code ` set pre"
proof
  from assms have i: "i < length es" "en_Code (es ! i) = c" "\<forall>j<i. en_Code (es ! j) \<noteq> c"
    by (auto simp: index_where_Some)
  show "es = take i es @ es ! i # drop (Suc i) es" using i(1) by (rule id_take_nth_drop)
  show "i = length (take i es)" using i(1) by simp
  show "en_Code (es ! i) = c" by (rule i(2))
  show "c \<notin> en_Code ` set (take i es)" using i(1,3) by (fastforce simp: in_set_conv_nth)
qed

lemma map_of_code:
  "map_of (map (\<lambda>e. (en_Code e, e)) es) c = Some e \<Longrightarrow> e \<in> set es \<and> en_Code e = c"
  by (auto dest: map_of_SomeD)

lemma map_of_no_code: "c \<notin> en_Code ` set es \<Longrightarrow> map_of (map (\<lambda>e. (en_Code e, e)) es) c = None"
  by (auto simp: map_of_eq_None_iff image_image)

lemma store_save_data [simp]: "st_data (set_sessions es s) = (st_data s)\<lparr>sd_Sessions := es\<rparr>"
  by (simp add: set_sessions_def)

lemma SaveSession_map:
  assumes "codes_distinct s"
  shows "codes_distinct (fst (snd (SaveSession T fault e s fs)))
    \<and> store_map (fst (snd (SaveSession T fault e s fs))) = (store_map s)(en_Code e \<mapsto> e)"
proof (cases "index_where (\<lambda>x. en_Code x = en_Code e) (sd_Sessions (st_data s))")
  case None
  then have n: "en_Code e \<notin> en_Code ` set (sd_Sessions (st_data s))"
    by (auto simp: index_where_None)
  show ?thesis
    using None n assms
    by (auto simp: SaveSession_def split_beta Let_def store_map_def codes_distinct_def map_add_def map_of_no_code fun_eq_iff
        split: option.splits dest: map_of_code)
next
  case (Some i)
  from Some obtain pre x post where es: "sd_Sessions (st_data s) = pre @ x # post" "i = length pre"
    "en_Code x = en_Code e" "en_Code e \<notin> en_Code ` set pre"
    by (rule index_where_split)
  show ?thesis
    using Some es assms
    by (auto simp: SaveSession_def split_beta Let_def store_map_def codes_distinct_def map_of_no_code fun_eq_iff map_add_def
        split: option.splits dest: map_of_code)
qed

lemma DeleteSession_map:
  assumes "codes_distinct s"
  shows "codes_distinct (fst (snd (DeleteSession T fault c s fs)))
    \<and> store_map (fst (snd (DeleteSession T fault c s fs))) = (store_map s)(c := None)"
proof (cases "index_where (\<lambda>x. en_Code x = c) (sd_Sessions (st_data s))")
  case None
  then have "c \<notin> en_Code ` set (sd_Sessions (st_data s))"
    by (auto simp: index_where_None)
  then have "store_map s c = None" by (simp add: store_map_def map_of_no_code)
  with None assms show ?thesis by (simp add: DeleteSession_def Let_def fun_upd_idem)
next
  case (Some i)
  from Some obtain pre x post where es: "sd_Sessions (st_data s) = pre @ x # post" "i = length pre"
    "en_Code x = c" "c \<notin> en_Code ` set pre"
    by (rule index_where_split)
  then have "c \<notin> en_Code ` set post" using assms by (auto simp: codes_distinct_def)
  with Some es assms show ?thesis
    by (auto simp: DeleteSession_def split_beta Let_def store_map_def codes_distinct_def map_of_no_code fun_eq_iff map_add_def
        split: option.splits dest: map_of_code)
qed

lemma IncrementDownloads_map:
  assumes "codes_distinct s"
  shows "codes_distinct (fst (snd (IncrementDownloads T fault c s fs)))
    \<and> store_map (fst (snd (IncrementDownloads T fault c s fs)))
       = (store_map s)(c := map_option (\<lambda>e. e\<lparr>en_Downloads := en_Downloads e + 1\<rparr>) (store_map s c))"
proof (cases "index_where (\<lambda>x. en_Code x = c) (sd_Sessions (st_data s))")
  case None
  then have "c \<notin> en_Code ` set (sd_Sessions (st_data s))"
    by (auto simp: index_where_None)
  then have "store_map s c = None" by (simp add: store_map_def map_of_no_code)
  with None assms show ?thesis by (simp add: IncrementDownloads_def Let_def fun_upd_idem)
next
  case (Some i)
  from Some obtain pre x post where es: "sd_Sessions (st_data s) = pre @ x # post" "i = length pre"
    "en_Code x = c" "c \<notin> en_Code ` set pre"
    by (rule index_where_split)
  show ?thesis
    using Some es assms
    by (auto simp: IncrementDownloads_def split_beta Let_def store_map_def codes_distinct_def map_of_no_code fun_eq_iff map_add_def
        split: option.splits dest: map_of_code)
qed

interpretation share_store: session_store codes_distinct store_map
  "\<lambda>e s. fst (snd (SaveSession T fault e s fs))"
  "\<lambda>c s. fst (snd (DeleteSession T fault c s fs))"
  "\<lambda>c s. fst (snd (IncrementDownloads T fault c s fs))" for T fault fs
  by unfold_locales
    (simp_all add: SaveSession_map DeleteSession_map IncrementDownloads_map, auto simp: store_map_def dest: map_of_code)

text \<open>The abstract machine: the operations on a map.\<close>

fun map_op :: "store_op \<Rightarrow> (string \<rightharpoonup> SessionEntry) \<Rightarrow> (string \<rightharpoonup> SessionEntry)" where
  "map_op (OpAgentID _) m = m"
| "map_op (OpRelayKey _) m = m"
| "map_op (OpSave e) m = m(en_Code e \<mapsto> e)"
| "map_op (OpDelete c) m = m(c := None)"
| "map_op (OpIncrement c) m = m(c := map_option (\<lambda>e. e\<lparr>en_Downloads := en_Downloads e + 1\<rparr>) (m c))"

lemma identity_ops_sessions:
  "sd_Sessions (st_data (fst (snd (GetAgentID T fault fresh s fs)))) = sd_Sessions (st_data s)"
  "sd_Sessions (st_data (fst (snd (GetRelayStaticPrivateKey T fault priv s fs)))) = sd_Sessions (st_data s)"
  by (auto simp: GetAgentID_def GetRelayStaticPrivateKey_def split_beta Let_def split: sum.splits option.splits prod.splits)

lemma store_do_map:
  assumes "codes_distinct (fst sf)"
  shows "codes_distinct (fst (store_do T fop sf)) \<and> store_map (fst (store_do T fop sf)) = map_op (snd fop) (store_map (fst sf))"
proof (cases "snd fop")
  case (OpSave e)
  then show ?thesis using SaveSession_map [OF assms] by (simp add: store_do_def split_beta)
next
  case (OpDelete c)
  then show ?thesis using DeleteSession_map [OF assms] by (simp add: store_do_def split_beta)
next
  case (OpIncrement c)
  then show ?thesis using IncrementDownloads_map [OF assms] by (simp add: store_do_def split_beta)
qed (use assms in \<open>simp_all add: store_do_def split_beta codes_distinct_def store_map_def identity_ops_sessions\<close>)

lemma store_run_map:
  assumes "codes_distinct (fst sf)"
  shows "codes_distinct (fst (store_run T ops sf))
    \<and> store_map (fst (store_run T ops sf)) = fold (map_op \<circ> snd) ops (store_map (fst sf))"
  unfolding store_run_def using assms by (induction ops arbitrary: sf) (simp_all add: store_do_map)

lemma GetSession_map:
  "map_option (\<lambda>i. sd_Sessions (st_data s) ! i) (GetSession c s) = store_map s c"
proof -
  have "map_option (\<lambda>i. es ! i) (index_where (\<lambda>e. en_Code e = c) es) = map_of (map (\<lambda>e. (en_Code e, e)) es) c" for es
  proof (induction es)
    case (Cons e es)
    then show ?case by (auto simp: option.map_comp o_def)
  qed simp
  then show ?thesis by (simp add: GetSession_def store_map_def)
qed

text \<open>
  (C15) The store refines a map from share codes to sessions. Whatever goes wrong on the disk, after any sequence of calls
  on a store with distinct codes, looking a code up finds what the same calls leave in a map, and the codes are still
  distinct.
\<close>

theorem store_refines_map:
  assumes "codes_distinct s" and "(s', fs') = store_run T ops (s, fs)"
  shows "codes_distinct s' \<and>
    map_option (\<lambda>i. sd_Sessions (st_data s') ! i) (GetSession c s') = fold (map_op \<circ> snd) ops (store_map s) c"
proof -
  have "s' = fst (store_run T ops (s, fs))" using assms(2) by (metis fst_conv)
  then show ?thesis using store_run_map [of "(s, fs)" T ops] assms(1) by (simp only: GetSession_map fst_conv)
qed

definition sample_entry :: "string \<Rightarrow> SessionEntry" where
  "sample_entry code = zero_entry\<lparr>en_Code := code, en_ExpiresAt := 5\<rparr>"

definition plain_time :: time_text where
  "plain_time = \<lparr>tt_format = (\<lambda>t. if t < 0 then Inl (Errorf ''year outside of range'' []) else Inr (replicate (nat t) CHR ''x'')),
     tt_parse = (\<lambda>s. Inr (int (length s)))\<rparr>"

definition empty_store :: Store where
  "empty_store = \<lparr>filePath = ''sessions.json'', st_data = zero_store\<rparr>"

lemma store_refines_map_witness:
  "codes_distinct empty_store \<and>
   (let (s', fs') = store_run plain_time [(WriteFails None, OpSave (sample_entry ''a'')), (SaveOk, OpIncrement ''a'')]
      (empty_store, Map.empty) in
    map_option (\<lambda>i. en_Downloads (sd_Sessions (st_data s') ! i)) (GetSession ''a'' s') = Some 1)"
proof -
  let ?ops = "[(WriteFails None, OpSave (sample_entry ''a'')), (SaveOk, OpIncrement ''a'')]"
  obtain s' fs' where run: "store_run plain_time ?ops (empty_store, Map.empty) = (s', fs')"
    by (cases "store_run plain_time ?ops (empty_store, Map.empty)")
  have d: "codes_distinct empty_store" by (simp add: codes_distinct_def empty_store_def zero_store_def)
  have "map_option en_Downloads (map_option (\<lambda>i. sd_Sessions (st_data s') ! i) (GetSession ''a'' s')) = Some 1"
    using store_refines_map [OF d run [symmetric], of "''a''"]
    by (auto simp: sample_entry_def zero_entry_def)
  with d run show ?thesis by (simp add: option.map_comp o_def)
qed

section \<open>On disk: the image of a state\<close>

lemma tempFile_neq [simp]: "tempFile path \<noteq> path" "path \<noteq> tempFile path"
  by (simp_all add: tempFile_def)

lemma store_save_ok:
  assumes "time_text_ok T" "store_save T fault s fs = (None, fs')"
  shows "store_load T True (filePath s) fs' = Inr (st_data s)"
  using assms
  by (auto simp: store_save_def store_load_def unmarshal_marshal_store split: sum.splits save_fault.splits)

lemma store_save_failed:
  assumes "store_save T fault s fs = (Some err, fs')"
  shows "store_load T True (filePath s) fs' = store_load T True (filePath s) fs"
  using assms
  by (auto simp: store_save_def store_load_def split: sum.splits save_fault.splits option.splits if_splits)

lemma store_save_either:
  assumes "time_text_ok T"
  shows "store_load T True (filePath s) (snd (store_save T fault s fs)) = Inr (st_data s)
    \<or> store_load T True (filePath s) (snd (store_save T fault s fs)) = store_load T True (filePath s) fs"
  using assms store_save_ok store_save_failed by (cases "store_save T fault s fs") (metis option.exhaust snd_conv)

lemma set_sessions_path [simp]: "filePath (set_sessions es s) = filePath s"
  by (simp add: set_sessions_def)

lemma store_do_path [simp]: "filePath (fst (store_do T fop sf)) = filePath (fst sf)"
  by (auto simp: store_do_def split_beta GetAgentID_def GetRelayStaticPrivateKey_def SaveSession_def DeleteSession_def
      IncrementDownloads_def Let_def split: store_op.splits option.splits sum.splits prod.splits)

text \<open>Every call ends in one attempt to save the new state, or leaves everything as it is.\<close>

lemma store_do_saves:
  "(\<exists>fault. snd (store_do T fop sf) = snd (store_save T fault (fst (store_do T fop sf)) (snd sf))) \<or> store_do T fop sf = sf"
  by (auto simp: store_do_def split_beta GetAgentID_def GetRelayStaticPrivateKey_def SaveSession_def DeleteSession_def
      IncrementDownloads_def Let_def split: store_op.splits option.splits sum.splits prod.splits)

lemma store_do_image:
  assumes "time_text_ok T"
  shows "store_load T True (filePath (fst sf)) (snd (store_do T fop sf)) = Inr (st_data (fst (store_do T fop sf)))
    \<or> store_load T True (filePath (fst sf)) (snd (store_do T fop sf)) = store_load T True (filePath (fst sf)) (snd sf)"
  using store_do_saves [of T fop sf]
proof
  assume "\<exists>fault. snd (store_do T fop sf) = snd (store_save T fault (fst (store_do T fop sf)) (snd sf))"
  then show ?thesis
    using store_save_either [OF assms, of "fst (store_do T fop sf)"] by (metis store_do_path)
qed simp

lemma store_run_path [simp]: "filePath (fst (store_run T ops sf)) = filePath (fst sf)"
  unfolding store_run_def by (induction ops arbitrary: sf) simp_all

lemma store_run_snoc: "store_run T (ops @ [op]) sf = store_do T op (store_run T ops sf)"
  by (simp add: store_run_def)

lemma SaveSession_reported:
  assumes "time_text_ok T" "fst (SaveSession T fault e s fs) = None"
  shows "store_load T True (filePath s) (snd (snd (SaveSession T fault e s fs))) = Inr (st_data (fst (snd (SaveSession T fault e s fs))))"
proof -
  define s1 where "s1 = fst (snd (SaveSession T fault e s fs))"
  have s: "SaveSession T fault e s fs = (let (err, fs1) = store_save T fault s1 fs in (err, s1, fs1))"
    unfolding s1_def by (auto simp: SaveSession_def Let_def split_beta)
  have "filePath s1 = filePath s" unfolding s1_def by (auto simp: SaveSession_def Let_def split_beta split: option.splits)
  moreover have "store_save T fault s1 fs = (None, snd (store_save T fault s1 fs))"
    using assms(2) s by (simp add: prod_eq_iff split_beta)
  ultimately show ?thesis using store_save_ok [OF assms(1)] s by (metis (no_types, lifting) case_prod_conv snd_conv fst_conv)
qed

text \<open>
  (C16) A crash loses no more than the unsaved tail. Start with a store whose file holds its data. After any sequence of
  calls with any faults while saving, the file can be loaded and holds the data as they were in memory after some
  prefix of the calls; and a further \<^verbatim>\<open>SaveSession\<close> that reports success leaves the file with all of them.
\<close>

theorem store_survives_crash:
  assumes T: "time_text_ok T" and start: "store_load T True (filePath s) fs = Inr (st_data s)"
    and run: "(s', fs') = store_run T ops (s, fs)"
  shows "(\<exists>k\<le>length ops. store_load T True (filePath s) fs' = Inr (st_data (fst (store_run T (take k ops) (s, fs)))))
    \<and> (fst (SaveSession T fault e s' fs') = None \<longrightarrow>
        store_load T True (filePath s) (snd (snd (SaveSession T fault e s' fs')))
          = Inr (st_data (fst (snd (SaveSession T fault e s' fs')))))"
proof
  have "\<exists>k\<le>length ops. store_load T True (filePath s) (snd (store_run T ops (s, fs)))
      = Inr (st_data (fst (store_run T (take k ops) (s, fs))))"
  proof (induction ops rule: rev_induct)
    case Nil
    then show ?case using start by (simp add: store_run_def)
  next
    case (snoc op ops)
    then obtain k where k: "k \<le> length ops" "store_load T True (filePath s) (snd (store_run T ops (s, fs)))
        = Inr (st_data (fst (store_run T (take k ops) (s, fs))))" by blast
    from store_do_image [OF T, of "store_run T ops (s, fs)" op] show ?case
    proof
      assume "store_load T True (filePath (fst (store_run T ops (s, fs)))) (snd (store_do T op (store_run T ops (s, fs))))
        = Inr (st_data (fst (store_do T op (store_run T ops (s, fs)))))"
      then show ?thesis by (intro exI [of _ "Suc (length ops)"]) (simp add: store_run_snoc)
    next
      assume "store_load T True (filePath (fst (store_run T ops (s, fs)))) (snd (store_do T op (store_run T ops (s, fs))))
        = store_load T True (filePath (fst (store_run T ops (s, fs)))) (snd (store_run T ops (s, fs)))"
      with k show ?thesis by (intro exI [of _ k]) (simp add: store_run_snoc)
    qed
  qed
  then show "\<exists>k\<le>length ops. store_load T True (filePath s) fs' = Inr (st_data (fst (store_run T (take k ops) (s, fs))))"
    using run by (metis snd_conv)
  have "filePath s' = filePath s" using run store_run_path [of T ops "(s, fs)"] by (metis fst_conv)
  then show "fst (SaveSession T fault e s' fs') = None \<longrightarrow>
        store_load T True (filePath s) (snd (snd (SaveSession T fault e s' fs')))
          = Inr (st_data (fst (snd (SaveSession T fault e s' fs'))))"
    using SaveSession_reported [OF T, of fault e s' fs'] by simp
qed

lemma plain_time_ok: "time_text_ok plain_time"
  by (auto simp: time_text_ok_def plain_time_def split: if_splits)

lemma store_survives_crash_witness:
  "time_text_ok plain_time \<and> store_load plain_time True (filePath empty_store) Map.empty = Inr (st_data empty_store) \<and>
   (\<exists>k. store_load plain_time True (filePath empty_store)
      (snd (store_run plain_time [(SaveOk, OpSave (sample_entry ''a'')), (WriteFails (Some NotJson), OpDelete ''a'')]
        (empty_store, Map.empty)))
    = Inr (st_data (fst (store_run plain_time
        (take k [(SaveOk, OpSave (sample_entry ''a'')), (WriteFails (Some NotJson), OpDelete ''a'')])
        (empty_store, Map.empty)))))"
proof -
  let ?ops = "[(SaveOk, OpSave (sample_entry ''a'')), (WriteFails (Some NotJson), OpDelete ''a'')]"
  have l: "store_load plain_time True (filePath empty_store) Map.empty = Inr (st_data empty_store)"
    by (simp add: store_load_def empty_store_def)
  show ?thesis
    using plain_time_ok l store_survives_crash [OF plain_time_ok l, of _ _ ?ops, OF surjective_pairing [symmetric]] by blast
qed

section \<open>The relay identity\<close>

text \<open>
  A relay key that could not be saved is reported once and then used as if it had been. When saving the new key fails,
  \<^verbatim>\<open>GetRelayStaticPrivateKey\<close> returns the error but keeps the key in memory; the next call returns the key without
  an error and without saving it, while the file still has none, so that a restart draws another identity.
\<close>

theorem relay_key_reported_once:
  assumes "sd_RelayStaticPrivateHex (st_data s) = []" "raw \<noteq> []"
    and "GetRelayStaticPrivateKey T fault (Inr raw) s fs = (Inl err, s1, fs1)"
  shows "GetRelayStaticPrivateKey T fault2 priv2 s1 fs1 = (Inr raw, s1, fs1)
    \<and> store_load T True (filePath s) fs1 = store_load T True (filePath s) fs"
proof -
  let ?s = "s\<lparr>st_data := (st_data s)\<lparr>sd_RelayStaticPrivateHex := hexEncode raw\<rparr>\<rparr>"
  obtain e where e: "store_save T fault ?s fs = (Some e, fs1)" "s1 = ?s"
    using assms by (auto simp: GetRelayStaticPrivateKey_def Let_def split: prod.splits option.splits)
  show ?thesis using assms(2) e store_save_failed [OF e(1)] by (simp add: GetRelayStaticPrivateKey_def)
qed

lemma relay_key_reported_once_witness:
  "fst (GetRelayStaticPrivateKey plain_time SaveOk (Inr [2])
      (empty_store\<lparr>st_data := zero_store\<lparr>sd_RelayStaticPrivateHex := ''01''\<rparr>\<rparr>) Map.empty) = Inr [1]"
proof -
  have c: "GetRelayStaticPrivateKey plain_time (WriteFails None) (Inr [1]) empty_store Map.empty
    = (Inl (ErrWrap ''persist relay static key'' [] (Errorf ''failed to write temp file'' [])),
       empty_store\<lparr>st_data := zero_store\<lparr>sd_RelayStaticPrivateHex := ''01''\<rparr>\<rparr>, Map.empty)"
  proof -
    have "hexEncode [1] = ''01''" by code_simp
    then show ?thesis
      by (simp add: GetRelayStaticPrivateKey_def empty_store_def zero_store_def store_save_def marshal_store_def)
  qed
  show ?thesis
    using relay_key_reported_once [OF _ _ c, of SaveOk "Inr [2]"] by (simp add: empty_store_def zero_store_def)
qed

end
