(* ===== verification/Server_State.thy ===== *)
theory Server_State
  imports Relay_Registry "HOL-Library.State_Monad"
begin

text \<open>
  The state of the signaling server that its handlers share: the database, the hub, the relay registry and the
  websocket writes so far; and the database as a parameter. PocketBase is the record \<open>pocketbase\<close> of its
  operations on an abstract database state \<open>'d\<close>, with the contents of its collections as observations; \<open>pb_ok\<close> says what the
  handlers rely on: reads return rows that are there, writes change one row or fail and change nothing, codes are unique
  (the index of migration 1), and a transaction is all or nothing. Handlers are programs of the
  state monad. Times are integers in seconds, with zero for Go's zero time. A \<^verbatim>\<open>float64\<close> is its bit pattern and its arithmetic is
  the parameter \<open>f64_ops\<close>.
\<close>

section \<open>Rows\<close>

type_synonym f64 = "64 word"

record session_row =
  sr_id :: string
  sr_code :: string
  sr_api_key_id :: string
  sr_agent_id :: string
  sr_relay_only :: bool
  sr_relay_static_pub :: string
  sr_share_type :: string
  sr_is_password_protected :: bool
  sr_expires_at :: int

record key_row =
  kr_id :: string
  kr_account_id :: string
  kr_label :: string
  kr_is_active :: bool
  kr_key_hash :: string
  kr_last_used_at :: int
  kr_created :: int

record user_row =
  ur_id :: string
  ur_email :: string
  ur_relay_quota_gb :: f64
  ur_current_period_usage_gb :: f64
  ur_quota_period_start :: int
  ur_quota_period_end :: int

record usage_row =
  us_account_id :: string
  us_period_start :: int
  us_period_end :: int
  us_bytes_transferred :: "64 word"

section \<open>The database\<close>

record 'd pocketbase =
  pb_session :: "'d \<Rightarrow> string \<rightharpoonup> session_row"
  pb_key :: "'d \<Rightarrow> string \<rightharpoonup> key_row"
  pb_user :: "'d \<Rightarrow> string \<rightharpoonup> user_row"
  pb_usage :: "'d \<Rightarrow> usage_row list"
  FindCollection :: "string \<Rightarrow> 'd \<Rightarrow> goerr option"
  FindSessionByCode :: "string \<Rightarrow> 'd \<Rightarrow> session_row option result"
  FindSessionById :: "string \<Rightarrow> 'd \<Rightarrow> session_row result"
  SessionWithAccount :: "string \<Rightarrow> 'd \<Rightarrow> (string \<times> string \<times> string) option result"
  AllSessions :: "'d \<Rightarrow> session_row list result"
  InsertSession :: "session_row \<Rightarrow> 'd \<Rightarrow> goerr option \<times> 'd"
  UpdateSession :: "session_row \<Rightarrow> 'd \<Rightarrow> goerr option \<times> 'd"
  RemoveSession :: "session_row \<Rightarrow> 'd \<Rightarrow> goerr option \<times> 'd"
  MoveSessions :: "string \<Rightarrow> string \<Rightarrow> 'd \<Rightarrow> goerr option \<times> 'd"
  FindKey :: "string \<Rightarrow> 'd \<Rightarrow> key_row result"
  KeysOfAccount :: "string \<Rightarrow> 'd \<Rightarrow> key_row list result"
  InsertKey :: "key_row \<Rightarrow> 'd \<Rightarrow> key_row result \<times> 'd"
  UpdateKey :: "key_row \<Rightarrow> 'd \<Rightarrow> goerr option \<times> 'd"
  RemoveKey :: "key_row \<Rightarrow> 'd \<Rightarrow> goerr option \<times> 'd"
  FindUser :: "string \<Rightarrow> 'd \<Rightarrow> user_row result"
  UpdateUser :: "user_row \<Rightarrow> 'd \<Rightarrow> goerr option \<times> 'd"
  AddUserUsage :: "string \<Rightarrow> f64 \<Rightarrow> 'd \<Rightarrow> goerr option \<times> 'd"
  InsertUsage :: "usage_row \<Rightarrow> 'd \<Rightarrow> goerr option \<times> 'd"
  pb_begin :: "'d \<Rightarrow> 'd"
  pb_commit :: "'d \<Rightarrow> 'd \<Rightarrow> goerr option \<times> 'd"
  pb_rollback :: "'d \<Rightarrow> 'd \<Rightarrow> 'd"

definition pb_same :: "'d pocketbase \<Rightarrow> 'd \<Rightarrow> 'd \<Rightarrow> bool" where
  "pb_same P d d' \<longleftrightarrow> pb_session P d' = pb_session P d \<and> pb_key P d' = pb_key P d
     \<and> pb_user P d' = pb_user P d \<and> pb_usage P d' = pb_usage P d"

text \<open>A write to one collection: on success \<open>change\<close> describes its new content, and a failure changes nothing.\<close>

definition session_write :: "'d pocketbase \<Rightarrow> 'd \<Rightarrow> goerr option \<times> 'd \<Rightarrow> (string \<rightharpoonup> session_row) \<Rightarrow> bool" where
  "session_write P d res content \<longleftrightarrow>
     (case fst res of
        Some _ \<Rightarrow> pb_same P d (snd res)
      | None \<Rightarrow> pb_session P (snd res) = content \<and> pb_key P (snd res) = pb_key P d
                \<and> pb_user P (snd res) = pb_user P d \<and> pb_usage P (snd res) = pb_usage P d)"

definition move_row :: "string \<Rightarrow> string \<Rightarrow> session_row \<Rightarrow> session_row" where
  "move_row old new r = (if sr_api_key_id r = old then r\<lparr>sr_api_key_id := new\<rparr> else r)"

definition sessions_ok :: "'d pocketbase \<Rightarrow> bool" where
  "sessions_ok P \<longleftrightarrow> (\<forall>d.
     (\<forall>c r. pb_session P d c = Some r \<longrightarrow> sr_code r = c)
     \<and> (\<forall>c c' r r'. pb_session P d c = Some r \<longrightarrow> pb_session P d c' = Some r' \<longrightarrow> sr_id r = sr_id r' \<longrightarrow> c = c')
     \<and> (\<forall>c r. FindSessionByCode P c d = Inr r \<longrightarrow> pb_session P d c = r)
     \<and> (\<forall>i r. FindSessionById P i d = Inr r \<longrightarrow> sr_id r = i \<and> pb_session P d (sr_code r) = Some r)
     \<and> (\<forall>c. SessionWithAccount P c d = Inr None \<longrightarrow>
          (\<forall>r. pb_session P d c = Some r \<longrightarrow> pb_key P d (sr_api_key_id r) = None))
     \<and> (\<forall>c i a g. SessionWithAccount P c d = Inr (Some (i, a, g)) \<longrightarrow>
          (\<exists>r k. pb_session P d c = Some r \<and> pb_key P d (sr_api_key_id r) = Some k
             \<and> i = sr_id r \<and> a = kr_account_id k \<and> g = sr_agent_id r))
     \<and> (\<forall>r. pb_session P d (sr_code r) \<noteq> None \<longrightarrow> fst (InsertSession P r d) \<noteq> None)
     \<and> (\<forall>r. fst (InsertSession P r d) = None \<longrightarrow> (\<exists>i. session_write P d (InsertSession P r d) ((pb_session P d)(sr_code r \<mapsto> r\<lparr>sr_id := i\<rparr>))))
     \<and> (\<forall>r. fst (InsertSession P r d) \<noteq> None \<longrightarrow> pb_same P d (snd (InsertSession P r d)))
     \<and> (\<forall>r r0. pb_session P d (sr_code r) = Some r0 \<longrightarrow> sr_id r = sr_id r0 \<longrightarrow>
          session_write P d (UpdateSession P r d) ((pb_session P d)(sr_code r \<mapsto> r)))
     \<and> (\<forall>r r0. pb_session P d (sr_code r) = Some r0 \<longrightarrow> sr_id r = sr_id r0 \<longrightarrow>
          session_write P d (RemoveSession P r d) ((pb_session P d)(sr_code r := None)))
     \<and> (\<forall>old new. session_write P d (MoveSessions P old new d)
          (\<lambda>c. map_option (move_row old new) (pb_session P d c))))"

definition keys_ok :: "'d pocketbase \<Rightarrow> bool" where
  "keys_ok P \<longleftrightarrow> (\<forall>d.
     (\<forall>i k. FindKey P i d = Inr k \<longrightarrow> pb_key P d i = Some k)
     \<and> (\<forall>i k. pb_key P d i = Some k \<longrightarrow> kr_id k = i)
     \<and> (\<forall>k err. fst (InsertKey P k d) = Inl err \<longrightarrow> pb_same P d (snd (InsertKey P k d)))
     \<and> (\<forall>k k'. fst (InsertKey P k d) = Inr k' \<longrightarrow>
          (\<exists>i t. k' = k\<lparr>kr_id := i, kr_created := t\<rparr> \<and> i \<noteq> [] \<and> pb_key P d i = None
             \<and> pb_key P (snd (InsertKey P k d)) = (pb_key P d)(i \<mapsto> k')
             \<and> pb_session P (snd (InsertKey P k d)) = pb_session P d))
     \<and> (\<forall>k. fst (UpdateKey P k d) \<noteq> None \<longrightarrow> pb_same P d (snd (UpdateKey P k d)))
     \<and> (\<forall>k. pb_key P d (kr_id k) \<noteq> None \<longrightarrow> fst (UpdateKey P k d) = None \<longrightarrow>
          pb_key P (snd (UpdateKey P k d)) = (pb_key P d)(kr_id k \<mapsto> k)
          \<and> pb_session P (snd (UpdateKey P k d)) = pb_session P d))"

definition transactions_ok :: "'d pocketbase \<Rightarrow> bool" where
  "transactions_ok P \<longleftrightarrow> (\<forall>d d'.
     pb_same P d (pb_begin P d) \<and> pb_same P d (pb_rollback P d d')
     \<and> (fst (pb_commit P d d') = None \<longrightarrow> pb_same P d' (snd (pb_commit P d d')))
     \<and> (fst (pb_commit P d d') \<noteq> None \<longrightarrow> pb_same P d (snd (pb_commit P d d'))))"

definition pb_ok :: "'d pocketbase \<Rightarrow> bool" where
  "pb_ok P \<longleftrightarrow> sessions_ok P \<and> keys_ok P \<and> transactions_ok P"

text \<open>\<^verbatim>\<open>app.RunInTransaction\<close>: the body's error rolls everything back.\<close>

definition RunInTransaction :: "'d pocketbase \<Rightarrow> ('d \<Rightarrow> 'a result \<times> 'd) \<Rightarrow> 'd \<Rightarrow> 'a result \<times> 'd" where
  "RunInTransaction P body d =
     (case body (pb_begin P d) of
        (Inl err, d1) \<Rightarrow> (Inl err, pb_rollback P d d1)
      | (Inr a, d1) \<Rightarrow>
          (case pb_commit P d d1 of (Some err, d2) \<Rightarrow> (Inl err, d2) | (None, d2) \<Rightarrow> (Inr a, d2)))"

lemma RunInTransaction_error:
  assumes "transactions_ok P" "RunInTransaction P body d = (Inl err, d')"
  shows "pb_same P d d'"
  using assms
  by (auto simp: RunInTransaction_def transactions_ok_def split: prod.splits sum.splits option.splits)
    (metis fst_conv snd_conv option.distinct(1))

lemma RunInTransaction_ok:
  assumes "transactions_ok P" "RunInTransaction P body d = (Inr a, d')"
  shows "\<exists>d0 d1. pb_same P d d0 \<and> body d0 = (Inr a, d1) \<and> pb_same P d1 d'"
proof -
  have b: "pb_same P d (pb_begin P d)" using assms(1) by (simp add: transactions_ok_def)
  obtain d1 where d1: "body (pb_begin P d) = (Inr a, d1)" "pb_commit P d d1 = (None, d')"
    using assms(2) by (auto simp: RunInTransaction_def split: prod.splits sum.splits option.splits)
  have "pb_same P d1 d'" using assms(1) d1(2) by (metis transactions_ok_def fst_conv snd_conv)
  with b d1(1) show ?thesis by blast
qed

lemma RunInTransaction_body_error:
  assumes "body (pb_begin P d) = (Inl err, d1)"
  shows "fst (RunInTransaction P body d) = Inl err"
  using assms by (simp add: RunInTransaction_def)

section \<open>Handlers as programs\<close>

record 'd server =
  sv_db :: 'd
  sv_hub :: Hub
  sv_reg :: "Registry option"
  sv_out :: "hub_effect list"

type_synonym ('d, 'a) srv = "('d server, 'a) state"

definition db_read :: "('d \<Rightarrow> 'a) \<Rightarrow> ('d, 'a) srv" where
  "db_read f = State (\<lambda>s. (f (sv_db s), s))"

definition db_write :: "('d \<Rightarrow> 'a \<times> 'd) \<Rightarrow> ('d, 'a) srv" where
  "db_write f = State (\<lambda>s. (fst (f (sv_db s)), s\<lparr>sv_db := snd (f (sv_db s))\<rparr>))"

definition hub_read :: "(Hub \<Rightarrow> 'a) \<Rightarrow> ('d, 'a) srv" where
  "hub_read f = State (\<lambda>s. (f (sv_hub s), s))"

definition hub_call :: "(Hub \<Rightarrow> 'a \<times> hub_effect list \<times> Hub) \<Rightarrow> ('d, 'a) srv" where
  "hub_call f = State (\<lambda>s. case f (sv_hub s) of (a, effs, h) \<Rightarrow> (a, s\<lparr>sv_hub := h, sv_out := sv_out s @ effs\<rparr>))"

definition hub_upd :: "(Hub \<Rightarrow> Hub) \<Rightarrow> ('d, unit) srv" where
  "hub_upd f = State (\<lambda>s. ((), s\<lparr>sv_hub := f (sv_hub s)\<rparr>))"

definition emit :: "hub_effect \<Rightarrow> ('d, unit) srv" where
  "emit e = State (\<lambda>s. ((), s\<lparr>sv_out := sv_out s @ [e]\<rparr>))"

lemma run_srv [simp]:
  "run_state (db_read f) s = (f (sv_db s), s)"
  "run_state (db_write g) s = (fst (g (sv_db s)), s\<lparr>sv_db := snd (g (sv_db s))\<rparr>)"
  "run_state (hub_read i) s = (i (sv_hub s), s)"
  "run_state (hub_call j) s = (case j (sv_hub s) of (a, effs, h) \<Rightarrow> (a, s\<lparr>sv_hub := h, sv_out := sv_out s @ effs\<rparr>))"
  "run_state (hub_upd k) s = ((), s\<lparr>sv_hub := k (sv_hub s)\<rparr>)"
  "run_state (emit e) s = ((), s\<lparr>sv_out := sv_out s @ [e]\<rparr>)"
  by (simp_all add: db_read_def db_write_def hub_read_def hub_call_def hub_upd_def emit_def)

text \<open>
  The package function \<^verbatim>\<open>hub.SendDirect\<close> writes without the connection's mutex; the error of the write is dropped by
  every caller.
\<close>

definition pkg_SendDirect :: "ptr \<Rightarrow> json \<Rightarrow> ('d, unit) srv" where
  "pkg_SendDirect conn msg = emit (HSend conn msg)"

definition hub_SendDirect :: "ptr \<Rightarrow> json \<Rightarrow> ('d, unit) srv" where
  "hub_SendDirect conn msg = hub_call (\<lambda>h. let (_, effs, h1) = SendDirect None conn msg h in ((), effs, h1))"

end
