(* ===== verification/Server_Agent.thy ===== *)
theory Server_Agent
  imports Server_State
begin

text \<open>
  The agents' websocket, \<^verbatim>\<open>signaling-server/internal/handler/agent_ws.go\<close>, with \<^verbatim>\<open>turn/ice_config.go\<close>. The loop's local
  variables are the record \<open>agent_sock\<close>; \<open>AgentWS_message\<close> is one turn of the loop. What a turn draws from outside (the clock,
  random bytes) is the record \<open>srv_env\<close>.
\<close>

section \<open>Messages and configuration\<close>

record agentMsg =
  am_Type :: string
  am_AgentID :: string
  am_Code :: string
  am_ExpiresAt :: "int option"
  am_SessionID :: string
  am_SDP :: string
  am_Candidate :: json
  am_ConnID :: string
  am_Value :: string
  am_HasPassword :: bool
  am_RelayOnly :: "bool option"
  am_RelayStaticPub :: string
  am_ShareType :: string
  am_IsPasswordProtected :: bool

record srv_config =
  cf_STUNURL :: string
  cf_RelayJWTSecret :: string

text \<open>
  \<open>ev_codeDigits k\<close> are the eight random numbers that the \<open>k\<close>-th call of \<^verbatim>\<open>generateRandomCode\<close> draws, or \<open>None\<close> when the
  random source fails.
\<close>

record srv_env =
  ev_now :: int
  ev_rfc3339 :: "int \<Rightarrow> string"
  ev_codeDigits :: "nat \<Rightarrow> nat list option"
  ev_sid :: bytes
  ev_jti :: bytes
  ev_connID :: bytes
  ev_f64_ge :: "f64 \<Rightarrow> f64 \<Rightarrow> bool"

record agent_sock =
  as_conn :: nat
  as_apiKeyID :: string
  as_accountID :: string
  as_agentID :: string

abbreviation as_ptr :: "agent_sock \<Rightarrow> ptr" where
  "as_ptr k \<equiv> Some (as_conn k)"

section \<open>ICE servers\<close>

record Credentials =
  cr_Username :: string
  cr_Credential :: string

record ICEServer =
  is_URLs :: "string list"
  is_Username :: string
  is_Credential :: string

record ICEConfigRequest =
  iq_STUNURL :: string
  iq_TurnURL :: string
  iq_Credentials :: "Credentials option"

definition BuildICEConfig :: "ICEConfigRequest \<Rightarrow> ICEServer list" where
  "BuildICEConfig cfg =
     \<lparr>is_URLs = [iq_STUNURL cfg], is_Username = [], is_Credential = []\<rparr> #
     (case iq_Credentials cfg of
        Some c \<Rightarrow> if iq_TurnURL cfg \<noteq> []
                  then [\<lparr>is_URLs = [iq_TurnURL cfg], is_Username = cr_Username c, is_Credential = cr_Credential c\<rparr>] else []
      | None \<Rightarrow> [])"

definition ice_json :: "ICEServer \<Rightarrow> json" where
  "ice_json i = JObj ([(''urls'', JArr (map JStr (is_URLs i)))]
     @ (if is_Username i = [] then [] else [(''username'', JStr (is_Username i))])
     @ (if is_Credential i = [] then [] else [(''credential'', JStr (is_Credential i))]))"

definition stun_servers :: "srv_config \<Rightarrow> json" where
  "stun_servers cfg = JArr (map ice_json
     (BuildICEConfig \<lparr>iq_STUNURL = cf_STUNURL cfg, iq_TurnURL = [], iq_Credentials = None\<rparr>))"

section \<open>Share codes\<close>

definition code_char :: "char \<Rightarrow> bool" where
  "code_char c \<longleftrightarrow> (let n = of_char c :: nat in
     48 \<le> n \<and> n \<le> 57 \<or> 65 \<le> n \<and> n \<le> 90 \<or> 97 \<le> n \<and> n \<le> 122 \<or> c = CHR ''_'' \<or> c = CHR ''-'')"

definition externalCodeRegex :: "string \<Rightarrow> bool" where
  "externalCodeRegex s \<longleftrightarrow> 8 \<le> length s \<and> length s \<le> 128 \<and> list_all code_char s"

definition charset :: string where
  "charset = ''abcdefghijklmnopqrstuvwxyz0123456789''"

definition generateRandomCode :: "nat list option \<Rightarrow> string result" where
  "generateRandomCode rnd =
     (case rnd of None \<Rightarrow> Inl (Errorf ''random source failed'' []) | Some digits \<Rightarrow> Inr (map (\<lambda>i. charset ! i) digits))"

section \<open>Sessions in the database\<close>

definition errCodeAlreadyInUse :: goerr where "errCodeAlreadyInUse = Errorf ''code already in use'' []"

definition errOtherAgent :: goerr where "errOtherAgent = Errorf ''session owned by different agent'' []"

definition createSession ::
  "'d pocketbase \<Rightarrow> string \<Rightarrow> string \<Rightarrow> string \<Rightarrow> int option \<Rightarrow> bool \<Rightarrow> string \<Rightarrow> string \<Rightarrow> bool \<Rightarrow> 'd \<Rightarrow> goerr option \<times> 'd" where
  "createSession P code apiKeyID agentID expiresAt relayOnly relayStaticPub shareType isPasswordProtected d =
     (if FindCollection P ''sessions'' d \<noteq> None then (FindCollection P ''sessions'' d, d)
      else InsertSession P \<lparr>sr_id = [], sr_code = code, sr_api_key_id = apiKeyID, sr_agent_id = agentID,
       sr_relay_only = relayOnly, sr_relay_static_pub = relayStaticPub, sr_share_type = shareType,
       sr_is_password_protected = isPasswordProtected,
       sr_expires_at = (case expiresAt of None \<Rightarrow> 0 | Some t \<Rightarrow> t)\<rparr> d)"

definition getSessionByCode :: "'d pocketbase \<Rightarrow> string \<Rightarrow> 'd \<Rightarrow> session_row option result" where
  "getSessionByCode P code d = FindSessionByCode P code d"

definition claim_body ::
  "'d pocketbase \<Rightarrow> string \<Rightarrow> string \<Rightarrow> string \<Rightarrow> string \<Rightarrow> int option \<Rightarrow> bool option \<Rightarrow> string \<Rightarrow> string \<Rightarrow> bool
   \<Rightarrow> 'd \<Rightarrow> (session_row option \<times> bool) result \<times> 'd" where
  "claim_body P code apiKeyID accountID agentID expiresAt relayOnly relayStaticPub shareType isPasswordProtected d =
     (case SessionWithAccount P code d of
        Inl err \<Rightarrow> (Inl err, d)
      | Inr None \<Rightarrow>
          let createRelayOnly = (case relayOnly of None \<Rightarrow> False | Some b \<Rightarrow> b) in
          (case createSession P code apiKeyID agentID expiresAt createRelayOnly relayStaticPub shareType isPasswordProtected d of
             (Some err, d1) \<Rightarrow> (Inl err, d1)
           | (None, d1) \<Rightarrow>
               (case getSessionByCode P code d1 of
                  Inl getErr \<Rightarrow> (Inl getErr, d1)
                | Inr record \<Rightarrow> (Inr (record, False), d1)))
      | Inr (Some (existingSessionID, existingAccountID, existingAgentID)) \<Rightarrow>
          if existingAccountID \<noteq> accountID then (Inl errCodeAlreadyInUse, d)
          else if existingAgentID \<noteq> [] \<and> existingAgentID \<noteq> agentID then (Inl errOtherAgent, d)
          else
            (case FindSessionById P existingSessionID d of
               Inl err \<Rightarrow> (Inl err, d)
             | Inr record \<Rightarrow>
                 let record1 = record\<lparr>sr_api_key_id := apiKeyID, sr_agent_id := agentID,
                       sr_relay_only := (case relayOnly of None \<Rightarrow> sr_relay_only record | Some b \<Rightarrow> b),
                       sr_relay_static_pub := relayStaticPub, sr_share_type := shareType,
                       sr_is_password_protected := isPasswordProtected,
                       sr_expires_at := (case expiresAt of None \<Rightarrow> sr_expires_at record | Some t \<Rightarrow> t)\<rparr>
                 in (case UpdateSession P record1 d of
                       (Some err, d1) \<Rightarrow> (Inl err, d1)
                     | (None, d1) \<Rightarrow> (Inr (Some record1, True), d1))))"

definition claimSessionCode ::
  "'d pocketbase \<Rightarrow> string \<Rightarrow> string \<Rightarrow> string \<Rightarrow> string \<Rightarrow> int option \<Rightarrow> bool option \<Rightarrow> string \<Rightarrow> string \<Rightarrow> bool
   \<Rightarrow> 'd \<Rightarrow> (session_row option \<times> bool) result \<times> 'd" where
  "claimSessionCode P code apiKeyID accountID agentID expiresAt relayOnly relayStaticPub shareType isPasswordProtected =
     RunInTransaction P
       (claim_body P code apiKeyID accountID agentID expiresAt relayOnly relayStaticPub shareType isPasswordProtected)"

section \<open>Handlers\<close>

definition reply_error :: "agent_sock \<Rightarrow> string \<Rightarrow> ('d, unit) srv" where
  "reply_error k message = pkg_SendDirect (as_ptr k) (errorMsg message)"

definition handleHello :: "srv_config \<Rightarrow> agent_sock \<Rightarrow> string \<Rightarrow> ('d, unit) srv" where
  "handleHello cfg k agentID =
     (if agentID = [] then reply_error k ''agent_id required''
      else do {
        hub_upd (RegisterAgent (as_apiKeyID k) (as_ptr k));
        pkg_SendDirect (as_ptr k) (JObj [(''type'', JStr ''welcome''), (''ice_servers'', stun_servers cfg)])
      })"

text \<open>
  The loop that draws codes: \<open>fuel\<close> is the number of attempts left, \<open>n\<close> the number of codes drawn. The result is the
  code, or the error message to send.
\<close>

fun createWithRandomCode ::
  "'d pocketbase \<Rightarrow> srv_env \<Rightarrow> agent_sock \<Rightarrow> agentMsg \<Rightarrow> nat \<Rightarrow> nat \<Rightarrow> string \<Rightarrow> 'd \<Rightarrow> (string + string) \<times> 'd" where
  "createWithRandomCode P E k msg 0 n code d = (Inl ''code collision, try again'', d)"
| "createWithRandomCode P E k msg (Suc fuel) n code d =
     (let relayOnly = (case am_RelayOnly msg of None \<Rightarrow> False | Some b \<Rightarrow> b) in
      case createSession P code (as_apiKeyID k) (as_agentID k) (am_ExpiresAt msg) relayOnly (am_RelayStaticPub msg) [] False d of
        (None, d1) \<Rightarrow> (Inr code, d1)
      | (Some _, d1) \<Rightarrow>
          (case generateRandomCode (ev_codeDigits E n) of
             Inl _ \<Rightarrow> (Inl ''failed to generate code'', d1)
           | Inr code1 \<Rightarrow> createWithRandomCode P E k msg fuel (Suc n) code1 d1))"

definition chooseCode ::
  "'d pocketbase \<Rightarrow> srv_env \<Rightarrow> agent_sock \<Rightarrow> agentMsg \<Rightarrow> 'd \<Rightarrow> (string + string \<times> bool) \<times> 'd" where
  "chooseCode P E k msg d =
     (if am_Code msg = [] then
        (case generateRandomCode (ev_codeDigits E 0) of
           Inl _ \<Rightarrow> (Inl ''failed to generate code'', d)
         | Inr code \<Rightarrow>
             (case createWithRandomCode P E k msg 5 1 code d of
                (Inl message, d1) \<Rightarrow> (Inl message, d1)
              | (Inr code1, d1) \<Rightarrow> (Inr (code1, False), d1)))
      else if \<not> externalCodeRegex (am_Code msg) then
        (Inl ''invalid external code format (8-128 chars, alphanumeric + hyphen + underscore)'', d)
      else
        (case claimSessionCode P (am_Code msg) (as_apiKeyID k) (as_accountID k) (as_agentID k) (am_ExpiresAt msg)
                (am_RelayOnly msg) (am_RelayStaticPub msg) (am_ShareType msg) (am_IsPasswordProtected msg) d of
           (Inl err, d1) \<Rightarrow>
             (Inl (if err = errCodeAlreadyInUse then ''code already in use''
                   else if err = errOtherAgent then ''session owned by different agent''
                   else ''database error''), d1)
         | (Inr (None, _), d1) \<Rightarrow> (Inl ''failed to retrieve session'', d1)
         | (Inr (Some _, reclaimed), d1) \<Rightarrow> (Inr (am_Code msg, reclaimed), d1)))"

definition handleRegisterShare :: "'d pocketbase \<Rightarrow> srv_env \<Rightarrow> agent_sock \<Rightarrow> agentMsg \<Rightarrow> ('d, unit) srv" where
  "handleRegisterShare P E k msg = do {
     chosen \<leftarrow> db_write (chooseCode P E k msg);
     case chosen of
       Inl message \<Rightarrow> reply_error k message
     | Inr (code, reconnected) \<Rightarrow> do {
         hub_upd (RegisterCode code (as_apiKeyID k));
         session \<leftarrow> db_read (getSessionByCode P code);
         case session of
           Inr (Some r) \<Rightarrow>
             pkg_SendDirect (as_ptr k) (JObj ([(''type'', JStr ''share_registered''), (''code'', JStr code),
               (''reconnected'', JBool reconnected)]
               @ (if sr_expires_at r = 0 then [] else [(''expires_at'', JStr (ev_rfc3339 E (sr_expires_at r)))])))
         | _ \<Rightarrow> reply_error k ''failed to retrieve session''
       }
   }"

definition share_unregistered :: "string \<Rightarrow> json" where
  "share_unregistered code = JObj [(''type'', JStr ''share_unregistered''), (''code'', JStr code)]"

definition handleUnregisterShare :: "'d pocketbase \<Rightarrow> agent_sock \<Rightarrow> string \<Rightarrow> ('d, unit) srv" where
  "handleUnregisterShare P k code =
     (if code = [] then reply_error k ''code required''
      else if \<not> externalCodeRegex code then
        reply_error k ''invalid external code format (8-128 chars, alphanumeric + hyphen + underscore)''
      else do {
        session \<leftarrow> db_read (getSessionByCode P code);
        case session of
          Inl _ \<Rightarrow> reply_error k ''database error''
        | Inr None \<Rightarrow> pkg_SendDirect (as_ptr k) (share_unregistered code)
        | Inr (Some r) \<Rightarrow>
            if sr_api_key_id r \<noteq> as_apiKeyID k then reply_error k ''session not owned by this api key''
            else do {
              err \<leftarrow> db_write (RemoveSession P r);
              if err \<noteq> None then reply_error k ''database error''
              else do {
                hub_call (\<lambda>h. let (effs, h1) = UnregisterCode None code (as_apiKeyID k) ''share has been removed'' h
                             in ((), effs, h1));
                pkg_SendDirect (as_ptr k) (share_unregistered code)
              }
            }
      })"

section \<open>A browser has authenticated\<close>

definition checkRelayQuota :: "srv_env \<Rightarrow> user_row \<Rightarrow> bool \<times> int" where
  "checkRelayQuota E u = (ev_f64_ge E (ur_current_period_usage_gb u) (ur_relay_quota_gb u), ur_quota_period_end u)"

text \<open>
  Whether the relay may be used: \<open>None\<close> when the account cannot be looked up, on which the handler gives up.
\<close>

definition relayAllowed :: "'d pocketbase \<Rightarrow> srv_env \<Rightarrow> srv_config \<Rightarrow> string \<Rightarrow> session_row \<Rightarrow> 'd server \<Rightarrow> bool option" where
  "relayAllowed P E cfg accountID r s =
     (if sv_reg s \<noteq> None \<and> cf_RelayJWTSecret cfg \<noteq> [] \<and> sr_relay_static_pub r \<noteq> [] then
        (case FindUser P accountID (sv_db s) of
           Inl _ \<Rightarrow> None
         | Inr u \<Rightarrow> Some (\<not> fst (checkRelayQuota E u)))
      else Some False)"

definition pending_of :: "srv_env \<Rightarrow> agent_sock \<Rightarrow> string \<Rightarrow> session_row \<Rightarrow> PendingSession" where
  "pending_of E k code r =
     \<lparr>ps_SID = NewSID (ev_sid E), ps_AccountID = as_accountID k, ps_SessionCode = code, ps_AgentID = as_agentID k,
      ps_RelayAllowed = True, ps_RelayOnly = sr_relay_only r, ps_ExpectedStaticPub = sr_relay_static_pub r,
      ps_JTI = NewJTI (ev_jti E), ps_ExpiresAt = ev_now E + TokenLifetime\<rparr>"

definition browser_claims :: "srv_env \<Rightarrow> string \<Rightarrow> session_row \<Rightarrow> BrowserPolicyClaims" where
  "browser_claims E code r =
     \<lparr>bp_SID = NewSID (ev_sid E), bp_SessionCode = code, bp_RelayAllowed = True, bp_RelayOnly = sr_relay_only r,
      bp_ExpectedStaticPub = sr_relay_static_pub r, bp_Purpose = [], bp_ID = NewJTI (ev_jti E)\<rparr>"

definition agent_claims :: "srv_env \<Rightarrow> agent_sock \<Rightarrow> AgentRelayClaims" where
  "agent_claims E k = \<lparr>ar_SID = NewSID (ev_sid E), ar_AgentID = as_agentID k, ar_Purpose = [], ar_ID = []\<rparr>"

text \<open>\<open>None\<close> when the pending session cannot be created, on which the handler gives up; otherwise the browser's token.\<close>

definition prepareRelay ::
  "string jwt_lib \<Rightarrow> srv_env \<Rightarrow> srv_config \<Rightarrow> agent_sock \<Rightarrow> string \<Rightarrow> session_row \<Rightarrow> ('d, string option) srv" where
  "prepareRelay J E cfg k code r =
     State (\<lambda>s. case sv_reg s of
        None \<Rightarrow> (None, s)
      | Some reg \<Rightarrow>
          let browserJWT = SignBrowserPolicyJWT J (cf_RelayJWTSecret cfg) (browser_claims E code r) (ev_now E);
              agentJWT = SignAgentRelayJWT J (cf_RelayJWTSecret cfg) (agent_claims E k) (ev_now E)
          in case CreatePendingSession (pending_of E k code r) reg of
               (Some _, reg1) \<Rightarrow> (None, s\<lparr>sv_reg := Some reg1\<rparr>)
             | (None, reg1) \<Rightarrow>
                 (Some browserJWT,
                  s\<lparr>sv_reg := Some reg1,
                    sv_out := sv_out s @ [HSend (as_ptr k) (JObj [(''type'', JStr ''relay_prepare''),
                      (''sid'', JStr (NewSID (ev_sid E))), (''code'', JStr code),
                      (''expires_at'', JStr (ev_rfc3339 E (ev_now E + TokenLifetime))), (''relay_jwt'', JStr agentJWT)])]\<rparr>))"

definition to_browser :: "agent_sock \<Rightarrow> string \<Rightarrow> json \<Rightarrow> ('d, unit) srv" where
  "to_browser k connID msg =
     hub_call (\<lambda>h. let (_, effs, h1) = ForwardToBrowserByConnID None (as_apiKeyID k) (as_ptr k) connID msg h in ((), effs, h1))"

definition relay_policy :: "string \<Rightarrow> bool \<Rightarrow> bool \<Rightarrow> json" where
  "relay_policy token allowed relayOnly = JObj [(''type'', JStr ''relay_policy''), (''token'', JStr token),
     (''relay_allowed'', JBool allowed), (''relay_only'', JBool relayOnly)]"

definition handleAuthOk ::
  "'d pocketbase \<Rightarrow> string jwt_lib \<Rightarrow> srv_env \<Rightarrow> srv_config \<Rightarrow> agent_sock \<Rightarrow> agentMsg \<Rightarrow> ('d, unit) srv" where
  "handleAuthOk P J E cfg k msg = do {
     bound \<leftarrow> hub_read (BrowserSessionForAgent (as_apiKeyID k) (as_ptr k) (am_ConnID msg));
     if bound \<noteq> Some (am_Code msg) then State_Monad.return ()
     else do {
       session \<leftarrow> db_read (getSessionByCode P (am_Code msg));
       case session of
         Inr (Some r) \<Rightarrow>
           if sr_api_key_id r \<noteq> as_apiKeyID k then State_Monad.return ()
           else do {
             s \<leftarrow> State_Monad.get;
             case relayAllowed P E cfg (as_accountID k) r s of
               None \<Rightarrow> State_Monad.return ()
             | Some False \<Rightarrow> to_browser k (am_ConnID msg) (relay_policy [] False (sr_relay_only r))
             | Some True \<Rightarrow> do {
                 token \<leftarrow> prepareRelay J E cfg k (am_Code msg) r;
                 case token of
                   None \<Rightarrow> State_Monad.return ()
                 | Some browserJWT \<Rightarrow> to_browser k (am_ConnID msg) (relay_policy browserJWT True (sr_relay_only r))
               }
           }
       | _ \<Rightarrow> State_Monad.return ()
     }
   }"

section \<open>Failed authentication\<close>

definition attempts_message :: "string \<Rightarrow> int \<Rightarrow> json" where
  "attempts_message type n = JObj [(''type'', JStr type), (''attempts_remaining'', JInt n)]"

definition handleFailure ::
  "(string \<Rightarrow> ptr \<Rightarrow> string \<Rightarrow> Hub \<Rightarrow> int \<times> Hub) \<Rightarrow> int \<Rightarrow> string \<Rightarrow> agent_sock \<Rightarrow> string \<Rightarrow> ('d, unit) srv" where
  "handleFailure increment limit type k connID = do {
     failures \<leftarrow> hub_call (\<lambda>h. let (n, h1) = increment (as_apiKeyID k) (as_ptr k) connID h in (n, [], h1));
     if failures = 0 then State_Monad.return ()
     else if failures \<ge> limit then
       hub_call (\<lambda>h. let (effs, h1) = CloseBrowserConnWithError None (as_apiKeyID k) (as_ptr k) connID
                                        ''too many incorrect password attempts'' h
                    in ((), effs, h1))
     else to_browser k connID (attempts_message type (limit - failures))
   }"

definition handleAuthFail :: "agent_sock \<Rightarrow> string \<Rightarrow> ('d, unit) srv" where
  "handleAuthFail k connID = handleFailure IncrementImmichAuthFailure 5 ''auth_fail'' k connID"

definition handleAuthFailed :: "agent_sock \<Rightarrow> string \<Rightarrow> ('d, unit) srv" where
  "handleAuthFailed k connID = handleFailure IncrementAuthFailure 3 ''auth_failed'' k connID"

section \<open>The loop\<close>

definition to_session :: "agent_sock \<Rightarrow> string \<Rightarrow> json \<Rightarrow> ('d, unit) srv" where
  "to_session k sessionID msg =
     hub_call (\<lambda>h. let (_, effs, h1) = ForwardToBrowser None (as_apiKeyID k) (as_ptr k) sessionID msg h in ((), effs, h1))"

definition agent_dispatch ::
  "'d pocketbase \<Rightarrow> string jwt_lib \<Rightarrow> srv_env \<Rightarrow> srv_config \<Rightarrow> agent_sock \<Rightarrow> agentMsg \<Rightarrow> ('d, unit) srv" where
  "agent_dispatch P J E cfg k msg =
     (if am_Type msg = ''register_share'' then
        (if as_agentID k = [] then reply_error k ''hello required before register_share'' else handleRegisterShare P E k msg)
      else if as_agentID k = [] then State_Monad.return ()
      else if am_Type msg = ''unregister_share'' then handleUnregisterShare P k (am_Code msg)
      else if am_Type msg = ''offer'' then
        to_session k (am_SessionID msg) (JObj [(''type'', JStr ''offer''), (''sdp'', JStr (am_SDP msg))])
      else if am_Type msg = ''ice_candidate'' then
        to_session k (am_SessionID msg) (JObj [(''type'', JStr ''ice_candidate''), (''candidate'', am_Candidate msg)])
      else if am_Type msg = ''nonce'' then
        to_browser k (am_ConnID msg) (JObj [(''type'', JStr ''nonce''), (''conn_id'', JStr (am_ConnID msg)),
          (''value'', JStr (am_Value msg)), (''has_password'', JBool (am_HasPassword msg))])
      else if am_Type msg = ''auth_ok'' then handleAuthOk P J E cfg k msg
      else if am_Type msg = ''auth_fail'' then handleAuthFail k (am_ConnID msg)
      else if am_Type msg = ''auth_failed'' then handleAuthFailed k (am_ConnID msg)
      else State_Monad.return ())"

text \<open>One turn of the loop with what was read: \<open>None\<close> is a message that is not JSON. The result is the socket's new local state.\<close>

definition AgentWS_message ::
  "'d pocketbase \<Rightarrow> string jwt_lib \<Rightarrow> srv_env \<Rightarrow> srv_config \<Rightarrow> agent_sock \<Rightarrow> agentMsg option \<Rightarrow> ('d, agent_sock) srv" where
  "AgentWS_message P J E cfg k input =
     (case input of
        None \<Rightarrow> State_Monad.return k
      | Some msg \<Rightarrow> do {
          current \<leftarrow> hub_read (IsCurrentAgent (as_apiKeyID k) (as_ptr k));
          if as_agentID k \<noteq> [] \<and> \<not> current then State_Monad.return k
          else if am_Type msg = ''hello'' then
            (if as_agentID k \<noteq> [] then State_Monad.return k
             else do {
               handleHello cfg k (am_AgentID msg);
               State_Monad.return (if am_AgentID msg \<noteq> [] then k\<lparr>as_agentID := am_AgentID msg\<rparr> else k)
             })
          else do {
            agent_dispatch P J E cfg k msg;
            State_Monad.return k
          }
        })"

text \<open>The connection could not be read.\<close>

definition AgentWS_closed :: "agent_sock \<Rightarrow> ('d, unit) srv" where
  "AgentWS_closed k = do {
     (if as_agentID k \<noteq> [] then hub_upd (UnregisterAgent (as_apiKeyID k) (as_ptr k)) else State_Monad.return ());
     emit (HCloseNow (as_ptr k))
   }"

end
