(* ===== verification/Server_Browser.thy ===== *)
theory Server_Browser
  imports Server_Agent
begin

text \<open>
  The browsers' websocket, \<^verbatim>\<open>signaling-server/internal/handler/browser_ws.go\<close>, and the handlers that look sessions up:
  \<^verbatim>\<open>rest.go\<close>, and the redirect and the cron job of \<^verbatim>\<open>cmd/server/main.go\<close>. The local variables of \<^verbatim>\<open>BrowserWS\<close> are the record
  \<open>browser_sock\<close>.
\<close>

record browserMsg =
  bm_Type :: string
  bm_Code :: string
  bm_Password :: string
  bm_SDP :: string
  bm_Candidate :: json
  bm_HMAC :: string

record browser_sock =
  bs_conn :: nat
  bs_connID :: string
  bs_sessionCode :: string
  bs_apiKeyID :: string
  bs_isImmich :: bool
  bs_isPasswordProtected :: bool

abbreviation bs_ptr :: "browser_sock \<Rightarrow> ptr" where
  "bs_ptr b \<equiv> Some (bs_conn b)"

datatype browser_outcome = HttpError nat string | BrowserGone | BrowserLoop browser_sock

definition generateConnID :: "bytes \<Rightarrow> string" where
  "generateConnID randomBytes = hexEncode randomBytes"

definition typed :: "string \<Rightarrow> (string \<times> json) list \<Rightarrow> json" where
  "typed type fs = JObj ((''type'', JStr type) # fs)"

definition to_agent :: "string \<Rightarrow> json \<Rightarrow> ('d, unit) srv" where
  "to_agent apiKeyID msg =
     hub_call (\<lambda>h. let (_, effs, h1) = SendToAgent None apiKeyID msg h in ((), effs, h1))"

definition knock_message :: "string \<Rightarrow> string \<Rightarrow> json" where
  "knock_message connID sessionCode = typed ''knock'' [(''conn_id'', JStr connID), (''code'', JStr sessionCode)]"

definition sendBrowserIceConfigAndMaybeKnock ::
  "srv_env \<Rightarrow> srv_config \<Rightarrow> browser_sock \<Rightarrow> bool \<Rightarrow> bool \<Rightarrow> int \<Rightarrow> ('d, unit) srv" where
  "sendBrowserIceConfigAndMaybeKnock E cfg b relayOnly quotaExceeded periodEnd = do {
     hub_SendDirect (bs_ptr b) (typed ''ice_config'' ([(''ice_servers'', stun_servers cfg), (''relay_only'', JBool relayOnly)]
       @ (if quotaExceeded then [(''relay_quota_exceeded'', JBool True), (''quota_period_end'', JStr (ev_rfc3339 E periodEnd))]
          else [])));
     (if relayOnly then to_agent (bs_apiKeyID b) (knock_message (bs_connID b) (bs_sessionCode b))
      else State_Monad.return ())
   }"

text \<open>The deferred calls, in the order they run.\<close>

definition BrowserWS_deferred :: "browser_sock \<Rightarrow> ('d, unit) srv" where
  "BrowserWS_deferred b = do {
     hub_upd (UnregisterBrowserConn (bs_connID b));
     hub_upd (UnpairSession (bs_sessionCode b) (bs_ptr b));
     emit (HCloseNow (bs_ptr b))
   }"

definition browser_reject :: "nat \<Rightarrow> string \<Rightarrow> string \<Rightarrow> ('d, unit) srv" where
  "browser_reject conn message reason = do {
     hub_SendDirect (Some conn) (errorMsg message);
     emit (HClose (Some conn) reason)
   }"

definition quotaMessage :: string where
  "quotaMessage = ''file host's relay quota exceeded - this share requires secure relay which is unavailable''"

text \<open>
  After pairing: \<open>None\<close> when a record cannot be found, otherwise whether the quota is exceeded and when its period ends.
\<close>

definition browser_quota :: "'d pocketbase \<Rightarrow> srv_env \<Rightarrow> string \<Rightarrow> 'd \<Rightarrow> (bool \<times> int) option" where
  "browser_quota P E apiKeyID d =
     (case FindKey P apiKeyID d of
        Inl _ \<Rightarrow> None
      | Inr key \<Rightarrow>
          if kr_account_id key = [] then None
          else (case FindUser P (kr_account_id key) d of Inl _ \<Rightarrow> None | Inr u \<Rightarrow> Some (checkRelayQuota E u)))"

definition BrowserWS_paired ::
  "'d pocketbase \<Rightarrow> srv_env \<Rightarrow> srv_config \<Rightarrow> browser_sock \<Rightarrow> session_row \<Rightarrow> ('d, browser_outcome) srv" where
  "BrowserWS_paired P E cfg b r = do {
     quota \<leftarrow> db_read (browser_quota P E (bs_apiKeyID b));
     case quota of
       None \<Rightarrow> do {
         browser_reject (bs_conn b) ''internal error'' ''internal error'';
         BrowserWS_deferred b;
         State_Monad.return BrowserGone
       }
     | Some (quotaExceeded, periodEnd) \<Rightarrow>
         if sr_relay_only r \<and> quotaExceeded then do {
           browser_reject (bs_conn b) quotaMessage ''relay quota exceeded'';
           BrowserWS_deferred b;
           State_Monad.return BrowserGone
         }
         else do {
           (if bs_isImmich b \<and> bs_isPasswordProtected b then hub_SendDirect (bs_ptr b) (typed ''password_required'' [])
            else sendBrowserIceConfigAndMaybeKnock E cfg b (sr_relay_only r) quotaExceeded periodEnd);
           State_Monad.return (BrowserLoop b)
         }
   }"

text \<open>
  Up to the message loop. \<open>conn\<close> is the accepted connection, \<open>None\<close> when the upgrade failed.
\<close>

definition BrowserWS ::
  "'d pocketbase \<Rightarrow> srv_env \<Rightarrow> srv_config \<Rightarrow> string \<Rightarrow> nat option \<Rightarrow> ('d, browser_outcome) srv" where
  "BrowserWS P E cfg sessionCode conn = do {
     found \<leftarrow> db_read (FindSessionByCode P sessionCode);
     case found of
       Inl _ \<Rightarrow> State_Monad.return (HttpError 500 ''database error'')
     | Inr None \<Rightarrow> State_Monad.return (HttpError 404 ''session not found or expired'')
     | Inr (Some r) \<Rightarrow>
         if sr_expires_at r \<noteq> 0 \<and> ev_now E > sr_expires_at r then
           State_Monad.return (HttpError 404 ''session not found or expired'')
         else case conn of
           None \<Rightarrow> State_Monad.return BrowserGone
         | Some c \<Rightarrow> do {
             agent \<leftarrow> hub_read (GetAgentConn sessionCode);
             if agent = None then do {
               browser_reject c ''agent not connected'' ''agent not connected'';
               emit (HCloseNow (Some c));
               State_Monad.return BrowserGone
             }
             else do {
               let b = \<lparr>bs_conn = c, bs_connID = generateConnID (ev_connID E), bs_sessionCode = sessionCode,
                        bs_apiKeyID = sr_api_key_id r, bs_isImmich = sr_share_type r = ''immich'',
                        bs_isPasswordProtected = sr_is_password_protected r\<rparr>;
               err \<leftarrow> hub_call (\<lambda>h. let (e, h1) = PairSession sessionCode (bs_connID b) (bs_apiKeyID b) (bs_ptr b) h in (e, [], h1));
               if err \<noteq> None then do {
                 browser_reject c ''agent not connected'' ''agent not connected'';
                 emit (HCloseNow (Some c));
                 State_Monad.return BrowserGone
               }
               else BrowserWS_paired P E cfg b r
             }
           }
   }"

section \<open>Messages of the browser\<close>

definition browser_refuse :: "browser_sock \<Rightarrow> string \<Rightarrow> ('d, unit) srv" where
  "browser_refuse b message = hub_SendDirect (bs_ptr b) (typed ''auth_fail'' [(''message'', JStr message)])"

definition to_paired_agent :: "string \<Rightarrow> json \<Rightarrow> ('d, unit) srv" where
  "to_paired_agent sessionCode msg =
     hub_call (\<lambda>h. let (_, effs, h1) = ForwardToAgent None sessionCode msg h in ((), effs, h1))"

definition BrowserWS_message :: "browser_sock \<Rightarrow> browserMsg option \<Rightarrow> ('d, unit) srv" where
  "BrowserWS_message b input =
     (case input of
        None \<Rightarrow> State_Monad.return ()
      | Some msg \<Rightarrow>
          if bs_isImmich b \<and> bs_isPasswordProtected b \<and> bm_Type msg \<noteq> ''password_submit'' then
            browser_refuse b ''password auth required''
          else if bm_Type msg = ''knock'' then
            to_agent (bs_apiKeyID b) (knock_message (bs_connID b) (bs_sessionCode b))
          else if bm_Type msg = ''password_submit'' then
            (if \<not> bs_isImmich b \<or> \<not> bs_isPasswordProtected b then browser_refuse b ''password auth not required''
             else if bm_Code msg \<noteq> bs_sessionCode b then browser_refuse b ''session code mismatch''
             else to_agent (bs_apiKeyID b) (typed ''password_submit'' [(''conn_id'', JStr (bs_connID b)),
               (''code'', JStr (bs_sessionCode b)), (''password'', JStr (bm_Password msg))]))
          else if bm_Type msg = ''join'' then
            to_agent (bs_apiKeyID b) (typed ''join'' [(''conn_id'', JStr (bs_connID b)), (''code'', JStr (bs_sessionCode b)),
              (''hmac'', JStr (bm_HMAC msg))])
          else if bm_Type msg = ''answer'' then
            to_paired_agent (bs_sessionCode b) (typed ''answer'' [(''session_id'', JStr (bs_sessionCode b)),
              (''peer_id'', JStr (bs_connID b)), (''sdp'', JStr (bm_SDP msg))])
          else if bm_Type msg = ''ice_candidate'' then
            to_paired_agent (bs_sessionCode b) (typed ''ice_candidate'' [(''session_id'', JStr (bs_sessionCode b)),
              (''peer_id'', JStr (bs_connID b)), (''candidate'', bm_Candidate msg)])
          else State_Monad.return ())"

definition BrowserWS_closed :: "browser_sock \<Rightarrow> ('d, unit) srv" where
  "BrowserWS_closed b = BrowserWS_deferred b"

section \<open>Looking sessions up\<close>

record SessionInfoResponse =
  si_Code :: string
  si_ExpiresAt :: "int option"
  si_IsActive :: bool

definition GetSessionInfo :: "'d pocketbase \<Rightarrow> srv_env \<Rightarrow> string \<Rightarrow> 'd server \<Rightarrow> (nat \<times> string) + SessionInfoResponse" where
  "GetSessionInfo P E code s =
     (if code = [] then Inl (400, ''code required'')
      else case FindSessionByCode P code (sv_db s) of
             Inl _ \<Rightarrow> Inl (500, ''failed to lookup session'')
           | Inr None \<Rightarrow> Inl (404, ''session not found'')
           | Inr (Some r) \<Rightarrow>
               Inr \<lparr>si_Code = sr_code r,
                    si_ExpiresAt = (if sr_expires_at r = 0 then None else Some (sr_expires_at r)),
                    si_IsActive = \<not> (sr_expires_at r \<noteq> 0 \<and> sr_expires_at r < ev_now E)
                                  \<and> AgentConnected (sr_api_key_id r) (sv_hub s)\<rparr>)"

datatype page = PageFile string | PageRedirect string | PageError nat string

definition ServeSessionFileNoCache :: "'d pocketbase \<Rightarrow> string \<Rightarrow> string \<Rightarrow> string \<Rightarrow> 'd \<Rightarrow> page" where
  "ServeSessionFileNoCache P path code shareType d =
     (if code = [] then PageError 404 ''session not found''
      else case FindSessionByCode P code d of
             Inl _ \<Rightarrow> PageError 500 ''failed to lookup session''
           | Inr None \<Rightarrow> PageError 404 ''session not found''
           | Inr (Some r) \<Rightarrow>
               if shareType \<noteq> [] \<and> sr_share_type r \<noteq> shareType then PageError 404 ''session not found'' else PageFile path)"

definition serveShareRedirect :: "'d pocketbase \<Rightarrow> string \<Rightarrow> 'd \<Rightarrow> page" where
  "serveShareRedirect P code d =
     (if code = [] then PageError 404 ''session not found''
      else case FindSessionByCode P code d of
             Inr (Some r) \<Rightarrow> PageRedirect ((if sr_share_type r = ''immich'' then ''/i/'' else ''/s/'') @ code)
           | _ \<Rightarrow> PageError 404 ''session not found'')"

definition ServeDir :: "string \<Rightarrow> string \<Rightarrow> page" where
  "ServeDir root path =
     (let relPath = path_Clean path in
      if relPath = ''.'' \<or> relPath = [] then PageError 404 ''file not found''
      else if take 3 relPath = ''../'' \<or> relPath = ''..'' then PageError 404 ''file not found''
      else PageFile (path_Join root relPath))"

fun deleteExpired :: "'d pocketbase \<Rightarrow> int \<Rightarrow> session_row list \<Rightarrow> 'd \<Rightarrow> goerr option \<times> 'd" where
  "deleteExpired P now [] d = (None, d)"
| "deleteExpired P now (r # rs) d =
     (if sr_expires_at r = 0 \<or> sr_expires_at r > now then deleteExpired P now rs d
      else case RemoveSession P r d of
             (Some err, d1) \<Rightarrow> (Some (ErrWrap (''delete expired session '' @ sr_id r) [] err), d1)
           | (None, d1) \<Rightarrow> deleteExpired P now rs d1)"

definition deleteExpiredSessions :: "'d pocketbase \<Rightarrow> int \<Rightarrow> 'd \<Rightarrow> goerr option \<times> 'd" where
  "deleteExpiredSessions P now d =
     (case AllSessions P d of Inl err \<Rightarrow> (Some err, d) | Inr rs \<Rightarrow> deleteExpired P now rs d)"

end
