(* ===== verification/Server_Keys.thy ===== *)
theory Server_Keys
  imports Server_Agent
begin

text \<open>
  API keys and quotas: the middleware that authenticates agents (\<^verbatim>\<open>middleware/api_key.go\<close>), the key management
  endpoints (\<^verbatim>\<open>handler/api_keys.go\<close>), the account endpoints (\<^verbatim>\<open>handler/account.go\<close>) and the metering of relayed bytes
  (\<^verbatim>\<open>relay/accounting.go\<close>). The bcrypt library is a parameter.
\<close>

section \<open>Authenticating an agent\<close>

record bcrypt =
  bc_generate :: "string \<Rightarrow> string result"
  bc_matches :: "string \<Rightarrow> string \<Rightarrow> bool"

definition bcrypt_ok :: "bcrypt \<Rightarrow> bool" where
  "bcrypt_ok B \<longleftrightarrow> (\<forall>p h. bc_generate B p = Inr h \<longrightarrow> bc_matches B h p)"

text \<open>\<^verbatim>\<open>strings.LastIndex\<close> of one character.\<close>

fun last_index :: "char \<Rightarrow> string \<Rightarrow> nat option" where
  "last_index c [] = None"
| "last_index c (x # xs) =
     (case last_index c xs of Some i \<Rightarrow> Some (Suc i) | None \<Rightarrow> if x = c then Some 0 else None)"

definition splitAPIKey :: "string \<Rightarrow> (string \<times> string) option" where
  "splitAPIKey fullKey =
     (case last_index CHR ''.'' fullKey of
        None \<Rightarrow> None
      | Some dotIdx \<Rightarrow> if dotIdx = length fullKey - 1 then None else Some (take dotIdx fullKey, drop (Suc dotIdx) fullKey))"

text \<open>The result is the refusal's message, or the key's and the account's ids for the request context.\<close>

definition APIKeyAuth :: "'d pocketbase \<Rightarrow> bcrypt \<Rightarrow> int \<Rightarrow> string \<Rightarrow> 'd \<Rightarrow> (string + string \<times> string) \<times> 'd" where
  "APIKeyAuth P B now apiKeyFull d =
     (if apiKeyFull = [] then (Inl ''api_key required'', d)
      else case splitAPIKey apiKeyFull of
             None \<Rightarrow> (Inl ''invalid api_key format'', d)
           | Some (recordID, _) \<Rightarrow>
               (case FindKey P recordID d of
                  Inl _ \<Rightarrow> (Inl ''invalid api_key'', d)
                | Inr record \<Rightarrow>
                    if \<not> kr_is_active record then (Inl ''api_key inactive'', d)
                    else if \<not> bc_matches B (kr_key_hash record) apiKeyFull then (Inl ''invalid api_key'', d)
                    else
                      let (_, d1) = UpdateKey P (record\<lparr>kr_last_used_at := now\<rparr>) d
                      in (Inr (kr_id record, kr_account_id record), d1)))"

section \<open>Managing keys\<close>

definition secret_char :: "nat \<Rightarrow> char" where
  "secret_char n = ''ABCDEFGHIJKLMNOPQRSTUVWXYZabcdefghijklmnopqrstuvwxyz0123456789-_'' ! n"

text \<open>\<^verbatim>\<open>base64.RawURLEncoding\<close>.\<close>

fun base64url :: "bytes \<Rightarrow> string" where
  "base64url [] = []"
| "base64url [a] = [secret_char (unat a div 4), secret_char (unat a mod 4 * 16)]"
| "base64url [a, b] =
     [secret_char (unat a div 4), secret_char (unat a mod 4 * 16 + unat b div 16), secret_char (unat b mod 16 * 4)]"
| "base64url (a # b # c # bs) =
     [secret_char (unat a div 4), secret_char (unat a mod 4 * 16 + unat b div 16),
      secret_char (unat b mod 16 * 4 + unat c div 64), secret_char (unat c mod 64)] @ base64url bs"

text \<open>\<open>rnd\<close> are the 32 random bytes, \<open>None\<close> when the random source fails.\<close>

definition createAPIKeyRecord ::
  "'d pocketbase \<Rightarrow> bcrypt \<Rightarrow> bytes option \<Rightarrow> string \<Rightarrow> string \<Rightarrow> 'd \<Rightarrow> (key_row \<times> string) result \<times> 'd" where
  "createAPIKeyRecord P B rnd accountID label d =
     (if FindCollection P ''api_keys'' d \<noteq> None then (Inl (Errorf ''failed to find collection'' []), d)
      else case InsertKey P \<lparr>kr_id = [], kr_account_id = accountID, kr_label = label, kr_is_active = True, kr_key_hash = [],
             kr_last_used_at = 0, kr_created = 0\<rparr> d of
        (Inl _, d1) \<Rightarrow> (Inl (Errorf ''failed to create key'' []), d1)
      | (Inr record, d1) \<Rightarrow>
          (case rnd of
             None \<Rightarrow> (Inl (Errorf ''failed to generate secret'' []), snd (RemoveKey P record d1))
           | Some secretBytes \<Rightarrow>
               let fullKey = kr_id record @ ''.'' @ base64url secretBytes in
               (case bc_generate B fullKey of
                  Inl _ \<Rightarrow> (Inl (Errorf ''failed to hash key'' []), snd (RemoveKey P record d1))
                | Inr hash \<Rightarrow>
                    let record1 = record\<lparr>kr_key_hash := hash\<rparr> in
                    (case UpdateKey P record1 d1 of
                       (Some _, d2) \<Rightarrow> (Inl (Errorf ''failed to save key hash'' []), snd (RemoveKey P record1 d2))
                     | (None, d2) \<Rightarrow> (Inr (record1, fullKey), d2)))))"

definition ownsAPIKey :: "key_row \<Rightarrow> string \<Rightarrow> bool" where
  "ownsAPIKey record accountID \<longleftrightarrow> kr_account_id record = accountID"

definition CreateAPIKey ::
  "'d pocketbase \<Rightarrow> bcrypt \<Rightarrow> bytes option \<Rightarrow> string option \<Rightarrow> string \<Rightarrow> 'd \<Rightarrow> ((nat \<times> string) + key_row \<times> string) \<times> 'd" where
  "CreateAPIKey P B rnd auth label d =
     (case auth of
        None \<Rightarrow> (Inl (401, ''authentication required''), d)
      | Some accountID \<Rightarrow>
          (case createAPIKeyRecord P B rnd accountID label d of
             (Inl err, d1) \<Rightarrow> (Inl (500, err_text err), d1)
           | (Inr res, d1) \<Rightarrow> (Inr res, d1)))"

definition rotate_body ::
  "'d pocketbase \<Rightarrow> bcrypt \<Rightarrow> bytes option \<Rightarrow> string \<Rightarrow> string \<Rightarrow> string \<Rightarrow> 'd \<Rightarrow> (key_row \<times> string) result \<times> 'd" where
  "rotate_body P B rnd accountID newLabel oldKeyID d =
     (case createAPIKeyRecord P B rnd accountID newLabel d of
        (Inl err, d1) \<Rightarrow> (Inl err, d1)
      | (Inr (newRecord, newFullKey), d1) \<Rightarrow>
          (case MoveSessions P oldKeyID (kr_id newRecord) d1 of
             (Some err, d2) \<Rightarrow> (Inl err, d2)
           | (None, d2) \<Rightarrow>
               (case FindKey P oldKeyID d2 of
                  Inl err \<Rightarrow> (Inl err, d2)
                | Inr oldKey \<Rightarrow>
                    (case UpdateKey P (oldKey\<lparr>kr_is_active := False\<rparr>) d2 of
                       (Some err, d3) \<Rightarrow> (Inl err, d3)
                     | (None, d3) \<Rightarrow> (Inr (newRecord, newFullKey), d3)))))"

definition close_agent :: "string \<Rightarrow> string list \<Rightarrow> ('d, unit) srv" where
  "close_agent keyID order = hub_call (\<lambda>h. let (effs, h1) = CloseAgent keyID order h in ((), effs, h1))"

definition RotateAPIKey ::
  "'d pocketbase \<Rightarrow> bcrypt \<Rightarrow> bytes option \<Rightarrow> string list \<Rightarrow> string option \<Rightarrow> string
   \<Rightarrow> ('d, (nat \<times> string) + key_row \<times> string) srv" where
  "RotateAPIKey P B rnd order auth oldKeyID =
     (case auth of
        None \<Rightarrow> State_Monad.return (Inl (401, ''authentication required''))
      | Some accountID \<Rightarrow>
          if oldKeyID = [] then State_Monad.return (Inl (400, ''key id required''))
          else do {
            old \<leftarrow> db_read (FindKey P oldKeyID);
            case old of
              Inl _ \<Rightarrow> State_Monad.return (Inl (404, ''key not found''))
            | Inr oldKey \<Rightarrow>
                if \<not> ownsAPIKey oldKey accountID then State_Monad.return (Inl (403, ''access denied''))
                else if \<not> kr_is_active oldKey then State_Monad.return (Inl (400, ''key is already revoked''))
                else do {
                  res \<leftarrow> db_write (RunInTransaction P (rotate_body P B rnd accountID (kr_label oldKey) oldKeyID));
                  case res of
                    Inl err \<Rightarrow> State_Monad.return (Inl (500, err_text err))
                  | Inr new \<Rightarrow> do {
                      close_agent oldKeyID order;
                      State_Monad.return (Inr new)
                    }
                }
          })"

definition RevokeAPIKey ::
  "'d pocketbase \<Rightarrow> string list \<Rightarrow> string option \<Rightarrow> string \<Rightarrow> ('d, (nat \<times> string) + unit) srv" where
  "RevokeAPIKey P order auth keyID =
     (case auth of
        None \<Rightarrow> State_Monad.return (Inl (401, ''authentication required''))
      | Some accountID \<Rightarrow>
          if keyID = [] then State_Monad.return (Inl (400, ''key id required''))
          else do {
            found \<leftarrow> db_read (FindKey P keyID);
            case found of
              Inl _ \<Rightarrow> State_Monad.return (Inl (404, ''key not found''))
            | Inr record \<Rightarrow>
                if \<not> ownsAPIKey record accountID then State_Monad.return (Inl (403, ''access denied''))
                else do {
                  err \<leftarrow> db_write (UpdateKey P (record\<lparr>kr_is_active := False\<rparr>));
                  if err \<noteq> None then State_Monad.return (Inl (500, ''failed to revoke key''))
                  else do {
                    close_agent keyID order;
                    State_Monad.return (Inr ())
                  }
                }
          })"

record APIKeyListItem =
  li_ID :: string
  li_Label :: string
  li_LastUsedAt :: "int option"
  li_IsActive :: bool
  li_CreatedAt :: int

definition key_item :: "key_row \<Rightarrow> APIKeyListItem" where
  "key_item k = \<lparr>li_ID = kr_id k, li_Label = kr_label k,
     li_LastUsedAt = (if kr_last_used_at k = 0 then None else Some (kr_last_used_at k)),
     li_IsActive = kr_is_active k, li_CreatedAt = kr_created k\<rparr>"

text \<open>\<open>KeysOfAccount\<close> is the query for the account's keys, newest first and at most a hundred.\<close>

definition ListAPIKeys :: "'d pocketbase \<Rightarrow> string option \<Rightarrow> 'd \<Rightarrow> (nat \<times> string) + APIKeyListItem list" where
  "ListAPIKeys P auth d =
     (case auth of
        None \<Rightarrow> Inl (401, ''authentication required'')
      | Some accountID \<Rightarrow>
          (case KeysOfAccount P accountID d of
             Inl _ \<Rightarrow> Inl (500, ''failed to list keys'')
           | Inr records \<Rightarrow> Inr (map key_item records)))"

section \<open>Relayed bytes\<close>

record f64_ops =
  fp_of_int :: "64 word \<Rightarrow> f64"
  fp_to_int :: "f64 \<Rightarrow> 64 word"
  fp_add :: "f64 \<Rightarrow> f64 \<Rightarrow> f64"
  fp_mul :: "f64 \<Rightarrow> f64 \<Rightarrow> f64"
  fp_sub :: "f64 \<Rightarrow> f64 \<Rightarrow> f64"
  fp_div :: "f64 \<Rightarrow> f64 \<Rightarrow> f64"
  fp_lt :: "f64 \<Rightarrow> f64 \<Rightarrow> bool"
  fp_GB :: f64
  fp_100 :: f64
  fp_zero :: f64

definition QuotaPeriodDays :: int where "QuotaPeriodDays = 30"

text \<open>
  \<^verbatim>\<open>ApplyRelayBytes\<close> is no transaction: it reads the user's record, may roll the period over with the record it has
  read, and then increments the usage in one SQL statement. The three parts are separate functions, so that calls
  for one account can interleave between them.
\<close>

definition rollQuotaPeriod :: "'d pocketbase \<Rightarrow> f64_ops \<Rightarrow> user_row \<Rightarrow> int \<Rightarrow> 'd \<Rightarrow> goerr option \<times> 'd" where
  "rollQuotaPeriod P F record now d =
     (if FindCollection P ''bandwidth_usage'' d \<noteq> None then (FindCollection P ''bandwidth_usage'' d, d)
      else case InsertUsage P \<lparr>us_account_id = ur_id record, us_period_start = ur_quota_period_start record,
             us_period_end = ur_quota_period_end record,
             us_bytes_transferred = fp_to_int F (fp_mul F (ur_current_period_usage_gb record) (fp_GB F))\<rparr> d of
        (Some err, d1) \<Rightarrow> (Some (ErrWrap ''archive quota period'' [] err), d1)
      | (None, d1) \<Rightarrow>
          UpdateUser P (record\<lparr>ur_current_period_usage_gb := fp_zero F, ur_quota_period_start := now,
            ur_quota_period_end := now + QuotaPeriodDays * 24 * 3600\<rparr>) d1)"

definition applyRelay_roll :: "'d pocketbase \<Rightarrow> f64_ops \<Rightarrow> user_row \<Rightarrow> int \<Rightarrow> 'd \<Rightarrow> goerr option \<times> 'd" where
  "applyRelay_roll P F record now d =
     (if ur_quota_period_end record \<noteq> 0 \<and> now > ur_quota_period_end record then rollQuotaPeriod P F record now d
      else (None, d))"

definition applyRelay_add :: "'d pocketbase \<Rightarrow> f64_ops \<Rightarrow> string \<Rightarrow> 64 word \<Rightarrow> 'd \<Rightarrow> goerr option \<times> 'd" where
  "applyRelay_add P F accountID n d =
     AddUserUsage P accountID (fp_div F (fp_of_int F n) (fp_GB F)) d"

definition ApplyRelayBytes ::
  "'d pocketbase \<Rightarrow> f64_ops \<Rightarrow> string \<Rightarrow> 64 word \<Rightarrow> int \<Rightarrow> 'd \<Rightarrow> goerr option \<times> 'd" where
  "ApplyRelayBytes P F accountID n now d =
     (case FindUser P accountID d of
        Inl err \<Rightarrow> (Some err, d)
      | Inr record \<Rightarrow>
          (case applyRelay_roll P F record now d of
             (Some err, d1) \<Rightarrow> (Some err, d1)
           | (None, d1) \<Rightarrow> applyRelay_add P F accountID n d1))"

definition users_ok :: "'d pocketbase \<Rightarrow> f64_ops \<Rightarrow> bool" where
  "users_ok P F \<longleftrightarrow> (\<forall>d.
     (\<forall>i u. FindUser P i d = Inr u \<longrightarrow> pb_user P d i = Some u \<and> ur_id u = i)
     \<and> (\<forall>r. fst (InsertUsage P r d) \<noteq> None \<longrightarrow> pb_same P d (snd (InsertUsage P r d)))
     \<and> (\<forall>r. fst (InsertUsage P r d) = None \<longrightarrow>
          pb_usage P (snd (InsertUsage P r d)) = pb_usage P d @ [r] \<and> pb_user P (snd (InsertUsage P r d)) = pb_user P d)
     \<and> (\<forall>u. fst (UpdateUser P u d) \<noteq> None \<longrightarrow> pb_same P d (snd (UpdateUser P u d)))
     \<and> (\<forall>u. fst (UpdateUser P u d) = None \<longrightarrow>
          pb_user P (snd (UpdateUser P u d)) = (pb_user P d)(ur_id u \<mapsto> u) \<and> pb_usage P (snd (UpdateUser P u d)) = pb_usage P d)
     \<and> (\<forall>i x. fst (AddUserUsage P i x d) \<noteq> None \<longrightarrow> pb_same P d (snd (AddUserUsage P i x d)))
     \<and> (\<forall>i x. fst (AddUserUsage P i x d) = None \<longrightarrow>
          pb_user P (snd (AddUserUsage P i x d)) = (pb_user P d)(i := map_option (\<lambda>u. u\<lparr>ur_current_period_usage_gb :=
              fp_add F (ur_current_period_usage_gb u) x\<rparr>) (pb_user P d i))
          \<and> pb_usage P (snd (AddUserUsage P i x d)) = pb_usage P d))"

section \<open>Account information\<close>

record QuotaInfo =
  qi_LimitGB :: f64
  qi_UsedGB :: f64
  qi_RemainingGB :: f64
  qi_PeriodStart :: int
  qi_PeriodEnd :: int
  qi_PercentageUsed :: "64 word"

definition buildQuotaResponse :: "f64_ops \<Rightarrow> f64 \<Rightarrow> f64 \<Rightarrow> int \<Rightarrow> int \<Rightarrow> QuotaInfo" where
  "buildQuotaResponse F limitGB usedGB periodStart periodEnd =
     (let remainingGB = fp_sub F limitGB usedGB;
          percentage = (if fp_lt F (fp_zero F) limitGB
                        then (let p = fp_to_int F (fp_mul F (fp_div F usedGB limitGB) (fp_100 F)) in if 100 <s p then 100 else p)
                        else 0)
      in \<lparr>qi_LimitGB = limitGB, qi_UsedGB = usedGB,
          qi_RemainingGB = (if fp_lt F remainingGB (fp_zero F) then fp_zero F else remainingGB),
          qi_PeriodStart = periodStart, qi_PeriodEnd = periodEnd, qi_PercentageUsed = percentage\<rparr>)"

definition quota_of :: "f64_ops \<Rightarrow> user_row \<Rightarrow> QuotaInfo" where
  "quota_of F u = buildQuotaResponse F (ur_relay_quota_gb u) (ur_current_period_usage_gb u) (ur_quota_period_start u) (ur_quota_period_end u)"

definition GetAccount :: "f64_ops \<Rightarrow> user_row option \<Rightarrow> (nat \<times> string) + string \<times> string \<times> QuotaInfo" where
  "GetAccount F auth =
     (case auth of None \<Rightarrow> Inl (401, ''authentication required'') | Some u \<Rightarrow> Inr (ur_id u, ur_email u, quota_of F u))"

definition GetAccountQuota :: "'d pocketbase \<Rightarrow> f64_ops \<Rightarrow> string \<Rightarrow> 'd \<Rightarrow> (nat \<times> string) + QuotaInfo" where
  "GetAccountQuota P F accountID d =
     (if accountID = [] then Inl (401, ''authentication required'')
      else case FindUser P accountID d of
             Inl _ \<Rightarrow> Inl (404, ''account not found'')
           | Inr u \<Rightarrow> Inr (quota_of F u))"

end
