(* ===== verification/Server_Properties.thy ===== *)
theory Server_Properties
  imports Server_Browser Server_Keys Hub_Properties Relay_Registry_Properties
begin

text \<open>
  The handlers of the signaling server over the database, the hub and the registry: codes stay with the account that owns
  them, relay sessions are prepared only for authenticated browsers of the agent's own shares, protected galleries see nothing but
  password attempts, revoked keys are out, keys round-trip, and a browser leaves nothing behind.
\<close>

section \<open>An in-memory database\<close>

text \<open>
  A database that satisfies what the handlers rely on, for the witnesses: sessions by code with the code as record id, keys and
  users by id; new keys are numbered.
\<close>

record mem_db =
  md_sessions :: "(string \<times> session_row) list"
  md_keys :: "string \<rightharpoonup> key_row"
  md_users :: "string \<rightharpoonup> user_row"
  md_usage :: "usage_row list"
  md_next :: nat

definition mem_session :: "mem_db \<Rightarrow> string \<rightharpoonup> session_row" where
  "mem_session d c = map_option (\<lambda>r. r\<lparr>sr_id := c, sr_code := c\<rparr>) (map_of (md_sessions d) c)"

definition mem_key :: "mem_db \<Rightarrow> string \<rightharpoonup> key_row" where
  "mem_key d i = map_option (\<lambda>k. k\<lparr>kr_id := i\<rparr>) (md_keys d i)"

definition mem_user :: "mem_db \<Rightarrow> string \<rightharpoonup> user_row" where
  "mem_user d i = map_option (\<lambda>u. u\<lparr>ur_id := i\<rparr>) (md_users d i)"

definition noRows :: goerr where "noRows = Errorf ''sql: no rows in result set'' []"

definition of_option :: "'a option \<Rightarrow> 'a result" where
  "of_option x = (case x of None \<Rightarrow> Inl noRows | Some a \<Rightarrow> Inr a)"

definition mem_newKeyID :: "mem_db \<Rightarrow> string" where
  "mem_newKeyID d = ''key'' @ replicate (md_next d) CHR ''x''"

definition mem_pb :: "f64_ops \<Rightarrow> mem_db pocketbase" where
  "mem_pb F = \<lparr>pb_session = mem_session, pb_key = mem_key, pb_user = mem_user, pb_usage = md_usage,
     FindCollection = (\<lambda>_ _. None),
     FindSessionByCode = (\<lambda>c d. Inr (mem_session d c)),
     FindSessionById = (\<lambda>i d. of_option (mem_session d i)),
     SessionWithAccount = (\<lambda>c d. Inr (case mem_session d c of
        None \<Rightarrow> None
      | Some r \<Rightarrow> (case mem_key d (sr_api_key_id r) of
                    None \<Rightarrow> None | Some k \<Rightarrow> Some (sr_id r, kr_account_id k, sr_agent_id r)))),
     AllSessions = (\<lambda>d. Inr (map (\<lambda>c. the (mem_session d c)) (remdups (map fst (md_sessions d))))),
     InsertSession = (\<lambda>r d. if mem_session d (sr_code r) \<noteq> None then (Some noRows, d)
        else (None, d\<lparr>md_sessions := (sr_code r, r) # md_sessions d\<rparr>)),
     UpdateSession = (\<lambda>r d. (None, d\<lparr>md_sessions := (sr_code r, r) # md_sessions d\<rparr>)),
     RemoveSession = (\<lambda>r d. (None, d\<lparr>md_sessions := filter (\<lambda>p. fst p \<noteq> sr_code r) (md_sessions d)\<rparr>)),
     MoveSessions = (\<lambda>old new d. (None, d\<lparr>md_sessions :=
        map (\<lambda>(c, r). (c, move_row old new r)) (md_sessions d)\<rparr>)),
     FindKey = (\<lambda>i d. of_option (mem_key d i)),
     KeysOfAccount = (\<lambda>a d. Inl noRows),
     InsertKey = (\<lambda>k d. if mem_key d (mem_newKeyID d) \<noteq> None then (Inl noRows, d)
        else (Inr (k\<lparr>kr_id := mem_newKeyID d, kr_created := 0\<rparr>),
              d\<lparr>md_keys := (md_keys d)(mem_newKeyID d \<mapsto> k\<lparr>kr_id := mem_newKeyID d, kr_created := 0\<rparr>), md_next := Suc (md_next d)\<rparr>)),
     UpdateKey = (\<lambda>k d. (None, d\<lparr>md_keys := (md_keys d)(kr_id k \<mapsto> k)\<rparr>)),
     RemoveKey = (\<lambda>k d. (None, d\<lparr>md_keys := (md_keys d)(kr_id k := None)\<rparr>)),
     FindUser = (\<lambda>i d. of_option (mem_user d i)),
     UpdateUser = (\<lambda>u d. (None, d\<lparr>md_users := (md_users d)(ur_id u \<mapsto> u)\<rparr>)),
     AddUserUsage = (\<lambda>i x d. (None, d\<lparr>md_users := (md_users d)(i := map_option (\<lambda>u. u\<lparr>ur_current_period_usage_gb :=
        fp_add F (ur_current_period_usage_gb u) x\<rparr>) (md_users d i))\<rparr>)),
     InsertUsage = (\<lambda>r d. (None, d\<lparr>md_usage := md_usage d @ [r]\<rparr>)),
     pb_begin = (\<lambda>d. d), pb_commit = (\<lambda>d d'. (None, d')), pb_rollback = (\<lambda>d d'. d)\<rparr>"

lemma mem_session_upd [simp]:
  "mem_session (d\<lparr>md_sessions := (c, r) # md_sessions d\<rparr>) = (mem_session d)(c \<mapsto> r\<lparr>sr_id := c, sr_code := c\<rparr>)"
  "mem_session (d\<lparr>md_sessions := filter (\<lambda>p. fst p \<noteq> c) (md_sessions d)\<rparr>) = (mem_session d)(c := None)"
  "mem_session (d\<lparr>md_keys := ks\<rparr>) = mem_session d" "mem_session (d\<lparr>md_users := us\<rparr>) = mem_session d"
  "mem_session (d\<lparr>md_usage := ug\<rparr>) = mem_session d" "mem_session (d\<lparr>md_next := n\<rparr>) = mem_session d"
proof -
  have "map_of (filter (\<lambda>p. fst p \<noteq> c) xs) c' = (if c' = c then None else map_of xs c')" for xs :: "(string \<times> session_row) list" and c'
    by (induction xs) auto
  then show "mem_session (d\<lparr>md_sessions := filter (\<lambda>p. fst p \<noteq> c) (md_sessions d)\<rparr>) = (mem_session d)(c := None)"
    by (auto simp: mem_session_def)
qed (auto simp: mem_session_def)

lemma mem_session_move [simp]:
  "mem_session (d\<lparr>md_sessions := map (\<lambda>(c, r). (c, move_row old new r)) (md_sessions d)\<rparr>)
   = (\<lambda>c. map_option (move_row old new) (mem_session d c))"
proof
  fix c :: string
  have m: "map_of (map (\<lambda>(c, r). (c, f r)) xs) c = map_option f (map_of xs c)"
    for f :: "session_row \<Rightarrow> session_row" and xs :: "(string \<times> session_row) list"
    by (induction xs) auto
  have r: "(move_row old new r)\<lparr>sr_id := c, sr_code := c\<rparr> = move_row old new (r\<lparr>sr_id := c, sr_code := c\<rparr>)" for r
    by (simp add: move_row_def)
  show "mem_session (d\<lparr>md_sessions := map (\<lambda>(c, r). (c, move_row old new r)) (md_sessions d)\<rparr>) c
   = map_option (move_row old new) (mem_session d c)"
    by (cases "map_of (md_sessions d) c") (simp_all add: mem_session_def m r)
qed

lemma mem_other [simp]:
  "mem_key (d\<lparr>md_sessions := ss\<rparr>) = mem_key d" "mem_key (d\<lparr>md_next := n\<rparr>) = mem_key d"
  "mem_user (d\<lparr>md_sessions := ss\<rparr>) = mem_user d" "mem_user (d\<lparr>md_keys := ks\<rparr>) = mem_user d"
  "mem_user (d\<lparr>md_next := n\<rparr>) = mem_user d" "mem_key (d\<lparr>md_users := us\<rparr>) = mem_key d"
  "mem_key (d\<lparr>md_usage := ug\<rparr>) = mem_key d" "mem_user (d\<lparr>md_usage := ug\<rparr>) = mem_user d"
  "mem_key (d\<lparr>md_keys := (md_keys d)(i \<mapsto> k)\<rparr>) = (mem_key d)(i \<mapsto> k\<lparr>kr_id := i\<rparr>)"
  "mem_user (d\<lparr>md_users := (md_users d)(i \<mapsto> u)\<rparr>) = (mem_user d)(i \<mapsto> u\<lparr>ur_id := i\<rparr>)"
  by (auto simp: mem_key_def mem_user_def)

lemma mem_pb_sel [simp]:
  "pb_session (mem_pb F) = mem_session" "pb_key (mem_pb F) = mem_key" "pb_user (mem_pb F) = mem_user"
  "pb_usage (mem_pb F) = md_usage" "pb_begin (mem_pb F) d = d" "pb_commit (mem_pb F) d d' = (None, d')"
  "pb_rollback (mem_pb F) d d' = d"
  by (simp_all add: mem_pb_def)

lemma mem_session_ident:
  "mem_session d c = Some r \<Longrightarrow> sr_id r = c \<and> sr_code r = c"
  by (auto simp: mem_session_def)

lemma row_ident [simp]: "sr_id r = c \<Longrightarrow> sr_code r = c \<Longrightarrow> r\<lparr>sr_id := c, sr_code := c\<rparr> = (r :: session_row)"
  by auto

lemma mem_sessions_ok: "sessions_ok (mem_pb F)"
proof -
  have ins: "fst (InsertSession (mem_pb F) r d) = None \<Longrightarrow>
      session_write (mem_pb F) d (InsertSession (mem_pb F) r d) ((mem_session d)(sr_code r \<mapsto> r\<lparr>sr_id := sr_code r\<rparr>))" for r d
    by (auto simp: mem_pb_def session_write_def split: if_splits)
  have upd: "mem_session d (sr_code r) = Some r0 \<Longrightarrow> sr_id r = sr_id r0 \<Longrightarrow>
      session_write (mem_pb F) d (UpdateSession (mem_pb F) r d) ((mem_session d)(sr_code r \<mapsto> r))" for r r0 d
    using mem_session_ident [of d "sr_code r" r0] by (auto simp: mem_pb_def session_write_def)
  show ?thesis
    unfolding sessions_ok_def mem_pb_sel
    using ins upd mem_session_ident
    by (intro allI conjI impI)
      (auto simp: mem_pb_def session_write_def pb_same_def of_option_def split: option.splits if_splits)
qed

lemma mem_keys_ok: "keys_ok (mem_pb F)"
proof -
  have ins: "fst (InsertKey (mem_pb F) k d) = Inr k' \<Longrightarrow>
     k' = k\<lparr>kr_id := mem_newKeyID d, kr_created := 0\<rparr> \<and> mem_newKeyID d \<noteq> [] \<and> mem_key d (mem_newKeyID d) = None
       \<and> mem_key (snd (InsertKey (mem_pb F) k d)) = (mem_key d)(mem_newKeyID d \<mapsto> k')
       \<and> mem_session (snd (InsertKey (mem_pb F) k d)) = mem_session d" for k k' d
    by (auto simp: mem_pb_def mem_newKeyID_def split: if_splits)
  show ?thesis
    unfolding keys_ok_def mem_pb_sel
    by (intro allI conjI impI)
      (auto dest!: ins, auto simp: mem_pb_def pb_same_def of_option_def mem_key_def split: option.splits if_splits)
qed

lemma mem_pb_ok: "pb_ok (mem_pb F)"
  using mem_sessions_ok mem_keys_ok by (simp add: pb_ok_def transactions_ok_def pb_same_def)

lemma mem_user_add:
  "mem_user (d\<lparr>md_users := (md_users d)(i := map_option f (md_users d i))\<rparr>) = (mem_user d)(i := map_option f (mem_user d i))"
  if "\<And>u. (f u)\<lparr>ur_id := i\<rparr> = f (u\<lparr>ur_id := i\<rparr>)"
proof
  fix j
  show "mem_user (d\<lparr>md_users := (md_users d)(i := map_option f (md_users d i))\<rparr>) j = ((mem_user d)(i := map_option f (mem_user d i))) j"
    by (cases "md_users d i") (simp_all add: mem_user_def that)
qed

lemma mem_users_ok: "users_ok (mem_pb F) F"
  unfolding users_ok_def mem_pb_sel
  by (intro allI conjI impI)
    (auto simp: mem_pb_def pb_same_def of_option_def mem_user_add split: option.splits, auto simp: mem_user_def)

section \<open>Codes stay with their account\<close>

lemma sessions_okD:
  assumes "sessions_ok P"
  shows "pb_session P d c = Some r \<Longrightarrow> sr_code r = c"
    and "pb_session P d c = Some r \<Longrightarrow> pb_session P d c' = Some r' \<Longrightarrow> sr_id r = sr_id r' \<Longrightarrow> c = c'"
    and "FindSessionByCode P c d = Inr ro \<Longrightarrow> pb_session P d c = ro"
    and "FindSessionById P i d = Inr r \<Longrightarrow> sr_id r = i \<and> pb_session P d (sr_code r) = Some r"
    and "SessionWithAccount P c d = Inr None \<Longrightarrow> pb_session P d c = Some r \<Longrightarrow> pb_key P d (sr_api_key_id r) = None"
    and "SessionWithAccount P c d = Inr (Some (i, a, g)) \<Longrightarrow> \<exists>r k. pb_session P d c = Some r
      \<and> pb_key P d (sr_api_key_id r) = Some k \<and> i = sr_id r \<and> a = kr_account_id k \<and> g = sr_agent_id r"
    and "pb_session P d (sr_code r) \<noteq> None \<Longrightarrow> fst (InsertSession P r d) \<noteq> None"
    and "fst (InsertSession P r d) = None \<Longrightarrow> \<exists>i. session_write P d (InsertSession P r d) ((pb_session P d)(sr_code r \<mapsto> r\<lparr>sr_id := i\<rparr>))"
    and "fst (InsertSession P r d) \<noteq> None \<Longrightarrow> pb_same P d (snd (InsertSession P r d))"
    and "pb_session P d (sr_code r) = Some r0 \<Longrightarrow> sr_id r = sr_id r0 \<Longrightarrow>
      session_write P d (UpdateSession P r d) ((pb_session P d)(sr_code r \<mapsto> r))"
    and "pb_session P d (sr_code r) = Some r0 \<Longrightarrow> sr_id r = sr_id r0 \<Longrightarrow>
      session_write P d (RemoveSession P r d) ((pb_session P d)(sr_code r := None))"
    and "session_write P d (MoveSessions P old new d) (\<lambda>c. map_option (move_row old new) (pb_session P d c))"
  by (fact
    spec [OF assms [unfolded sessions_ok_def], of d, THEN conjunct1, rule_format]
    spec [OF assms [unfolded sessions_ok_def], of d, THEN conjunct2, THEN conjunct1, rule_format]
    spec [OF assms [unfolded sessions_ok_def], of d, THEN conjunct2, THEN conjunct2, THEN conjunct1, rule_format]
    spec [OF assms [unfolded sessions_ok_def], of d, THEN conjunct2, THEN conjunct2, THEN conjunct2, THEN conjunct1, rule_format]
    spec [OF assms [unfolded sessions_ok_def], of d, THEN conjunct2, THEN conjunct2, THEN conjunct2, THEN conjunct2, THEN conjunct1, rule_format]
    spec [OF assms [unfolded sessions_ok_def], of d, THEN conjunct2, THEN conjunct2, THEN conjunct2, THEN conjunct2, THEN conjunct2, THEN conjunct1, rule_format]
    spec [OF assms [unfolded sessions_ok_def], of d, THEN conjunct2, THEN conjunct2, THEN conjunct2, THEN conjunct2, THEN conjunct2, THEN conjunct2, THEN conjunct1, rule_format]
    spec [OF assms [unfolded sessions_ok_def], of d, THEN conjunct2, THEN conjunct2, THEN conjunct2, THEN conjunct2, THEN conjunct2, THEN conjunct2, THEN conjunct2, THEN conjunct1, rule_format]
    spec [OF assms [unfolded sessions_ok_def], of d, THEN conjunct2, THEN conjunct2, THEN conjunct2, THEN conjunct2, THEN conjunct2, THEN conjunct2, THEN conjunct2, THEN conjunct2, THEN conjunct1, rule_format]
    spec [OF assms [unfolded sessions_ok_def], of d, THEN conjunct2, THEN conjunct2, THEN conjunct2, THEN conjunct2, THEN conjunct2, THEN conjunct2, THEN conjunct2, THEN conjunct2, THEN conjunct2, THEN conjunct1, rule_format]
    spec [OF assms [unfolded sessions_ok_def], of d, THEN conjunct2, THEN conjunct2, THEN conjunct2, THEN conjunct2, THEN conjunct2, THEN conjunct2, THEN conjunct2, THEN conjunct2, THEN conjunct2, THEN conjunct2, THEN conjunct1, rule_format]
    spec [OF assms [unfolded sessions_ok_def], of d, THEN conjunct2, THEN conjunct2, THEN conjunct2, THEN conjunct2, THEN conjunct2, THEN conjunct2, THEN conjunct2, THEN conjunct2, THEN conjunct2, THEN conjunct2, THEN conjunct2, rule_format])+

lemma InsertSession_ok:
  assumes P: "sessions_ok P" and i: "InsertSession P r d = (None, d')"
  shows "pb_session P d (sr_code r) = None"
    and "\<exists>i. pb_session P d' = (pb_session P d)(sr_code r \<mapsto> r\<lparr>sr_id := i\<rparr>)" and "pb_key P d' = pb_key P d"
proof -
  show "pb_session P d (sr_code r) = None" using sessions_okD(7) [OF P, of d r] i by (metis fst_conv)
  show "\<exists>i. pb_session P d' = (pb_session P d)(sr_code r \<mapsto> r\<lparr>sr_id := i\<rparr>)" "pb_key P d' = pb_key P d"
    using sessions_okD(8) [OF P, of r d] i by (auto simp: session_write_def)
qed

lemma UpdateSession_ok:
  assumes P: "sessions_ok P" "pb_session P d (sr_code r) = Some r0" "sr_id r = sr_id r0" and u: "UpdateSession P r d = (None, d')"
  shows "pb_session P d' = (pb_session P d)(sr_code r \<mapsto> r)" and "pb_key P d' = pb_key P d"
  using sessions_okD(10) [OF P] u by (auto simp: session_write_def)

text \<open>What a successful claim has done inside its transaction.\<close>

lemma claim_body_ok:
  assumes P: "sessions_ok P"
    and c: "claim_body P code key account agent expires relayOnly pub shareType protected d = (Inr (ro, rec), d')"
  shows "pb_key P d' = pb_key P d \<and> (\<exists>r'. pb_session P d' = (pb_session P d)(code \<mapsto> r')
      \<and> sr_code r' = code \<and> sr_api_key_id r' = key \<and> sr_agent_id r' = agent
      \<and> sr_is_password_protected r' = protected \<and> sr_share_type r' = shareType
      \<and> (pb_session P d code = None \<and> \<not> rec
         \<or> rec \<and> (\<exists>r k. pb_session P d code = Some r \<and> sr_id r' = sr_id r \<and> pb_key P d (sr_api_key_id r) = Some k
            \<and> kr_account_id k = account \<and> (sr_agent_id r = [] \<or> sr_agent_id r = agent))))"
proof (cases "SessionWithAccount P code d")
  case (Inl e)
  then show ?thesis using c by (simp add: claim_body_def)
next
  case (Inr found)
  show ?thesis
  proof (cases found)
    case None
    define r where "r = \<lparr>sr_id = [], sr_code = code, sr_api_key_id = key, sr_agent_id = agent,
       sr_relay_only = (case relayOnly of None \<Rightarrow> False | Some b \<Rightarrow> b), sr_relay_static_pub = pub, sr_share_type = shareType,
       sr_is_password_protected = protected, sr_expires_at = (case expires of None \<Rightarrow> 0 | Some t \<Rightarrow> t)\<rparr>"
    have ins: "InsertSession P r d = (None, d')" "\<not> rec"
      using c Inr None by (auto simp: claim_body_def createSession_def r_def Let_def split: prod.splits option.splits sum.splits if_splits)
    from InsertSession_ok [OF P ins(1)] obtain i where
      "pb_session P d' = (pb_session P d)(code \<mapsto> r\<lparr>sr_id := i\<rparr>)" "pb_session P d code = None" "pb_key P d' = pb_key P d"
      by (auto simp: r_def)
    then show ?thesis using ins(2) by (intro conjI exI [of _ "r\<lparr>sr_id := i\<rparr>"]) (simp_all add: r_def)
  next
    case (Some x)
    obtain i a g where x: "x = (i, a, g)" by (cases x)
    from Inr Some x have j: "SessionWithAccount P code d = Inr (Some (i, a, g))" by simp
    from sessions_okD(6) [OF P this] obtain r0 k where
      r0: "pb_session P d code = Some r0" "pb_key P d (sr_api_key_id r0) = Some k" "i = sr_id r0" "a = kr_account_id k" "g = sr_agent_id r0"
      by blast
    from c j obtain rw rw1 where
      guard: "a = account" "g = [] \<or> g = agent" and rec: "rec"
      and find: "FindSessionById P i d = Inr rw" and upd: "UpdateSession P rw1 d = (None, d')"
      and rw1: "sr_id rw1 = sr_id rw" "sr_code rw1 = sr_code rw" "sr_api_key_id rw1 = key"
        "sr_agent_id rw1 = agent" "sr_is_password_protected rw1 = protected" "sr_share_type rw1 = shareType"
      by (auto simp: claim_body_def Let_def split: prod.splits option.splits sum.splits if_splits)
    have f: "sr_id rw = i" "pb_session P d (sr_code rw) = Some rw"
      using sessions_okD(4) [OF P find] by auto
    then have code: "sr_code rw = code" using sessions_okD(2) [OF P f(2) r0(1)] r0(3) by auto
    have "pb_session P d' = (pb_session P d)(sr_code rw1 \<mapsto> rw1)" "pb_key P d' = pb_key P d"
      using UpdateSession_ok [OF P _ _ upd, of rw] f rw1 by auto
    moreover have "sr_id rw1 = sr_id r0" using rw1(1) f(1) r0(3) by (simp only:)
    moreover have "sr_code rw1 = code" using rw1(2) code by (simp only:)
    moreover have "kr_account_id k = account" "sr_agent_id r0 = [] \<or> sr_agent_id r0 = agent"
      using guard r0(4,5) by (simp_all only:)
    ultimately show ?thesis
      using rw1(3-6) rec r0(1,2) by (intro conjI exI [of _ rw1]) simp_all
  qed
qed

text \<open>
  (C33) Claiming a share code never takes it from another account. When the claim succeeds the code's row carries the claimant's key,
  agent, share type and password flag, and either the code was free or it was the claimant's account's, under no agent or the same agent,
  and keeps its record; no other row and no key changes. When it fails nothing changes at all; and a code whose key belongs
  to another account is always refused.
\<close>

theorem claim_keeps_ownership:
  assumes "pb_ok P"
    and "claimSessionCode P code key account agent expires relayOnly pub shareType protected d = (res, d')"
  shows "pb_key P d' = pb_key P d \<and>
    (case res of
       Inl _ \<Rightarrow> pb_same P d d'
     | Inr (_, reclaimed) \<Rightarrow> \<exists>r'. pb_session P d' = (pb_session P d)(code \<mapsto> r')
         \<and> sr_api_key_id r' = key \<and> sr_agent_id r' = agent \<and> sr_share_type r' = shareType \<and> sr_is_password_protected r' = protected
         \<and> (if reclaimed then \<exists>r k. pb_session P d code = Some r \<and> sr_id r' = sr_id r \<and> pb_key P d (sr_api_key_id r) = Some k
               \<and> kr_account_id k = account \<and> (sr_agent_id r = [] \<or> sr_agent_id r = agent)
            else pb_session P d code = None))"
proof (cases res)
  case (Inl e)
  have "transactions_ok P" using assms(1) by (simp add: pb_ok_def)
  from RunInTransaction_error [OF this] Inl show ?thesis
    using assms(2) by (auto simp: claimSessionCode_def pb_same_def)
next
  case (Inr x)
  obtain ro rec where x: "x = (ro, rec)" by (cases x)
  have P: "transactions_ok P" "sessions_ok P" using assms(1) by (auto simp: pb_ok_def)
  from RunInTransaction_ok [OF P(1)] assms(2) Inr x obtain d0 d1 where
    same: "pb_same P d d0" "pb_same P d1 d'" and
    body: "claim_body P code key account agent expires relayOnly pub shareType protected d0 = (Inr (ro, rec), d1)"
    unfolding claimSessionCode_def by metis
  have s: "pb_session P d0 = pb_session P d" "pb_key P d0 = pb_key P d" "pb_session P d' = pb_session P d1" "pb_key P d' = pb_key P d1"
    using same by (auto simp: pb_same_def)
  show ?thesis using claim_body_ok [OF P(2) body] unfolding s Inr x by auto
qed

definition no_floats :: f64_ops where
  "no_floats = \<lparr>fp_of_int = (\<lambda>n. n), fp_to_int = (\<lambda>n. n), fp_add = (+), fp_mul = (*), fp_sub = (-), fp_div = (div), fp_lt = (<), fp_GB = 1, fp_100 = 100, fp_zero = 0\<rparr>"

definition demo_key :: "string \<Rightarrow> string \<Rightarrow> key_row" where
  "demo_key i account = \<lparr>kr_id = i, kr_account_id = account, kr_label = [], kr_is_active = True, kr_key_hash = [],
     kr_last_used_at = 0, kr_created = 0\<rparr>"

definition demo_row :: "string \<Rightarrow> string \<Rightarrow> session_row" where
  "demo_row code key = \<lparr>sr_id = code, sr_code = code, sr_api_key_id = key, sr_agent_id = ''ag'', sr_relay_only = False,
     sr_relay_static_pub = ''pub'', sr_share_type = ''immich'', sr_is_password_protected = True, sr_expires_at = 0\<rparr>"

definition demo_db :: mem_db where
  "demo_db = \<lparr>md_sessions = [(''shared-1'', demo_row ''shared-1'' ''k1'')],
     md_keys = [''k1'' \<mapsto> demo_key ''k1'' ''alice'', ''k2'' \<mapsto> demo_key ''k2'' ''bob''],
     md_users = [''alice'' \<mapsto> \<lparr>ur_id = ''alice'', ur_email = [], ur_relay_quota_gb = 5, ur_current_period_usage_gb = 1,
        ur_quota_period_start = 1, ur_quota_period_end = 100\<rparr>],
     md_usage = [], md_next = 0\<rparr>"

theorem claim_keeps_ownership_witness:
  "fst (claimSessionCode (mem_pb no_floats) ''shared-1'' ''k2'' ''bob'' ''ag'' None None [] [] False demo_db) = Inl errCodeAlreadyInUse
   \<and> pb_same (mem_pb no_floats) demo_db
       (snd (claimSessionCode (mem_pb no_floats) ''shared-1'' ''k2'' ''bob'' ''ag'' None None [] [] False demo_db))"
proof -
  let ?r = "claimSessionCode (mem_pb no_floats) ''shared-1'' ''k2'' ''bob'' ''ag'' None None [] [] False demo_db"
  have "SessionWithAccount (mem_pb no_floats) ''shared-1'' demo_db = Inr (Some (''shared-1'', ''alice'', ''ag''))"
    by (simp add: mem_pb_def mem_session_def mem_key_def demo_db_def demo_row_def demo_key_def)
  then have f: "fst ?r = Inl errCodeAlreadyInUse"
    by (simp add: claimSessionCode_def RunInTransaction_def claim_body_def)
  show ?thesis
    using claim_keeps_ownership [OF mem_pb_ok surjective_pairing, of no_floats "''shared-1''" "''k2''" "''bob''" "''ag''" None None "[]" "[]" False demo_db] f
    by simp
qed

section \<open>What a handler leaves alone\<close>

text \<open>\<open>keeps f m\<close>: the program \<open>m\<close> never changes the part \<open>f\<close> of the server.\<close>

named_theorems keeps_intros

definition keeps :: "('d server \<Rightarrow> 'x) \<Rightarrow> ('d, 'a) srv \<Rightarrow> bool" where
  "keeps f m \<longleftrightarrow> (\<forall>s. f (snd (run_state m s)) = f s)"

lemma keepsD: "keeps f m \<Longrightarrow> run_state m s = (a, s') \<Longrightarrow> f s' = f s"
  by (auto simp: keeps_def dest: spec [of _ s])

lemma keeps_bind [keeps_intros]:
  assumes "keeps f m" "\<And>a. keeps f (n a)"
  shows "keeps f (State_Monad.bind m n)"
  using assms by (simp add: keeps_def split_beta)

lemma keeps_return [keeps_intros]: "keeps f (State_Monad.return a)" "keeps f State_Monad.get"
  by (simp_all add: keeps_def)

lemma keeps_cases [keeps_intros]:
  "(b \<Longrightarrow> keeps f m) \<Longrightarrow> (\<not> b \<Longrightarrow> keeps f n) \<Longrightarrow> keeps f (if b then m else n)"
  "(\<And>a. keeps f (l a)) \<Longrightarrow> (\<And>a. keeps f (r a)) \<Longrightarrow> keeps f (case x of Inl a \<Rightarrow> l a | Inr a \<Rightarrow> r a)"
  "keeps f m \<Longrightarrow> (\<And>a. keeps f (o' a)) \<Longrightarrow> keeps f (case y of None \<Rightarrow> m | Some a \<Rightarrow> o' a)"
  "(\<And>a b. keeps f (p a b)) \<Longrightarrow> keeps f (case z of (a, b) \<Rightarrow> p a b)"
  "keeps f m \<Longrightarrow> keeps f n \<Longrightarrow> keeps f (case b of True \<Rightarrow> m | False \<Rightarrow> n)"
  by (auto split: sum.splits option.splits prod.splits bool.splits)

lemma keeps_reg_prims [keeps_intros]:
  "keeps sv_reg (db_read g)" "keeps sv_reg (db_write h)" "keeps sv_reg (hub_read i)" "keeps sv_reg (hub_call j)"
  "keeps sv_reg (hub_upd k)" "keeps sv_reg (emit e)"
  by (simp_all add: keeps_def split_beta)

lemma keeps_db_prims [keeps_intros]:
  "keeps sv_db (db_read g)" "keeps sv_db (hub_read i)" "keeps sv_db (hub_call j)" "keeps sv_db (hub_upd k)" "keeps sv_db (emit e)"
  by (simp_all add: keeps_def split_beta)

lemma keeps_hub_prims [keeps_intros]:
  "keeps sv_hub (db_read g)" "keeps sv_hub (db_write h)" "keeps sv_hub (hub_read i)" "keeps sv_hub (emit e)"
  by (simp_all add: keeps_def)

lemmas agent_handler_defs =
  handleHello_def handleRegisterShare_def handleUnregisterShare_def handleAuthFail_def handleAuthFailed_def handleFailure_def
  reply_error_def to_browser_def to_session_def pkg_SendDirect_def

section \<open>Relay sessions are prepared for authenticated browsers only\<close>

lemma keeps_reg_dispatch:
  assumes "am_Type msg \<noteq> ''auth_ok'' \<or> as_agentID k = []"
  shows "keeps sv_reg (agent_dispatch P J E cfg k msg)"
  unfolding agent_dispatch_def agent_handler_defs using assms by (auto intro!: keeps_intros)

lemma keeps_reg_hello: "keeps sv_reg (handleHello cfg k i)"
  unfolding agent_handler_defs by (auto intro!: keeps_intros)

lemma AgentWS_message_reg:
  assumes "run_state (AgentWS_message P J E cfg k (Some msg)) s = (k', s')" "sv_reg s' \<noteq> sv_reg s"
  shows "as_agentID k \<noteq> [] \<and> am_Type msg = ''auth_ok'' \<and> IsCurrentAgent (as_apiKeyID k) (as_ptr k) (sv_hub s)
    \<and> snd (run_state (handleAuthOk P J E cfg k msg) s) = s'"
proof -
  have "\<not> (am_Type msg = ''hello'')"
    using assms keeps_reg_hello [where 'a = 'a, of cfg k, unfolded keeps_def]
    by (auto simp: AgentWS_message_def split_beta split: if_splits)
  moreover have "snd (run_state (agent_dispatch P J E cfg k msg) s) = s'" "as_agentID k = [] \<or> IsCurrentAgent (as_apiKeyID k) (as_ptr k) (sv_hub s)"
    using assms calculation by (auto simp: AgentWS_message_def split_beta split: if_splits)
  moreover have "am_Type msg = ''auth_ok'' \<and> as_agentID k \<noteq> []"
    using keeps_reg_dispatch [of msg k P J E cfg] calculation(2) assms(2) by (auto simp: keeps_def)
  ultimately show ?thesis by (auto simp: agent_dispatch_def)
qed

definition relay_prepare :: "string jwt_lib \<Rightarrow> srv_env \<Rightarrow> srv_config \<Rightarrow> agent_sock \<Rightarrow> string \<Rightarrow> json" where
  "relay_prepare J E cfg k code = JObj [(''type'', JStr ''relay_prepare''), (''sid'', JStr (NewSID (ev_sid E))),
     (''code'', JStr code), (''expires_at'', JStr (ev_rfc3339 E (ev_now E + TokenLifetime))),
     (''relay_jwt'', JStr (SignAgentRelayJWT J (cf_RelayJWTSecret cfg) (agent_claims E k) (ev_now E)))]"

definition browser_policy :: "string jwt_lib \<Rightarrow> srv_env \<Rightarrow> srv_config \<Rightarrow> string \<Rightarrow> session_row \<Rightarrow> json" where
  "browser_policy J E cfg code r =
     relay_policy (SignBrowserPolicyJWT J (cf_RelayJWTSecret cfg) (browser_claims E code r) (ev_now E)) True (sr_relay_only r)"

text \<open>An accepted \<^verbatim>\<open>auth_ok\<close>, with the relay allowed: the pending session and the two tokens.\<close>

lemma handleAuthOk_run:
  assumes bn: "browserForAgentLocked (as_apiKeyID k) (as_ptr k) (am_ConnID msg) (sv_hub s) = Some (bn, am_Code msg)"
    and r: "FindSessionByCode P (am_Code msg) (sv_db s) = Inr (Some r)" "sr_api_key_id r = as_apiKeyID k"
    and allowed: "relayAllowed P E cfg (as_accountID k) r s = Some True" and reg: "sv_reg s = Some reg"
  shows "sv_reg (snd (run_state (handleAuthOk P J E cfg k msg) s)) = Some (snd (CreatePendingSession (pending_of E k (am_Code msg) r) reg))"
    and "sv_db (snd (run_state (handleAuthOk P J E cfg k msg) s)) = sv_db s"
    and "sv_out (snd (run_state (handleAuthOk P J E cfg k msg) s))
      = sv_out s @ [HSend (as_ptr k) (relay_prepare J E cfg k (am_Code msg)), HSend bn (browser_policy J E cfg (am_Code msg) r)]"
proof -
  have "run_state (handleAuthOk P J E cfg k msg) s = run_state (State_Monad.bind (prepareRelay J E cfg k (am_Code msg) r) (\<lambda>token.
      case token of
        None \<Rightarrow> State_Monad.return ()
      | Some browserJWT \<Rightarrow> to_browser k (am_ConnID msg) (relay_policy browserJWT True (sr_relay_only r)))) s"
    using bn r allowed by (simp add: handleAuthOk_def BrowserSessionForAgent_def getSessionByCode_def)
  then show "sv_reg (snd (run_state (handleAuthOk P J E cfg k msg) s)) = Some (snd (CreatePendingSession (pending_of E k (am_Code msg) r) reg))"
    "sv_db (snd (run_state (handleAuthOk P J E cfg k msg) s)) = sv_db s"
    "sv_out (snd (run_state (handleAuthOk P J E cfg k msg) s))
      = sv_out s @ [HSend (as_ptr k) (relay_prepare J E cfg k (am_Code msg)), HSend bn (browser_policy J E cfg (am_Code msg) r)]"
    using reg bn
    by (simp_all add: prepareRelay_def CreatePendingSession_def Let_def to_browser_def split_beta ForwardToBrowserByConnID_def hub_send_def
        relay_prepare_def browser_policy_def)
qed

lemma handleAuthOk_reg:
  assumes "run_state (handleAuthOk P J E cfg k msg) s = (u, s')" "sv_reg s' \<noteq> sv_reg s"
  obtains bn r reg u where "browserForAgentLocked (as_apiKeyID k) (as_ptr k) (am_ConnID msg) (sv_hub s) = Some (bn, am_Code msg)"
    "FindSessionByCode P (am_Code msg) (sv_db s) = Inr (Some r)" "sr_api_key_id r = as_apiKeyID k"
    "cf_RelayJWTSecret cfg \<noteq> []" "sr_relay_static_pub r \<noteq> []"
    "FindUser P (as_accountID k) (sv_db s) = Inr u" "\<not> fst (checkRelayQuota E u)"
    "sv_reg s = Some reg" "sv_reg s' = Some (snd (CreatePendingSession (pending_of E k (am_Code msg) r) reg))"
    "sv_db s' = sv_db s"
    "sv_out s' = sv_out s @ [HSend (as_ptr k) (relay_prepare J E cfg k (am_Code msg)), HSend bn (browser_policy J E cfg (am_Code msg) r)]"
proof -
  have kb: "sv_reg (snd (run_state (to_browser k c m) t)) = sv_reg t" for c m and t :: "'a server"
    by (simp add: to_browser_def split_beta)
  have bound: "BrowserSessionForAgent (as_apiKeyID k) (as_ptr k) (am_ConnID msg) (sv_hub s) = Some (am_Code msg)"
    using assms by (auto simp: handleAuthOk_def split: if_splits)
  then obtain bn where bn: "browserForAgentLocked (as_apiKeyID k) (as_ptr k) (am_ConnID msg) (sv_hub s) = Some (bn, am_Code msg)"
    by (auto simp: BrowserSessionForAgent_def)
  obtain r where r: "FindSessionByCode P (am_Code msg) (sv_db s) = Inr (Some r)" "sr_api_key_id r = as_apiKeyID k"
    using assms bound by (auto simp: handleAuthOk_def getSessionByCode_def split: if_splits sum.splits option.splits)
  have run: "run_state (case relayAllowed P E cfg (as_accountID k) r s of
               None \<Rightarrow> State_Monad.return ()
             | Some False \<Rightarrow> to_browser k (am_ConnID msg) (relay_policy [] False (sr_relay_only r))
             | Some True \<Rightarrow> State_Monad.bind (prepareRelay J E cfg k (am_Code msg) r) (\<lambda>token.
                 case token of
                   None \<Rightarrow> State_Monad.return ()
                 | Some browserJWT \<Rightarrow> to_browser k (am_ConnID msg) (relay_policy browserJWT True (sr_relay_only r)))) s = (u, s')"
    using assms(1) bound r by (simp add: handleAuthOk_def getSessionByCode_def)
  have allowed: "relayAllowed P E cfg (as_accountID k) r s = Some True"
    using run assms(2) kb [of "am_ConnID msg" "relay_policy [] False (sr_relay_only r)" s]
    by (auto split: option.splits bool.splits)
  then obtain reg ur where reg: "sv_reg s = Some reg" "cf_RelayJWTSecret cfg \<noteq> []" "sr_relay_static_pub r \<noteq> []"
    "FindUser P (as_accountID k) (sv_db s) = Inr ur" "\<not> fst (checkRelayQuota E ur)"
    by (auto simp: relayAllowed_def split: if_splits sum.splits)
  have "s' = snd (run_state (handleAuthOk P J E cfg k msg) s)" using assms(1) by simp
  with handleAuthOk_run [OF bn r allowed reg(1), of J] bn r reg show ?thesis by (intro that) auto
qed


definition demo_env :: srv_env where
  "demo_env = \<lparr>ev_now = 50, ev_rfc3339 = (\<lambda>_. ''t''), ev_codeDigits = (\<lambda>_. None), ev_sid = [1], ev_jti = [2], ev_connID = [3],
     ev_f64_ge = (\<ge>)\<rparr>"

definition demo_cfg :: srv_config where
  "demo_cfg = \<lparr>cf_STUNURL = ''stun:x'', cf_RelayJWTSecret = ''secret''\<rparr>"

definition demo_sock :: agent_sock where
  "demo_sock = \<lparr>as_conn = 1, as_apiKeyID = ''k1'', as_accountID = ''alice'', as_agentID = ''ag''\<rparr>"

definition demo_server :: "mem_db server" where
  "demo_server = \<lparr>sv_db = demo_db,
     sv_hub = snd (PairSession ''shared-1'' ''i'' ''k1'' (Some 7) (RegisterCode ''shared-1'' ''k1'' (RegisterAgent ''k1'' (Some 1) hub_New))),
     sv_reg = Some (NewRegistry 7), sv_out = []\<rparr>"

definition demo_msg :: "string \<Rightarrow> agentMsg" where
  "demo_msg type = \<lparr>am_Type = type, am_AgentID = [], am_Code = ''shared-1'', am_ExpiresAt = None, am_SessionID = [], am_SDP = [],
     am_Candidate = JNull, am_ConnID = ''i'', am_Value = [], am_HasPassword = False, am_RelayOnly = None, am_RelayStaticPub = [],
     am_ShareType = [], am_IsPasswordProtected = False\<rparr>"

lemma demo_hub:
  "browserForAgentLocked ''k1'' (Some 1) ''i'' (sv_hub demo_server) = Some (Some 7, ''shared-1'')"
  "IsCurrentAgent ''k1'' (Some 1) (sv_hub demo_server)"
  by (simp_all add: demo_server_def hub_eval browserForAgentLocked_def agentOwnsSessionLocked_def IsCurrentAgent_def)

lemma demo_lookup:
  "FindSessionByCode (mem_pb no_floats) ''shared-1'' (sv_db demo_server) = Inr (Some (demo_row ''shared-1'' ''k1''))"
  "FindUser (mem_pb no_floats) ''alice'' (sv_db demo_server) = Inr \<lparr>ur_id = ''alice'', ur_email = [], ur_relay_quota_gb = 5,
     ur_current_period_usage_gb = 1, ur_quota_period_start = 1, ur_quota_period_end = 100\<rparr>"
  by (simp_all add: mem_pb_def mem_session_def mem_user_def demo_server_def demo_db_def demo_row_def of_option_def)

lemma demo_prepares:
  "sv_reg (snd (run_state (AgentWS_message (mem_pb no_floats) J demo_env demo_cfg demo_sock (Some (demo_msg ''auth_ok''))) demo_server))
     \<noteq> sv_reg demo_server"
proof -
  have "snd (run_state (AgentWS_message (mem_pb no_floats) J demo_env demo_cfg demo_sock (Some (demo_msg ''auth_ok''))) demo_server)
    = snd (run_state (handleAuthOk (mem_pb no_floats) J demo_env demo_cfg demo_sock (demo_msg ''auth_ok'')) demo_server)"
    using demo_hub(2) by (simp add: AgentWS_message_def agent_dispatch_def demo_sock_def demo_msg_def split_beta)
  moreover have "relayAllowed (mem_pb no_floats) demo_env demo_cfg ''alice'' (demo_row ''shared-1'' ''k1'') demo_server = Some True"
    using demo_lookup(2) by (simp add: relayAllowed_def demo_cfg_def demo_row_def checkRelayQuota_def demo_env_def, simp add: demo_server_def word_le_nat_alt)
  moreover have "sv_reg demo_server = Some (NewRegistry 7)" by (simp add: demo_server_def)
  ultimately show ?thesis
    using handleAuthOk_run(1) [of demo_sock "demo_msg ''auth_ok''" demo_server "Some 7" "mem_pb no_floats" "demo_row ''shared-1'' ''k1''"
        demo_env demo_cfg "NewRegistry 7" J] demo_hub(1) demo_lookup(1)
    by (simp add: demo_sock_def demo_msg_def demo_row_def, simp add: CreatePendingSession_def NewRegistry_def)
qed

definition demo_jwt :: "string jwt_lib" where
  "demo_jwt = \<lparr>jwt_sign = (\<lambda>s c. s), jwt_parse = (\<lambda>s t n. Inl ErrReplay)\<rparr>"


section \<open>Protected galleries\<close>

text \<open>
  (C34) The browser of a password-protected gallery reaches its agent with password attempts only. Whatever message such a browser
  sends, the server changes neither the database nor the registry, and everything it writes goes to the browser itself, except that
  a \<^verbatim>\<open>password_submit\<close> for the browser's own session is handed to the agent of the session's key with the browser's connection id,
  the session's code and the submitted password.
\<close>

theorem protected_share_gate:
  assumes "bs_isImmich b" "bs_isPasswordProtected b" and "run_state (BrowserWS_message b input) s = (u, s')"
  shows "sv_db s' = sv_db s \<and> sv_reg s' = sv_reg s \<and>
    (\<exists>effs. sv_out s' = sv_out s @ effs \<and>
      (\<forall>e\<in>set effs. (\<exists>m. e = HSend (bs_ptr b) m)
        \<or> (\<exists>msg c. input = Some msg \<and> bm_Type msg = ''password_submit'' \<and> bm_Code msg = bs_sessionCode b
            \<and> agents (sv_hub s) (bs_apiKeyID b) = Some c
            \<and> e = HSend c (typed ''password_submit'' [(''conn_id'', JStr (bs_connID b)), (''code'', JStr (bs_sessionCode b)),
                  (''password'', JStr (bm_Password msg))]))))"
proof (cases input)
  case None
  then show ?thesis using assms(3) by (simp add: BrowserWS_message_def)
next
  case (Some msg)
  have refuse: ?thesis if "run_state (browser_refuse b m) s = (u, s')" for m
    using that by (auto simp: browser_refuse_def hub_SendDirect_def SendDirect_def hub_send_def split_beta)
  consider "bm_Type msg \<noteq> ''password_submit''" | "bm_Type msg = ''password_submit''" "bm_Code msg \<noteq> bs_sessionCode b"
    | "bm_Type msg = ''password_submit''" "bm_Code msg = bs_sessionCode b" by blast
  then show ?thesis
  proof cases
    case 1
    then show ?thesis using assms Some refuse by (simp add: BrowserWS_message_def)
  next
    case 2
    then show ?thesis using assms Some refuse by (simp add: BrowserWS_message_def)
  next
    case 3
    then have "run_state (to_agent (bs_apiKeyID b) (typed ''password_submit'' [(''conn_id'', JStr (bs_connID b)),
               (''code'', JStr (bs_sessionCode b)), (''password'', JStr (bm_Password msg))])) s = (u, s')"
      using assms Some by (simp add: BrowserWS_message_def)
    with Some 3 show ?thesis
      by (auto simp: to_agent_def SendToAgent_def hub_send_def split_beta split: option.splits)
  qed
qed

definition demo_browser :: browser_sock where
  "demo_browser = \<lparr>bs_conn = 7, bs_connID = ''i'', bs_sessionCode = ''shared-1'', bs_apiKeyID = ''k1'', bs_isImmich = True,
     bs_isPasswordProtected = True\<rparr>"

definition demo_join :: browserMsg where
  "demo_join = \<lparr>bm_Type = ''join'', bm_Code = [], bm_Password = [], bm_SDP = [], bm_Candidate = JNull, bm_HMAC = ''00''\<rparr>"

theorem protected_share_gate_witness:
  "\<exists>effs. sv_out (snd (run_state (BrowserWS_message demo_browser (Some demo_join)) demo_server)) = effs
     \<and> list_all (\<lambda>e. \<exists>m. e = HSend (Some 7) m) effs"
proof -
  have p: "bs_isImmich demo_browser" "bs_isPasswordProtected demo_browser" by (simp_all add: demo_browser_def)
  from protected_share_gate [OF p surjective_pairing, of "Some demo_join" demo_server]
  show ?thesis by (auto simp: demo_join_def list_all_iff demo_browser_def demo_server_def)
qed

section \<open>Wrong passwords\<close>

text \<open>What the two failure counters of the hub have in common.\<close>

locale failure_counter =
  fixes increment :: "string \<Rightarrow> ptr \<Rightarrow> string \<Rightarrow> Hub \<Rightarrow> int \<times> Hub"
    and count :: "Hub \<Rightarrow> string \<Rightarrow> int"
  assumes owned: "browserForAgentLocked a p c h = Some x \<Longrightarrow>
      fst (increment a p c h) = count h c + 1 \<and> count (snd (increment a p c h)) c = count h c + 1
      \<and> browserForAgentLocked a p c (snd (increment a p c h)) = Some x"
    and not_owned: "browserForAgentLocked a p c h = None \<Longrightarrow> increment a p c h = (0, h)"
    and count_writeMu: "count (writeMu q h) = count h"
begin

definition answer :: "int \<Rightarrow> string \<Rightarrow> ptr \<Rightarrow> int \<Rightarrow> hub_effect list" where
  "answer limit type bn n =
     (if n < limit then [HSend bn (attempts_message type (limit - n))]
      else [HSend bn (errorMsg ''too many incorrect password attempts''), HClose bn ''too many incorrect password attempts''])"

lemma browserFor_writeMu: "browserForAgentLocked a p c (writeMu q h) = browserForAgentLocked a p c h"
  by (rule browserFor_cong) (simp_all add: writeMu_def ensureWriteMuLocked_def split: option.splits)

lemma one_failure:
  fixes limit :: int and type :: string
  assumes "browserForAgentLocked (as_apiKeyID k) (as_ptr k) c (sv_hub s) = Some (bn, code)" "count (sv_hub s) c = n" "0 \<le> n"
  defines "s' \<equiv> snd (run_state (handleFailure increment limit type k c) s)"
  shows "sv_out s' = sv_out s @ answer limit type bn (n + 1) \<and> count (sv_hub s') c = n + 1
    \<and> browserForAgentLocked (as_apiKeyID k) (as_ptr k) c (sv_hub s') = Some (bn, code)"
  using owned [OF assms(1)] assms(2,3)
  by (auto simp: s'_def handleFailure_def answer_def split_beta to_browser_def ForwardToBrowserByConnID_def
      CloseBrowserConnWithError_def hub_send_def count_writeMu browserFor_writeMu)

lemma many_failures:
  fixes limit :: int and type :: string
  assumes "browserForAgentLocked (as_apiKeyID k) (as_ptr k) c (sv_hub s) = Some (bn, code)" "count (sv_hub s) c = 0"
  defines "s' n \<equiv> ((\<lambda>s. snd (run_state (handleFailure increment limit type k c) s)) ^^ n) s"
  shows "sv_out (s' n) = sv_out s @ concat (map (\<lambda>i. answer limit type bn (int i)) [1..<Suc n]) \<and> count (sv_hub (s' n)) c = int n
    \<and> browserForAgentLocked (as_apiKeyID k) (as_ptr k) c (sv_hub (s' n)) = Some (bn, code)"
proof (induction n)
  case 0
  then show ?case using assms(1,2) by (simp add: s'_def)
next
  case (Suc n)
  have "s' (Suc n) = snd (run_state (handleFailure increment limit type k c) (s' n))" by (simp add: s'_def)
  with one_failure [of k c "s' n" bn code "int n" limit type] Suc.IH show ?case by (simp add: algebra_simps)
qed

lemma foreign_failure:
  assumes "browserForAgentLocked (as_apiKeyID k) (as_ptr k) c (sv_hub s) = None"
  shows "run_state (handleFailure increment limit type k c) s = ((), s)"
  using not_owned [OF assms] by (simp add: handleFailure_def)

end

interpretation hmac_failures: failure_counter IncrementAuthFailure "\<lambda>h c. map_get 0 (connFails h) c"
  by unfold_locales (auto simp: IncrementAuthFailure_def Let_def writeMu_def ensureWriteMuLocked_def split: option.splits
      intro: trans [OF browserFor_cong])

interpretation immich_failures: failure_counter IncrementImmichAuthFailure "\<lambda>h c. map_get 0 (connImmichFails h) c"
  by unfold_locales (auto simp: IncrementImmichAuthFailure_def Let_def writeMu_def ensureWriteMuLocked_def split: option.splits
      intro: trans [OF browserFor_cong])

text \<open>
  (C35) Guessing passwords ends at the third failed proof and at the fifth wrong gallery password. When the agent reports failures of a
  browser it owns, starting from none, the browser is told the attempts that remain before the limit, and from the limit on each
  report sends it the error and closes it; failures reported by a socket that does not own the browser do nothing.
\<close>

theorem wrong_passwords_lock_out:
  assumes "browserForAgentLocked (as_apiKeyID k) (as_ptr k) c (sv_hub s) = Some (bn, code)"
    and "map_get 0 (connFails (sv_hub s)) c = 0" "map_get 0 (connImmichFails (sv_hub s)) c = 0"
    and "browserForAgentLocked (as_apiKeyID k2) (as_ptr k2) c (sv_hub s) = None"
  defines "closing \<equiv> [HSend bn (errorMsg ''too many incorrect password attempts''), HClose bn ''too many incorrect password attempts'']"
  shows "sv_out (((\<lambda>s. snd (run_state (handleAuthFailed k c) s)) ^^ n) s)
      = sv_out s @ concat (map (\<lambda>i. if i < 3 then [HSend bn (attempts_message ''auth_failed'' (3 - int i))] else closing) [1..<Suc n])
    \<and> sv_out (((\<lambda>s. snd (run_state (handleAuthFail k c) s)) ^^ n) s)
      = sv_out s @ concat (map (\<lambda>i. if i < 5 then [HSend bn (attempts_message ''auth_fail'' (5 - int i))] else closing) [1..<Suc n])
    \<and> snd (run_state (handleAuthFailed k2 c) s) = s \<and> snd (run_state (handleAuthFail k2 c) s) = s"
proof -
  have eqs: "(\<lambda>i. hmac_failures.answer 3 ''auth_failed'' bn (int i))
      = (\<lambda>i. if i < 3 then [HSend bn (attempts_message ''auth_failed'' (3 - int i))] else closing)"
    "(\<lambda>i. immich_failures.answer 5 ''auth_fail'' bn (int i))
      = (\<lambda>i. if i < 5 then [HSend bn (attempts_message ''auth_fail'' (5 - int i))] else closing)"
    by (auto simp: fun_eq_iff closing_def hmac_failures.answer_def immich_failures.answer_def)
  show ?thesis
    using hmac_failures.many_failures [OF assms(1,2), where limit = 3 and type = "''auth_failed''" and n = n]
      immich_failures.many_failures [OF assms(1,3), where limit = 5 and type = "''auth_fail''" and n = n]
      hmac_failures.foreign_failure [OF assms(4), where limit = 3 and type = "''auth_failed''"]
      immich_failures.foreign_failure [OF assms(4), where limit = 5 and type = "''auth_fail''"]
    by (simp add: handleAuthFailed_def handleAuthFail_def eqs del: upt_Suc)
qed

theorem wrong_passwords_lock_out_witness:
  "HClose (Some 7) ''too many incorrect password attempts''
     \<in> set (sv_out (((\<lambda>s. snd (run_state (handleAuthFailed demo_sock ''i'') s)) ^^ 3) demo_server))"
proof -
  have c: "browserForAgentLocked (as_apiKeyID demo_sock) (as_ptr demo_sock) ''i'' (sv_hub demo_server) = Some (Some 7, ''shared-1'')"
    using demo_hub(1) by (simp add: demo_sock_def)
  have z: "map_get 0 (connFails (sv_hub demo_server)) ''i'' = 0" "map_get 0 (connImmichFails (sv_hub demo_server)) ''i'' = 0"
    by (simp_all add: demo_server_def hub_eval ensureWriteMuLocked_def map_get_def)
  have f: "browserForAgentLocked (as_apiKeyID (demo_sock\<lparr>as_conn := 9\<rparr>)) (as_ptr (demo_sock\<lparr>as_conn := 9\<rparr>)) ''i'' (sv_hub demo_server) = None"
    by (simp add: demo_sock_def demo_server_def hub_eval browserForAgentLocked_def agentOwnsSessionLocked_def)
  show ?thesis
    using wrong_passwords_lock_out [OF c z f, of 3] by (simp add: upt_rec numeral_eq_Suc)
qed

end
