(* ===== verification/Server_Keys_Properties.thy ===== *)
theory Server_Keys_Properties
  imports Server_Properties
begin

text \<open>
  The life of an API key: a created key authenticates its agent, a rotated key hands its shares to its successor, a revoked key is
  locked out, except for a socket that was accepted before and enrolls afterwards; and the accounting of relayed bytes with its race.
\<close>

section \<open>Creating a key\<close>

lemma keys_okD:
  assumes "keys_ok P"
  shows "FindKey P i d = Inr k \<Longrightarrow> pb_key P d i = Some k"
    and "pb_key P d i = Some k \<Longrightarrow> kr_id k = i"
    and "fst (InsertKey P k d) = Inl err \<Longrightarrow> pb_same P d (snd (InsertKey P k d))"
    and "fst (InsertKey P k d) = Inr k' \<Longrightarrow> \<exists>i t. k' = k\<lparr>kr_id := i, kr_created := t\<rparr> \<and> i \<noteq> [] \<and> pb_key P d i = None
      \<and> pb_key P (snd (InsertKey P k d)) = (pb_key P d)(i \<mapsto> k') \<and> pb_session P (snd (InsertKey P k d)) = pb_session P d"
    and "fst (UpdateKey P k d) \<noteq> None \<Longrightarrow> pb_same P d (snd (UpdateKey P k d))"
    and "pb_key P d (kr_id k) \<noteq> None \<Longrightarrow> fst (UpdateKey P k d) = None \<Longrightarrow>
      pb_key P (snd (UpdateKey P k d)) = (pb_key P d)(kr_id k \<mapsto> k) \<and> pb_session P (snd (UpdateKey P k d)) = pb_session P d"
  by (fact
    spec [OF assms [unfolded keys_ok_def], of d, THEN conjunct1, rule_format]
    spec [OF assms [unfolded keys_ok_def], of d, THEN conjunct2, THEN conjunct1, rule_format]
    spec [OF assms [unfolded keys_ok_def], of d, THEN conjunct2, THEN conjunct2, THEN conjunct1, rule_format]
    spec [OF assms [unfolded keys_ok_def], of d, THEN conjunct2, THEN conjunct2, THEN conjunct2, THEN conjunct1, rule_format]
    spec [OF assms [unfolded keys_ok_def], of d, THEN conjunct2, THEN conjunct2, THEN conjunct2, THEN conjunct2, THEN conjunct1, rule_format]
    spec [OF assms [unfolded keys_ok_def], of d, THEN conjunct2, THEN conjunct2, THEN conjunct2, THEN conjunct2, THEN conjunct2, rule_format])+

lemma createAPIKeyRecord_ok:
  assumes P: "keys_ok P" and c: "createAPIKeyRecord P B rnd account label d = (Inr (k, full), d')"
  obtains secret where "rnd = Some secret" "full = kr_id k @ ''.'' @ base64url secret" "bc_generate B full = Inr (kr_key_hash k)"
    "kr_account_id k = account" "kr_label k = label" "kr_is_active k" "kr_id k \<noteq> []"
    "pb_key P d (kr_id k) = None" "pb_key P d' = (pb_key P d)(kr_id k \<mapsto> k)" "pb_session P d' = pb_session P d"
proof -
  define k0 where "k0 = \<lparr>kr_id = [], kr_account_id = account, kr_label = label, kr_is_active = True, kr_key_hash = [],
             kr_last_used_at = 0, kr_created = 0\<rparr>"
  obtain k1 d1 secret hash where ins: "InsertKey P k0 d = (Inr k1, d1)" and secret: "rnd = Some secret"
    and full: "full = kr_id k1 @ ''.'' @ base64url secret" "bc_generate B full = Inr hash" "k = k1\<lparr>kr_key_hash := hash\<rparr>"
    and upd: "UpdateKey P k d1 = (None, d')"
    using c by (auto simp: createAPIKeyRecord_def k0_def Let_def split: prod.splits sum.splits option.splits if_splits)
  from keys_okD(4) [OF P, of k0 d k1] ins obtain i t where
    k1: "k1 = k0\<lparr>kr_id := i, kr_created := t\<rparr>" "i \<noteq> []" "pb_key P d i = None" "pb_key P d1 = (pb_key P d)(i \<mapsto> k1)"
      "pb_session P d1 = pb_session P d" by auto
  have "pb_key P d' = (pb_key P d1)(kr_id k \<mapsto> k) \<and> pb_session P d' = pb_session P d1"
    using keys_okD(6) [OF P, of d1 k] upd k1 full(3) by simp
  then show ?thesis using that [of secret] secret full k1 by (simp add: k0_def)
qed

lemma last_index_Some: "c \<notin> set ys \<Longrightarrow> last_index c (xs @ c # ys) = Some (length xs)"
proof (induction xs)
  case Nil
  have "last_index c zs = None" if "c \<notin> set zs" for zs using that by (induction zs) auto
  with Nil show ?case by simp
qed simp

lemma secret_char_no_dot: "n < 64 \<Longrightarrow> secret_char n \<noteq> CHR ''.''"
proof -
  have "\<forall>n<64. secret_char n \<noteq> CHR ''.''" by code_simp
  then show "n < 64 \<Longrightarrow> secret_char n \<noteq> CHR ''.''" by blast
qed

lemma base64_index:
  "unat (a :: byte) div 4 < 64" "unat a mod 4 * 16 + unat (b :: byte) div 16 < 64" "unat b mod 16 * 4 + unat (c :: byte) div 64 < 64"
  "unat a mod 4 * 16 < 64" "unat b mod 16 * 4 < 64"
  using unat_byte_less [of a] unat_byte_less [of b] unat_byte_less [of c] by linarith+

lemma base64url_no_dot: "CHR ''.'' \<notin> set (base64url bs)"
proof (induction bs rule: base64url.induct)
  case (4 a b c bs)
  have "unat c mod 64 < 64" by simp
  with 4 secret_char_no_dot base64_index show ?case by (simp add: not_sym)
qed (use secret_char_no_dot base64_index in \<open>simp_all add: not_sym\<close>)

lemma base64url_Nil: "base64url bs = [] \<longleftrightarrow> bs = []"
  by (cases bs rule: base64url.cases) auto

lemma splitAPIKey_full:
  assumes "secret \<noteq> []"
  shows "splitAPIKey (i @ ''.'' @ base64url secret) = Some (i, base64url secret)"
  using last_index_Some [OF base64url_no_dot [of secret], of i] assms base64url_Nil [of secret] by (auto simp: splitAPIKey_def)

text \<open>
  A new API key works. The key handed out by \<^verbatim>\<open>createAPIKeyRecord\<close> is its record's id, a dot and the secret; presented to the
  middleware while its record is in the database unchanged it is accepted, for exactly that record's id and account.
\<close>

theorem created_key_authenticates:
  assumes "keys_ok P" "bcrypt_ok B" and "createAPIKeyRecord P B rnd account label d = (Inr (k, full), d')" and "rnd \<noteq> Some []"
    and "FindKey P (kr_id k) d2 = Inr k2" "pb_key P d2 (kr_id k) = pb_key P d' (kr_id k)"
  shows "fst (APIKeyAuth P B now full d2) = Inr (kr_id k, account)"
  using assms(1,3)
proof (rule createAPIKeyRecord_ok)
  fix secret
  assume s: "rnd = Some secret" "full = kr_id k @ ''.'' @ base64url secret" "bc_generate B full = Inr (kr_key_hash k)"
    "kr_account_id k = account" "kr_is_active k" "pb_key P d' = (pb_key P d)(kr_id k \<mapsto> k)"
  have k2: "k2 = k" using keys_okD(1) [OF assms(1,5)] assms(6) s(6) by simp
  have "splitAPIKey full = Some (kr_id k, base64url secret)" unfolding s(2)
    by (rule splitAPIKey_full) (use s(1) assms(4) in simp)
  moreover have "bc_matches B (kr_key_hash k) full" using assms(2) s(3) by (auto simp: bcrypt_ok_def)
  moreover have "full \<noteq> []" using s(2) by simp
  ultimately show ?thesis using s assms(5) k2 by (simp add: APIKeyAuth_def split_beta)
qed

definition plain_bcrypt :: bcrypt where
  "plain_bcrypt = \<lparr>bc_generate = (\<lambda>p. Inr (CHR ''#'' # p)), bc_matches = (\<lambda>h p. h = CHR ''#'' # p)\<rparr>"

theorem created_key_authenticates_witness:
  "let (res, d') = createAPIKeyRecord (mem_pb no_floats) plain_bcrypt (Some [1]) ''alice'' ''laptop'' demo_db in
     (case res of Inl _ \<Rightarrow> False
      | Inr (k, full) \<Rightarrow> fst (APIKeyAuth (mem_pb no_floats) plain_bcrypt 7 full d') = Inr (kr_id k, ''alice''))"
proof -
  define c where "c = createAPIKeyRecord (mem_pb no_floats) plain_bcrypt (Some [1]) ''alice'' ''laptop'' demo_db"
  have "mem_key demo_db (mem_newKeyID demo_db) = None"
    by (simp add: mem_key_def mem_newKeyID_def demo_db_def)
  then obtain k full d' where c: "c = (Inr (k, full), d')" and m: "mem_key d' (kr_id k) = Some k"
    by (auto simp: c_def createAPIKeyRecord_def mem_pb_def plain_bcrypt_def mem_key_def Let_def)
  have "fst (APIKeyAuth (mem_pb no_floats) plain_bcrypt 7 full d') = Inr (kr_id k, ''alice'')"
    by (rule created_key_authenticates [OF mem_keys_ok _ c [unfolded c_def], of d' k])
      (use m in \<open>auto simp: bcrypt_ok_def plain_bcrypt_def mem_pb_def of_option_def\<close>)
  then show ?thesis using c by (simp add: c_def)
qed

section \<open>Revoking and rotating\<close>

lemma close_agent_run:
  fixes key :: string
  assumes "dom (codes (sv_hub s)) \<subseteq> set order"
  defines "s' \<equiv> snd (run_state (close_agent key order) s)"
  shows "sv_db s' = sv_db s \<and> agents (sv_hub s') key = None \<and> (\<forall>code. codes (sv_hub s') code \<noteq> Some key)"
proof -
  obtain effs g where g: "CloseAgent key order (sv_hub s) = (effs, g)" by (cases "CloseAgent key order (sv_hub s)")
  from CloseAgent_purges [OF assms(1) g] have "agents g key = None" "\<forall>code. codes g code \<noteq> Some key" by blast+
  with g show ?thesis by (simp add: s'_def close_agent_def)
qed

lemma RevokeAPIKey_run:
  assumes P: "keys_ok P" and r: "run_state (RevokeAPIKey P order auth key) s = (Inr (), s')"
  obtains account kr s1 where "auth = Some account" "key \<noteq> []" "pb_key P (sv_db s) key = Some kr" "kr_account_id kr = account"
    "pb_key P (sv_db s1) = (pb_key P (sv_db s))(key \<mapsto> kr\<lparr>kr_is_active := False\<rparr>)" "sv_hub s1 = sv_hub s"
    "s' = snd (run_state (close_agent key order) s1)"
proof -
  obtain account kr where a: "auth = Some account" "key \<noteq> []" "FindKey P key (sv_db s) = Inr kr" "kr_account_id kr = account"
    "fst (UpdateKey P (kr\<lparr>kr_is_active := False\<rparr>) (sv_db s)) = None"
    "s' = snd (run_state (close_agent key order) (s\<lparr>sv_db := snd (UpdateKey P (kr\<lparr>kr_is_active := False\<rparr>) (sv_db s))\<rparr>))"
    using r by (auto simp: RevokeAPIKey_def ownsAPIKey_def split_beta split: option.splits if_splits sum.splits)
  have k: "pb_key P (sv_db s) key = Some kr" "kr_id kr = key"
    using keys_okD(1) [OF P a(3)] keys_okD(2) [OF P keys_okD(1) [OF P a(3)]] .
  show ?thesis
    by (rule that [OF a(1,2) k(1) a(4) _ _ a(6)]) (use keys_okD(6) [OF P, of "sv_db s" "kr\<lparr>kr_is_active := False\<rparr>"] k a(5) in simp_all)
qed


lemma demo_revoke:
  "fst (run_state (RevokeAPIKey (mem_pb no_floats) [''shared-1''] (Some ''alice'') ''k1'') demo_server) = Inr ()"
  by (simp add: RevokeAPIKey_def mem_pb_def mem_key_def of_option_def demo_server_def demo_db_def demo_key_def ownsAPIKey_def split_beta)

lemma demo_codes: "dom (codes (sv_hub demo_server)) \<subseteq> set [''shared-1'']"
  by (auto simp: demo_server_def hub_eval ensureWriteMuLocked_def split: if_splits)


text \<open>
  (C38) Revoking misses a socket that has not said hello. The key is checked when the connection is accepted, revoking closes the
  sockets that are enrolled, and enrolling does not look at the key again: a socket that was accepted before the key was revoked and
  sends its \<^verbatim>\<open>hello\<close> afterwards becomes the current agent of the revoked key.
\<close>

theorem revoked_key_can_enroll:
  assumes "pb_ok P" and "run_state (RevokeAPIKey P order auth key) s = (Inr (), s')"
    and "as_apiKeyID k = key" "as_agentID k = []" and "am_Type msg = ''hello''" "am_AgentID msg \<noteq> []"
  shows "(\<exists>kr. pb_key P (sv_db s') key = Some kr \<and> \<not> kr_is_active kr)
    \<and> (case run_state (AgentWS_message P J E cfg k (Some msg)) s' of
         (k', s'') \<Rightarrow> as_agentID k' = am_AgentID msg \<and> IsCurrentAgent key (as_ptr k) (sv_hub s'') \<and> sv_db s'' = sv_db s')"
proof -
  have P: "keys_ok P" using assms(1) by (simp add: pb_ok_def)
  show ?thesis
    using P assms(2)
  proof (rule RevokeAPIKey_run)
    fix account kr s1
    assume r: "key \<noteq> []" "pb_key P (sv_db s1) = (pb_key P (sv_db s))(key \<mapsto> kr\<lparr>kr_is_active := False\<rparr>)"
      "s' = snd (run_state (close_agent key order) s1)"
    have "sv_db s' = sv_db s1" using r(3) by (simp add: close_agent_def split_beta)
    with r(1,2) assms(3-6) show ?thesis
      by (simp add: AgentWS_message_def handleHello_def pkg_SendDirect_def IsCurrentAgent_def RegisterAgent_def ensureWriteMuLocked_def)
  qed
qed

theorem revoked_key_can_enroll_witness:
  "IsCurrentAgent ''k1'' (Some 9) (sv_hub (snd (run_state
     (AgentWS_message (mem_pb no_floats) demo_jwt demo_env demo_cfg (demo_sock\<lparr>as_conn := 9, as_agentID := []\<rparr>)
        (Some ((demo_msg ''hello'')\<lparr>am_AgentID := ''ag''\<rparr>)))
     (snd (run_state (RevokeAPIKey (mem_pb no_floats) [''shared-1''] (Some ''alice'') ''k1'') demo_server)))))"
proof -
  define s' where "s' = snd (run_state (RevokeAPIKey (mem_pb no_floats) [''shared-1''] (Some ''alice'') ''k1'') demo_server)"
  have run: "run_state (RevokeAPIKey (mem_pb no_floats) [''shared-1''] (Some ''alice'') ''k1'') demo_server = (Inr (), s')"
    using demo_revoke by (simp add: s'_def prod_eq_iff)
  show ?thesis
    using revoked_key_can_enroll [OF mem_pb_ok run, of "demo_sock\<lparr>as_conn := 9, as_agentID := []\<rparr>" "(demo_msg ''hello'')\<lparr>am_AgentID := ''ag''\<rparr>"
        demo_jwt demo_env demo_cfg]
    by (simp add: demo_sock_def demo_msg_def split_beta flip: s'_def)
qed

lemma MoveSessions_ok:
  assumes "sessions_ok P" "MoveSessions P old new d = (None, d')"
  shows "pb_session P d' = (\<lambda>c. map_option (move_row old new) (pb_session P d c))" and "pb_key P d' = pb_key P d"
  using sessions_okD(12) [OF assms(1), of d old new] assms(2) by (simp_all add: session_write_def)

lemma rotate_body_ok:
  assumes P: "sessions_ok P" "keys_ok P" and r: "rotate_body P B rnd account label old d = (Inr (new, full), d')"
    and k: "pb_key P d old = Some k"
  shows "kr_account_id new = account \<and> kr_label new = label \<and> kr_is_active new \<and> pb_key P d (kr_id new) = None
    \<and> pb_key P d' = (pb_key P d)(kr_id new \<mapsto> new, old \<mapsto> k\<lparr>kr_is_active := False\<rparr>)
    \<and> pb_session P d' = (\<lambda>c. map_option (move_row old (kr_id new)) (pb_session P d c))"
proof -
  obtain d1 d2 k2 where c: "createAPIKeyRecord P B rnd account label d = (Inr (new, full), d1)"
    and m: "MoveSessions P old (kr_id new) d1 = (None, d2)" and f: "FindKey P old d2 = Inr k2"
    and u: "UpdateKey P (k2\<lparr>kr_is_active := False\<rparr>) d2 = (None, d')"
    using r by (auto simp: rotate_body_def split: prod.splits sum.splits option.splits)
  show ?thesis
    using P(2) c
  proof (rule createAPIKeyRecord_ok)
    assume n: "kr_account_id new = account" "kr_label new = label" "kr_is_active new" "pb_key P d (kr_id new) = None"
      "pb_key P d1 = (pb_key P d)(kr_id new \<mapsto> new)" "pb_session P d1 = pb_session P d"
    have d2: "pb_session P d2 = (\<lambda>c. map_option (move_row old (kr_id new)) (pb_session P d c))" "pb_key P d2 = (pb_key P d)(kr_id new \<mapsto> new)"
      using MoveSessions_ok [OF P(1) m] n by simp_all
    have "old \<noteq> kr_id new" using k n(4) by auto
    then have k2: "k2 = k" "kr_id k2 = old" using keys_okD(1) [OF P(2) f] keys_okD(2) [OF P(2) keys_okD(1) [OF P(2) f]] d2(2) k by auto
    have "pb_key P d' = (pb_key P d2)(old \<mapsto> k\<lparr>kr_is_active := False\<rparr>) \<and> pb_session P d' = pb_session P d2"
      using keys_okD(6) [OF P(2), of d2 "k2\<lparr>kr_is_active := False\<rparr>"] u k2 keys_okD(1) [OF P(2) f] by simp
    with n d2 show ?thesis by simp
  qed
qed



section \<open>Relayed bytes\<close>

lemma users_okD:
  assumes "users_ok P F"
  shows "FindUser P i d = Inr u \<Longrightarrow> pb_user P d i = Some u \<and> ur_id u = i"
    and "fst (InsertUsage P r d) = None \<Longrightarrow>
      pb_usage P (snd (InsertUsage P r d)) = pb_usage P d @ [r] \<and> pb_user P (snd (InsertUsage P r d)) = pb_user P d"
    and "fst (UpdateUser P u d) = None \<Longrightarrow>
      pb_user P (snd (UpdateUser P u d)) = (pb_user P d)(ur_id u \<mapsto> u) \<and> pb_usage P (snd (UpdateUser P u d)) = pb_usage P d"
    and "fst (AddUserUsage P i x d) = None \<Longrightarrow>
      pb_user P (snd (AddUserUsage P i x d)) = (pb_user P d)(i := map_option (\<lambda>u. u\<lparr>ur_current_period_usage_gb :=
         fp_add F (ur_current_period_usage_gb u) x\<rparr>) (pb_user P d i)) \<and> pb_usage P (snd (AddUserUsage P i x d)) = pb_usage P d"
  by (fact
    spec [OF assms [unfolded users_ok_def], of d, THEN conjunct1, rule_format]
    spec [OF assms [unfolded users_ok_def], of d, THEN conjunct2, THEN conjunct2, THEN conjunct1, rule_format]
    spec [OF assms [unfolded users_ok_def], of d, THEN conjunct2, THEN conjunct2, THEN conjunct2, THEN conjunct2, THEN conjunct1, rule_format]
    spec [OF assms [unfolded users_ok_def], of d, THEN conjunct2, THEN conjunct2, THEN conjunct2, THEN conjunct2, THEN conjunct2,
      THEN conjunct2, rule_format])+

definition archived :: "f64_ops \<Rightarrow> user_row \<Rightarrow> usage_row" where
  "archived F u = \<lparr>us_account_id = ur_id u, us_period_start = ur_quota_period_start u, us_period_end = ur_quota_period_end u,
     us_bytes_transferred = fp_to_int F (fp_mul F (ur_current_period_usage_gb u) (fp_GB F))\<rparr>"

lemma roll_expired:
  assumes "users_ok P F" "ur_quota_period_end u \<noteq> 0" "ur_quota_period_end u < now" "applyRelay_roll P F u now d = (None, d')"
  shows "pb_usage P d' = pb_usage P d @ [archived F u]
    \<and> pb_user P d' = (pb_user P d)(ur_id u \<mapsto> u\<lparr>ur_current_period_usage_gb := fp_zero F, ur_quota_period_start := now,
        ur_quota_period_end := now + QuotaPeriodDays * 24 * 3600\<rparr>)"
proof -
  obtain d1 where i: "InsertUsage P (archived F u) d = (None, d1)"
    and u: "UpdateUser P (u\<lparr>ur_current_period_usage_gb := fp_zero F, ur_quota_period_start := now,
        ur_quota_period_end := now + QuotaPeriodDays * 24 * 3600\<rparr>) d1 = (None, d')"
    using assms(2-4) by (auto simp: applyRelay_roll_def rollQuotaPeriod_def archived_def split: if_splits prod.splits option.splits)
  show ?thesis
    using users_okD(2) [OF assms(1), of "archived F u" d] i
      users_okD(3) [OF assms(1), of "u\<lparr>ur_current_period_usage_gb := fp_zero F, ur_quota_period_start := now,
        ur_quota_period_end := now + QuotaPeriodDays * 24 * 3600\<rparr>" d1] u by simp
qed

lemma add_usage:
  assumes "users_ok P F" "applyRelay_add P F i n d = (None, d')"
  shows "pb_usage P d' = pb_usage P d
    \<and> pb_user P d' = (pb_user P d)(i := map_option (\<lambda>u. u\<lparr>ur_current_period_usage_gb :=
        fp_add F (ur_current_period_usage_gb u) (fp_div F (fp_of_int F n) (fp_GB F))\<rparr>) (pb_user P d i))"
  using users_okD(4) [OF assms(1), of i "fp_div F (fp_of_int F n) (fp_GB F)" d] assms(2) by (simp add: applyRelay_add_def)

text \<open>
  (C40) Two calls that meet at the end of a quota period lose bytes and archive usage twice. When both have read the user's
  record before either rolls the period over, the second rollover writes its stale record back: the bytes that the first
  call had added are gone from the new period, and the old period's usage, not zero, is archived a second time.
\<close>

theorem quota_rollover_race:
  assumes P: "users_ok P F" and u: "FindUser P i d = Inr u" and t: "ur_quota_period_end u \<noteq> 0" "ur_quota_period_end u < now"
    and a: "applyRelay_roll P F u now d = (None, d1)" "applyRelay_add P F i bytesA d1 = (None, d2)"
    and b: "applyRelay_roll P F u now d2 = (None, d3)" "applyRelay_add P F i bytesB d3 = (None, d4)"
  shows "map_option ur_current_period_usage_gb (pb_user P d2 i) = Some (fp_add F (fp_zero F) (fp_div F (fp_of_int F bytesA) (fp_GB F)))
    \<and> map_option ur_current_period_usage_gb (pb_user P d4 i) = Some (fp_add F (fp_zero F) (fp_div F (fp_of_int F bytesB) (fp_GB F)))
    \<and> pb_usage P d4 = pb_usage P d @ [archived F u, archived F u]"
proof -
  have i: "ur_id u = i" using users_okD(1) [OF P u] by simp
  note r1 = roll_expired [OF P t a(1)] and r2 = add_usage [OF P a(2)]
    and r3 = roll_expired [OF P t b(1)] and r4 = add_usage [OF P b(2)]
  show ?thesis using r1 r2 r3 r4 i by simp
qed

theorem quota_rollover_race_witness:
  "let F = no_floats; P = mem_pb F;
       u = \<lparr>ur_id = ''alice'', ur_email = [], ur_relay_quota_gb = 5, ur_current_period_usage_gb = 1, ur_quota_period_start = 1, ur_quota_period_end = 100\<rparr>;
       d2 = snd (applyRelay_add P F ''alice'' 7 (snd (applyRelay_roll P F u 200 demo_db)));
       d4 = snd (applyRelay_add P F ''alice'' 9 (snd (applyRelay_roll P F u 200 d2)))
   in pb_usage P d4 = [archived F u, archived F u]"
proof -
  define u where "u = \<lparr>ur_id = ''alice'', ur_email = [], ur_relay_quota_gb = 5, ur_current_period_usage_gb = 1, ur_quota_period_start = 1, ur_quota_period_end = 100\<rparr>"
  have ok: "applyRelay_roll (mem_pb no_floats) no_floats u 200 d = (None, snd (applyRelay_roll (mem_pb no_floats) no_floats u 200 d))"
    "applyRelay_add (mem_pb no_floats) no_floats i n d = (None, snd (applyRelay_add (mem_pb no_floats) no_floats i n d))" for d i n
    by (simp_all add: u_def applyRelay_roll_def rollQuotaPeriod_def applyRelay_add_def mem_pb_def)
  have f: "FindUser (mem_pb no_floats) ''alice'' demo_db = Inr u" using demo_lookup(2) by (simp add: demo_server_def u_def)
  show ?thesis
    using quota_rollover_race [OF mem_users_ok f _ _ ok(1) ok(2) ok(1) ok(2), of 7 9]
    by (simp add: u_def Let_def) (simp add: demo_db_def)
qed

end
