(* ===== verification/Server_Browser_Properties.thy ===== *)
theory Server_Browser_Properties
  imports Server_Properties
begin

text \<open>
  The browsers' websocket: a browser is bound only to the agent that serves its session, the relay tokens that an agent's
  confirmation produces admit exactly the two ends they were made for, and a browser that goes leaves nothing behind, unless it was
  turned away before it was paired.
\<close>

section \<open>Pairing\<close>

text \<open>The hub without its table of write mutexes.\<close>

definition hub_core :: "'d server \<Rightarrow> Hub" where
  "hub_core s = (sv_hub s)\<lparr>connWrites := {}\<rparr>"

lemma keeps_core [keeps_intros]:
  "keeps hub_core (hub_SendDirect c m)" "keeps hub_core (to_agent a m)" "keeps hub_core (emit e)" "keeps hub_core (db_read f)"
  by (auto simp: keeps_def hub_core_def hub_SendDirect_def SendDirect_def hub_send_def to_agent_def SendToAgent_def writeMu_def
      ensureWriteMuLocked_def split_beta split: option.splits)

lemma hub_coreD:
  assumes "hub_core s' = hub_core s"
  shows "pairs (sv_hub s') = pairs (sv_hub s)" "connBrowsers (sv_hub s') = connBrowsers (sv_hub s)"
    "browserOwners (sv_hub s') = browserOwners (sv_hub s)"
proof -
  have "pairs (hub_core s') = pairs (hub_core s)" "connBrowsers (hub_core s') = connBrowsers (hub_core s)"
    "browserOwners (hub_core s') = browserOwners (hub_core s)" using assms by simp_all
  then show "pairs (sv_hub s') = pairs (sv_hub s)" "connBrowsers (sv_hub s') = connBrowsers (sv_hub s)"
    "browserOwners (sv_hub s') = browserOwners (sv_hub s)" by (simp_all add: hub_core_def)
qed

definition browser_greeting :: "srv_env \<Rightarrow> srv_config \<Rightarrow> browser_sock \<Rightarrow> session_row \<Rightarrow> bool \<Rightarrow> int \<Rightarrow> ('d, unit) srv" where
  "browser_greeting E cfg b r q e =
     (if bs_isImmich b \<and> bs_isPasswordProtected b then hub_SendDirect (bs_ptr b) (typed ''password_required'' [])
      else sendBrowserIceConfigAndMaybeKnock E cfg b (sr_relay_only r) q e)"

lemma keeps_greeting: "keeps hub_core (browser_greeting E cfg b r q e)"
  unfolding browser_greeting_def sendBrowserIceConfigAndMaybeKnock_def by (auto intro!: keeps_intros)

lemma BrowserWS_paired_loop:
  assumes "run_state (BrowserWS_paired P E cfg b r) s = (BrowserLoop b', s')"
  shows "b' = b \<and> (\<exists>q e. browser_quota P E (bs_apiKeyID b) (sv_db s) = Some (q, e) \<and> \<not> (sr_relay_only r \<and> q)) \<and> hub_core s' = hub_core s"
proof -
  have "fst (run_state (BrowserWS_paired P E cfg b r) s) \<noteq> BrowserLoop b'" if "browser_quota P E (bs_apiKeyID b) (sv_db s) = None"
    using that by (simp add: BrowserWS_paired_def split_beta)
  then obtain q e where q: "browser_quota P E (bs_apiKeyID b) (sv_db s) = Some (q, e)" using assms by fastforce
  have nq: "\<not> (sr_relay_only r \<and> q)"
  proof
    assume "sr_relay_only r \<and> q"
    then have "fst (run_state (BrowserWS_paired P E cfg b r) s) = BrowserGone" using q by (simp add: BrowserWS_paired_def split_beta)
    then show False using assms by simp
  qed
  have "s' = snd (run_state (browser_greeting E cfg b r q e) s) \<and> b' = b"
    using assms q nq by (auto simp: BrowserWS_paired_def browser_greeting_def split_beta)
  then show ?thesis using q nq keeps_greeting [of E cfg b r q e, unfolded keeps_def, rule_format, of s] by simp
qed

text \<open>
  (C36) A browser enters the message loop only bound to the agent of its session's owner. The session is in the database and has not
  expired, the hub maps its code to the very key its row names, that key's agent is connected, and the browser's pair and its
  connection id are bound to that key, session and socket; and a share that needs the relay is never joined when the owner's quota is
  used up.
\<close>

theorem browser_paired_with_owner:
  assumes "pb_ok P" and "run_state (BrowserWS P E cfg code conn) s = (BrowserLoop b, s')"
  shows "\<exists>r c a. conn = Some c \<and> pb_session P (sv_db s) code = Some r \<and> (sr_expires_at r = 0 \<or> ev_now E \<le> sr_expires_at r)
    \<and> b = \<lparr>bs_conn = c, bs_connID = generateConnID (ev_connID E), bs_sessionCode = code, bs_apiKeyID = sr_api_key_id r,
           bs_isImmich = sr_share_type r = ''immich'', bs_isPasswordProtected = sr_is_password_protected r\<rparr>
    \<and> codes (sv_hub s) code = Some (sr_api_key_id r) \<and> agents (sv_hub s) (sr_api_key_id r) = Some a
    \<and> pairs (sv_hub s') code = Some \<lparr>pr_apiKeyID = sr_api_key_id r, pr_agentConn = a, pr_browserConn = Some c\<rparr>
    \<and> connBrowsers (sv_hub s') (bs_connID b) = Some (Some c)
    \<and> browserOwners (sv_hub s') (bs_connID b) = Some \<lparr>bo_apiKeyID = sr_api_key_id r, bo_sessionID = code, bo_agentConn = a\<rparr>
    \<and> (\<exists>q e. browser_quota P E (sr_api_key_id r) (sv_db s) = Some (q, e) \<and> \<not> (sr_relay_only r \<and> q))"
proof -
  have P: "sessions_ok P" using assms(1) by (simp add: pb_ok_def)
  obtain r c where r: "FindSessionByCode P code (sv_db s) = Inr (Some r)" "\<not> (sr_expires_at r \<noteq> 0 \<and> ev_now E > sr_expires_at r)" "conn = Some c"
    using assms(2) by (auto simp: BrowserWS_def split: sum.splits option.splits if_splits)
  define b0 where "b0 = \<lparr>bs_conn = c, bs_connID = generateConnID (ev_connID E), bs_sessionCode = code, bs_apiKeyID = sr_api_key_id r,
           bs_isImmich = sr_share_type r = ''immich'', bs_isPasswordProtected = sr_is_password_protected r\<rparr>"
  define h1 where "h1 = snd (PairSession code (bs_connID b0) (bs_apiKeyID b0) (Some c) (sv_hub s))"
  have ok: "fst (PairSession code (bs_connID b0) (bs_apiKeyID b0) (Some c) (sv_hub s)) = None"
    and loop: "run_state (BrowserWS_paired P E cfg b0 r) (s\<lparr>sv_hub := h1\<rparr>) = (BrowserLoop b, s')"
    using assms(2) r unfolding b0_def h1_def
    by (auto simp: BrowserWS_def browser_reject_def hub_SendDirect_def split_beta Let_def split: if_splits)
  note l = BrowserWS_paired_loop [OF loop]
  have pair: "PairSession code (bs_connID b0) (bs_apiKeyID b0) (Some c) (sv_hub s) = (None, h1)" using ok by (simp add: h1_def prod_eq_iff)
  then obtain a where a: "codes (sv_hub s) code = Some (bs_apiKeyID b0)" "agents (sv_hub s) (bs_apiKeyID b0) = Some a"
      "pairs h1 code = Some \<lparr>pr_apiKeyID = bs_apiKeyID b0, pr_agentConn = a, pr_browserConn = Some c\<rparr>"
      "connBrowsers h1 (bs_connID b0) = Some (Some c)"
      "browserOwners h1 (bs_connID b0) = Some \<lparr>bo_apiKeyID = bs_apiKeyID b0, bo_sessionID = code, bo_agentConn = a\<rparr>"
    by (auto simp: PairSession_def ensureWriteMuLocked_def split: option.splits if_splits)
  have w: "pairs (sv_hub s') = pairs h1" "connBrowsers (sv_hub s') = connBrowsers h1" "browserOwners (sv_hub s') = browserOwners h1" "b = b0"
    using hub_coreD [of s' "s\<lparr>sv_hub := h1\<rparr>"] l by simp_all
  have "pb_session P (sv_db s) code = Some r" by (rule sessions_okD(3) [OF P r(1)])
  with r l a w show ?thesis by (intro exI [of _ r] exI [of _ c] exI [of _ a]) (auto simp: b0_def)
qed

text \<open>
  A browser that goes leaves nothing behind. When the handler of a browser ends, whatever has happened in the hub meanwhile, its
  connection id is unknown, with its owner and its failure counters, its session is not paired with it any more, its write mutex is
  gone if the connection was still registered, and its socket is closed; all other browsers, pairs, codes and agents are untouched.
\<close>

theorem browser_leaves_no_trace:
  assumes "run_state (BrowserWS_closed b) s = (u, s')"
  defines "h \<equiv> sv_hub s" and "g \<equiv> sv_hub s'"
  shows "connBrowsers g (bs_connID b) = None \<and> browserOwners g (bs_connID b) = None
    \<and> connFails g (bs_connID b) = None \<and> connImmichFails g (bs_connID b) = None
    \<and> (\<forall>p. pairs g (bs_sessionCode b) = Some p \<longrightarrow> pr_browserConn p \<noteq> Some (bs_conn b))
    \<and> (connBrowsers h (bs_connID b) = Some (Some (bs_conn b)) \<longrightarrow> bs_conn b \<notin> connWrites g)
    \<and> sv_out s' = sv_out s @ [HCloseNow (bs_ptr b)]
    \<and> codes g = codes h \<and> agents g = agents h \<and> (\<forall>i. i \<noteq> bs_connID b \<longrightarrow> connBrowsers g i = connBrowsers h i \<and> browserOwners g i = browserOwners h i)
    \<and> (\<forall>code p. pairs h code = Some p \<longrightarrow> pr_browserConn p \<noteq> Some (bs_conn b) \<longrightarrow> pairs g code = Some p)"
  using assms(1) unfolding g_def h_def
  by (auto simp: BrowserWS_closed_def BrowserWS_deferred_def UnregisterBrowserConn_def UnpairSession_def dropWriteMu_def Let_def
      split: option.splits if_splits)

text \<open>
  A browser that is turned away because its agent is not connected leaves its write mutex in the hub: writing the refusal registers
  one for the connection, and the handler returns without the deferred calls that would drop it.
\<close>

theorem rejected_browser_leaves_mutex:
  assumes "FindSessionByCode P code (sv_db s) = Inr (Some r)" "sr_expires_at r = 0 \<or> ev_now E \<le> sr_expires_at r"
    and "GetAgentConn code (sv_hub s) = None"
  shows "case run_state (BrowserWS P E cfg code (Some c)) s of
      (outcome, s') \<Rightarrow> outcome = BrowserGone \<and> connWrites (sv_hub s') = insert c (connWrites (sv_hub s)) \<and> connBrowsers (sv_hub s') = connBrowsers (sv_hub s)"
  using assms
  by (auto simp: BrowserWS_def browser_reject_def hub_SendDirect_def SendDirect_def hub_send_def writeMu_def ensureWriteMuLocked_def)

theorem rejected_browser_leaves_mutex_witness:
  "7 \<in> connWrites (sv_hub (snd (run_state (BrowserWS (mem_pb no_floats) demo_env demo_cfg ''shared-1'' (Some 7)) (demo_server\<lparr>sv_hub := hub_New\<rparr>))))"
proof -
  have f: "FindSessionByCode (mem_pb no_floats) ''shared-1'' (sv_db (demo_server\<lparr>sv_hub := hub_New\<rparr>)) = Inr (Some (demo_row ''shared-1'' ''k1''))"
    using demo_lookup(1) by simp
  show ?thesis
    using rejected_browser_leaves_mutex [OF f, where E = demo_env and cfg = demo_cfg and c = 7]
    by (simp add: demo_row_def GetAgentConn_def hub_New_def split_beta)
qed

theorem browser_leaves_no_trace_witness:
  "connBrowsers (sv_hub (snd (run_state (BrowserWS_closed demo_browser) demo_server))) ''i'' = None"
  using browser_leaves_no_trace [OF surjective_pairing, of demo_browser demo_server] by (simp add: demo_browser_def)

theorem browser_paired_with_owner_witness:
  "case run_state (BrowserWS (mem_pb no_floats) demo_env demo_cfg ''shared-1'' (Some 8)) demo_server of
     (BrowserLoop b, s') \<Rightarrow> pairs (sv_hub s') ''shared-1'' = Some \<lparr>pr_apiKeyID = ''k1'', pr_agentConn = Some 1, pr_browserConn = Some 8\<rparr>
   | _ \<Rightarrow> False"
proof -
  define x where "x = run_state (BrowserWS (mem_pb no_floats) demo_env demo_cfg ''shared-1'' (Some 8)) demo_server"
  have k: "FindKey (mem_pb no_floats) ''k1'' demo_db = Inr (demo_key ''k1'' ''alice'')"
    by (simp add: mem_pb_def mem_key_def demo_db_def demo_key_def of_option_def)
  have q: "browser_quota (mem_pb no_floats) demo_env ''k1'' (sv_db demo_server) = Some (False, 100)"
    using demo_lookup(2) k by (simp add: browser_quota_def demo_key_def checkRelayQuota_def demo_env_def demo_server_def word_le_nat_alt)
  have g: "GetAgentConn ''shared-1'' (sv_hub demo_server) = Some (Some 1)" "codes (sv_hub demo_server) ''shared-1'' = Some ''k1''"
    "agents (sv_hub demo_server) ''k1'' = Some (Some 1)"
    by (simp_all add: demo_server_def hub_eval ensureWriteMuLocked_def GetAgentConn_def)
  define b where "b = \<lparr>bs_conn = 8, bs_connID = generateConnID [3], bs_sessionCode = ''shared-1'', bs_apiKeyID = ''k1'',
       bs_isImmich = True, bs_isPasswordProtected = True\<rparr>"
  define h where "h = snd (PairSession ''shared-1'' (generateConnID [3]) ''k1'' (Some 8) (sv_hub demo_server))"
  have pair: "PairSession ''shared-1'' (generateConnID [3]) ''k1'' (Some 8) (sv_hub demo_server) = (None, h)"
    using g by (simp add: h_def PairSession_def generateConnID_def)
  have "x = run_state (BrowserWS_paired (mem_pb no_floats) demo_env demo_cfg b (demo_row ''shared-1'' ''k1'')) (demo_server\<lparr>sv_hub := h\<rparr>)"
    using demo_lookup(1) g(1) pair by (simp add: x_def b_def BrowserWS_def demo_row_def demo_env_def)
  also have "fst \<dots> = BrowserLoop b"
    using q by (simp add: BrowserWS_paired_def b_def demo_row_def split_beta)
  finally have "\<exists>b. fst x = BrowserLoop b" by blast
  then obtain b s' where x: "x = (BrowserLoop b, s')" by (cases x) auto
  from browser_paired_with_owner [OF mem_pb_ok x [unfolded x_def]] g demo_lookup(1) x show ?thesis
    unfolding x_def by (auto simp: mem_pb_def mem_session_def demo_row_def)
qed

section \<open>From the browser's proof to the relayed connection\<close>

lemma RelayWS_admits:
  assumes J: "jwt_ok J" and t: "t1 < t + TokenLifetime" "t2 < t + TokenLifetime"
    and e: "sessions r sid = Some e" "agentSocket e = None" "browserSocket e = None" "\<not> se_active e"
      "(se_id e, AgentReady) \<notin> rg_closed r" "(se_id e, BrowserReady) \<notin> rg_closed r" "spentJTI r jti = None"
      "ps_ExpiresAt (se_session e) = t + TokenLifetime" "ps_AgentID (se_session e) = a"
    and ta: "ta = SignAgentRelayJWT J secret \<lparr>ar_SID = sid, ar_AgentID = a, ar_Purpose = [], ar_ID = []\<rparr> t"
    and tb: "tb = SignBrowserPolicyJWT J secret bc t" "bp_SID bc = sid" "bp_ID bc = jti"
  shows "\<exists>dl r1 r2. RelayWS J secret (Some (Some ta)) ca t1 r = (RelayWaitBrowser sid (se_id e) dl, r1)
      \<and> RelayWS J secret (Some (Some tb)) cb t2 r1 = (RelayWatch sid (se_id e), r2)
      \<and> RelayWS_resume (RelayWaitBrowser sid (se_id e) dl) False r2 = (Inr (proxyRelayPair sid r2), r2)
      \<and> sessions r2 sid = Some (e\<lparr>agentSocket := Some ca, browserSocket := Some cb, se_active := True\<rparr>)"
    (is ?agent)
    and "\<exists>dl r1 r2. RelayWS J secret (Some (Some tb)) cb t2 r = (RelayWaitAgent sid (se_id e) dl, r1)
      \<and> RelayWS J secret (Some (Some ta)) ca t1 r1 = (RelayWatch sid (se_id e), r2)
      \<and> RelayWS_resume (RelayWaitAgent sid (se_id e) dl) False r2 = (Inr (proxyRelayPair sid r2), r2)
      \<and> sessions r2 sid = Some (e\<lparr>agentSocket := Some ca, browserSocket := Some cb, se_active := True\<rparr>)"
    (is ?browser)
proof -
  note tok = relay_tokens_separate_parts [OF J tb(1) ta]
  obtain err where va: "VerifyAgentRelayJWT J secret ta t1 = Inr \<lparr>ar_SID = sid, ar_AgentID = a, ar_Purpose = ''agent_relay'', ar_ID = []\<rparr>"
    and vb: "VerifyBrowserPolicyJWT J secret tb t2 = Inr (bc\<lparr>bp_Purpose := ''browser_policy''\<rparr>)" "VerifyAgentRelayJWT J secret tb t2 = Inl err"
    using tok(1) [of t2] tok(2) [of t1] tok(3) [of secret t2] t by auto
  have le: "t1 \<le> ps_ExpiresAt (se_session e)" "t2 \<le> ps_ExpiresAt (se_session e)" using t e(8) by simp_all
  show ?agent
  proof -
    from relay_pairs_in_either_order [OF e(1-7) le, of a cb ca] e(9) obtain r1 r2 where
      b: "BindAgentSocket sid a (Some ca) t1 r = (Inr (None, StatePendingAgent), r1)"
        "BindBrowserSocket sid jti (Some cb) t2 r1 = (Inr (Some ca, StateActive), r2)" "WaitForBrowser_ready sid r2 = Inr (Some cb)"
        "sessions r2 sid = Some (e\<lparr>agentSocket := Some ca, browserSocket := Some cb, se_active := True\<rparr>)"
      using relay_pairs_in_either_order [OF e(1-7) le(2,1), of a cb ca] by auto
    have "sessions r1 sid \<noteq> None" using b(2) by (auto simp: BindBrowserSocket_def split: if_splits option.splits)
    moreover have "\<exists>e1. sessions r1 sid = Some e1 \<and> se_id e1 = se_id e"
      using b(1) e(1) by (auto simp: BindAgentSocket_def Let_def split: if_splits)
    ultimately show ?thesis
      using b va vb tb(2,3)
      by (auto simp: RelayWS_def relay_wait_or_watch_def Wait_begin_def WatchSession_def RelayWS_resume_def Let_def)
  qed
  show ?browser
  proof -
    from relay_pairs_in_either_order [OF e(1-7) le(2,1), of a cb ca] e(9) obtain r1 r2 where
      b: "BindBrowserSocket sid jti (Some cb) t2 r = (Inr (None, StatePendingBrowser), r1)"
        "BindAgentSocket sid a (Some ca) t1 r1 = (Inr (Some cb, StateActive), r2)" "WaitForAgent_ready sid r2 = Inr (Some ca)"
        "sessions r2 sid = Some (e\<lparr>agentSocket := Some ca, browserSocket := Some cb, se_active := True\<rparr>)"
      by auto
    moreover have "\<exists>e1. sessions r1 sid = Some e1 \<and> se_id e1 = se_id e"
      using b(1) e(1) by (auto simp: BindBrowserSocket_def Let_def split: if_splits)
    ultimately show ?thesis
      using va vb tb(2,3)
      by (auto simp: RelayWS_def relay_wait_or_watch_def Wait_begin_def WatchSession_def RelayWS_resume_def Let_def)
  qed
qed

end
