(* ===== verification/Signaling_Client.thy ===== *)
theory Signaling_Client
  imports Go_Std Complex_Main
begin

text \<open>
  The agent's signaling client, \<^verbatim>\<open>agent/internal/signaling\<close>: the websocket client of
  \<^verbatim>\<open>client.go\<close> with its listener and the registrations that wait for it, and the reconnection delays of
  \<^verbatim>\<open>backoff.go\<close>. Callers of \<^verbatim>\<open>RegisterShareWithOptions\<close> and the goroutine of \<^verbatim>\<open>Listen\<close> are cut where they take a lock, use a
  channel or do I/O; \<open>client_step\<close> interleaves them. A channel is its number, with its buffered messages in \<open>cl_chan\<close>.
  What the network does is an argument of the steps.
\<close>

section \<open>Data\<close>

record sig_ICEServer =
  ice_URLs :: "string list"
  ice_Username :: string
  ice_Credential :: string

record Message =
  sm_Type :: string
  sm_SessionID :: string
  sm_PeerID :: string
  sm_SDP :: string
  sm_Candidate :: json
  sm_Err :: string
  sm_Code :: string
  sm_ConnID :: string
  sm_HMAC :: string
  sm_Password :: string
  sm_Reconnected :: bool
  sm_ICEServers :: "sig_ICEServer list"
  sm_SID :: string
  sm_RelayJWT :: string
  sm_ExpiresAt :: string

record RegisterShareOptions =
  ro_ShareURL :: string
  ro_PreferredCode :: string
  ro_ShareType :: string
  ro_IsPasswordProtected :: bool
  ro_RelayOnly :: bool
  ro_RelayStaticPub :: string

record Client =
  cl_serverURL :: string
  cl_apiKey :: string
  cl_agentID :: string
  cl_iceServers :: "sig_ICEServer list"
  cl_pendingReg :: ptr
  cl_chan :: "nat \<Rightarrow> Message list"
  cl_next :: nat
  cl_out :: "json list"
  cl_delivered :: "Message list"

definition client_New :: "string \<Rightarrow> string \<Rightarrow> string \<Rightarrow> Client" where
  "client_New serverURL apiKey agentID = \<lparr>cl_serverURL = serverURL, cl_apiKey = apiKey, cl_agentID = agentID,
     cl_iceServers = [], cl_pendingReg = None, cl_chan = (\<lambda>_. []), cl_next = 0, cl_out = [], cl_delivered = []\<rparr>"

text \<open>\<^verbatim>\<open>err\<close> is what the write returns; a message that was written is recorded in \<open>cl_out\<close>.\<close>

definition client_Send :: "goerr option \<Rightarrow> json \<Rightarrow> Client \<Rightarrow> goerr option \<times> Client" where
  "client_Send err msg c = (err, if err = None then c\<lparr>cl_out := cl_out c @ [msg]\<rparr> else c)"

definition Connect :: "goerr option \<Rightarrow> goerr option \<Rightarrow> Client \<Rightarrow> goerr option \<times> Client" where
  "Connect dial write c =
     (case dial of
        Some err \<Rightarrow> (Some (ErrWrap ''dial signaling server'' [] err), c)
      | None \<Rightarrow>
          case client_Send write (JObj [(''type'', JStr ''hello''), (''version'', JStr ''1.0''), (''agent_id'', JStr (cl_agentID c))]) c of
            (Some err, c1) \<Rightarrow> (Some (ErrWrap ''send hello'' [] err), c1)
          | (None, c1) \<Rightarrow> (None, c1))"

definition UnregisterShare :: "goerr option \<Rightarrow> string \<Rightarrow> Client \<Rightarrow> goerr option \<times> Client" where
  "UnregisterShare err code = client_Send err (JObj [(''type'', JStr ''unregister_share''), (''code'', JStr code)])"

definition DownloadComplete :: "goerr option \<Rightarrow> string \<Rightarrow> int \<Rightarrow> Client \<Rightarrow> goerr option \<times> Client" where
  "DownloadComplete err code bytesTransferred = client_Send err
     (JObj [(''type'', JStr ''download_complete''), (''code'', JStr code), (''bytes_transferred'', JInt bytesTransferred)])"

section \<open>Registering a share\<close>

definition RegisterShare_options :: "string \<Rightarrow> string \<Rightarrow> bool \<Rightarrow> string \<Rightarrow> RegisterShareOptions" where
  "RegisterShare_options shareURL preferredCode relayOnly relayStaticPub =
     \<lparr>ro_ShareURL = shareURL, ro_PreferredCode = preferredCode, ro_ShareType = [], ro_IsPasswordProtected = False,
      ro_RelayOnly = relayOnly, ro_RelayStaticPub = relayStaticPub\<rparr>"

definition register_message :: "RegisterShareOptions \<Rightarrow> json" where
  "register_message opts = JObj
     ([(''type'', JStr ''register_share''), (''share_url'', JStr (ro_ShareURL opts)), (''relay_only'', JBool (ro_RelayOnly opts))]
      @ (if ro_PreferredCode opts \<noteq> [] then [(''code'', JStr (ro_PreferredCode opts))] else [])
      @ (if ro_ShareType opts \<noteq> [] then [(''share_type'', JStr (ro_ShareType opts))] else [])
      @ (if ro_IsPasswordProtected opts then [(''is_password_protected'', JBool True)] else [])
      @ (if ro_RelayStaticPub opts \<noteq> [] then [(''relay_static_pub'', JStr (ro_RelayStaticPub opts))] else []))"

text \<open>
  Where a call of \<^verbatim>\<open>RegisterShareWithOptions\<close> stands: before its first lock, before it sends, in the select, before its
  deferred function with what it will return, and returned.
\<close>

type_synonym reg_result = "(string \<times> bool) result"

datatype reg_pc =
    RegStart RegisterShareOptions
  | RegSend RegisterShareOptions nat
  | RegSelect nat
  | RegDefer nat reg_result
  | RegReturned reg_result

definition errInProgress :: goerr where
  "errInProgress = Errorf ''registration already in progress'' []"

definition reg_begin :: "RegisterShareOptions \<Rightarrow> Client \<Rightarrow> reg_pc \<times> Client" where
  "reg_begin opts c =
     (if cl_pendingReg c \<noteq> None then (RegReturned (Inl errInProgress), c)
      else (RegSend opts (cl_next c), c\<lparr>cl_pendingReg := Some (cl_next c), cl_next := Suc (cl_next c)\<rparr>))"

definition reg_send :: "goerr option \<Rightarrow> RegisterShareOptions \<Rightarrow> nat \<Rightarrow> Client \<Rightarrow> reg_pc \<times> Client" where
  "reg_send err opts ch c =
     (case client_Send err (register_message opts) c of
        (Some e, c1) \<Rightarrow> (RegDefer ch (Inl (ErrWrap ''send register_share'' [] e)), c1)
      | (None, c1) \<Rightarrow> (RegSelect ch, c1))"

definition reg_answer :: "Message \<Rightarrow> reg_result" where
  "reg_answer resp =
     (if sm_Type resp = ''error'' then Inl (Errorf (''server error: '' @ sm_Err resp) [])
      else Inr (sm_Code resp, sm_Reconnected resp))"

definition reg_receive :: "nat \<Rightarrow> Client \<Rightarrow> (reg_pc \<times> Client) option" where
  "reg_receive ch c =
     (case cl_chan c ch of
        [] \<Rightarrow> None
      | resp # rest \<Rightarrow> Some (RegDefer ch (reg_answer resp), c\<lparr>cl_chan := (cl_chan c)(ch := rest)\<rparr>))"

definition reg_cancel :: "goerr \<Rightarrow> nat \<Rightarrow> Client \<Rightarrow> reg_pc \<times> Client" where
  "reg_cancel ctxErr ch c = (RegDefer ch (Inl ctxErr), c)"

definition reg_defer :: "reg_result \<Rightarrow> Client \<Rightarrow> reg_pc \<times> Client" where
  "reg_defer res c = (RegReturned res, c\<lparr>cl_pendingReg := None\<rparr>)"

section \<open>The listener\<close>

text \<open>The listener reads, or holds a message for a channel whose buffer of one may be full, or has returned.\<close>

datatype listen_pc = ListenRead | ListenPut nat Message | ListenReturned goerr

definition updateICE :: "Message \<Rightarrow> Client \<Rightarrow> Client" where
  "updateICE msg c =
     (if sm_Type msg = ''welcome'' \<and> sm_ICEServers msg \<noteq> [] then c\<lparr>cl_iceServers := sm_ICEServers msg\<rparr> else c)"

definition is_answer :: "Message \<Rightarrow> bool" where
  "is_answer msg \<longleftrightarrow> sm_Type msg = ''share_registered'' \<or> sm_Type msg = ''error''"

text \<open>\<open>input\<close> is \<open>None\<close> for data that is no JSON.\<close>

definition Listen_message :: "Message option \<Rightarrow> Client \<Rightarrow> listen_pc \<times> Client" where
  "Listen_message input c =
     (case input of
        None \<Rightarrow> (ListenRead, c)
      | Some msg \<Rightarrow>
          let c1 = updateICE msg c in
          case (if is_answer msg then cl_pendingReg c1 else None) of
            Some ch \<Rightarrow> (ListenPut ch msg, c1)
          | None \<Rightarrow> (ListenRead, c1\<lparr>cl_delivered := cl_delivered c1 @ [msg]\<rparr>))"

definition Listen_put :: "nat \<Rightarrow> Message \<Rightarrow> Client \<Rightarrow> (listen_pc \<times> Client) option" where
  "Listen_put ch msg c =
     (if cl_chan c ch = [] then Some (ListenRead, c\<lparr>cl_chan := (cl_chan c)(ch := [msg])\<rparr>) else None)"

section \<open>Interleaving\<close>

record client_sys =
  sy_client :: Client
  sy_regs :: "nat \<Rightarrow> reg_pc option"
  sy_listen :: "listen_pc option"
  sy_read :: "Message list"

definition sys_init :: "Client \<Rightarrow> client_sys" where
  "sys_init c = \<lparr>sy_client = c, sy_regs = (\<lambda>_. None), sy_listen = None, sy_read = []\<rparr>"

definition set_reg :: "nat \<Rightarrow> reg_pc \<times> Client \<Rightarrow> client_sys \<Rightarrow> client_sys" where
  "set_reg i pc s = s\<lparr>sy_regs := (sy_regs s)(i \<mapsto> fst pc), sy_client := snd pc\<rparr>"

definition set_listen :: "listen_pc \<times> Client \<Rightarrow> client_sys \<Rightarrow> client_sys" where
  "set_listen pc s = s\<lparr>sy_listen := Some (fst pc), sy_client := snd pc\<rparr>"

text \<open>The messages that the listener has read are kept in \<open>sy_read\<close>, for the statements below.\<close>

inductive client_step :: "client_sys \<Rightarrow> client_sys \<Rightarrow> bool" where
  call: "sy_regs s i = None \<Longrightarrow> client_step s (s\<lparr>sy_regs := (sy_regs s)(i \<mapsto> RegStart opts)\<rparr>)"
| register: "sy_regs s i = Some (RegStart opts) \<Longrightarrow> client_step s (set_reg i (reg_begin opts (sy_client s)) s)"
| send: "sy_regs s i = Some (RegSend opts ch) \<Longrightarrow> client_step s (set_reg i (reg_send err opts ch (sy_client s)) s)"
| receive: "sy_regs s i = Some (RegSelect ch) \<Longrightarrow> reg_receive ch (sy_client s) = Some r \<Longrightarrow> client_step s (set_reg i r s)"
| cancel: "sy_regs s i = Some (RegSelect ch) \<Longrightarrow> client_step s (set_reg i (reg_cancel err ch (sy_client s)) s)"
| finish: "sy_regs s i = Some (RegDefer ch res) \<Longrightarrow> client_step s (set_reg i (reg_defer res (sy_client s)) s)"
| other: "client_step s (s\<lparr>sy_client := snd (client_Send err msg (sy_client s))\<rparr>)"
| listen: "sy_listen s = None \<Longrightarrow> client_step s (s\<lparr>sy_listen := Some ListenRead\<rparr>)"
| read: "sy_listen s = Some ListenRead \<Longrightarrow>
    client_step s (set_listen (Listen_message input (sy_client s))
      (s\<lparr>sy_read := sy_read s @ (case input of None \<Rightarrow> [] | Some m \<Rightarrow> [m])\<rparr>))"
| put: "sy_listen s = Some (ListenPut ch msg) \<Longrightarrow> Listen_put ch msg (sy_client s) = Some r \<Longrightarrow> client_step s (set_listen r s)"
| stop: "sy_listen s = Some ListenRead \<Longrightarrow> client_step s (s\<lparr>sy_listen := Some (ListenReturned err)\<rparr>)"

text \<open>
  The single-share mode of \<^verbatim>\<open>cmd/agent/main.go\<close> (\<^verbatim>\<open>runSession\<close>) uses the client from one goroutine: it registers its share and calls
  \<^verbatim>\<open>Listen\<close> only once the registration has returned without an error.
\<close>

inductive runSession_step :: "client_sys \<Rightarrow> client_sys \<Rightarrow> bool" where
  runSession: "client_step s s' \<Longrightarrow> \<forall>i. i \<noteq> 0 \<longrightarrow> sy_regs s' i = None \<Longrightarrow>
    sy_listen s' = sy_listen s \<or> (\<exists>r. sy_regs s 0 = Some (RegReturned (Inr r))) \<Longrightarrow> runSession_step s s'"

section \<open>Backoff\<close>

text \<open>
  Durations are nanoseconds. A \<^verbatim>\<open>float64\<close> that is finite is the rational it stands for; \<open>rnd\<close> rounds a rational to the nearest
  one. \<^verbatim>\<open>time.Duration(x)\<close> drops the fraction; outside the range of 64 bits the language leaves its value to
  the implementation, which is the parameter \<open>conv\<close>. \<open>u\<close> is what \<^verbatim>\<open>rand.Float64\<close> returns. Numbers from \<open>2\<^sup>1024\<close>
  on are infinite.
\<close>

datatype f64v = Fin rat | PInf

record float_env =
  fe_rnd :: "rat \<Rightarrow> rat"
  fe_conv :: "f64v \<Rightarrow> int"

definition initialBackoff :: int where "initialBackoff = 1000000000"
definition maxBackoff :: int where "maxBackoff = 30 * 1000000000"
definition backoff_jitter :: "float_env \<Rightarrow> rat" where "backoff_jitter F = fe_rnd F (1 / 5)"

definition f64_mult :: "float_env \<Rightarrow> f64v \<Rightarrow> f64v \<Rightarrow> f64v" where
  "f64_mult F a b =
     (case (a, b) of
        (Fin x, Fin y) \<Rightarrow> let z = fe_rnd F (x * y) in if z \<ge> 2 ^ 1024 then PInf else Fin z
      | _ \<Rightarrow> PInf)"

text \<open>\<^verbatim>\<open>math.Pow(2, n)\<close>.\<close>

definition f64_pow2 :: "nat \<Rightarrow> f64v" where
  "f64_pow2 n = (if n < 1024 then Fin (2 ^ n) else PInf)"

definition truncate_rat :: "rat \<Rightarrow> int" where
  "truncate_rat x = (if x < 0 then - \<lfloor>- x\<rfloor> else \<lfloor>x\<rfloor>)"

definition to_duration :: "float_env \<Rightarrow> f64v \<Rightarrow> int" where
  "to_duration F v =
     (case v of
        Fin x \<Rightarrow> if - (2 ^ 63) \<le> truncate_rat x \<and> truncate_rat x < 2 ^ 63 then truncate_rat x else fe_conv F v
      | PInf \<Rightarrow> fe_conv F v)"

definition jitterFactor :: "float_env \<Rightarrow> rat \<Rightarrow> rat" where
  "jitterFactor F u = fe_rnd F (1 + fe_rnd F (backoff_jitter F * fe_rnd F (fe_rnd F (2 * u) - 1)))"

definition backoff_Next :: "float_env \<Rightarrow> rat \<Rightarrow> nat \<Rightarrow> int \<times> nat" where
  "backoff_Next F u attempt =
     (let duration = to_duration F (f64_mult F (Fin (of_int initialBackoff)) (f64_pow2 attempt));
          duration1 = (if duration > maxBackoff then maxBackoff else duration);
          duration2 = to_duration F (f64_mult F (Fin (fe_rnd F (of_int duration1))) (Fin (jitterFactor F u)))
      in (duration2, attempt + 1))"

definition backoff_Reset :: "nat \<Rightarrow> nat" where
  "backoff_Reset attempt = 0"

end
