(* ===== verification/Signaling_Properties.thy ===== *)
theory Signaling_Properties
  imports Signaling_Client
begin

text \<open>
  Properties of the signaling client: registrations exclude each other and return what the server sent, in every
  interleaving with the listener; the two ways in which they hang; and the range of the reconnection delays.
\<close>

section \<open>Registrations\<close>

named_theorems client_defs

declare set_reg_def [client_defs] set_listen_def [client_defs] reg_begin_def [client_defs] reg_send_def [client_defs]
  reg_receive_def [client_defs] reg_cancel_def [client_defs] reg_defer_def [client_defs] client_Send_def [client_defs]
  Listen_message_def [client_defs] Listen_put_def [client_defs] updateICE_def [client_defs] Let_def [client_defs]

fun reg_chan :: "reg_pc \<Rightarrow> nat option" where
  "reg_chan (RegStart opts) = None"
| "reg_chan (RegSend opts ch) = Some ch"
| "reg_chan (RegSelect ch) = Some ch"
| "reg_chan (RegDefer ch res) = Some ch"
| "reg_chan (RegReturned res) = None"

definition in_flight :: "client_sys \<Rightarrow> nat \<rightharpoonup> nat" where
  "in_flight s i = Option.bind (sy_regs s i) reg_chan"

fun reg_value :: "reg_pc \<Rightarrow> (string \<times> bool) option" where
  "reg_value (RegDefer ch (Inr v)) = Some v"
| "reg_value (RegReturned (Inr v)) = Some v"
| "reg_value _ = None"

definition answers :: "Message list \<Rightarrow> (string \<times> bool) \<Rightarrow> bool" where
  "answers ms v \<longleftrightarrow> (\<exists>m\<in>set ms. sm_Type m = ''share_registered'' \<and> v = (sm_Code m, sm_Reconnected m))"

lemma reg_value_result [simp]:
  "reg_value (RegDefer ch res) = Some v \<longleftrightarrow> res = Inr v" "reg_value (RegReturned res) = Some v \<longleftrightarrow> res = Inr v"
  by (cases res; simp)+

text \<open>One registration is in flight at most, and it is the one whose channel is published in \<^verbatim>\<open>pendingReg\<close>.\<close>

fun flight_ok :: "ptr \<Rightarrow> (nat \<rightharpoonup> nat) \<Rightarrow> bool" where
  "flight_ok None m = (m = Map.empty)"
| "flight_ok (Some ch) m = (\<exists>i. m = [i \<mapsto> ch])"

definition exclusive :: "client_sys \<Rightarrow> bool" where
  "exclusive s \<longleftrightarrow> flight_ok (cl_pendingReg (sy_client s)) (in_flight s)"

lemma in_flight_simps [simp]:
  "in_flight (set_reg i (pc, c) s) = (in_flight s)(i := reg_chan pc)"
  "in_flight (s\<lparr>sy_regs := (sy_regs s)(i \<mapsto> pc)\<rparr>) = (in_flight s)(i := reg_chan pc)"
  "in_flight (set_listen r s) = in_flight s"
  "in_flight (s\<lparr>sy_client := c\<rparr>) = in_flight s"
  "in_flight (s\<lparr>sy_listen := l\<rparr>) = in_flight s"
  "in_flight (s\<lparr>sy_read := ms\<rparr>) = in_flight s"
  by (auto simp: in_flight_def set_reg_def set_listen_def)

lemma in_flightD: "sy_regs s i = Some pc \<Longrightarrow> in_flight s i = reg_chan pc"
  by (simp add: in_flight_def)

text \<open>What is on its way to a registration was read, and so was what a registration returns.\<close>

definition got :: "Message list \<Rightarrow> Message \<Rightarrow> bool" where
  "got ms m \<longleftrightarrow> m \<in> set ms \<and> is_answer m"

definition chans_ok :: "Message list \<Rightarrow> (nat \<Rightarrow> Message list) \<Rightarrow> bool" where
  "chans_ok ms f \<longleftrightarrow> (\<forall>ch. list_all (got ms) (f ch))"

fun listen_ok :: "Message list \<Rightarrow> listen_pc option \<Rightarrow> bool" where
  "listen_ok ms (Some (ListenPut ch m)) = got ms m"
| "listen_ok ms _ = True"

definition value_ok :: "Message list \<Rightarrow> reg_pc \<Rightarrow> bool" where
  "value_ok ms pc \<longleftrightarrow> (\<forall>v. reg_value pc = Some v \<longrightarrow> answers ms v)"

definition genuine :: "client_sys \<Rightarrow> bool" where
  "genuine s \<longleftrightarrow> chans_ok (sy_read s) (cl_chan (sy_client s)) \<and> listen_ok (sy_read s) (sy_listen s)
     \<and> (\<forall>i. pred_option (value_ok (sy_read s)) (sy_regs s i))"

lemma got_append: "got ms m \<Longrightarrow> got (ms @ ms') m"
  by (simp add: got_def)

lemma answers_append: "answers ms v \<Longrightarrow> answers (ms @ ms') v"
  by (auto simp: answers_def)

lemma value_ok_simps [simp]:
  "value_ok ms (RegStart opts)" "value_ok ms (RegSend opts ch)" "value_ok ms (RegSelect ch)"
  "value_ok ms (RegDefer ch (Inl e))" "value_ok ms (RegReturned (Inl e))"
  "value_ok ms (RegReturned res) = value_ok ms (RegDefer ch res)"
  by (simp_all add: value_ok_def)

lemma value_ok_answer: "got ms m \<Longrightarrow> value_ok ms (RegDefer ch (reg_answer m))"
  by (auto simp: value_ok_def got_def reg_answer_def answers_def is_answer_def split: if_splits)

lemma read_mono:
  "chans_ok ms f \<Longrightarrow> chans_ok (ms @ ms') f"
  "pred_option (value_ok ms) r \<Longrightarrow> pred_option (value_ok (ms @ ms')) r"
  by (simp_all add: chans_ok_def list_all_iff got_append value_ok_def answers_append pred_option_def)

lemma chans_ok_upd: "chans_ok ms f \<Longrightarrow> list_all (got ms) l \<Longrightarrow> chans_ok ms (f(ch := l))"
  by (simp add: chans_ok_def)

lemma genuine_set_reg:
  "genuine s \<Longrightarrow> chans_ok (sy_read s) (cl_chan c) \<Longrightarrow> value_ok (sy_read s) pc \<Longrightarrow> genuine (set_reg i (pc, c) s)"
  by (simp add: genuine_def set_reg_def)

lemma client_chan [simp]:
  "cl_chan (snd (client_Send err msg c)) = cl_chan c" "cl_chan (updateICE m c) = cl_chan c"
  "cl_chan (snd (Listen_message input c)) = cl_chan c"
  by (auto simp: client_defs split: option.splits)

lemma Listen_message_got:
  "listen_ok (ms @ (case input of None \<Rightarrow> [] | Some m \<Rightarrow> [m])) (Some (fst (Listen_message input c)))"
  by (cases input) (auto simp: Listen_message_def got_def Let_def split: option.splits if_splits)

lemma client_init:
  "exclusive (sys_init (client_New u k a))" "genuine (sys_init (client_New u k a))"
  by (simp_all add: exclusive_def genuine_def chans_ok_def sys_init_def client_New_def in_flight_def fun_eq_iff)

lemma exclusive_set_reg:
  assumes "exclusive s" "sy_regs s i = Some pc" "reg_chan pc = reg_chan pc'"
    "cl_pendingReg c = cl_pendingReg (sy_client s)"
  shows "exclusive (set_reg i (pc', c) s)"
proof -
  have "in_flight s i = reg_chan pc'" using assms(2,3) by (simp add: in_flightD)
  then have "(in_flight s)(i := reg_chan pc') = in_flight s" by auto
  then show ?thesis using assms(1,4) by (simp add: exclusive_def) (simp add: set_reg_def)
qed

lemma exclusive_same:
  "exclusive s \<Longrightarrow> in_flight s' = in_flight s \<Longrightarrow> cl_pendingReg (sy_client s') = cl_pendingReg (sy_client s) \<Longrightarrow> exclusive s'"
  by (simp add: exclusive_def)

lemma client_pending [simp]:
  "cl_pendingReg (snd (client_Send err msg c)) = cl_pendingReg c"
  "cl_pendingReg (updateICE m c) = cl_pendingReg c"
  "cl_pendingReg (snd (Listen_message input c)) = cl_pendingReg c"
  "Listen_put ch m c = Some (l, c') \<Longrightarrow> cl_pendingReg c' = cl_pendingReg c"
  by (auto simp: client_defs split: option.splits if_splits)

lemma exclusive_step: "client_step s s' \<Longrightarrow> exclusive s \<Longrightarrow> exclusive s'"
proof (induction rule: client_step.induct)
  case (call s i opts)
  then have "in_flight s i = None" by (simp add: in_flight_def)
  then have "(in_flight s)(i := None) = in_flight s" by auto
  then show ?case using call by (simp add: exclusive_def)
next
  case (register s i opts)
  then show ?case
  proof (cases "cl_pendingReg (sy_client s)")
    case None
    then show ?thesis using register by (auto simp: reg_begin_def exclusive_def set_reg_def in_flight_def fun_eq_iff)
  next
    case (Some ch)
    then show ?thesis using register exclusive_set_reg [OF register(2,1)] by (simp add: reg_begin_def)
  qed
next
  case (send s i opts ch err)
  then show ?case
    using exclusive_set_reg [OF send(2,1)] by (cases err) (simp_all add: reg_send_def client_Send_def)
next
  case (receive s i ch r)
  then show ?case
    using exclusive_set_reg [OF receive(3,1)] by (cases "cl_chan (sy_client s) ch") (auto simp: reg_receive_def)
next
  case (cancel s i ch err)
  then show ?case using exclusive_set_reg [OF cancel(2,1)] by (simp add: reg_cancel_def)
next
  case (finish s i ch res)
  then have "in_flight s i = Some ch" by (simp add: in_flightD)
  then have "in_flight s = [i \<mapsto> ch]"
    using finish(2) by (cases "cl_pendingReg (sy_client s)") (auto simp: exclusive_def split: if_splits)
  then show ?case by (simp add: reg_defer_def exclusive_def) (simp add: set_reg_def)
qed (auto elim!: exclusive_same simp: set_listen_def)

lemma genuine_step: "client_step s s' \<Longrightarrow> genuine s \<Longrightarrow> genuine s'"
proof (induction rule: client_step.induct)
  case (register s i opts)
  then show ?case by (simp add: reg_begin_def genuine_def set_reg_def)
next
  case (send s i opts ch err)
  then show ?case
    by (cases err) (simp_all add: reg_send_def client_Send_def genuine_def set_reg_def)
next
  case (receive s i ch r)
  then obtain resp rest where r: "cl_chan (sy_client s) ch = resp # rest"
      "r = (RegDefer ch (reg_answer resp), (sy_client s)\<lparr>cl_chan := (cl_chan (sy_client s))(ch := rest)\<rparr>)"
    by (auto simp: reg_receive_def split: list.splits)
  have c: "chans_ok (sy_read s) (cl_chan (sy_client s))" using receive.prems by (simp add: genuine_def)
  then have "list_all (got (sy_read s)) (cl_chan (sy_client s) ch)" unfolding chans_ok_def by blast
  then have "got (sy_read s) resp" "list_all (got (sy_read s)) rest" using r(1) by simp_all
  then show ?case
    unfolding r(2) by (intro genuine_set_reg receive.prems value_ok_answer) (simp_all add: chans_ok_upd c)
next
  case (finish s i ch res)
  have "pred_option (value_ok (sy_read s)) (sy_regs s i)" using finish.prems unfolding genuine_def by blast
  then have "value_ok (sy_read s) (RegDefer ch res)" using finish.hyps by simp
  then show ?case
    unfolding reg_defer_def using finish.prems by (intro genuine_set_reg) (simp_all add: genuine_def value_ok_def)
next
  case (read s input)
  then show ?case by (simp add: genuine_def set_listen_def read_mono Listen_message_got)
next
  case (put s ch msg r)
  then show ?case by (auto simp: genuine_def set_listen_def Listen_put_def chans_ok_upd split: if_splits)
qed (simp_all add: genuine_def set_reg_def reg_cancel_def)

text \<open>A client with one registration and one channel, for concrete runs.\<close>

definition demo_sys :: "ptr \<Rightarrow> Message list \<Rightarrow> json list \<Rightarrow> reg_pc \<Rightarrow> listen_pc option \<Rightarrow> Message list \<Rightarrow> client_sys" where
  "demo_sys pend buf out pc l ms =
     \<lparr>sy_client = (client_New [] [] [])\<lparr>cl_pendingReg := pend, cl_chan := (\<lambda>ch. if ch = 0 then buf else []), cl_next := 1, cl_out := out\<rparr>,
      sy_regs = [0 \<mapsto> pc], sy_listen = l, sy_read = ms\<rparr>"

definition demo_opts :: RegisterShareOptions where
  "demo_opts = RegisterShare_options ''https://cloud/s/x'' [] False []"

abbreviation demo_wait :: "listen_pc option \<Rightarrow> client_sys" where
  "demo_wait l \<equiv> demo_sys (Some 0) [] [register_message demo_opts] (RegSelect 0) l []"

definition demo_reply :: "string \<Rightarrow> string \<Rightarrow> Message" where
  "demo_reply typ code = \<lparr>sm_Type = typ, sm_SessionID = [], sm_PeerID = [], sm_SDP = [], sm_Candidate = JNull, sm_Err = [],
     sm_Code = code, sm_ConnID = [], sm_HMAC = [], sm_Password = [], sm_Reconnected = False, sm_ICEServers = [], sm_SID = [],
     sm_RelayJWT = [], sm_ExpiresAt = []\<rparr>"

lemma demo_calls:
  "client_step (sys_init (client_New [] [] [])) ((sys_init (client_New [] [] []))\<lparr>sy_regs := [0 \<mapsto> RegStart demo_opts]\<rparr>)"
  "client_step ((sys_init (client_New [] [] []))\<lparr>sy_regs := [0 \<mapsto> RegStart demo_opts]\<rparr>)
     (demo_sys (Some 0) [] [] (RegSend demo_opts 0) None [])"
  "client_step (demo_sys (Some 0) [] [] (RegSend demo_opts 0) None []) (demo_wait None)"
  "client_step (demo_wait None) (demo_wait (Some ListenRead))"
proof -
  let ?s0 = "sys_init (client_New [] [] [])"
  show "client_step ?s0 (?s0\<lparr>sy_regs := [0 \<mapsto> RegStart demo_opts]\<rparr>)"
    using client_step.call [of ?s0 0 demo_opts] by (simp add: sys_init_def)
  show "client_step (?s0\<lparr>sy_regs := [0 \<mapsto> RegStart demo_opts]\<rparr>) (demo_sys (Some 0) [] [] (RegSend demo_opts 0) None [])"
    using client_step.register [of "?s0\<lparr>sy_regs := [0 \<mapsto> RegStart demo_opts]\<rparr>" 0 demo_opts]
    by (simp add: sys_init_def demo_sys_def client_New_def reg_begin_def set_reg_def)
  show "client_step (demo_sys (Some 0) [] [] (RegSend demo_opts 0) None []) (demo_wait None)"
    using client_step.send [of "demo_sys (Some 0) [] [] (RegSend demo_opts 0) None []" 0 demo_opts 0 None]
    by (simp add: demo_sys_def client_New_def reg_send_def client_Send_def set_reg_def)
  show "client_step (demo_wait None) (demo_wait (Some ListenRead))"
    using client_step.listen [of "demo_wait None"] by (simp add: demo_sys_def)
qed

lemma demo_wait_reach: "client_step\<^sup>*\<^sup>* (sys_init (client_New [] [] [])) (demo_wait (Some ListenRead))"
  by (meson demo_calls rtranclp.rtrancl_into_rtrancl rtranclp.rtrancl_refl)

lemma demo_turns:
  "is_answer m \<Longrightarrow>
     client_step (demo_sys (Some 0) buf out pc (Some ListenRead) ms) (demo_sys (Some 0) buf out pc (Some (ListenPut 0 m)) (ms @ [m]))"
  "client_step (demo_sys pend [] out pc (Some (ListenPut 0 m)) ms) (demo_sys pend [m] out pc (Some ListenRead) ms)"
  "client_step (demo_sys pend (m # buf) out (RegSelect 0) l ms) (demo_sys pend buf out (RegDefer 0 (reg_answer m)) l ms)"
  "client_step (demo_sys pend buf out (RegDefer 0 res) l ms) (demo_sys None buf out (RegReturned res) l ms)"
proof -
  let ?r = "demo_sys (Some 0) buf out pc (Some ListenRead) ms" and ?p = "demo_sys pend [] out pc (Some (ListenPut 0 m)) ms"
    and ?w = "demo_sys pend (m # buf) out (RegSelect 0) l ms" and ?d = "demo_sys pend buf out (RegDefer 0 res) l ms"
  show "client_step ?r (demo_sys (Some 0) buf out pc (Some (ListenPut 0 m)) (ms @ [m]))" if "is_answer m"
    using client_step.read [of ?r "Some m"] that
    by (auto simp: demo_sys_def client_New_def Listen_message_def updateICE_def is_answer_def set_listen_def Let_def)
  show "client_step ?p (demo_sys pend [m] out pc (Some ListenRead) ms)"
    using client_step.put [of ?p 0 m] by (simp add: demo_sys_def client_New_def Listen_put_def set_listen_def fun_upd_def cong: if_cong)
  show "client_step ?w (demo_sys pend buf out (RegDefer 0 (reg_answer m)) l ms)"
    using client_step.receive [of ?w 0 0] by (simp add: demo_sys_def client_New_def reg_receive_def set_reg_def fun_upd_def cong: if_cong)
  show "client_step ?d (demo_sys None buf out (RegReturned res) l ms)"
    using client_step.finish [of ?d 0 0 res] by (simp add: demo_sys_def client_New_def reg_defer_def set_reg_def)
qed

lemma demo_answer_reach:
  assumes "is_answer m"
  shows "client_step\<^sup>*\<^sup>* (sys_init (client_New [] [] []))
    (demo_sys (Some 0) [] [register_message demo_opts] (RegDefer 0 (reg_answer m)) (Some ListenRead) [m])"
proof -
  have "client_step (demo_wait (Some ListenRead)) (demo_sys (Some 0) [] [register_message demo_opts] (RegSelect 0) (Some (ListenPut 0 m)) [m])"
    using demo_turns(1) [OF assms, of "[]" "[register_message demo_opts]" "RegSelect 0" "[]"] by simp
  from rtranclp.rtrancl_into_rtrancl [OF demo_wait_reach this] demo_turns(2)
  have "client_step\<^sup>*\<^sup>* (sys_init (client_New [] [] [])) (demo_sys (Some 0) [m] [register_message demo_opts] (RegSelect 0) (Some ListenRead) [m])"
    by (rule rtranclp.rtrancl_into_rtrancl)
  then show ?thesis using demo_turns(3) by (rule rtranclp.rtrancl_into_rtrancl)
qed



text \<open>Without a listener nothing ever reaches a channel, so no registration returns a code.\<close>

definition unanswered :: "client_sys \<Rightarrow> bool" where
  "unanswered s \<longleftrightarrow> sy_listen s = None \<and> (\<forall>ch. cl_chan (sy_client s) ch = [])
     \<and> (\<forall>i pc. sy_regs s i = Some pc \<longrightarrow> reg_value pc = None)"

lemma unanswered_set_reg:
  "unanswered s \<Longrightarrow> \<forall>ch. cl_chan c ch = [] \<Longrightarrow> reg_value pc = None \<Longrightarrow> unanswered (set_reg i (pc, c) s)"
  by (simp add: unanswered_def set_reg_def)

lemma unansweredD: "unanswered s \<Longrightarrow> cl_chan (sy_client s) ch = []"
  by (simp add: unanswered_def)

lemma unanswered_step:
  assumes "client_step s s'" "unanswered s" "sy_listen s' = None"
  shows "unanswered s'"
  using assms
proof (induction rule: client_step.induct)
  case (register s i opts)
  then show ?case by (auto simp: reg_begin_def unansweredD intro!: unanswered_set_reg)
next
  case (send s i opts ch err)
  then show ?case
    by (cases err) (auto simp: reg_send_def client_Send_def unansweredD intro!: unanswered_set_reg)
next
  case (receive s i ch r)
  then show ?case by (simp add: reg_receive_def unanswered_def)
next
  case (cancel s i ch err)
  then show ?case by (auto simp: reg_cancel_def unansweredD intro!: unanswered_set_reg)
next
  case (finish s i ch res)
  then have "reg_value (RegDefer ch res) = None" unfolding unanswered_def by blast
  then have "reg_value (RegReturned res) = None" by (cases res) simp_all
  then show ?case using finish.prems by (auto simp: reg_defer_def unansweredD intro!: unanswered_set_reg)
qed (auto simp: unanswered_def set_listen_def client_Send_def)

text \<open>
  (C23) In single-share mode the agent never gets its code: \<^verbatim>\<open>runSession\<close> registers before it listens, and nobody else reads the
  websocket, so the registration never returns a code, \<^verbatim>\<open>Listen\<close> is never called, and a registration that waits
  goes on waiting until its context is cancelled.
\<close>

theorem single_share_never_registers:
  assumes "runSession_step\<^sup>*\<^sup>* (sys_init (client_New serverURL apiKey agentID)) s"
  shows "sy_listen s = None \<and> (\<nexists>r. sy_regs s 0 = Some (RegReturned (Inr r)))
       \<and> (\<forall>ch. sy_regs s 0 = Some (RegSelect ch) \<longrightarrow> reg_receive ch (sy_client s) = None)"
proof -
  have "unanswered s"
    using assms
  proof (induction rule: rtranclp_induct)
    case base
    show ?case by (simp add: unanswered_def sys_init_def client_New_def)
  next
    case (step s s')
    from step.hyps(2) have c: "client_step s s'" "sy_listen s' = sy_listen s \<or> (\<exists>r. sy_regs s 0 = Some (RegReturned (Inr r)))"
      by (auto simp: runSession_step.simps)
    have "sy_regs s 0 \<noteq> Some (RegReturned (Inr r))" for r using step.IH unfolding unanswered_def by force
    then have "sy_listen s' = None" using c(2) step.IH by (auto simp: unanswered_def)
    then show ?case using unanswered_step [OF c(1) step.IH] by simp
  qed
  then show ?thesis
    by (auto simp: unanswered_def reg_receive_def) force
qed

lemma single_share_never_registers_witness:
  "runSession_step\<^sup>*\<^sup>* (sys_init (client_New [] [] [])) (demo_wait None) \<and> sy_regs (demo_wait None) 0 = Some (RegSelect 0)
   \<and> sy_listen (demo_wait None) = None \<and> reg_receive 0 (sy_client (demo_wait None)) = None"
proof -
  have steps: "runSession_step (sys_init (client_New [] [] [])) ((sys_init (client_New [] [] []))\<lparr>sy_regs := [0 \<mapsto> RegStart demo_opts]\<rparr>)"
    "runSession_step ((sys_init (client_New [] [] []))\<lparr>sy_regs := [0 \<mapsto> RegStart demo_opts]\<rparr>)
       (demo_sys (Some 0) [] [] (RegSend demo_opts 0) None [])"
    "runSession_step (demo_sys (Some 0) [] [] (RegSend demo_opts 0) None []) (demo_wait None)"
    by (rule runSession_step.intros [OF demo_calls(1)] runSession_step.intros [OF demo_calls(2)] runSession_step.intros [OF demo_calls(3)];
        simp add: sys_init_def demo_sys_def)+
  then have run: "runSession_step\<^sup>*\<^sup>* (sys_init (client_New [] [] [])) (demo_wait None)"
    by (meson rtranclp.rtrancl_into_rtrancl rtranclp.rtrancl_refl)
  then show ?thesis using single_share_never_registers [OF run] by (simp add: demo_sys_def)
qed

text \<open>A listener that holds a message for a full channel which nobody reads any more.\<close>

definition stuck :: "nat \<Rightarrow> Message \<Rightarrow> client_sys \<Rightarrow> bool" where
  "stuck ch m s \<longleftrightarrow> sy_listen s = Some (ListenPut ch m) \<and> cl_chan (sy_client s) ch \<noteq> [] \<and> ch < cl_next (sy_client s)
     \<and> (\<forall>i opts. sy_regs s i \<noteq> Some (RegSend opts ch) \<and> sy_regs s i \<noteq> Some (RegSelect ch))"

lemma stuck_set_reg:
  "stuck ch m s \<Longrightarrow> cl_chan c ch \<noteq> [] \<Longrightarrow> ch < cl_next c \<Longrightarrow> \<forall>opts. pc \<noteq> RegSend opts ch \<Longrightarrow> pc \<noteq> RegSelect ch
   \<Longrightarrow> stuck ch m (set_reg i (pc, c) s)"
  by (simp add: stuck_def set_reg_def)

lemma stuckD: "stuck ch m s \<Longrightarrow> cl_chan (sy_client s) ch \<noteq> []" "stuck ch m s \<Longrightarrow> ch < cl_next (sy_client s)"
  by (simp_all add: stuck_def)

lemma stuck_step: "client_step s s' \<Longrightarrow> stuck ch m s \<Longrightarrow> stuck ch m s'"
proof (induction rule: client_step.induct)
  case (register s i opts)
  then show ?case
    using stuckD [OF register(2)] by (auto simp: reg_begin_def intro!: stuck_set_reg)
next
  case (send s i opts ch' err)
  then have "ch' \<noteq> ch" by (auto simp: stuck_def)
  then show ?case
    using send(2) stuckD [OF send(2)]
    by (cases err) (auto simp: reg_send_def client_Send_def intro!: stuck_set_reg)
next
  case (receive s i ch' r)
  then have "ch' \<noteq> ch" by (auto simp: stuck_def)
  then show ?case
    using receive(2,3) stuckD [OF receive(3)]
    by (auto simp: reg_receive_def intro!: stuck_set_reg split: list.splits)
next
  case (cancel s i ch' err)
  then show ?case using stuckD [OF cancel(2)] by (auto simp: reg_cancel_def intro!: stuck_set_reg)
next
  case (finish s i ch' res)
  then show ?case using stuckD [OF finish(2)] by (auto simp: reg_defer_def intro!: stuck_set_reg)
next
  case (put s ch' msg r)
  then show ?case by (simp add: stuck_def Listen_put_def split: if_splits)
qed (simp_all add: stuck_def client_Send_def)

text \<open>
  (C24) The listener can block for ever, and with it the agent: with three answers in a row (say, errors for earlier
  requests) around one registration, the third one is put into a full channel that the registration no longer reads.
\<close>

theorem listener_can_block_forever:
  "\<exists>s ch m. client_step\<^sup>*\<^sup>* (sys_init (client_New [] [] [])) s
     \<and> {s'. client_step\<^sup>*\<^sup>* s s'} \<subseteq> {s'. sy_listen s' = Some (ListenPut ch m)}"
proof -
  let ?e = "demo_reply ''error'' []" and ?out = "[register_message demo_opts]"
  let ?s = "demo_sys (Some 0) [?e] ?out (RegDefer 0 (reg_answer ?e)) (Some (ListenPut 0 ?e)) [?e, ?e, ?e]"
  have e: "is_answer ?e" by (simp add: demo_reply_def is_answer_def)
  note turns = demo_turns(1) [OF e] demo_turns(2,3)
  have "client_step (demo_wait (Some ListenRead)) (demo_sys (Some 0) [] ?out (RegSelect 0) (Some (ListenPut 0 ?e)) [?e])"
    using turns(1) [of "[]" ?out "RegSelect 0" "[]"] by simp
  moreover have "client_step (demo_sys (Some 0) [] ?out (RegSelect 0) (Some (ListenPut 0 ?e)) [?e])
      (demo_sys (Some 0) [?e] ?out (RegSelect 0) (Some ListenRead) [?e])" by (rule turns(2))
  moreover have "client_step (demo_sys (Some 0) [?e] ?out (RegSelect 0) (Some ListenRead) [?e])
      (demo_sys (Some 0) [?e] ?out (RegSelect 0) (Some (ListenPut 0 ?e)) [?e, ?e])"
    using turns(1) [of "[?e]" ?out "RegSelect 0" "[?e]"] by simp
  moreover have "client_step (demo_sys (Some 0) [?e] ?out (RegSelect 0) (Some (ListenPut 0 ?e)) [?e, ?e])
      (demo_sys (Some 0) [] ?out (RegDefer 0 (reg_answer ?e)) (Some (ListenPut 0 ?e)) [?e, ?e])" by (rule turns(3))
  moreover have "client_step (demo_sys (Some 0) [] ?out (RegDefer 0 (reg_answer ?e)) (Some (ListenPut 0 ?e)) [?e, ?e])
      (demo_sys (Some 0) [?e] ?out (RegDefer 0 (reg_answer ?e)) (Some ListenRead) [?e, ?e])" by (rule turns(2))
  moreover have "client_step (demo_sys (Some 0) [?e] ?out (RegDefer 0 (reg_answer ?e)) (Some ListenRead) [?e, ?e]) ?s"
    using turns(1) [of "[?e]" ?out _ "[?e, ?e]"] by simp
  ultimately have "client_step\<^sup>*\<^sup>* (sys_init (client_New [] [] [])) ?s"
    using demo_wait_reach by (meson rtranclp.rtrancl_into_rtrancl)
  moreover have "stuck 0 ?e ?s" by (simp add: stuck_def demo_sys_def)
  then have "stuck 0 ?e s'" if "client_step\<^sup>*\<^sup>* ?s s'" for s'
    using that by (rotate_tac 1) (induction rule: rtranclp_induct, auto intro: stuck_step)
  then have "{s'. client_step\<^sup>*\<^sup>* ?s s'} \<subseteq> {s'. sy_listen s' = Some (ListenPut 0 ?e)}" by (auto simp: stuck_def)
  ultimately show ?thesis by blast
qed

section \<open>Reconnection delays\<close>

text \<open>
  What \<^verbatim>\<open>backoff.go\<close> relies on in floating-point arithmetic: rounding is monotone and leaves numbers alone that have at most 53 significant
  bits and a moderate exponent. On amd64 a conversion out of range gives the smallest integer.
\<close>

definition rounds :: "float_env \<Rightarrow> bool" where
  "rounds F \<longleftrightarrow> mono (fe_rnd F) \<and> (\<forall>n k. \<bar>n\<bar> \<le> 2 ^ 53 \<longrightarrow> k \<le> 900 \<longrightarrow>
     fe_rnd F (of_int n * 2 ^ k) = of_int n * 2 ^ k \<and> fe_rnd F (of_int n / 2 ^ k) = of_int n / 2 ^ k)"

definition amd64_conv :: "float_env \<Rightarrow> bool" where
  "amd64_conv F \<longleftrightarrow> (\<forall>v. fe_conv F v = - (2 ^ 63))"

lemma rounds_mono: "rounds F \<Longrightarrow> x \<le> y \<Longrightarrow> fe_rnd F x \<le> fe_rnd F y"
  by (simp add: rounds_def monoD)

lemma rounds_exact:
  assumes "rounds F" "\<bar>n\<bar> \<le> 2 ^ 53" "k \<le> 900"
  shows "fe_rnd F (of_int n * 2 ^ k) = of_int n * 2 ^ k" "fe_rnd F (of_int n / 2 ^ k) = of_int n / 2 ^ k"
  using assms by (simp_all add: rounds_def)

lemma rounds_between:
  assumes "rounds F" "of_int a / 2 ^ k \<le> x" "x \<le> of_int b / 2 ^ k" "\<bar>a\<bar> \<le> 2 ^ 53" "\<bar>b\<bar> \<le> 2 ^ 53" "k \<le> 900"
  shows "of_int a / 2 ^ k \<le> fe_rnd F x \<and> fe_rnd F x \<le> of_int b / 2 ^ k"
  using rounds_mono [OF assms(1) assms(2)] rounds_mono [OF assms(1) assms(3)]
  by (simp add: rounds_exact(2) [OF assms(1) assms(4) assms(6)] rounds_exact(2) [OF assms(1) assms(5) assms(6)])

lemma jitterFactor_bounds:
  assumes F: "rounds F" and u: "0 \<le> u" "u < 1"
  shows "104857 / 2 ^ 17 \<le> jitterFactor F u \<and> jitterFactor F u \<le> 157287 / 2 ^ 17"
proof -
  have j: "0 \<le> backoff_jitter F \<and> backoff_jitter F \<le> 26215 / 2 ^ 17"
    using rounds_between [OF F, of 0 17 "1 / 5" 26215] by (simp add: backoff_jitter_def)
  have a: "0 \<le> fe_rnd F (2 * u) \<and> fe_rnd F (2 * u) \<le> 2" using rounds_between [OF F, of 0 0 "2 * u" 2] u by simp
  then have x: "- 1 \<le> fe_rnd F (fe_rnd F (2 * u) - 1) \<and> fe_rnd F (fe_rnd F (2 * u) - 1) \<le> 1"
    using rounds_between [OF F, of "- 1" 0 "fe_rnd F (2 * u) - 1" 1] by simp
  define x where "x = fe_rnd F (fe_rnd F (2 * u) - 1)"
  have "\<bar>backoff_jitter F * x\<bar> \<le> 26215 / 2 ^ 17 * 1"
    unfolding abs_mult using j x by (intro mult_mono) (auto simp: x_def abs_le_iff)
  then have "- 26215 / 2 ^ 17 \<le> backoff_jitter F * x \<and> backoff_jitter F * x \<le> 26215 / 2 ^ 17"
    unfolding abs_le_iff by linarith
  then have "- 26215 / 2 ^ 17 \<le> fe_rnd F (backoff_jitter F * x) \<and> fe_rnd F (backoff_jitter F * x) \<le> 26215 / 2 ^ 17"
    using rounds_between [OF F, of "- 26215" 17 "backoff_jitter F * x" 26215] by simp
  then show ?thesis
    using rounds_between [OF F, of 104857 17 "1 + fe_rnd F (backoff_jitter F * x)" 157287]
    by (simp add: jitterFactor_def x_def)
qed

lemma truncate_rat_int [simp]: "truncate_rat (of_int n) = n"
  by (simp add: truncate_rat_def flip: of_int_minus)

lemma to_duration_int: "- (2 ^ 63) \<le> n \<Longrightarrow> n < 2 ^ 63 \<Longrightarrow> to_duration F (Fin (of_int n)) = n"
  unfolding to_duration_def by simp

lemma Next_early:
  assumes F: "rounds F" and u: "0 \<le> u" "u < 1" and n: "attempt \<le> 33"
  defines "D \<equiv> min (initialBackoff * 2 ^ attempt) maxBackoff"
  shows "79 * D \<le> 100 * fst (backoff_Next F u attempt) \<and> 100 * fst (backoff_Next F u attempt) \<le> 121 * D"
proof -
  have pow: "(2::int) ^ attempt \<le> 2 ^ 33" using n by (intro power_increasing) simp_all
  have D: "1000000000 \<le> D" "D \<le> 30000000000" by (simp_all add: D_def initialBackoff_def maxBackoff_def)
  have "f64_mult F (Fin (of_int initialBackoff)) (f64_pow2 attempt) = Fin (of_int (initialBackoff * 2 ^ attempt))"
  proof -
    have "fe_rnd F (of_int 1000000000 * 2 ^ attempt) = of_int 1000000000 * 2 ^ attempt"
      using n by (intro rounds_exact(1) F) simp_all
    moreover have "(1000000000 :: rat) * 2 ^ attempt < 2 ^ 1024"
      using pow of_int_le_iff [of "2 ^ attempt" "2 ^ 33", where 'a = rat] by simp
    ultimately show ?thesis using n by (simp add: f64_mult_def f64_pow2_def initialBackoff_def)
  qed
  moreover have "to_duration F (Fin (of_int (initialBackoff * 2 ^ attempt))) = initialBackoff * 2 ^ attempt"
  proof (rule to_duration_int)
    have "- (2 ^ 63) \<le> (0 :: int)" by simp
    also have "0 \<le> initialBackoff * 2 ^ attempt" by (simp add: initialBackoff_def)
    finally show "- (2 ^ 63) \<le> initialBackoff * 2 ^ attempt" .
    show "initialBackoff * 2 ^ attempt < 2 ^ 63" using pow by (simp add: initialBackoff_def)
  qed
  ultimately have d: "fst (backoff_Next F u attempt)
      = to_duration F (f64_mult F (Fin (fe_rnd F (of_int D))) (Fin (jitterFactor F u)))"
    unfolding backoff_Next_def Let_def D_def by (simp add: min_def not_less)
  have r: "fe_rnd F (of_int D) = of_int D" using rounds_exact(1) [OF F, of D 0] D by simp
  let ?z = "fe_rnd F (of_int D * jitterFactor F u)"
  have "of_int (D * 104857) / 2 ^ 17 \<le> of_int D * jitterFactor F u \<and> of_int D * jitterFactor F u \<le> of_int (D * 157287) / 2 ^ 17"
    using jitterFactor_bounds [OF F u] D by (auto simp: divide_simps mult.commute intro!: mult_left_mono)
  then have z: "of_int (D * 104857) / 2 ^ 17 \<le> ?z" "?z \<le> of_int (D * 157287) / 2 ^ 17"
    using rounds_between [OF F, of "D * 104857" 17 "of_int D * jitterFactor F u" "D * 157287"] D by simp_all
  have fl: "79 * D \<le> 100 * \<lfloor>?z\<rfloor>" "100 * \<lfloor>?z\<rfloor> \<le> 121 * D"
  proof -
    have "\<lfloor>of_int (D * 104857) / (2::rat) ^ 17\<rfloor> \<le> \<lfloor>?z\<rfloor>" "\<lfloor>?z\<rfloor> \<le> \<lfloor>of_int (D * 157287) / (2::rat) ^ 17\<rfloor>"
      using z by (intro floor_mono; simp)+
    moreover have "\<lfloor>of_int (D * 104857) / (2::rat) ^ 17\<rfloor> = D * 104857 div 2 ^ 17"
        "\<lfloor>of_int (D * 157287) / (2::rat) ^ 17\<rfloor> = D * 157287 div 2 ^ 17"
      using floor_divide_of_int_eq [of "D * 104857" "2 ^ 17", where 'a = rat]
        floor_divide_of_int_eq [of "D * 157287" "2 ^ 17", where 'a = rat] by simp_all
    moreover have "79 * D \<le> 100 * (D * 104857 div 2 ^ 17)" "100 * (D * 157287 div 2 ^ 17) \<le> 121 * D" using D by simp_all
    ultimately show "79 * D \<le> 100 * \<lfloor>?z\<rfloor>" "100 * \<lfloor>?z\<rfloor> \<le> 121 * D" by linarith+
  qed
  have "0 \<le> ?z" using z(1) D by (intro order_trans [OF _ z(1)]) simp
  moreover have "?z < 2 ^ 1024" using z(2) D by (intro le_less_trans [OF z(2)]) (simp add: divide_simps)
  moreover have "\<lfloor>?z\<rfloor> < 2 ^ 63 \<and> - (2 ^ 63) \<le> \<lfloor>?z\<rfloor>"
  proof -
    define m where "m = \<lfloor>?z\<rfloor>"
    show ?thesis using fl D unfolding m_def [symmetric] by simp
  qed
  ultimately have "fst (backoff_Next F u attempt) = \<lfloor>?z\<rfloor>"
    unfolding d r by (simp add: f64_mult_def to_duration_def truncate_rat_def)
  then show ?thesis using fl by simp
qed

lemma Next_late:
  assumes F: "rounds F" "amd64_conv F" and u: "0 \<le> u" "u < 1" and n: "34 \<le> attempt"
  shows "fst (backoff_Next F u attempt) < 0"
proof -
  have conv: "fe_conv F v = - (2 ^ 63)" for v using F(2) by (simp add: amd64_conv_def)
  have big: "to_duration F (Fin z) = - (2 ^ 63)" if "2 ^ 63 \<le> z" for z :: rat
  proof -
    have "2 ^ 63 \<le> \<lfloor>z\<rfloor>" using that by (simp add: le_floor_iff)
    moreover have "\<not> z < 0" using that by simp
    ultimately show ?thesis by (simp add: to_duration_def truncate_rat_def conv)
  qed
  have "fe_rnd F (1000000000 * 2 ^ 34) \<le> fe_rnd F (1000000000 * 2 ^ attempt)"
    using n by (intro rounds_mono F(1) mult_left_mono power_increasing) simp_all
  then have "1000000000 * 2 ^ 34 \<le> fe_rnd F (1000000000 * 2 ^ attempt)"
    using rounds_exact(1) [OF F(1), of 1000000000 34] by simp
  then have "2 ^ 63 \<le> fe_rnd F (1000000000 * 2 ^ attempt)" by simp
  then have first: "to_duration F (f64_mult F (Fin (of_int initialBackoff)) (f64_pow2 attempt)) = - (2 ^ 63)"
    by (auto simp: f64_mult_def f64_pow2_def initialBackoff_def Let_def big) (auto simp: to_duration_def conv)
  have r: "fe_rnd F (of_int (- (2 ^ 63))) = - (2 ^ 63)" using rounds_exact(1) [OF F(1), of "- 1" 63] by simp
  let ?z = "fe_rnd F (- (2 ^ 63) * jitterFactor F u)"
  have "- (2 ^ 63) * jitterFactor F u \<le> - (2 ^ 63) * (3 / 4)"
    using jitterFactor_bounds [OF F(1) u] by (intro mult_left_mono_neg) (auto simp: divide_simps)
  then have "?z \<le> fe_rnd F (of_int (- 3) * 2 ^ 61)" by (intro rounds_mono F(1)) simp
  then have z: "?z \<le> - 3 * 2 ^ 61" using rounds_exact(1) [OF F(1), of "- 3" 61] by simp
  have "truncate_rat ?z < 0"
  proof -
    have "1 \<le> \<lfloor>- ?z\<rfloor>" using z by (simp add: le_floor_iff)
    then show ?thesis using z by (simp add: truncate_rat_def)
  qed
  moreover have "\<not> ?z \<ge> 2 ^ 1024" using z by simp
  ultimately have "to_duration F (f64_mult F (Fin (- (2 ^ 63))) (Fin (jitterFactor F u))) < 0"
    by (simp add: f64_mult_def to_duration_def conv)
  then show ?thesis
    using r by (simp add: backoff_Next_def first maxBackoff_def Let_def)
qed

text \<open>
  (C25) The reconnection delays: up to the 34th attempt in a row a delay is within 21 percent of
  \<open>min (2\<^sup>n) 30\<close> seconds, as \<^verbatim>\<open>backoff.go\<close> intends (it jitters by 20 percent). From the 35th attempt on the product no longer fits into 64 bits; on
  amd64 the conversion then yields the smallest integer, which is not above the cap, and the delay is negative: the agent reconnects without pausing.
\<close>

theorem backoff_delays:
  assumes "rounds F" "0 \<le> u" "u < 1"
  shows "(attempt \<le> 33 \<longrightarrow>
            79 * min (initialBackoff * 2 ^ attempt) maxBackoff \<le> 100 * fst (backoff_Next F u attempt)
            \<and> 100 * fst (backoff_Next F u attempt) \<le> 121 * min (initialBackoff * 2 ^ attempt) maxBackoff)
       \<and> (34 \<le> attempt \<longrightarrow> amd64_conv F \<longrightarrow> fst (backoff_Next F u attempt) < 0)
       \<and> snd (backoff_Next F u attempt) = attempt + 1"
  using Next_early [OF assms] Next_late [OF assms(1) _ assms(2,3)] by (auto simp: backoff_Next_def Let_def)

definition demo_float :: float_env where
  "demo_float = \<lparr>fe_rnd = (\<lambda>x. x), fe_conv = (\<lambda>_. - (2 ^ 63))\<rparr>"

lemma backoff_delays_witness:
  "rounds demo_float \<and> amd64_conv demo_float
   \<and> 79 * maxBackoff \<le> 100 * fst (backoff_Next demo_float (1 / 2) 33) \<and> fst (backoff_Next demo_float (1 / 2) 34) < 0"
proof -
  have F: "rounds demo_float" "amd64_conv demo_float" by (simp_all add: rounds_def amd64_conv_def demo_float_def mono_def)
  then show ?thesis
    using backoff_delays [OF F(1), of "1 / 2" 33] backoff_delays [OF F(1), of "1 / 2" 34]
    by (simp add: initialBackoff_def maxBackoff_def)
qed

end
