(* ===== verification/Daemon_State.thy ===== *)
theory Daemon_State
  imports Share_Store Signaling_Client Transfer_State "HOL-Library.AList"
begin

text \<open>
  The agent's daemon, \<^verbatim>\<open>agent/internal/daemon/daemon.go\<close>: its state, and the admission of browsers. Session objects live in a heap, because the daemon compares
  pointers to them; Go maps that are iterated are association lists, iterated in their order. Peers and relay channels are resources
  with a number, kept with what their closures capture in \<open>dm_res\<close>; \<open>dm_closed\<close> are those whose transport is closed, \<open>dm_notified\<close> those whose close callback was started.

  Everything runs in goroutines, cut where they take a lock of the daemon or of a session. A goroutine is the list of
  the turns it still has to make (type \<open>work\<close>); a turn returns the new state, the turns that come next in its place and the goroutines it starts. What the
  outside world does in a turn is in the record \<open>turn_in\<close>. Times are seconds. \<open>dm_log\<close> records what the statements about authentication talk about.
\<close>

section \<open>State\<close>

record nonceEntry =
  ne_nonce :: string
  ne_expiresAt :: int

record Session =
  ds_Code :: string
  ds_ShareURL :: string
  ds_ShareType :: string
  ds_FileID :: string
  ds_Password :: string
  ds_ExpiresAt :: int
  ds_MaxDownloads :: "64 word"
  ds_Downloads :: "64 word"
  ds_RelayOnly :: bool
  ds_CreatedAt :: int
  ds_IsPasswordProtected :: bool
  ds_immichClient :: ptr
  ds_webdavClient :: ptr
  ds_peers :: "(string \<times> nat) list"
  ds_relayChannels :: "(string \<times> nat) list"
  ds_closing :: bool

datatype res_kind = PeerRes | RelayRes

record resource =
  rs_kind :: res_kind
  rs_session :: nat
  rs_key :: string
  rs_ice :: "sig_ICEServer list"
  rs_relayOnly :: bool
  rs_jwt :: string

record dconfig =
  dc_ImmichURL :: string
  dc_ImmichAPIKey :: string
  dc_AllowedHost :: string
  dc_NCAllowedHost :: string
  dc_DefaultRelayOnly :: bool

datatype dlog = LNonce string string int | LAuth string string nat string string int | LPeer string string nat

datatype peer_signal = SigAnswer string | SigCandidate "json option"

record Daemon =
  dm_config :: dconfig
  dm_store :: Store
  dm_files :: files
  dm_sessions :: "(string \<times> nat) list"
  dm_heap :: "nat \<Rightarrow> Session"
  dm_nextSession :: nat
  dm_connected :: bool
  dm_hasTURN :: bool
  dm_nonces :: "string \<rightharpoonup> nonceEntry"
  dm_res :: "nat \<Rightarrow> resource"
  dm_nextRes :: nat
  dm_closed :: "nat set"
  dm_notified :: "nat set"
  dm_activated :: "nat set"
  dm_managers :: "nat \<rightharpoonup> Manager"
  dm_applied :: "(nat \<times> peer_signal) list"
  dm_out :: "json list"
  dm_registers :: "RegisterShareOptions list"
  dm_notices :: "(nat \<times> string) list"
  dm_returned :: "string result list"
  dm_log :: "dlog list"

text \<open>HMAC-SHA256 of a nonce under a password, the public key of a P-256 private key, and the text form of times.\<close>

record denv =
  de_hmac :: "string \<Rightarrow> string \<Rightarrow> bytes"
  de_pub :: "bytes \<Rightarrow> bytes result"
  de_time :: time_text

record SharedLink =
  sl_Key :: string
  sl_Password :: string
  sl_Type :: string

record turn_in =
  in_now :: int
  in_random :: "bytes result"
  in_err :: "goerr option"
  in_fault :: save_fault
  in_key :: "bytes result"
  in_client :: "nat result"
  in_fileID :: "string result"
  in_reg :: "(string \<times> bool) result"
  in_links :: "SharedLink list result"
  in_offer :: "string result"
  in_valid :: "bool result"
  in_ice :: "sig_ICEServer list"
  in_gallery :: bool

section \<open>Turns\<close>

datatype work =
    WKnock string string | WKnockStore string nat string | WKnockSend string nat string
  | WJoin string string string | WJoinNonce string string string nat
  | WJoinVerify string string string nat "nonceEntry option"
  | WPassword string string string | WPasswordCheck string string string nat
  | WPeer string string | WPeerRegister string nat | WPeerOffer string nat | WPeerSend string nat string | WPeerDrop nat
  | WSignal string peer_signal | WSignalPeer string nat peer_signal | WLocalCandidate nat json
  | WRelay string string string | WRelayNew string string string nat | WRelayRegister string nat
  | WRelayStart nat | WRelayCheck nat
  | WClose nat | WClosed nat
  | WOpen nat | WActivate nat | WExpired nat | WDownload nat int | WStoreIncrement string
  | WTeardown nat string | WNotify nat string | WStoreDelete string | WSend json
  | WRevoke string | WPrune | WStop
  | WCreate string string string int "64 word" bool | WCreateAdd Session
  | WStoreSave SessionEntry | WReturn "string result"
  | WManual string | WManualPoll string | WManualAdd Session
  | WLoad | WLoadEntries "SessionEntry list" string | WLoadAdd Session "SessionEntry list" string
  | WSync | WSyncLinks "SharedLink list" "string list" string
  | WSyncRegister SharedLink "SharedLink list" "string list" string
  | WSyncAdd Session "SharedLink list" "string list" string
  | WSyncScan "string list" | WSyncRemove "nat list" | WSyncUnregister nat "nat list"
  | WSyncDelete nat "nat list" | WSyncUnlink nat "nat list"

type_synonym turn_out = "Daemon \<times> work list \<times> work list list"

definition d_done :: "Daemon \<Rightarrow> turn_out" where "d_done d = (d, [], [])"

definition d_next :: "work list \<Rightarrow> Daemon \<Rightarrow> turn_out" where "d_next ws d = (d, ws, [])"

definition d_send :: "json \<Rightarrow> Daemon \<Rightarrow> Daemon" where
  "d_send msg d = d\<lparr>dm_out := dm_out d @ [msg]\<rparr>"

text \<open>The calls of \<^verbatim>\<open>RegisterShare\<close> and \<^verbatim>\<open>RegisterShareWithOptions\<close> are kept with their options.\<close>

definition d_register :: "RegisterShareOptions \<Rightarrow> Daemon \<Rightarrow> Daemon" where
  "d_register opts d = d\<lparr>dm_registers := dm_registers d @ [opts]\<rparr>"

definition d_log :: "dlog \<Rightarrow> Daemon \<Rightarrow> Daemon" where
  "d_log e d = d\<lparr>dm_log := dm_log d @ [e]\<rparr>"

definition d_session :: "string \<Rightarrow> Daemon \<Rightarrow> nat option" where
  "d_session code d = map_of (dm_sessions d) code"

definition upd_session :: "nat \<Rightarrow> (Session \<Rightarrow> Session) \<Rightarrow> Daemon \<Rightarrow> Daemon" where
  "upd_session s f d = d\<lparr>dm_heap := (dm_heap d)(s := f (dm_heap d s))\<rparr>"

definition dmsg :: "string \<Rightarrow> (string \<times> json) list \<Rightarrow> json" where
  "dmsg typ fs = JObj ((''type'', JStr typ) # fs)"

text \<open>Closing a peer or a channel closes its transport; the callback that was set with \<^verbatim>\<open>SetOnClose\<close> runs once.\<close>

definition close_resource :: "nat \<Rightarrow> Daemon \<Rightarrow> turn_out" where
  "close_resource r d =
     (if r \<in> dm_notified d then (d\<lparr>dm_closed := insert r (dm_closed d)\<rparr>, [], [])
      else (d\<lparr>dm_closed := insert r (dm_closed d), dm_notified := insert r (dm_notified d)\<rparr>, [], [[WClosed r]]))"

definition new_resource :: "resource \<Rightarrow> Daemon \<Rightarrow> Daemon" where
  "new_resource res d = d\<lparr>dm_res := (dm_res d)(dm_nextRes d := res), dm_nextRes := Suc (dm_nextRes d)\<rparr>"

section \<open>Admitting a browser\<close>

definition handleKnock :: "turn_in \<Rightarrow> string \<Rightarrow> string \<Rightarrow> Daemon \<Rightarrow> turn_out" where
  "handleKnock inp connID sessionCode d =
     (case d_session sessionCode d of
        None \<Rightarrow> d_done d
      | Some s \<Rightarrow>
          case in_random inp of
            Inl _ \<Rightarrow> d_done d
          | Inr nonceBytes \<Rightarrow> d_next [WKnockStore connID s (hexEncode nonceBytes)] d)"

definition nonceTTL :: int where "nonceTTL = 60"

definition sweepNonces :: "int \<Rightarrow> (string \<rightharpoonup> nonceEntry) \<Rightarrow> (string \<rightharpoonup> nonceEntry)" where
  "sweepNonces now m =
     (\<lambda>c. case m c of None \<Rightarrow> None | Some entry \<Rightarrow> if now > ne_expiresAt entry then None else Some entry)"

definition handleKnock_store :: "turn_in \<Rightarrow> string \<Rightarrow> nat \<Rightarrow> string \<Rightarrow> Daemon \<Rightarrow> turn_out" where
  "handleKnock_store inp connID s nonce d =
     d_next [WKnockSend connID s nonce]
       (d_log (LNonce connID nonce (in_now inp + nonceTTL))
         (d\<lparr>dm_nonces := (sweepNonces (in_now inp) (dm_nonces d))
              (connID \<mapsto> \<lparr>ne_nonce = nonce, ne_expiresAt = in_now inp + nonceTTL\<rparr>)\<rparr>))"

definition handleKnock_send :: "string \<Rightarrow> nat \<Rightarrow> string \<Rightarrow> Daemon \<Rightarrow> turn_out" where
  "handleKnock_send connID s nonce d =
     d_done (d_send (dmsg ''nonce'' [(''conn_id'', JStr connID), (''value'', JStr nonce),
       (''has_password'', JBool (ds_Password (dm_heap d s) \<noteq> []))]) d)"

definition handleJoin :: "string \<Rightarrow> string \<Rightarrow> string \<Rightarrow> Daemon \<Rightarrow> turn_out" where
  "handleJoin connID sessionCode receivedHMAC d =
     (case d_session sessionCode d of
        None \<Rightarrow> d_done d
      | Some s \<Rightarrow> d_next [WJoinNonce connID sessionCode receivedHMAC s] d)"

definition handleJoin_nonce :: "string \<Rightarrow> string \<Rightarrow> string \<Rightarrow> nat \<Rightarrow> Daemon \<Rightarrow> turn_out" where
  "handleJoin_nonce connID sessionCode receivedHMAC s d =
     d_next [WJoinVerify connID sessionCode receivedHMAC s (dm_nonces d connID)]
       (d\<lparr>dm_nonces := (dm_nonces d)(connID := None)\<rparr>)"

definition auth_failed :: "string \<Rightarrow> (string \<times> json) list \<Rightarrow> Daemon \<Rightarrow> turn_out" where
  "auth_failed connID fs d = d_done (d_send (dmsg ''auth_failed'' ((''conn_id'', JStr connID) # fs)) d)"

definition auth_message :: "string \<Rightarrow> string \<Rightarrow> string \<Rightarrow> json" where
  "auth_message typ connID sessionCode = dmsg typ [(''conn_id'', JStr connID), (''code'', JStr sessionCode)]"

text \<open>The proof that a browser has to give: none for a share without a password and for galleries, which the gallery protects itself.\<close>

definition hmac_accepted :: "denv \<Rightarrow> Session \<Rightarrow> string \<Rightarrow> string \<Rightarrow> bool" where
  "hmac_accepted E session nonce receivedHMAC \<longleftrightarrow>
     (ds_Password session \<noteq> [] \<and> ds_ShareType session \<noteq> ''immich'' \<longrightarrow>
        hexDecode receivedHMAC = Some (de_hmac E (ds_Password session) nonce))"

definition handleJoin_verify ::
  "denv \<Rightarrow> turn_in \<Rightarrow> string \<Rightarrow> string \<Rightarrow> string \<Rightarrow> nat \<Rightarrow> nonceEntry option \<Rightarrow> Daemon \<Rightarrow> turn_out" where
  "handleJoin_verify E inp connID sessionCode receivedHMAC s found d =
     (case found of
        None \<Rightarrow> auth_failed connID [] d
      | Some entry \<Rightarrow>
          let session = dm_heap d s in
          if in_now inp > ne_expiresAt entry then auth_failed connID [] d
          else if ds_ShareType session = ''immich'' \<and> ds_IsPasswordProtected session then
            auth_failed connID [(''code'', JStr sessionCode)] d
          else if \<not> hmac_accepted E session (ne_nonce entry) receivedHMAC then auth_failed connID [] d
          else
            let d1 = d_log (LAuth connID sessionCode s (ne_nonce entry) receivedHMAC (in_now inp))
                       (d_send (auth_message ''auth_ok'' connID sessionCode) d)
            in if ds_RelayOnly session then d_done d1 else (d1, [], [[WPeer connID sessionCode]]))"

definition handlePasswordSubmit :: "string \<Rightarrow> string \<Rightarrow> string \<Rightarrow> Daemon \<Rightarrow> turn_out" where
  "handlePasswordSubmit connID sessionCode password d =
     (case d_session sessionCode d of
        None \<Rightarrow> d_done (d_send (auth_message ''auth_fail'' connID sessionCode) d)
      | Some s \<Rightarrow>
          if ds_ShareType (dm_heap d s) \<noteq> ''immich'' \<or> ds_immichClient (dm_heap d s) = None then
            d_done (d_send (auth_message ''auth_fail'' connID sessionCode) d)
          else d_next [WPasswordCheck connID sessionCode password s] d)"

definition handlePasswordSubmit_check :: "turn_in \<Rightarrow> string \<Rightarrow> string \<Rightarrow> Daemon \<Rightarrow> turn_out" where
  "handlePasswordSubmit_check inp connID sessionCode d =
     d_done (d_send (auth_message (if in_valid inp = Inr True then ''auth_ok'' else ''auth_fail'') connID sessionCode) d)"

section \<open>Direct peers\<close>

definition directPeerCurrent :: "nat \<Rightarrow> Daemon \<Rightarrow> bool" where
  "directPeerCurrent p d \<longleftrightarrow>
     (let s = rs_session (dm_res d p) in
      d_session (ds_Code (dm_heap d s)) d = Some s \<and> \<not> ds_closing (dm_heap d s)
      \<and> map_of (ds_peers (dm_heap d s)) (rs_key (dm_res d p)) = Some p)"

definition defaultICE :: "sig_ICEServer list" where
  "defaultICE = [\<lparr>ice_URLs = [''stun:stun.cloudflare.com:3478''], ice_Username = [], ice_Credential = []\<rparr>]"

definition createPeer :: "turn_in \<Rightarrow> string \<Rightarrow> string \<Rightarrow> Daemon \<Rightarrow> turn_out" where
  "createPeer inp connID sessionCode d =
     (case d_session sessionCode d of
        None \<Rightarrow> d_done d
      | Some s \<Rightarrow>
          if in_err inp \<noteq> None then d_done d
          else d_next [WPeerRegister sessionCode (dm_nextRes d)]
            (d_log (LPeer connID sessionCode (dm_nextRes d))
              (new_resource \<lparr>rs_kind = PeerRes, rs_session = s, rs_key = connID,
                 rs_ice = (if in_ice inp = [] then defaultICE else in_ice inp),
                 rs_relayOnly = ds_RelayOnly (dm_heap d s), rs_jwt = []\<rparr> d)))"

definition drop_peer :: "string \<Rightarrow> nat \<Rightarrow> Session \<Rightarrow> Session" where
  "drop_peer connID p session =
     (if map_of (ds_peers session) connID = Some p then session\<lparr>ds_peers := AList.delete connID (ds_peers session)\<rparr> else session)"

definition put_peer :: "string \<Rightarrow> nat \<Rightarrow> Session \<Rightarrow> Session" where
  "put_peer connID p session = session\<lparr>ds_peers := AList.update connID p (ds_peers session)\<rparr>"

definition close_old :: "nat option \<Rightarrow> nat \<Rightarrow> work list" where
  "close_old old new = (case old of None \<Rightarrow> [] | Some r \<Rightarrow> if r \<noteq> new then [WClose r] else [])"

definition createPeer_register :: "string \<Rightarrow> nat \<Rightarrow> Daemon \<Rightarrow> turn_out" where
  "createPeer_register sessionCode p d =
     (let s = rs_session (dm_res d p); connID = rs_key (dm_res d p) in
      if d_session sessionCode d \<noteq> Some s \<or> ds_closing (dm_heap d s) then d_next [WClose p] d
      else d_next (close_old (map_of (ds_peers (dm_heap d s)) connID) p @ [WPeerOffer sessionCode p])
             (upd_session s (put_peer connID p) d))"

definition createPeer_offer :: "turn_in \<Rightarrow> string \<Rightarrow> nat \<Rightarrow> Daemon \<Rightarrow> turn_out" where
  "createPeer_offer inp sessionCode p d =
     (case in_offer inp of
        Inl _ \<Rightarrow> d_next [WPeerDrop p, WClose p] d
      | Inr sdp \<Rightarrow> d_next [WPeerSend sessionCode p sdp] d)"

definition createPeer_drop :: "nat \<Rightarrow> Daemon \<Rightarrow> turn_out" where
  "createPeer_drop p d = d_done (upd_session (rs_session (dm_res d p)) (drop_peer (rs_key (dm_res d p)) p) d)"

definition createPeer_send :: "string \<Rightarrow> nat \<Rightarrow> string \<Rightarrow> Daemon \<Rightarrow> turn_out" where
  "createPeer_send sessionCode p sdp d =
     (if \<not> directPeerCurrent p d then d_next [WClose p] d
      else d_done (d_send (dmsg ''offer'' [(''session_id'', JStr sessionCode), (''peer_id'', JStr (rs_key (dm_res d p))),
             (''sdp'', JStr sdp)]) d))"

definition local_candidate :: "nat \<Rightarrow> json \<Rightarrow> Daemon \<Rightarrow> turn_out" where
  "local_candidate p init d =
     (if \<not> directPeerCurrent p d then d_done d
      else d_done (d_send (dmsg ''ice_candidate'' [(''session_id'', JStr (ds_Code (dm_heap d (rs_session (dm_res d p))))),
             (''peer_id'', JStr (rs_key (dm_res d p))), (''candidate'', init)]) d))"

text \<open>
  \<^verbatim>\<open>handleAnswer\<close> and \<^verbatim>\<open>handleICECandidate\<close> find the first session that has the peer, and then look the peer up in it. A candidate that does not
  parse is \<open>SigCandidate None\<close>.
\<close>

definition find_peer_session :: "string \<Rightarrow> Daemon \<Rightarrow> nat option" where
  "find_peer_session peerID d =
     map_option snd (find (\<lambda>(code, s). map_of (ds_peers (dm_heap d s)) peerID \<noteq> None) (dm_sessions d))"

definition handleSignal :: "string \<Rightarrow> peer_signal \<Rightarrow> Daemon \<Rightarrow> turn_out" where
  "handleSignal peerID sig d =
     (case find_peer_session peerID d of None \<Rightarrow> d_done d | Some s \<Rightarrow> d_next [WSignalPeer peerID s sig] d)"

definition handleSignal_peer :: "string \<Rightarrow> nat \<Rightarrow> peer_signal \<Rightarrow> Daemon \<Rightarrow> turn_out" where
  "handleSignal_peer peerID s sig d =
     (case map_of (ds_peers (dm_heap d s)) peerID of
        None \<Rightarrow> d_done d
      | Some p \<Rightarrow>
          if sig = SigCandidate None then d_done d
          else d_done (d\<lparr>dm_applied := dm_applied d @ [(p, sig)]\<rparr>))"

end
