(* ===== verification/Daemon_Shares.thy ===== *)
theory Daemon_Shares
  imports Daemon_State
begin

text \<open>
  The rest of \<^verbatim>\<open>daemon.go\<close>: relay channels, activation of transfers, closing and removing sessions, and how sessions come to be (created by the
  user, loaded from the store, mirrored from the gallery server); then the dispatch of turns and their interleaving, \<open>daemon_step\<close>.
\<close>

section \<open>Relay channels\<close>

definition relayChannelCurrent :: "nat \<Rightarrow> Daemon \<Rightarrow> bool" where
  "relayChannelCurrent ch d \<longleftrightarrow>
     (let s = rs_session (dm_res d ch) in
      d_session (ds_Code (dm_heap d s)) d = Some s \<and> \<not> ds_closing (dm_heap d s)
      \<and> map_of (ds_relayChannels (dm_heap d s)) (rs_key (dm_res d ch)) = Some ch)"

definition drop_relay :: "string \<Rightarrow> nat \<Rightarrow> Session \<Rightarrow> Session" where
  "drop_relay sid ch session =
     (if map_of (ds_relayChannels session) sid = Some ch
      then session\<lparr>ds_relayChannels := AList.delete sid (ds_relayChannels session)\<rparr> else session)"

definition put_relay :: "string \<Rightarrow> nat \<Rightarrow> Session \<Rightarrow> Session" where
  "put_relay sid ch session = session\<lparr>ds_relayChannels := AList.update sid ch (ds_relayChannels session)\<rparr>"

definition removeRelayChannelIfCurrent :: "nat \<Rightarrow> Daemon \<Rightarrow> Daemon" where
  "removeRelayChannelIfCurrent ch d = upd_session (rs_session (dm_res d ch)) (drop_relay (rs_key (dm_res d ch)) ch) d"

definition d_relayKey :: "denv \<Rightarrow> turn_in \<Rightarrow> Daemon \<Rightarrow> bytes result \<times> Daemon" where
  "d_relayKey E inp d =
     (let (res, s, fs) = GetRelayStaticPrivateKey (de_time E) (in_fault inp) (in_key inp) (dm_store d) (dm_files d)
      in (res, d\<lparr>dm_store := s, dm_files := fs\<rparr>))"

definition handleRelayPrepare :: "string \<Rightarrow> string \<Rightarrow> string \<Rightarrow> Daemon \<Rightarrow> turn_out" where
  "handleRelayPrepare code sid jwt d =
     (case d_session code d of None \<Rightarrow> d_done d | Some s \<Rightarrow> d_next [WRelayNew code sid jwt s] d)"

text \<open>The key must be a P-256 key; \<open>in_err\<close> is what creating the channel returns.\<close>

definition handleRelayPrepare_new :: "denv \<Rightarrow> turn_in \<Rightarrow> string \<Rightarrow> string \<Rightarrow> string \<Rightarrow> nat \<Rightarrow> Daemon \<Rightarrow> turn_out" where
  "handleRelayPrepare_new E inp code sid jwt s d =
     (case d_relayKey E inp d of
        (Inl _, d1) \<Rightarrow> d_done d1
      | (Inr rawPriv, d1) \<Rightarrow>
          case de_pub E rawPriv of
            Inl _ \<Rightarrow> d_done d1
          | Inr _ \<Rightarrow>
              if in_err inp \<noteq> None then d_done d1
              else d_next [WRelayRegister code (dm_nextRes d1)]
                (new_resource \<lparr>rs_kind = RelayRes, rs_session = s, rs_key = sid, rs_ice = [], rs_relayOnly = False, rs_jwt = jwt\<rparr> d1))"

definition handleRelayPrepare_register :: "string \<Rightarrow> nat \<Rightarrow> Daemon \<Rightarrow> turn_out" where
  "handleRelayPrepare_register code ch d =
     (let s = rs_session (dm_res d ch); sid = rs_key (dm_res d ch) in
      if d_session code d \<noteq> Some s \<or> ds_closing (dm_heap d s) then d_next [WClose ch] d
      else d_next (close_old (map_of (ds_relayChannels (dm_heap d s)) sid) ch @ [WRelayStart ch])
             (upd_session s (put_relay sid ch) d))"

text \<open>
  A channel that fails to start closes itself. One that starts is connected, even if it was closed before its connection existed.
\<close>

definition handleRelayPrepare_start :: "turn_in \<Rightarrow> nat \<Rightarrow> Daemon \<Rightarrow> turn_out" where
  "handleRelayPrepare_start inp ch d =
     (if in_err inp \<noteq> None then
        (let (d1, ws, gs) = close_resource ch d in (removeRelayChannelIfCurrent ch d1, ws, gs))
      else d_next [WRelayCheck ch] (d\<lparr>dm_closed := dm_closed d - {ch}\<rparr>))"

definition handleRelayPrepare_check :: "nat \<Rightarrow> Daemon \<Rightarrow> turn_out" where
  "handleRelayPrepare_check ch d = (if relayChannelCurrent ch d then d_done d else d_next [WClose ch] d)"

text \<open>The callback of \<^verbatim>\<open>SetOnClose\<close>.\<close>

definition resource_closed :: "nat \<Rightarrow> Daemon \<Rightarrow> turn_out" where
  "resource_closed r d =
     (case rs_kind (dm_res d r) of
        PeerRes \<Rightarrow> createPeer_drop r d
      | RelayRes \<Rightarrow> d_done (removeRelayChannelIfCurrent r d))"

section \<open>Transfers\<close>

definition resource_current :: "nat \<Rightarrow> Daemon \<Rightarrow> bool" where
  "resource_current r d \<longleftrightarrow>
     (case rs_kind (dm_res d r) of PeerRes \<Rightarrow> directPeerCurrent r d | RelayRes \<Rightarrow> relayChannelCurrent r d)"

text \<open>The open callbacks of \<^verbatim>\<open>wireDirectTransferSession\<close> and \<^verbatim>\<open>wireRelayTransferSession\<close>; \<open>dm_activated\<close> is \<^verbatim>\<open>activateOnce\<close>.\<close>

definition wireTransferSession :: "nat \<Rightarrow> Daemon \<Rightarrow> turn_out" where
  "wireTransferSession r d =
     (if r \<in> dm_activated d then d_done d
      else let d1 = d\<lparr>dm_activated := insert r (dm_activated d)\<rparr> in
        if resource_current r d then d_next [WActivate r] d1 else d_done d1)"

text \<open>\<open>in_gallery\<close>: the gallery client also implements album downloads.\<close>

definition activateTransferSession :: "turn_in \<Rightarrow> nat \<Rightarrow> Daemon \<Rightarrow> turn_out" where
  "activateTransferSession inp r d =
     (let session = dm_heap d (rs_session (dm_res d r)); limit = sint (ds_MaxDownloads session);
          start = (\<lambda>tm. d_done (d\<lparr>dm_managers := (dm_managers d)(r \<mapsto> SetDownloadCount (sint (ds_Downloads session)) tm)\<rparr>))
      in if ds_ShareType session = ''immich'' then
           (if ds_immichClient session = None then d_next [WClose r] d
            else start (NewGalleryManager True (in_gallery inp) limit))
         else start (NewManager (ds_webdavClient session \<noteq> None) limit))"

definition OnSessionExpired :: "nat \<Rightarrow> Daemon \<Rightarrow> turn_out" where
  "OnSessionExpired r d =
     (let res = dm_res d r in
      d_done (d_send (dmsg ''session_expired'' ([(''session_id'', JStr (ds_Code (dm_heap d (rs_session res))))]
        @ (if rs_kind res = PeerRes \<and> rs_key res \<noteq> [] then [(''peer_id'', JStr (rs_key res))] else []))) d))"

definition download_message :: "string \<Rightarrow> int \<Rightarrow> json" where
  "download_message code n = dmsg ''download_complete'' [(''code'', JStr code), (''bytes_transferred'', JInt n)]"

definition OnDownloadComplete :: "nat \<Rightarrow> int \<Rightarrow> Daemon \<Rightarrow> turn_out" where
  "OnDownloadComplete r bytesTransferred d =
     (let s = rs_session (dm_res d r); code = ds_Code (dm_heap d s) in
      d_next [WStoreIncrement code, WSend (download_message code bytesTransferred)]
        (upd_session s (\<lambda>x. x\<lparr>ds_Downloads := ds_Downloads x + 1\<rparr>) d))"

definition store_increment :: "denv \<Rightarrow> turn_in \<Rightarrow> string \<Rightarrow> Daemon \<Rightarrow> turn_out" where
  "store_increment E inp code d =
     (let (_, s, fs) = IncrementDownloads (de_time E) (in_fault inp) code (dm_store d) (dm_files d)
      in d_done (d\<lparr>dm_store := s, dm_files := fs\<rparr>))"

section \<open>Closing and removing sessions\<close>

definition closeSessionResourcesWithError :: "nat \<Rightarrow> string \<Rightarrow> Daemon \<Rightarrow> turn_out" where
  "closeSessionResourcesWithError s message d =
     (let peers = map snd (ds_peers (dm_heap d s)); relays = map snd (ds_relayChannels (dm_heap d s)) in
      d_next ((if message \<noteq> [] then map (\<lambda>r. WNotify r message) relays else []) @ map WClose peers @ map WClose relays)
        (upd_session s (\<lambda>x. x\<lparr>ds_closing := True, ds_peers := [], ds_relayChannels := []\<rparr>) d))"

definition store_delete :: "denv \<Rightarrow> turn_in \<Rightarrow> string \<Rightarrow> Daemon \<Rightarrow> goerr option \<times> Daemon" where
  "store_delete E inp code d =
     (let (err, s, fs) = DeleteSession (de_time E) (in_fault inp) code (dm_store d) (dm_files d)
      in (err, d\<lparr>dm_store := s, dm_files := fs\<rparr>))"

definition deregister_message :: "string \<Rightarrow> json" where
  "deregister_message code = dmsg ''deregister'' [(''code'', JStr code)]"

definition RevokeSession :: "string \<Rightarrow> Daemon \<Rightarrow> turn_out" where
  "RevokeSession code d =
     (case d_session code d of
        None \<Rightarrow> d_next [WReturn (Inl (Errorf (''session '' @ code @ '' not found'') []))] d
      | Some s \<Rightarrow>
          d_next [WTeardown s [], WStoreDelete code, WSend (deregister_message code)]
            (d\<lparr>dm_sessions := AList.delete code (dm_sessions d)\<rparr>))"

definition is_expired :: "int \<Rightarrow> Daemon \<Rightarrow> nat \<Rightarrow> bool" where
  "is_expired now d s \<longleftrightarrow> ds_ExpiresAt (dm_heap d s) \<noteq> 0 \<and> ds_ExpiresAt (dm_heap d s) < now"

definition pruneExpiredSessions :: "turn_in \<Rightarrow> Daemon \<Rightarrow> turn_out" where
  "pruneExpiredSessions inp d =
     (let expired = filter (\<lambda>(code, s). is_expired (in_now inp) d s) (dm_sessions d) in
      d_next (concat (map (\<lambda>(code, s). [WTeardown s [], WStoreDelete code, WSend (deregister_message code)]) expired))
        (d\<lparr>dm_sessions := filter (\<lambda>(code, s). \<not> is_expired (in_now inp) d s) (dm_sessions d)\<rparr>))"

definition daemon_Stop :: "Daemon \<Rightarrow> turn_out" where
  "daemon_Stop d = d_next (map (\<lambda>(code, s). WTeardown s []) (dm_sessions d)) d"

section \<open>Adding sessions\<close>

definition add_session :: "Session \<Rightarrow> Daemon \<Rightarrow> Daemon" where
  "add_session session d = d\<lparr>dm_heap := (dm_heap d)(dm_nextSession d := session),
     dm_sessions := AList.update (ds_Code session) (dm_nextSession d) (dm_sessions d), dm_nextSession := Suc (dm_nextSession d)\<rparr>"

definition store_put :: "denv \<Rightarrow> turn_in \<Rightarrow> SessionEntry \<Rightarrow> Daemon \<Rightarrow> goerr option \<times> Daemon" where
  "store_put E inp entry d =
     (let (err, s, fs) = SaveSession (de_time E) (in_fault inp) entry (dm_store d) (dm_files d)
      in (err, d\<lparr>dm_store := s, dm_files := fs\<rparr>))"

definition RelayStaticPubHex :: "denv \<Rightarrow> bytes \<Rightarrow> string result" where
  "RelayStaticPubHex E rawPrivateKey =
     (case de_pub E rawPrivateKey of
        Inl err \<Rightarrow> Inl (ErrWrap ''import relay static key'' [] err)
      | Inr pub \<Rightarrow> Inr (hexEncode pub))"

definition relayStaticPubHex :: "denv \<Rightarrow> turn_in \<Rightarrow> Daemon \<Rightarrow> string result \<times> Daemon" where
  "relayStaticPubHex E inp d =
     (case d_relayKey E inp d of
        (Inl err, d1) \<Rightarrow> (Inl (ErrWrap ''get relay static key'' [] err), d1)
      | (Inr priv, d1) \<Rightarrow>
          (case RelayStaticPubHex E priv of
             Inl err \<Rightarrow> (Inl (ErrWrap ''derive relay static public key'' [] err), d1)
           | Inr pub \<Rightarrow> (Inr pub, d1)))"

definition entry_of :: "Session \<Rightarrow> SessionEntry" where
  "entry_of x = \<lparr>en_Code = ds_Code x, en_ShareURL = ds_ShareURL x, en_ShareType = ds_ShareType x,
     en_IsPasswordProtected = ds_IsPasswordProtected x, en_FileID = ds_FileID x, en_Password = ds_Password x,
     en_ExpiresAt = ds_ExpiresAt x, en_MaxDownloads = ds_MaxDownloads x, en_Downloads = ds_Downloads x,
     en_RelayOnly = ds_RelayOnly x, en_CreatedAt = ds_CreatedAt x\<rparr>"

definition blankSession :: Session where
  "blankSession = \<lparr>ds_Code = [], ds_ShareURL = [], ds_ShareType = [], ds_FileID = [], ds_Password = [], ds_ExpiresAt = 0,
     ds_MaxDownloads = 0, ds_Downloads = 0, ds_RelayOnly = False, ds_CreatedAt = 0, ds_IsPasswordProtected = False,
     ds_immichClient = None, ds_webdavClient = None, ds_peers = [], ds_relayChannels = [], ds_closing = False\<rparr>"

text \<open>
  \<^verbatim>\<open>CreateSession\<close> of a cloud share: \<open>in_client\<close> is the WebDAV client or why its parameters are refused. The share is registered and the new session
  is added and saved in turns of their own.
\<close>

definition CreateSession ::
  "denv \<Rightarrow> turn_in \<Rightarrow> string \<Rightarrow> string \<Rightarrow> string \<Rightarrow> int \<Rightarrow> 64 word \<Rightarrow> bool \<Rightarrow> Daemon \<Rightarrow> turn_out" where
  "CreateSession E inp shareURL shareType password expiryDuration limit relayOnly d =
     (if shareType = ''immich'' then d_next [WManual shareURL] d
      else
        case in_client inp of
          Inl err \<Rightarrow>
            d_next [WReturn (Inl (ErrWrap (if dc_AllowedHost (dm_config d) \<noteq> [] \<or> dc_NCAllowedHost (dm_config d) \<noteq> []
              then ''validate share URL'' else ''create WebDAV client'') [] err))] d
        | Inr client \<Rightarrow>
            let fileID = (case in_fileID inp of Inl _ \<Rightarrow> [] | Inr i \<Rightarrow> i) in
            case relayStaticPubHex E inp d of
              (Inl err, d1) \<Rightarrow> d_next [WReturn (Inl err)] d1
            | (Inr pub, d1) \<Rightarrow>
                let d2 = d_register (RegisterShare_options shareURL [] relayOnly pub) d1 in
                (case in_reg inp of
                   Inl err \<Rightarrow> d_next [WReturn (Inl (ErrWrap ''register share'' [] err))] d2
                 | Inr (code, _) \<Rightarrow>
                     d_next [WCreateAdd (blankSession\<lparr>ds_Code := code, ds_ShareURL := shareURL, ds_ShareType := shareType,
                       ds_FileID := fileID, ds_Password := password, ds_ExpiresAt := in_now inp + expiryDuration,
                       ds_MaxDownloads := limit, ds_RelayOnly := relayOnly, ds_CreatedAt := in_now inp,
                       ds_webdavClient := Some client\<rparr>)] d2))"

definition CreateSession_add :: "Session \<Rightarrow> Daemon \<Rightarrow> turn_out" where
  "CreateSession_add session d =
     d_next [WStoreSave (entry_of session), WReturn (Inr (ds_Code session))] (add_session session d)"

section \<open>Gallery shares\<close>

definition unregister_message :: "string \<Rightarrow> json" where
  "unregister_message code = dmsg ''unregister_share'' [(''code'', JStr code)]"

text \<open>Whether the message was sent is \<open>in_err\<close>.\<close>

definition unregisterShare :: "turn_in \<Rightarrow> string \<Rightarrow> Daemon \<Rightarrow> goerr option \<times> Daemon" where
  "unregisterShare inp code d =
     (case in_err inp of Some err \<Rightarrow> (Some err, d) | None \<Rightarrow> (None, d_send (unregister_message code) d))"

definition immich_options :: "string \<Rightarrow> string \<Rightarrow> bool \<Rightarrow> bool \<Rightarrow> string \<Rightarrow> RegisterShareOptions" where
  "immich_options shareURL code protected relayOnly pub = \<lparr>ro_ShareURL = shareURL, ro_PreferredCode = code,
     ro_ShareType = ''immich'', ro_IsPasswordProtected = protected, ro_RelayOnly = relayOnly, ro_RelayStaticPub = pub\<rparr>"

definition registerImmichShare :: "denv \<Rightarrow> turn_in \<Rightarrow> SharedLink \<Rightarrow> string \<Rightarrow> Daemon \<Rightarrow> Session result \<times> Daemon" where
  "registerImmichShare E inp link relayStaticPub d0 =
     (let d = d_register (immich_options (''immich://'' @ sl_Key link) (sl_Key link) (sl_Password link \<noteq> [])
                (dc_DefaultRelayOnly (dm_config d0)) relayStaticPub) d0 in
      case in_reg inp of
        Inl err \<Rightarrow> (Inl err, d)
      | Inr (code, _) \<Rightarrow>
          case in_client inp of
            Inl err \<Rightarrow> (Inl err, snd (unregisterShare inp code d))
          | Inr client \<Rightarrow>
              let session = blankSession\<lparr>ds_Code := code, ds_ShareURL := ''immich://'' @ sl_Key link, ds_ShareType := ''immich'',
                    ds_IsPasswordProtected := sl_Password link \<noteq> [], ds_RelayOnly := dc_DefaultRelayOnly (dm_config d),
                    ds_CreatedAt := in_now inp, ds_immichClient := Some client\<rparr>
              in case store_put E inp (entry_of session) d of
                   (Some err, d1) \<Rightarrow> (Inl err, snd (unregisterShare inp code d1))
                 | (None, d1) \<Rightarrow> (Inr session, d1))"

definition createManualImmichSession :: "string \<Rightarrow> Daemon \<Rightarrow> turn_out" where
  "createManualImmichSession shareURL d =
     (if \<not> has_prefix ''immich://'' shareURL \<or> drop 9 shareURL = [] then
        d_next [WReturn (Inl (Errorf ''share_url must be immich://KEY for manual Immich shares'' []))] d
      else
        let key = drop 9 shareURL in
        case d_session key d of
          Some s \<Rightarrow> if ds_ShareType (dm_heap d s) = ''immich'' then d_next [WReturn (Inr (ds_Code (dm_heap d s)))] d
                    else d_next [WManualPoll key] d
        | None \<Rightarrow> d_next [WManualPoll key] d)"

definition createManualImmichSession_poll :: "denv \<Rightarrow> turn_in \<Rightarrow> string \<Rightarrow> Daemon \<Rightarrow> turn_out" where
  "createManualImmichSession_poll E inp key d =
     (case in_links inp of
        Inl err \<Rightarrow> d_next [WReturn (Inl err)] d
      | Inr links \<Rightarrow>
          case find (\<lambda>l. sl_Key l = key) links of
            None \<Rightarrow> d_next [WReturn (Inl (Errorf (''immich share '' @ key @ '' not found'') []))] d
          | Some link \<Rightarrow>
              case relayStaticPubHex E inp d of
                (Inl err, d1) \<Rightarrow> d_next [WReturn (Inl err)] d1
              | (Inr pub, d1) \<Rightarrow>
                  (case registerImmichShare E inp link pub d1 of
                     (Inl err, d2) \<Rightarrow> d_next [WReturn (Inl err)] d2
                   | (Inr session, d2) \<Rightarrow> d_next [WManualAdd session] d2))"

definition createManualImmichSession_add :: "Session \<Rightarrow> Daemon \<Rightarrow> turn_out" where
  "createManualImmichSession_add session d = d_next [WReturn (Inr (ds_Code session))] (add_session session d)"

definition is_album :: "SharedLink \<Rightarrow> bool" where
  "is_album link \<longleftrightarrow> map lower_char (sl_Type link) = ''album''"

definition syncImmichShares :: "denv \<Rightarrow> turn_in \<Rightarrow> Daemon \<Rightarrow> turn_out" where
  "syncImmichShares E inp d =
     (case in_links inp of
        Inl _ \<Rightarrow> d_done d
      | Inr links \<Rightarrow>
          case relayStaticPubHex E inp d of
            (Inl _, d1) \<Rightarrow> d_done d1
          | (Inr pub, d1) \<Rightarrow> d_next [WSyncLinks links [] pub] d1)"

definition sync_links :: "SharedLink list \<Rightarrow> string list \<Rightarrow> string \<Rightarrow> Daemon \<Rightarrow> turn_out" where
  "sync_links links seen pub d =
     (case links of
        [] \<Rightarrow> d_next [WSyncScan seen] d
      | link # rest \<Rightarrow>
          if sl_Key link = [] \<or> \<not> is_album link then d_next [WSyncLinks rest seen pub] d
          else if d_session (sl_Key link) d \<noteq> None then d_next [WSyncLinks rest (sl_Key link # seen) pub] d
          else d_next [WSyncRegister link rest (sl_Key link # seen) pub] d)"

definition sync_register :: "denv \<Rightarrow> turn_in \<Rightarrow> SharedLink \<Rightarrow> SharedLink list \<Rightarrow> string list \<Rightarrow> string \<Rightarrow> Daemon \<Rightarrow> turn_out" where
  "sync_register E inp link rest seen pub d =
     (case registerImmichShare E inp link pub d of
        (Inl _, d1) \<Rightarrow> d_done d1
      | (Inr session, d1) \<Rightarrow> d_next [WSyncAdd session rest seen pub] d1)"

definition sync_add :: "Session \<Rightarrow> SharedLink list \<Rightarrow> string list \<Rightarrow> string \<Rightarrow> Daemon \<Rightarrow> turn_out" where
  "sync_add session rest seen pub d = d_next [WSyncLinks rest seen pub] (add_session session d)"

definition sync_scan :: "string list \<Rightarrow> Daemon \<Rightarrow> turn_out" where
  "sync_scan seen d =
     d_next [WSyncRemove (map snd (filter (\<lambda>(code, s). ds_ShareType (dm_heap d s) = ''immich'' \<and> code \<notin> set seen) (dm_sessions d)))] d"

definition sync_remove :: "nat list \<Rightarrow> Daemon \<Rightarrow> turn_out" where
  "sync_remove removed d =
     (case removed of
        [] \<Rightarrow> d_done d
      | s # rest \<Rightarrow> d_next [WTeardown s ''share has been removed'', WSyncUnregister s rest] d)"

definition sync_unregister :: "turn_in \<Rightarrow> nat \<Rightarrow> nat list \<Rightarrow> Daemon \<Rightarrow> turn_out" where
  "sync_unregister inp s rest d =
     (case unregisterShare inp (ds_Code (dm_heap d s)) d of
        (Some _, d1) \<Rightarrow> d_done d1
      | (None, d1) \<Rightarrow> d_next [WSyncDelete s rest] d1)"

definition sync_delete :: "denv \<Rightarrow> turn_in \<Rightarrow> nat \<Rightarrow> nat list \<Rightarrow> Daemon \<Rightarrow> turn_out" where
  "sync_delete E inp s rest d =
     (case store_delete E inp (ds_Code (dm_heap d s)) d of
        (Some _, d1) \<Rightarrow> d_done d1
      | (None, d1) \<Rightarrow> d_next [WSyncUnlink s rest] d1)"

definition sync_unlink :: "nat \<Rightarrow> nat list \<Rightarrow> Daemon \<Rightarrow> turn_out" where
  "sync_unlink s rest d =
     (let code = ds_Code (dm_heap d s) in
      d_next [WSyncRemove rest]
        (if d_session code d = Some s then d\<lparr>dm_sessions := AList.delete code (dm_sessions d)\<rparr> else d))"

section \<open>Loading sessions\<close>

definition loadSessionsFromStore :: "denv \<Rightarrow> turn_in \<Rightarrow> Daemon \<Rightarrow> turn_out" where
  "loadSessionsFromStore E inp d =
     (let entries = ListSessions True (in_now inp) (dm_store d) in
      case d_relayKey E inp d of
        (Inl _, d1) \<Rightarrow> d_next [WLoadEntries entries []] d1
      | (Inr priv, d1) \<Rightarrow>
          d_next [WLoadEntries entries (case RelayStaticPubHex E priv of Inl _ \<Rightarrow> [] | Inr pub \<Rightarrow> pub)] d1)"

definition loaded_session :: "string \<Rightarrow> nat \<Rightarrow> SessionEntry \<Rightarrow> Session" where
  "loaded_session code client e =
     (let x = blankSession\<lparr>ds_Code := code, ds_ShareURL := en_ShareURL e, ds_ShareType := en_ShareType e,
                ds_ExpiresAt := en_ExpiresAt e, ds_MaxDownloads := en_MaxDownloads e, ds_Downloads := en_Downloads e,
                ds_RelayOnly := en_RelayOnly e, ds_CreatedAt := en_CreatedAt e\<rparr>
      in if en_ShareType e = ''immich'' then x\<lparr>ds_IsPasswordProtected := en_IsPasswordProtected e, ds_immichClient := Some client\<rparr>
         else x\<lparr>ds_FileID := en_FileID e, ds_Password := en_Password e, ds_webdavClient := Some client\<rparr>)"

definition load_entries :: "turn_in \<Rightarrow> SessionEntry list \<Rightarrow> string \<Rightarrow> Daemon \<Rightarrow> turn_out" where
  "load_entries inp entries pub d =
     (case entries of
        [] \<Rightarrow> d_done d
      | e # rest \<Rightarrow>
          if en_ShareType e = [] then d_next [WLoadEntries rest pub] d
          else (case in_client inp of
                  Inl _ \<Rightarrow> d_next [WLoadEntries rest pub] d
                | Inr client \<Rightarrow>
                    let d1 = d_register (if en_ShareType e = ''immich''
                               then immich_options (en_ShareURL e) (en_Code e) (en_IsPasswordProtected e) (en_RelayOnly e) pub
                               else RegisterShare_options (en_ShareURL e) (en_Code e) (en_RelayOnly e) pub) d
                    in (case in_reg inp of
                          Inl _ \<Rightarrow> d_next [WLoadEntries rest pub] d1
                        | Inr (code, _) \<Rightarrow> d_next [WLoadAdd (loaded_session code client e) rest pub] d1)))"

definition load_add :: "Session \<Rightarrow> SessionEntry list \<Rightarrow> string \<Rightarrow> Daemon \<Rightarrow> turn_out" where
  "load_add session rest pub d = d_next [WLoadEntries rest pub] (add_session session d)"

end
