(* ===== verification/Goroutines.thy ===== *)
theory Goroutines
  imports Main "HOL-Library.Multiset"
begin

text \<open>
  Goroutines as lists of the turns they still have to make. An invariant of an interleaving speaks of the multiset of all turns that are due:
  a turn is taken out of it, and the turns that follow it, in its place or in new goroutines, are put in.
\<close>

definition items :: "'w list list \<Rightarrow> 'w multiset" where
  "items gs = mset (concat gs)"

lemma items_turn:
  assumes "i < length gs" "gs ! i = w # ws"
  obtains M where "items gs = add_mset w M"
    "items (gs[i := next @ ws] @ new) = mset next + mset (concat new) + M"
proof -
  have gs: "gs = take i gs @ (w # ws) # drop (Suc i) gs" using assms by (metis id_take_nth_drop)
  then have "gs[i := next @ ws] = take i gs @ (next @ ws) # drop (Suc i) gs"
    using assms(1) by (metis upd_conv_take_nth_drop)
  moreover have "items gs = add_mset w (mset (concat (take i gs)) + mset ws + mset (concat (drop (Suc i) gs)))"
    by (subst gs) (simp add: items_def)
  ultimately show ?thesis by (intro that) (auto simp: items_def)
qed

lemma items_append [simp]: "items (gs @ gs') = items gs + items gs'"
  by (simp add: items_def)

lemma items_single: "items [ws] = mset ws" "items [] = {#}"
  by (simp_all add: items_def)

lemma set_items: "set_mset (items gs) = set (concat gs)"
  by (simp add: items_def)

end
