(* ===== verification/Daemon_System.thy ===== *)
theory Daemon_System
  imports Daemon_Shares Goroutines
begin

text \<open>
  The daemon as a whole: signaling messages and the calls of the web interface start goroutines, and \<open>daemon_step\<close> lets any goroutine
  make its next turn. \<^verbatim>\<open>handleAnswer\<close> and \<^verbatim>\<open>handleICECandidate\<close>, which the source runs in the listener, are goroutines here too, which
  only adds interleavings.
\<close>

section \<open>Dispatch\<close>

definition hasTURNServer :: "sig_ICEServer list \<Rightarrow> bool" where
  "hasTURNServer servers \<longleftrightarrow>
     list_ex (\<lambda>server. list_ex (\<lambda>url. has_prefix ''turn:'' url \<or> has_prefix ''turns:'' url) (ice_URLs server)) servers"

definition parse_candidate :: "json \<Rightarrow> json option" where
  "parse_candidate j = (case j of JObj _ \<Rightarrow> Some j | JNull \<Rightarrow> Some j | _ \<Rightarrow> None)"

definition handleSignalingMessage :: "turn_in \<Rightarrow> Message \<Rightarrow> Daemon \<Rightarrow> Daemon \<times> work list list" where
  "handleSignalingMessage inp msg d =
     (if sm_Type msg = ''welcome'' then (d\<lparr>dm_connected := True, dm_hasTURN := hasTURNServer (in_ice inp)\<rparr>, [])
      else if sm_Type msg = ''knock'' then (d, [[WKnock (sm_ConnID msg) (sm_Code msg)]])
      else if sm_Type msg = ''join'' then (d, [[WJoin (sm_ConnID msg) (sm_Code msg) (sm_HMAC msg)]])
      else if sm_Type msg = ''password_submit'' then (d, [[WPassword (sm_ConnID msg) (sm_Code msg) (sm_Password msg)]])
      else if sm_Type msg = ''answer'' then (d, [[WSignal (sm_PeerID msg) (SigAnswer (sm_SDP msg))]])
      else if sm_Type msg = ''ice_candidate'' then (d, [[WSignal (sm_PeerID msg) (SigCandidate (parse_candidate (sm_Candidate msg)))]])
      else if sm_Type msg = ''relay_prepare'' then (d, [[WRelay (sm_Code msg) (sm_SID msg) (sm_RelayJWT msg)]])
      else (d, []))"

fun daemon_turn :: "denv \<Rightarrow> turn_in \<Rightarrow> work \<Rightarrow> Daemon \<Rightarrow> turn_out" where
  "daemon_turn E inp (WKnock c k) d = handleKnock inp c k d"
| "daemon_turn E inp (WKnockStore c s n) d = handleKnock_store inp c s n d"
| "daemon_turn E inp (WKnockSend c s n) d = handleKnock_send c s n d"
| "daemon_turn E inp (WJoin c k h) d = handleJoin c k h d"
| "daemon_turn E inp (WJoinNonce c k h s) d = handleJoin_nonce c k h s d"
| "daemon_turn E inp (WJoinVerify c k h s e) d = handleJoin_verify E inp c k h s e d"
| "daemon_turn E inp (WPassword c k p) d = handlePasswordSubmit c k p d"
| "daemon_turn E inp (WPasswordCheck c k p s) d = handlePasswordSubmit_check inp c k d"
| "daemon_turn E inp (WPeer c k) d = createPeer inp c k d"
| "daemon_turn E inp (WPeerRegister k p) d = createPeer_register k p d"
| "daemon_turn E inp (WPeerOffer k p) d = createPeer_offer inp k p d"
| "daemon_turn E inp (WPeerSend k p sdp) d = createPeer_send k p sdp d"
| "daemon_turn E inp (WPeerDrop p) d = createPeer_drop p d"
| "daemon_turn E inp (WSignal i sig) d = handleSignal i sig d"
| "daemon_turn E inp (WSignalPeer i s sig) d = handleSignal_peer i s sig d"
| "daemon_turn E inp (WLocalCandidate p j) d = local_candidate p j d"
| "daemon_turn E inp (WRelay k sid jwt) d = handleRelayPrepare k sid jwt d"
| "daemon_turn E inp (WRelayNew k sid jwt s) d = handleRelayPrepare_new E inp k sid jwt s d"
| "daemon_turn E inp (WRelayRegister k ch) d = handleRelayPrepare_register k ch d"
| "daemon_turn E inp (WRelayStart ch) d = handleRelayPrepare_start inp ch d"
| "daemon_turn E inp (WRelayCheck ch) d = handleRelayPrepare_check ch d"
| "daemon_turn E inp (WClose r) d = close_resource r d"
| "daemon_turn E inp (WClosed r) d = resource_closed r d"
| "daemon_turn E inp (WOpen r) d = wireTransferSession r d"
| "daemon_turn E inp (WActivate r) d = activateTransferSession inp r d"
| "daemon_turn E inp (WExpired r) d = OnSessionExpired r d"
| "daemon_turn E inp (WDownload r n) d = OnDownloadComplete r n d"
| "daemon_turn E inp (WStoreIncrement k) d = store_increment E inp k d"
| "daemon_turn E inp (WTeardown s m) d = closeSessionResourcesWithError s m d"
| "daemon_turn E inp (WNotify r m) d = d_done (d\<lparr>dm_notices := dm_notices d @ [(r, m)]\<rparr>)"
| "daemon_turn E inp (WStoreDelete k) d = d_done (snd (store_delete E inp k d))"
| "daemon_turn E inp (WSend j) d = d_done (d_send j d)"
| "daemon_turn E inp (WRevoke k) d = RevokeSession k d"
| "daemon_turn E inp WPrune d = pruneExpiredSessions inp d"
| "daemon_turn E inp WStop d = daemon_Stop d"
| "daemon_turn E inp (WCreate u t p e m r) d = CreateSession E inp u t p e m r d"
| "daemon_turn E inp (WCreateAdd x) d = CreateSession_add x d"
| "daemon_turn E inp (WStoreSave e) d = d_done (snd (store_put E inp e d))"
| "daemon_turn E inp (WReturn res) d = d_done (d\<lparr>dm_returned := dm_returned d @ [res]\<rparr>)"
| "daemon_turn E inp (WManual u) d = createManualImmichSession u d"
| "daemon_turn E inp (WManualPoll k) d = createManualImmichSession_poll E inp k d"
| "daemon_turn E inp (WManualAdd x) d = createManualImmichSession_add x d"
| "daemon_turn E inp WLoad d = loadSessionsFromStore E inp d"
| "daemon_turn E inp (WLoadEntries es pub) d = load_entries inp es pub d"
| "daemon_turn E inp (WLoadAdd x es pub) d = load_add x es pub d"
| "daemon_turn E inp WSync d = syncImmichShares E inp d"
| "daemon_turn E inp (WSyncLinks ls seen pub) d = sync_links ls seen pub d"
| "daemon_turn E inp (WSyncRegister l ls seen pub) d = sync_register E inp l ls seen pub d"
| "daemon_turn E inp (WSyncAdd x ls seen pub) d = sync_add x ls seen pub d"
| "daemon_turn E inp (WSyncScan seen) d = sync_scan seen d"
| "daemon_turn E inp (WSyncRemove ss) d = sync_remove ss d"
| "daemon_turn E inp (WSyncUnregister s ss) d = sync_unregister inp s ss d"
| "daemon_turn E inp (WSyncDelete s ss) d = sync_delete E inp s ss d"
| "daemon_turn E inp (WSyncUnlink s ss) d = sync_unlink s ss d"

section \<open>Interleaving\<close>

text \<open>What the web interface, the timers and \<^verbatim>\<open>Start\<close> begin.\<close>

fun is_call :: "work \<Rightarrow> bool" where
  "is_call (WRevoke k) = True"
| "is_call WPrune = True"
| "is_call WStop = True"
| "is_call (WCreate u t p e m r) = True"
| "is_call WLoad = True"
| "is_call WSync = True"
| "is_call _ = False"

text \<open>A turn that a resource has to make before its transport can say anything.\<close>

fun unstarted :: "nat \<Rightarrow> work \<Rightarrow> bool" where
  "unstarted r (WPeerRegister k p) = (p = r)"
| "unstarted r (WRelayRegister k ch) = (ch = r)"
| "unstarted r (WRelayStart ch) = (ch = r)"
| "unstarted r _ = False"

text \<open>What a transport that has been started may do: open, fail, find a candidate, finish a download, reach the limit.\<close>

fun is_event :: "nat \<Rightarrow> work \<Rightarrow> bool" where
  "is_event r (WOpen r') = (r' = r)"
| "is_event r (WClose r') = (r' = r)"
| "is_event r (WLocalCandidate r' j) = (r' = r)"
| "is_event r (WDownload r' n) = (r' = r)"
| "is_event r (WExpired r') = (r' = r)"
| "is_event r _ = False"

type_synonym dsys = "Daemon \<times> work list list"

inductive daemon_step :: "denv \<Rightarrow> dsys \<Rightarrow> dsys \<Rightarrow> bool" for E where
  message: "handleSignalingMessage inp msg d = (d', new) \<Longrightarrow> daemon_step E (d, gs) (d', gs @ new)"
| call: "is_call w \<Longrightarrow> daemon_step E (d, gs) (d, gs @ [[w]])"
| event: "is_event r w \<Longrightarrow> r < dm_nextRes d \<Longrightarrow> \<forall>w'\<in>set (concat gs). \<not> unstarted r w' \<Longrightarrow>
    daemon_step E (d, gs) (d, gs @ [[w]])"
| turn: "i < length gs \<Longrightarrow> gs ! i = w # ws \<Longrightarrow> daemon_turn E inp w d = (d', next, new) \<Longrightarrow>
    daemon_step E (d, gs) (d', gs[i := next @ ws] @ new)"

definition daemon_New :: "dconfig \<Rightarrow> Store \<Rightarrow> files \<Rightarrow> Daemon" where
  "daemon_New cfg st fs = \<lparr>dm_config = cfg, dm_store = st, dm_files = fs, dm_sessions = [], dm_heap = (\<lambda>_. blankSession),
     dm_nextSession = 0, dm_connected = False, dm_hasTURN = False, dm_nonces = Map.empty,
     dm_res = (\<lambda>_. \<lparr>rs_kind = PeerRes, rs_session = 0, rs_key = [], rs_ice = [], rs_relayOnly = False, rs_jwt = []\<rparr>),
     dm_nextRes = 0, dm_closed = {}, dm_notified = {}, dm_activated = {}, dm_managers = Map.empty, dm_applied = [],
     dm_out = [], dm_registers = [], dm_notices = [], dm_returned = [], dm_log = []\<rparr>"

text \<open>
  The interface between the interleaving and what is proved of it: an invariant speaks of the daemon's state and of the multiset of the turns
  that are still to be made, and each source of turns keeps it.
\<close>

locale daemon_inv =
  fixes E :: denv and I :: "Daemon \<Rightarrow> work multiset \<Rightarrow> bool"
  assumes init: "I (daemon_New cfg st fs) {#}"
    and message: "I d M \<Longrightarrow> handleSignalingMessage inp msg d = (d', new) \<Longrightarrow> I d' (M + items new)"
    and call: "I d M \<Longrightarrow> is_call w \<Longrightarrow> I d (add_mset w M)"
    and event: "I d M \<Longrightarrow> is_event r w \<Longrightarrow> r < dm_nextRes d \<Longrightarrow> \<forall>w'\<in>#M. \<not> unstarted r w' \<Longrightarrow> I d (add_mset w M)"
    and turn: "I d (add_mset w M) \<Longrightarrow> daemon_turn E inp w d = (d', next, new) \<Longrightarrow>
      I d' (mset next + mset (concat new) + M)"
begin

lemma step_keeps:
  assumes "daemon_step E (d, gs) (d', gs')" "I d (items gs)"
  shows "I d' (items gs')"
  using assms(1)
proof cases
  case (message inp msg new)
  then show ?thesis using daemon_inv_axioms assms(2) unfolding daemon_inv_def by simp
next
  case (call w)
  then show ?thesis using daemon_inv.call [OF daemon_inv_axioms assms(2)] by (simp add: items_def)
next
  case (event r w)
  then show ?thesis using daemon_inv.event [OF daemon_inv_axioms assms(2)] by (simp add: items_def)
next
  case (turn i w ws inp "next" new)
  obtain M where "items gs = add_mset w M" "items gs' = mset next + mset (concat new) + M"
    using items_turn [OF turn(2,3)] turn(1) by metis
  then show ?thesis using daemon_inv.turn [OF daemon_inv_axioms] assms(2) turn(4) by metis
qed

lemma holds:
  assumes "(daemon_step E)\<^sup>*\<^sup>* (daemon_New cfg st fs, []) (d, gs)"
  shows "I d (items gs)"
  using assms
proof (induction rule: rtranclp_induct2)
  case refl
  show ?case using init by (simp add: items_def)
next
  case (step d gs d' gs')
  then show ?case using step_keeps by blast
qed

end

end
