(* ===== verification/Daemon_Resources.thy ===== *)
theory Daemon_Resources
  imports Daemon_System
begin

text \<open>
  Peers and relay channels under every interleaving: each one is closed, or registered in its session, or some goroutine is about to register or
  close it; and a session that is being closed holds none. For one resource the invariant is a statement about a few flags, \<open>rinv\<close>, and
  every turn of the daemon is a change of flags.
\<close>

section \<open>The invariant\<close>

fun post :: "nat \<Rightarrow> work \<Rightarrow> bool" where
  "post r (WPeerOffer k p) = (p = r)"
| "post r (WPeerSend k p sdp) = (p = r)"
| "post r (WPeerDrop p) = (p = r)"
| "post r (WRelayCheck ch) = (ch = r)"
| "post r (WOpen r') = (r' = r)"
| "post r (WActivate r') = (r' = r)"
| "post r (WLocalCandidate r' j) = (r' = r)"
| "post r (WDownload r' n) = (r' = r)"
| "post r (WExpired r') = (r' = r)"
| "post r _ = False"

definition refers :: "nat \<Rightarrow> work \<Rightarrow> bool" where
  "refers r w \<longleftrightarrow> unstarted r w \<or> post r w \<or> w = WClose r \<or> w = WClosed r"

definition table :: "res_kind \<Rightarrow> Session \<Rightarrow> (string \<times> nat) list" where
  "table k x = (case k of PeerRes \<Rightarrow> ds_peers x | RelayRes \<Rightarrow> ds_relayChannels x)"

definition registered :: "Daemon \<Rightarrow> nat \<Rightarrow> bool" where
  "registered d r \<longleftrightarrow>
     map_of (table (rs_kind (dm_res d r)) (dm_heap d (rs_session (dm_res d r)))) (rs_key (dm_res d r)) = Some r"

definition early :: "nat \<Rightarrow> work multiset \<Rightarrow> nat" where
  "early r M = size (filter_mset (unstarted r) M)"

definition starting :: "nat \<Rightarrow> work multiset \<Rightarrow> bool" where
  "starting r M \<longleftrightarrow> WRelayStart r \<in># M"

text \<open>\<open>reg\<close>, \<open>cls\<close> and \<open>ntf\<close>: the resource is registered, its transport is closed, its close callback was started.\<close>

definition rinv :: "bool \<Rightarrow> bool \<Rightarrow> bool \<Rightarrow> work multiset \<Rightarrow> nat \<Rightarrow> bool" where
  "rinv reg cls ntf M r \<longleftrightarrow>
     early r M \<le> 1
     \<and> (early r M > 0 \<longrightarrow> (\<forall>w\<in>#M. \<not> post r w))
     \<and> (early r M > 0 \<and> \<not> starting r M \<longrightarrow> \<not> ntf \<and> \<not> reg \<and> WClose r \<notin># M)
     \<and> (starting r M \<and> (ntf \<or> WClose r \<in># M) \<longrightarrow> \<not> reg)
     \<and> (early r M = 0 \<and> ntf \<longrightarrow> cls \<or> \<not> reg \<and> (WClose r \<in># M \<or> WRelayCheck r \<in># M))
     \<and> (cls \<or> reg \<or> early r M > 0 \<or> WClose r \<in># M \<or> WRelayCheck r \<in># M)
     \<and> (WClosed r \<in># M \<longrightarrow> ntf)
     \<and> (WPeerDrop r \<in># M \<longrightarrow> cls \<or> WClose r \<in># M)"

definition heap_inv :: "Daemon \<Rightarrow> bool" where
  "heap_inv d \<longleftrightarrow>
     (\<forall>(c, s)\<in>set (dm_sessions d). s < dm_nextSession d)
     \<and> (\<forall>r<dm_nextRes d. rs_session (dm_res d r) < dm_nextSession d)
     \<and> (\<forall>s k. ds_closing (dm_heap d s) \<longrightarrow> table k (dm_heap d s) = [])
     \<and> (\<forall>s k. distinct (map fst (table k (dm_heap d s))) \<and> (\<forall>(key, r)\<in>set (table k (dm_heap d s)).
          r < dm_nextRes d \<and> rs_kind (dm_res d r) = k \<and> rs_session (dm_res d r) = s \<and> rs_key (dm_res d r) = key))
     \<and> dm_closed d \<subseteq> {..<dm_nextRes d} \<and> dm_notified d \<subseteq> {..<dm_nextRes d}"

definition item_ok :: "Daemon \<Rightarrow> work \<Rightarrow> bool" where
  "item_ok d w \<longleftrightarrow> (\<forall>r. refers r w \<longrightarrow> r < dm_nextRes d)
     \<and> (case w of
          WRelayNew c i j s \<Rightarrow> s < dm_nextSession d
        | WPeerRegister c r \<Rightarrow> rs_kind (dm_res d r) = PeerRes
        | WRelayRegister c r \<Rightarrow> rs_kind (dm_res d r) = RelayRes
        | _ \<Rightarrow> True)"

definition resource_inv :: "Daemon \<Rightarrow> work multiset \<Rightarrow> bool" where
  "resource_inv d M \<longleftrightarrow> heap_inv d \<and> (\<forall>w\<in>#M. item_ok d w)
     \<and> (\<forall>r<dm_nextRes d. rinv (registered d r) (r \<in> dm_closed d) (r \<in> dm_notified d) M r)"

section \<open>Turns as changes of flags\<close>

lemma early_add [simp]: "early r (add_mset w M) = (if unstarted r w then 1 else 0) + early r M"
  by (simp add: early_def)

lemma early_plus [simp]: "early r (M + N) = early r M + early r N"
  by (simp add: early_def)

lemma early_empty [simp]: "early r {#} = 0"
  by (simp add: early_def)

lemma early_0: "early r M = 0 \<longleftrightarrow> (\<forall>w\<in>#M. \<not> unstarted r w)"
  by (induction M) auto

lemma starting_early: "starting r M \<Longrightarrow> 0 < early r M"
  by (metis early_0 neq0_conv starting_def unstarted.simps(3))

lemma starting_add [simp]: "starting r (add_mset w M) \<longleftrightarrow> w = WRelayStart r \<or> starting r M"
  by (auto simp: starting_def)

text \<open>A turn that concerns no resource, one that follows the start of a resource, and the closing of one.\<close>

definition plain :: "work \<Rightarrow> bool" where
  "plain w \<longleftrightarrow> (\<forall>r. \<not> refers r w)"

lemma postD: "post r w \<Longrightarrow> \<not> unstarted r' w \<and> WClose r' \<noteq> w \<and> WClosed r' \<noteq> w \<and> w \<noteq> WRelayStart r'"
  by (cases w) auto

lemma refersD:
  "\<not> refers r w \<Longrightarrow> \<not> unstarted r w \<and> \<not> post r w \<and> WClose r \<noteq> w \<and> WClosed r \<noteq> w \<and> w \<noteq> WRelayStart r \<and> WRelayCheck r \<noteq> w \<and> WPeerDrop r \<noteq> w"
  by (auto simp: refers_def)

lemma rinv_other:
  assumes "\<not> refers r w"
  shows "rinv reg cls ntf (add_mset w M) r = rinv reg cls ntf M r"
  unfolding rinv_def using refersD [OF assms] by simp

lemma rinv_drop_post:
  assumes "post r' w" "w \<noteq> WRelayCheck r'" "rinv reg cls ntf (add_mset w M) r"
  shows "rinv reg cls ntf M r"
proof (cases "r = r'")
  case True
  then show ?thesis using assms(3) postD [OF assms(1)] assms(1,2) unfolding rinv_def by auto
next
  case False
  then have "\<not> refers r w" using assms(1) by (cases w) (auto simp: refers_def)
  then show ?thesis using assms(3) by (simp add: rinv_other)
qed

lemma rinv_post:
  assumes "post r w" "early r M = 0" "rinv reg cls ntf M r" "w = WPeerDrop r \<longrightarrow> WClose r \<in># M"
  shows "rinv reg cls ntf (add_mset w M) r"
proof -
  have "\<not> starting r M" using assms(2) starting_early [of r M] by auto
  then show ?thesis using assms(2-4) postD [OF assms(1)] unfolding rinv_def by auto
qed

lemma rinv_close:
  assumes "rinv reg cls ntf M r" "early r M > 0 \<longrightarrow> starting r M \<and> \<not> reg"
  shows "rinv reg cls ntf (add_mset (WClose r) M) r"
proof (cases "starting r M")
  case True
  then show ?thesis using assms starting_early [OF True] by (auto simp: rinv_def)
next
  case False
  then show ?thesis using assms by (auto simp: rinv_def)
qed

lemma rinv_closing:
  assumes "rinv reg cls ntf (add_mset (WClose r) M) r"
  shows "rinv reg True True (if ntf then M else add_mset (WClosed r) M) r"
proof (cases "starting r M")
  case True
  then show ?thesis using assms starting_early [OF True] by (auto simp: rinv_def)
next
  case False
  then show ?thesis using assms by (auto simp: rinv_def)
qed

lemma rinv_closed_drop:
  assumes "rinv reg cls ntf (add_mset (WClosed r) M) r"
  shows "rinv False cls ntf M r"
proof (cases "starting r M")
  case True
  then show ?thesis using assms starting_early [OF True] by (auto simp: rinv_def)
next
  case False
  then show ?thesis using assms by (auto simp: rinv_def)
qed

lemma rinv_detach:
  "rinv True cls ntf M r \<Longrightarrow> rinv False cls ntf (add_mset (WClose r) M) r"
  using starting_early [of r M] by (cases "starting r M") (auto simp: rinv_def)

lemma rinv_close_again:
  "rinv False cls ntf M r \<Longrightarrow> WClose r \<in># M \<Longrightarrow> rinv False cls ntf (add_mset (WClose r) M) r"
  by (rule rinv_close) (auto simp: rinv_def)

lemma rinv_detach_list:
  assumes "rinv reg cls ntf M r" "r \<in> set xs \<longrightarrow> reg"
  shows "rinv (reg \<and> r \<notin> set xs) cls ntf (mset (map WClose xs) + M) r"
  using assms(2)
proof (induction xs)
  case Nil
  then show ?case using assms(1) by simp
next
  case (Cons x xs)
  show ?case
  proof (cases "x = r")
    case True
    then have reg using Cons.prems by simp
    show ?thesis
    proof (cases "r \<in> set xs")
      case True
      then have "rinv False cls ntf (mset (map WClose xs) + M) r" using Cons \<open>reg\<close> by simp
      then show ?thesis using True \<open>x = r\<close> rinv_close_again by auto
    next
      case False
      then have "rinv True cls ntf (mset (map WClose xs) + M) r" using Cons \<open>reg\<close> by simp
      then show ?thesis using rinv_detach \<open>x = r\<close> by simp
    qed
  next
    case False
    then have "\<not> refers r (WClose x)" by (simp add: refers_def)
    then show ?thesis using Cons False rinv_other by auto
  qed
qed

lemma rinv_register_refused:
  "rinv reg cls ntf (add_mset w M) r \<Longrightarrow> unstarted r w \<Longrightarrow> w \<noteq> WRelayStart r \<Longrightarrow> rinv reg cls ntf (add_mset (WClose r) M) r"
  using starting_early [of r M] by (cases "starting r M") (auto simp: rinv_def)

text \<open>The first registration: a peer goes on to its offer, a channel to its start.\<close>

lemma rinv_register:
  assumes "rinv reg cls ntf (add_mset w M) r" "unstarted r w" "w \<noteq> WRelayStart r"
    and "w' = WRelayStart r \<or> post r w' \<and> w' \<noteq> WPeerDrop r"
  shows "rinv True cls ntf (add_mset w' M) r"
  using assms(4)
proof
  assume "w' = WRelayStart r"
  then show ?thesis using assms(1-3) starting_early [of r M] by (cases "starting r M") (auto simp: rinv_def)
next
  assume "post r w' \<and> w' \<noteq> WPeerDrop r"
  then show ?thesis
    using assms(1-3) starting_early [of r M] postD [of r w' r] by (cases "starting r M") (auto simp: rinv_def)
qed

lemma rinv_started:
  "rinv reg cls ntf (add_mset (WRelayStart r) M) r \<Longrightarrow> rinv reg False ntf (add_mset (WRelayCheck r) M) r"
  using starting_early [of r M] by (cases "starting r M") (auto simp: rinv_def)

lemma rinv_start_failed:
  "rinv reg cls ntf (add_mset (WRelayStart r) M) r \<Longrightarrow> rinv reg' True True (if ntf then M else add_mset (WClosed r) M) r"
  using starting_early [of r M] by (cases "starting r M") (auto simp: rinv_def)

lemma rinv_check:
  "rinv True cls ntf (add_mset (WRelayCheck r) M) r \<Longrightarrow> rinv True cls ntf M r"
  "rinv reg cls ntf (add_mset (WRelayCheck r) M) r \<Longrightarrow> rinv reg cls ntf (add_mset (WClose r) M) r"
  using starting_early [of r M] by (cases "starting r M"; auto simp: rinv_def)+

lemma rinv_drop_registration:
  "rinv reg cls ntf (add_mset (WPeerDrop r) M) r \<Longrightarrow> rinv False cls ntf M r"
  using starting_early [of r M] by (cases "starting r M") (auto simp: rinv_def)

lemma rinv_post_close:
  "rinv reg cls ntf (add_mset w M) r \<Longrightarrow> post r w \<Longrightarrow> rinv reg cls ntf (add_mset (WClose r) M) r"
  using starting_early [of r M] postD [of r w r] by (cases "starting r M") (auto simp: rinv_def)

lemma rinv_new: "\<forall>w\<in>#M. \<not> refers r w \<Longrightarrow> unstarted r w \<Longrightarrow> w \<noteq> WRelayStart r \<Longrightarrow> rinv False cls False (add_mset w M) r"
  by (cases w) (auto simp: rinv_def refers_def early_0 starting_def)

section \<open>Turns of the daemon\<close>

definition same_res :: "Daemon \<Rightarrow> Daemon \<Rightarrow> bool" where
  "same_res d d' \<longleftrightarrow>
     dm_nextRes d' = dm_nextRes d \<and> dm_res d' = dm_res d \<and> dm_closed d' = dm_closed d \<and> dm_notified d' = dm_notified d
     \<and> dm_nextSession d' = dm_nextSession d \<and> set (dm_sessions d') \<subseteq> set (dm_sessions d)
     \<and> (\<forall>s k. table k (dm_heap d' s) = table k (dm_heap d s) \<and> ds_closing (dm_heap d' s) = ds_closing (dm_heap d s))"

lemma table_simps [simp]: "table PeerRes x = ds_peers x" "table RelayRes x = ds_relayChannels x"
  by (simp_all add: table_def)

lemma resource_inv_frame:
  assumes inv: "resource_inv d M" and same: "same_res d d'"
  shows "resource_inv d' M"
proof -
  have t: "table k (dm_heap d' s) = table k (dm_heap d s)" for k s using same by (simp add: same_res_def)
  have "registered d' r = registered d r" for r using same t by (simp add: same_res_def registered_def)
  moreover have "item_ok d' w = item_ok d w" for w using same by (simp add: item_ok_def same_res_def split: work.splits)
  moreover have "heap_inv d'"
    using inv same unfolding resource_inv_def heap_inv_def t by (auto simp: same_res_def)
  ultimately show ?thesis using inv same by (simp add: resource_inv_def same_res_def)
qed

text \<open>Turns that start no resource and close none.\<close>

definition light :: "work \<Rightarrow> bool" where
  "light w \<longleftrightarrow> plain w \<and> (\<forall>c i j s. w \<noteq> WRelayNew c i j s)"

lemma plain_add: "plain w \<Longrightarrow> rinv reg cls ntf (add_mset w M) r = rinv reg cls ntf M r"
  by (rule rinv_other) (simp add: plain_def)

lemma light_ok: "light w \<Longrightarrow> item_ok d w"
  by (auto simp: item_ok_def light_def plain_def refers_def split: work.splits)

lemma resource_inv_light: "light w \<Longrightarrow> resource_inv d (add_mset w M) = resource_inv d M"
  by (simp add: resource_inv_def light_ok) (simp add: light_def plain_add)

lemma resource_inv_lights: "\<forall>w\<in>set ws. light w \<Longrightarrow> resource_inv d (mset ws + M) = resource_inv d M"
  by (induction ws) (simp_all add: resource_inv_light)

lemma resource_inv_relay_new: "resource_inv d (add_mset (WRelayNew c i j s) M) \<longleftrightarrow> resource_inv d M \<and> s < dm_nextSession d"
  by (auto simp: resource_inv_def item_ok_def plain_add plain_def refers_def)

text \<open>Turns of a resource after its registration.\<close>

definition late :: "nat \<Rightarrow> work \<Rightarrow> bool" where
  "late r w \<longleftrightarrow> w = WRelayStart r \<or> post r w \<or> w = WClose r \<or> w = WClosed r"

lemma late_refers: "late r w \<Longrightarrow> refers r w"
  by (auto simp: late_def refers_def)

lemma refers_unique: "refers r w \<Longrightarrow> refers r' w \<Longrightarrow> r' = r"
  by (cases w) (auto simp: refers_def)

lemma late_ok: "late r w \<Longrightarrow> r < dm_nextRes d \<Longrightarrow> item_ok d w"
  by (cases w) (auto simp: item_ok_def late_def refers_def)

lemma rinv_others: "\<forall>x\<in>#N. \<not> refers r x \<Longrightarrow> rinv reg cls ntf (N + M) r = rinv reg cls ntf M r"
  by (induction N) (simp_all add: rinv_other)

text \<open>
  A turn of one resource: the state changes only for it, and so do the turns still to be made. What is left to show is the change of its flags.
\<close>

lemma resource_inv_swap:
  assumes inv: "resource_inv d (add_mset w M)" and w: "refers r w" and N: "\<forall>x\<in>#N. late r x"
    and state: "heap_inv d'" "dm_nextRes d' = dm_nextRes d" "dm_nextSession d' = dm_nextSession d" "dm_res d' = dm_res d"
    and others: "\<And>r'. r' \<noteq> r \<Longrightarrow> registered d' r' = registered d r' \<and> (r' \<in> dm_closed d' \<longleftrightarrow> r' \<in> dm_closed d)
      \<and> (r' \<in> dm_notified d' \<longleftrightarrow> r' \<in> dm_notified d)"
    and r: "rinv (registered d r) (r \<in> dm_closed d) (r \<in> dm_notified d) (add_mset w M) r \<Longrightarrow>
      rinv (registered d' r) (r \<in> dm_closed d') (r \<in> dm_notified d') (N + M) r"
  shows "resource_inv d' (N + M)"
  unfolding resource_inv_def
proof (intro conjI allI impI ballI)
  have rlt: "r < dm_nextRes d" using inv w by (simp add: resource_inv_def item_ok_def)
  show "heap_inv d'" by (rule state(1))
  have ok: "item_ok d' x = item_ok d x" for x using state by (simp add: item_ok_def split: work.splits)
  show "item_ok d' x" if "x \<in># N + M" for x
    using that inv N late_ok rlt unfolding resource_inv_def ok by auto
  fix r' assume r': "r' < dm_nextRes d'"
  then have old: "rinv (registered d r') (r' \<in> dm_closed d) (r' \<in> dm_notified d) (add_mset w M) r'"
    using inv state(2) by (simp add: resource_inv_def)
  show "rinv (registered d' r') (r' \<in> dm_closed d') (r' \<in> dm_notified d') (N + M) r'"
  proof (cases "r' = r")
    case True
    then show ?thesis using r old by simp
  next
    case False
    then have "\<not> refers r' w" "\<forall>x\<in>#N. \<not> refers r' x" using w N refers_unique late_refers by metis+
    then show ?thesis using old others [OF False] by (simp add: rinv_other rinv_others)
  qed
qed

lemma heap_invD:
  assumes "heap_inv d"
  shows "(c, s) \<in> set (dm_sessions d) \<Longrightarrow> s < dm_nextSession d"
    and "ds_closing (dm_heap d s) \<Longrightarrow> table k (dm_heap d s) = []"
    and "distinct (map fst (table k (dm_heap d s)))"
    and "(key, r) \<in> set (table k (dm_heap d s)) \<Longrightarrow>
      r < dm_nextRes d \<and> rs_kind (dm_res d r) = k \<and> rs_session (dm_res d r) = s \<and> rs_key (dm_res d r) = key"
    and "r < dm_nextRes d \<Longrightarrow> rs_session (dm_res d r) < dm_nextSession d"
    and "r \<in> dm_closed d \<Longrightarrow> r < dm_nextRes d" "r \<in> dm_notified d \<Longrightarrow> r < dm_nextRes d"
  using assms unfolding heap_inv_def by fast+

lemma heap_invI:
  assumes "\<And>c s. (c, s) \<in> set (dm_sessions d) \<Longrightarrow> s < dm_nextSession d"
    and "\<And>s k. ds_closing (dm_heap d s) \<Longrightarrow> table k (dm_heap d s) = []"
    and "\<And>s k. distinct (map fst (table k (dm_heap d s)))"
    and "\<And>s k key r. (key, r) \<in> set (table k (dm_heap d s)) \<Longrightarrow>
      r < dm_nextRes d \<and> rs_kind (dm_res d r) = k \<and> rs_session (dm_res d r) = s \<and> rs_key (dm_res d r) = key"
    and "\<And>r. r < dm_nextRes d \<Longrightarrow> rs_session (dm_res d r) < dm_nextSession d"
    and "\<And>r. r \<in> dm_closed d \<Longrightarrow> r < dm_nextRes d" "\<And>r. r \<in> dm_notified d \<Longrightarrow> r < dm_nextRes d"
  shows "heap_inv d"
  using assms unfolding heap_inv_def by blast

lemma d_session_bound: "heap_inv d \<Longrightarrow> d_session c d = Some s \<Longrightarrow> s < dm_nextSession d"
  by (auto simp: d_session_def dest!: map_of_SomeD intro: heap_invD)

lemma registered_entry:
  assumes "heap_inv d" "(key, r) \<in> set (table k (dm_heap d s))"
  shows "registered d r"
  using heap_invD(4) [OF assms] assms(2) heap_invD(3) [OF assms(1), of k s] by (simp add: registered_def)

text \<open>A table of one session is replaced.\<close>

lemma heap_inv_table:
  assumes inv: "heap_inv d" and other: "\<And>s' k. s' \<noteq> s \<Longrightarrow> dm_heap d' s' = dm_heap d s'"
    and same: "dm_nextRes d' = dm_nextRes d" "dm_nextSession d' = dm_nextSession d" "dm_res d' = dm_res d"
      "dm_sessions d' = dm_sessions d" "dm_closed d' \<subseteq> {..<dm_nextRes d}" "dm_notified d' \<subseteq> {..<dm_nextRes d}"
    and tables: "\<And>k. ds_closing (dm_heap d' s) \<Longrightarrow> table k (dm_heap d' s) = []"
      "\<And>k. distinct (map fst (table k (dm_heap d' s)))"
      "\<And>k key r. (key, r) \<in> set (table k (dm_heap d' s)) \<Longrightarrow>
        r < dm_nextRes d \<and> rs_kind (dm_res d r) = k \<and> rs_session (dm_res d r) = s \<and> rs_key (dm_res d r) = key"
  shows "heap_inv d'"
proof -
  have "ds_closing (dm_heap d' t) \<longrightarrow> table k (dm_heap d' t) = []" for t k
    using other [of t] tables(1) heap_invD(2) [OF inv] by (cases "t = s") auto
  moreover have "distinct (map fst (table k (dm_heap d' t)))" for t k
    using other [of t] tables(2) heap_invD(3) [OF inv] by (cases "t = s") auto
  moreover have "r < dm_nextRes d \<and> rs_kind (dm_res d r) = k \<and> rs_session (dm_res d r) = t \<and> rs_key (dm_res d r) = key"
    if "(key, r) \<in> set (table k (dm_heap d' t))" for t k key r
    using that other [of t] tables(3) heap_invD(4) [OF inv] by (cases "t = s") auto
  ultimately show ?thesis
    using inv same unfolding heap_inv_def by auto
qed

lemma drop_closing [simp]:
  "ds_closing (drop_peer key r x) = ds_closing x" "ds_closing (drop_relay key r x) = ds_closing x"
  by (simp_all add: drop_peer_def drop_relay_def)

definition drop_entry :: "res_kind \<Rightarrow> nat \<Rightarrow> Daemon \<Rightarrow> Daemon" where
  "drop_entry k r d = upd_session (rs_session (dm_res d r))
     ((case k of PeerRes \<Rightarrow> drop_peer | RelayRes \<Rightarrow> drop_relay) (rs_key (dm_res d r)) r) d"

lemma drop_entry_table:
  "table k' ((case k of PeerRes \<Rightarrow> drop_peer | RelayRes \<Rightarrow> drop_relay) key r x)
     = (if k' = k \<and> map_of (table k x) key = Some r then AList.delete key (table k x) else table k' x)"
  by (cases k; cases k') (simp_all add: drop_peer_def drop_relay_def)

lemma heap_inv_drop: "heap_inv d \<Longrightarrow> heap_inv (drop_entry k r d)"
proof -
  assume inv: "heap_inv d"
  let ?s = "rs_session (dm_res d r)"
  have t: "table k' (dm_heap (drop_entry k r d) ?s)
      = (if k' = k \<and> map_of (table k (dm_heap d ?s)) (rs_key (dm_res d r)) = Some r
         then AList.delete (rs_key (dm_res d r)) (table k (dm_heap d ?s)) else table k' (dm_heap d ?s))" for k'
    by (simp add: drop_entry_def upd_session_def drop_entry_table)
  have c: "ds_closing (dm_heap (drop_entry k r d) ?s) = ds_closing (dm_heap d ?s)"
    by (cases k) (simp_all add: drop_entry_def upd_session_def)
  show ?thesis
  proof (rule heap_inv_table [OF inv, of ?s])
    show "ds_closing (dm_heap (drop_entry k r d) ?s) \<Longrightarrow> table k' (dm_heap (drop_entry k r d) ?s) = []" for k'
      using heap_invD(2) [OF inv] unfolding c t by (simp add: AList.delete_eq)
    show "distinct (map fst (table k' (dm_heap (drop_entry k r d) ?s)))" for k'
      using heap_invD(3) [OF inv] unfolding t by (simp add: distinct_delete)
    show "(key, q) \<in> set (table k' (dm_heap (drop_entry k r d) ?s)) \<Longrightarrow>
        q < dm_nextRes d \<and> rs_kind (dm_res d q) = k' \<and> rs_session (dm_res d q) = ?s \<and> rs_key (dm_res d q) = key" for k' key q
      using heap_invD(4) [OF inv] unfolding t by (auto simp: AList.delete_eq split: if_splits)
  qed (use inv in \<open>auto simp: drop_entry_def upd_session_def heap_inv_def\<close>)
qed

lemma registered_drop:
  assumes "r' \<noteq> r"
  shows "registered (drop_entry k r d) r' = registered d r'"
  using assms by (auto simp: registered_def drop_entry_def upd_session_def drop_entry_table delete_conv' split: if_splits)

lemma registered_drop_self:
  "registered (drop_entry k r d) r \<longleftrightarrow> registered d r \<and> k \<noteq> rs_kind (dm_res d r)"
  by (auto simp: registered_def drop_entry_def upd_session_def drop_entry_table delete_conv')

lemma drop_entry_fields [simp]:
  "dm_nextRes (drop_entry k r d) = dm_nextRes d" "dm_nextSession (drop_entry k r d) = dm_nextSession d"
  "dm_res (drop_entry k r d) = dm_res d" "dm_closed (drop_entry k r d) = dm_closed d" "dm_notified (drop_entry k r d) = dm_notified d"
  by (simp_all add: drop_entry_def upd_session_def)

lemma set_alist_update: "set (AList.update key v al) \<subseteq> insert (key, v) (set al)"
  by (induction al) auto

definition put_entry :: "res_kind \<Rightarrow> nat \<Rightarrow> Daemon \<Rightarrow> Daemon" where
  "put_entry k r d = upd_session (rs_session (dm_res d r))
     ((case k of PeerRes \<Rightarrow> put_peer | RelayRes \<Rightarrow> put_relay) (rs_key (dm_res d r)) r) d"

lemma put_entry_table:
  "table k' ((case k of PeerRes \<Rightarrow> put_peer | RelayRes \<Rightarrow> put_relay) key r x)
     = (if k' = k then AList.update key r (table k x) else table k' x)"
  by (cases k; cases k') (simp_all add: put_peer_def put_relay_def)

lemma put_entry_fields [simp]:
  "dm_nextRes (put_entry k r d) = dm_nextRes d" "dm_nextSession (put_entry k r d) = dm_nextSession d"
  "dm_res (put_entry k r d) = dm_res d" "dm_closed (put_entry k r d) = dm_closed d" "dm_notified (put_entry k r d) = dm_notified d"
  by (simp_all add: put_entry_def upd_session_def)

lemma heap_inv_put:
  assumes inv: "heap_inv d" and r: "r < dm_nextRes d" "rs_kind (dm_res d r) = k"
    and open_session: "\<not> ds_closing (dm_heap d (rs_session (dm_res d r)))"
  shows "heap_inv (put_entry k r d)"
proof -
  let ?s = "rs_session (dm_res d r)"
  have t: "table k' (dm_heap (put_entry k r d) ?s)
      = (if k' = k then AList.update (rs_key (dm_res d r)) r (table k (dm_heap d ?s)) else table k' (dm_heap d ?s))" for k'
    by (simp add: put_entry_def upd_session_def put_entry_table)
  have c: "\<not> ds_closing (dm_heap (put_entry k r d) ?s)"
    using open_session by (cases k) (simp_all add: put_entry_def upd_session_def put_peer_def put_relay_def)
  show ?thesis
  proof (rule heap_inv_table [OF inv, of ?s])
    show "distinct (map fst (table k' (dm_heap (put_entry k r d) ?s)))" for k'
      using heap_invD(3) [OF inv] unfolding t by (simp add: distinct_update)
    show "(key, q) \<in> set (table k' (dm_heap (put_entry k r d) ?s)) \<Longrightarrow>
        q < dm_nextRes d \<and> rs_kind (dm_res d q) = k' \<and> rs_session (dm_res d q) = ?s \<and> rs_key (dm_res d q) = key" for k' key q
      using heap_invD(4) [OF inv] r unfolding t
      by (auto split: if_splits dest!: subsetD [OF set_alist_update])
  qed (use inv c in \<open>auto simp: put_entry_def upd_session_def heap_inv_def\<close>)
qed

lemma registered_put:
  assumes "r' \<noteq> r"
  shows "registered (put_entry k r d) r' \<longleftrightarrow> registered d r'
    \<and> \<not> (rs_kind (dm_res d r') = k \<and> rs_session (dm_res d r') = rs_session (dm_res d r) \<and> rs_key (dm_res d r') = rs_key (dm_res d r))"
  using assms by (auto simp: registered_def put_entry_def upd_session_def put_entry_table update_conv')

lemma registered_put_self: "rs_kind (dm_res d r) = k \<Longrightarrow> registered (put_entry k r d) r"
  by (simp add: registered_def put_entry_def upd_session_def put_entry_table update_conv')

lemma resource_inv_register:
  assumes inv: "resource_inv d (add_mset w M)" and w: "unstarted r w" "w \<noteq> WRelayStart r" and k: "rs_kind (dm_res d r) = k"
    and open_session: "\<not> ds_closing (dm_heap d (rs_session (dm_res d r)))"
    and w': "w' = WRelayStart r \<or> post r w' \<and> w' \<noteq> WPeerDrop r"
    and old: "old = map_of (table k (dm_heap d (rs_session (dm_res d r)))) (rs_key (dm_res d r))"
  shows "resource_inv (put_entry k r d) (mset (close_old old r) + add_mset w' M)"
proof -
  have h: "heap_inv d" and items: "\<forall>x\<in>#add_mset w M. item_ok d x" using inv by (simp_all add: resource_inv_def)
  have r: "r < dm_nextRes d" using items w(1) by (auto simp: item_ok_def refers_def)
  have entry: "q < dm_nextRes d \<and> rs_kind (dm_res d q) = k \<and> rs_session (dm_res d q) = rs_session (dm_res d r)
      \<and> rs_key (dm_res d q) = rs_key (dm_res d r)" if "old = Some q" for q
    using heap_invD(4) [OF h] that unfolding old by (auto dest: map_of_SomeD)
  have same_old: "registered d q \<and> rs_kind (dm_res d q) = k \<and> rs_session (dm_res d q) = rs_session (dm_res d r)
      \<and> rs_key (dm_res d q) = rs_key (dm_res d r) \<longleftrightarrow> old = Some q" for q
  proof
    assume "registered d q \<and> rs_kind (dm_res d q) = k \<and> rs_session (dm_res d q) = rs_session (dm_res d r)
      \<and> rs_key (dm_res d q) = rs_key (dm_res d r)"
    then show "old = Some q" unfolding old registered_def by metis
  next
    assume "old = Some q"
    then show "registered d q \<and> rs_kind (dm_res d q) = k \<and> rs_session (dm_res d q) = rs_session (dm_res d r)
      \<and> rs_key (dm_res d q) = rs_key (dm_res d r)" using entry [of q] unfolding old registered_def by simp
  qed
  have ok: "item_ok (put_entry k r d) x = item_ok d x" for x by (simp add: item_ok_def split: work.splits)
  have late: "late r w'" using w' by (auto simp: late_def)
  have rr: "rinv (registered d q) (q \<in> dm_closed d) (q \<in> dm_notified d) (add_mset w M) q" if "q < dm_nextRes d" for q
    using inv that by (simp add: resource_inv_def)
  show ?thesis
    unfolding resource_inv_def
  proof (intro conjI allI impI ballI)
    show "heap_inv (put_entry k r d)" by (rule heap_inv_put [OF h r k open_session])
    show "item_ok (put_entry k r d) x" if "x \<in># mset (close_old old r) + add_mset w' M" for x
      using that items late_ok [OF late r] entry unfolding ok
      by (auto simp: close_old_def intro!: late_ok [of _ "WClose _"] simp: late_def split: option.splits if_splits)
    fix q assume "q < dm_nextRes (put_entry k r d)"
    then have q: "rinv (registered d q) (q \<in> dm_closed d) (q \<in> dm_notified d) (add_mset w M) q" using rr by simp
    consider "q = r" | "q \<noteq> r" "old = Some q" | "q \<noteq> r" "old \<noteq> Some q" by blast
    then show "rinv (registered (put_entry k r d) q) (q \<in> dm_closed (put_entry k r d)) (q \<in> dm_notified (put_entry k r d))
        (mset (close_old old r) + add_mset w' M) q"
    proof cases
      case 1
      have "\<forall>x\<in>#mset (close_old old r). \<not> refers r x"
        by (auto simp: close_old_def refers_def split: option.splits)
      from iffD2 [OF rinv_others [OF this] rinv_register [OF q [unfolded 1] w w']] show ?thesis
        using 1 registered_put_self [of d r k, OF k] by simp
    next
      case 2
      then have "close_old old r = [WClose q]" "registered d q" using same_old [of q] by (auto simp: close_old_def)
      moreover have "\<not> refers q w" "\<not> refers q w'" using w(1) late_refers [OF late] 2(1) refers_unique
        unfolding refers_def by blast+
      ultimately show ?thesis
        using rinv_detach [of _ _ M q] q 2 same_old [of q] registered_put [OF 2(1), of k d] by (simp add: rinv_other add_mset_commute)
    next
      case 3
      have "\<forall>x\<in>#mset (close_old old r). \<not> refers q x"
        using 3 by (auto simp: close_old_def refers_def split: option.splits)
      moreover have "\<not> refers q w" "\<not> refers q w'" using w(1) late_refers [OF late] 3(1) refers_unique
        unfolding refers_def by blast+
      moreover have "registered (put_entry k r d) q = registered d q" using registered_put [OF 3(1), of k d] same_old [of q] 3 by auto
      ultimately show ?thesis using q by (simp add: rinv_other rinv_others)
    qed
  qed
qed

lemma resource_inv_teardown:
  assumes inv: "resource_inv d M"
  shows "resource_inv (upd_session s (\<lambda>x. x\<lparr>ds_closing := True, ds_peers := [], ds_relayChannels := []\<rparr>) d)
    (mset (map WClose (map snd (ds_peers (dm_heap d s)) @ map snd (ds_relayChannels (dm_heap d s)))) + M)"
    (is "resource_inv ?d (mset (map WClose ?L) + M)")
proof -
  have h: "heap_inv d" using inv by (simp add: resource_inv_def)
  have fields [simp]: "dm_nextRes ?d = dm_nextRes d" "dm_nextSession ?d = dm_nextSession d" "dm_res ?d = dm_res d"
    "dm_closed ?d = dm_closed d" "dm_notified ?d = dm_notified d" by (simp_all add: upd_session_def)
  have L: "q < dm_nextRes d \<and> registered d q \<and> rs_session (dm_res d q) = s" if "q \<in> set ?L" for q
    using that heap_invD(4) [OF h, of _ q _ s] registered_entry [OF h, of _ q _ s]
    by (auto simp: image_iff) (metis table_simps)+
  have reg: "registered ?d q \<longleftrightarrow> registered d q \<and> q \<notin> set ?L" for q
  proof (cases "rs_session (dm_res d q) = s")
    case True
    have "\<not> registered ?d q" using True by (cases "rs_kind (dm_res d q)") (simp_all add: registered_def upd_session_def)
    moreover have "q \<in> set ?L" if "registered d q"
      using that True by (cases "rs_kind (dm_res d q)") (force simp: registered_def dest!: map_of_SomeD)+
    ultimately show ?thesis by blast
  next
    case False
    then show ?thesis using L by (auto simp: registered_def upd_session_def)
  qed
  show ?thesis
    unfolding resource_inv_def
  proof (intro conjI allI impI ballI)
    show "heap_inv ?d"
    proof (rule heap_inv_table [OF h, of s])
      have "table k (dm_heap ?d s) = []" for k by (cases k) (simp_all add: upd_session_def)
      then show "distinct (map fst (table k (dm_heap ?d s)))" "table k (dm_heap ?d s) = []"
          "(key, r) \<in> set (table k (dm_heap ?d s)) \<Longrightarrow>
           r < dm_nextRes d \<and> rs_kind (dm_res d r) = k \<and> rs_session (dm_res d r) = s \<and> rs_key (dm_res d r) = key" for k key r
        by simp_all
    qed (use h in \<open>auto simp: upd_session_def heap_inv_def\<close>)
    have ok: "item_ok ?d x = item_ok d x" for x by (simp add: item_ok_def split: work.splits)
    show "item_ok ?d x" if "x \<in># mset (map WClose ?L) + M" for x
      using that L inv late_ok [of _ "WClose _" d] unfolding ok by (auto simp: resource_inv_def late_def)
    fix q assume "q < dm_nextRes ?d"
    then have "rinv (registered d q) (q \<in> dm_closed d) (q \<in> dm_notified d) M q" using inv by (simp add: resource_inv_def)
    from rinv_detach_list [OF this, of ?L] show "rinv (registered ?d q) (q \<in> dm_closed ?d) (q \<in> dm_notified ?d) (mset (map WClose ?L) + M) q"
      using L [of q] unfolding reg by simp
  qed
qed

lemma item_ok_mono:
  assumes "item_ok d w" "dm_nextRes d \<le> dm_nextRes d'" "dm_nextSession d \<le> dm_nextSession d'"
    "\<And>r. r < dm_nextRes d \<Longrightarrow> dm_res d' r = dm_res d r"
  shows "item_ok d' w"
proof -
  have r: "r < dm_nextRes d" if "refers r w" for r using assms(1) that by (simp add: item_ok_def)
  then have "r < dm_nextRes d'" if "refers r w" for r using that assms(2) by (meson order_less_le_trans)
  then show ?thesis
    using assms(1,3) assms(4) [OF r] by (cases w) (auto simp: item_ok_def refers_def)
qed

lemma resource_inv_new:
  assumes inv: "resource_inv d M" and s: "rs_session res < dm_nextSession d"
    and kind: "w = WPeerRegister c (dm_nextRes d) \<and> rs_kind res = PeerRes \<or> w = WRelayRegister c (dm_nextRes d) \<and> rs_kind res = RelayRes"
  shows "resource_inv (new_resource res d) (add_mset w M)"
proof -
  let ?n = "dm_nextRes d" and ?d = "new_resource res d"
  have w: "\<And>r. refers r w \<longleftrightarrow> r = dm_nextRes d" "unstarted (dm_nextRes d) w" "w \<noteq> WRelayStart (dm_nextRes d)"
    using kind by (auto simp: refers_def)
  have h: "heap_inv d" using inv by (simp add: resource_inv_def)
  have fresh: "\<not> refers ?n x" if "x \<in># M" for x using inv that unfolding resource_inv_def item_ok_def by blast
  have entries: "(key, q) \<in> set (table k (dm_heap d t)) \<Longrightarrow> q < ?n" for key q k t using heap_invD(4) [OF h] by blast
  have reg: "registered ?d q = registered d q" if "q \<noteq> ?n" for q using that by (simp add: registered_def new_resource_def)
  have unreg: "\<not> registered ?d ?n"
    using entries by (auto simp: registered_def new_resource_def dest!: map_of_SomeD)
  have "heap_inv ?d"
  proof (rule heap_invI)
    show "(key, r) \<in> set (table k (dm_heap ?d t)) \<Longrightarrow> r < dm_nextRes ?d \<and> rs_kind (dm_res ?d r) = k
        \<and> rs_session (dm_res ?d r) = t \<and> rs_key (dm_res ?d r) = key" for t k key r
      using heap_invD(4) [OF h, of key r k t] by (auto simp: new_resource_def)
    show "r < dm_nextRes ?d \<Longrightarrow> rs_session (dm_res ?d r) < dm_nextSession ?d" for r
      using heap_invD(5) [OF h, of r] s by (auto simp: new_resource_def less_Suc_eq)
  qed (use heap_invD [OF h] in \<open>auto simp: new_resource_def intro: less_SucI\<close>)
  moreover have "item_ok ?d x" if "x \<in># M" for x
  proof (rule item_ok_mono)
    show "item_ok d x" using inv that by (simp add: resource_inv_def)
  qed (simp_all add: new_resource_def)
  moreover have "item_ok ?d w"
    using kind w(1) by (auto simp: item_ok_def new_resource_def)
  moreover have "rinv (registered ?d q) (q \<in> dm_closed ?d) (q \<in> dm_notified ?d) (add_mset w M) q" if "q < Suc ?n" for q
  proof (cases "q = ?n")
    case True
    have "q \<notin> dm_notified d" using h True by (auto simp: heap_inv_def)
    then show ?thesis
      using True unreg fresh rinv_new [of M ?n w] w(2,3) by (simp add: new_resource_def)
  next
    case False
    then have "\<not> refers q w" "q < ?n" using w(1) that by auto
    then show ?thesis using inv reg [OF False] by (simp add: rinv_other resource_inv_def new_resource_def)
  qed
  ultimately show ?thesis by (simp add: resource_inv_def new_resource_def)
qed

lemma resource_inv_add_session:
  assumes inv: "resource_inv d M" and x: "ds_peers x = []" "ds_relayChannels x = []"
  shows "resource_inv (add_session x d) M"
proof -
  let ?d = "add_session x d" and ?n = "dm_nextSession d"
  have h: "heap_inv d" using inv by (simp add: resource_inv_def)
  have t: "table k x = []" for k using x by (cases k) simp_all
  have reg: "registered ?d r = registered d r" if "r < dm_nextRes d" for r
    using that h by (auto simp: registered_def add_session_def heap_inv_def)
  have "item_ok ?d w" if "item_ok d w" for w
    using that by (auto simp: item_ok_def add_session_def split: work.splits)
  moreover have "heap_inv ?d"
  proof (rule heap_invI)
    show "(key, r) \<in> set (table k (dm_heap ?d s)) \<Longrightarrow> r < dm_nextRes ?d \<and> rs_kind (dm_res ?d r) = k
        \<and> rs_session (dm_res ?d r) = s \<and> rs_key (dm_res ?d r) = key" for s k key r
      using heap_invD(4) [OF h, of key r k s] t by (auto simp: add_session_def split: if_splits)
    show "s < dm_nextSession ?d" if "(c, s) \<in> set (dm_sessions ?d)" for c s
      using that subsetD [OF set_alist_update, of "(c, s)"] heap_invD(1) [OF h, of c s] by (fastforce simp: add_session_def)
  qed (use heap_invD [OF h] t in \<open>auto simp: add_session_def intro: less_SucI\<close>)
  ultimately show ?thesis
    using inv reg by (auto simp: resource_inv_def add_session_def)
qed

end
