(* ===== verification/Daemon_Properties.thy ===== *)
theory Daemon_Properties
  imports Daemon_Resources Store_Properties
begin

text \<open>
  Properties of the daemon in every interleaving of its goroutines: no connection is lost track of, and every browser that is let in by
  \<^verbatim>\<open>handleJoin\<close> has used up a nonce of its own.
\<close>

section \<open>Connections\<close>

fun quiet :: "work \<Rightarrow> bool" where
  "quiet (WPeer _ _) = False" | "quiet (WPeerRegister _ _) = False" | "quiet (WPeerOffer _ _) = False"
| "quiet (WPeerSend _ _ _) = False" | "quiet (WPeerDrop _) = False"
| "quiet (WRelay _ _ _) = False" | "quiet (WRelayNew _ _ _ _) = False" | "quiet (WRelayRegister _ _) = False"
| "quiet (WRelayStart _) = False" | "quiet (WRelayCheck _) = False" | "quiet (WClose _) = False" | "quiet (WClosed _) = False"
| "quiet (WOpen _) = False" | "quiet (WActivate _) = False" | "quiet (WTeardown _ _) = False"
| "quiet (WCreateAdd _) = False" | "quiet (WManualAdd _) = False" | "quiet (WLoadAdd _ _ _) = False" | "quiet (WSyncAdd _ _ _ _) = False"
| "quiet _ = True"

named_theorems turn_defs

declare d_done_def [turn_defs] d_next_def [turn_defs] d_send_def [turn_defs] d_log_def [turn_defs] d_register_def [turn_defs]
  upd_session_def [turn_defs] Let_def [turn_defs]
  handleKnock_def [turn_defs] handleKnock_store_def [turn_defs] handleKnock_send_def [turn_defs] handleJoin_def [turn_defs]
  handleJoin_nonce_def [turn_defs] handleJoin_verify_def [turn_defs] auth_failed_def [turn_defs]
  handlePasswordSubmit_def [turn_defs] handlePasswordSubmit_check_def [turn_defs] handleSignal_def [turn_defs]
  handleSignal_peer_def [turn_defs] local_candidate_def [turn_defs] OnSessionExpired_def [turn_defs]
  OnDownloadComplete_def [turn_defs] store_increment_def [turn_defs] store_delete_def [turn_defs] store_put_def [turn_defs]
  RevokeSession_def [turn_defs] pruneExpiredSessions_def [turn_defs] daemon_Stop_def [turn_defs]
  CreateSession_def [turn_defs] createManualImmichSession_def [turn_defs] createManualImmichSession_poll_def [turn_defs]
  registerImmichShare_def [turn_defs] unregisterShare_def [turn_defs] d_relayKey_def [turn_defs] relayStaticPubHex_def [turn_defs]
  loadSessionsFromStore_def [turn_defs] load_entries_def [turn_defs] syncImmichShares_def [turn_defs] sync_links_def [turn_defs]
  sync_register_def [turn_defs] sync_scan_def [turn_defs] sync_remove_def [turn_defs] sync_unregister_def [turn_defs]
  sync_delete_def [turn_defs] sync_unlink_def [turn_defs]

lemma light_work [simp]:
  "light (WKnock a b)" "light (WKnockStore a s b)" "light (WKnockSend a s b)" "light (WJoin a b c)" "light (WJoinNonce a b c s)"
  "light (WJoinVerify a b c s e)" "light (WPassword a b c)" "light (WPasswordCheck a b c s)" "light (WPeer a b)"
  "light (WSignal a sig)" "light (WSignalPeer a s sig)" "light (WRelay a b c)" "light (WStoreIncrement a)"
  "light (WTeardown s m)" "light (WNotify r m)" "light (WStoreDelete a)" "light (WSend j)" "light (WRevoke a)" "light WPrune" "light WStop"
  "light (WCreate a b c n l t)" "light (WCreateAdd x)" "light (WStoreSave en)" "light (WReturn rt)" "light (WManual a)"
  "light (WManualPoll a)" "light (WManualAdd x)" "light WLoad" "light (WLoadEntries es a)" "light (WLoadAdd x es a)" "light WSync"
  "light (WSyncLinks ls as a)" "light (WSyncRegister lk ls as a)" "light (WSyncAdd x ls as a)" "light (WSyncScan as)"
  "light (WSyncRemove ss)" "light (WSyncUnregister s ss)" "light (WSyncDelete s ss)" "light (WSyncUnlink s ss)"
  by (auto simp: light_def plain_def refers_def)

lemma same_res_same:
  "dm_nextRes d' = dm_nextRes d \<Longrightarrow> dm_res d' = dm_res d \<Longrightarrow> dm_closed d' = dm_closed d \<Longrightarrow> dm_notified d' = dm_notified d
   \<Longrightarrow> dm_nextSession d' = dm_nextSession d \<Longrightarrow> set (dm_sessions d') \<subseteq> set (dm_sessions d) \<Longrightarrow> dm_heap d' = dm_heap d \<Longrightarrow> same_res d d'"
  by (simp add: same_res_def)

lemma quiet_turn:
  assumes "quiet w" "daemon_turn E inp w d = (d', next, new)"
  shows "same_res d d' \<and> (\<forall>x\<in>set next. light x) \<and> (\<forall>x\<in>set (concat new). light x)"
  using assms
proof (cases w)
  case (WDownload r n)
  have "table k (x\<lparr>ds_Downloads := m\<rparr>) = table k x" for k x m by (cases k) simp_all
  then show ?thesis using assms WDownload by (auto simp: turn_defs same_res_def split: if_splits)
qed (auto simp: turn_defs same_res_same AList.delete_eq split: option.splits sum.splits prod.splits if_splits list.splits)


lemma quiet_kinds: "quiet w \<Longrightarrow> plain w \<or> (\<exists>r. post r w \<and> w \<noteq> WRelayCheck r)"
  by (cases w) (auto simp: plain_def refers_def)

lemma resource_inv_drop:
  assumes inv: "resource_inv d (add_mset w M)" and w: "plain w \<or> (\<exists>r. post r w \<and> w \<noteq> WRelayCheck r)"
  shows "resource_inv d M"
proof -
  have "rinv reg cls ntf M r" if "rinv reg cls ntf (add_mset w M) r" for reg cls ntf r
    using w that plain_add rinv_drop_post by blast
  then show ?thesis using inv unfolding resource_inv_def by auto
qed

lemma resource_quiet_turn:
  assumes "resource_inv d (add_mset w M)" "quiet w" "daemon_turn E inp w d = (d', next, new)"
  shows "resource_inv d' (mset next + mset (concat new) + M)"
proof -
  note q = quiet_turn [OF assms(2,3)]
  have "resource_inv d' M"
    using resource_inv_frame [OF resource_inv_drop [OF assms(1) quiet_kinds [OF assms(2)]]] q by blast
  then have "resource_inv d' (mset next + (mset (concat new) + M))" using q resource_inv_lights by metis
  then show ?thesis by (simp add: add.assoc)
qed

text \<open>Sessions that are about to be added have no peers and no channels.\<close>

fun fresh_item :: "work \<Rightarrow> bool" where
  "fresh_item (WCreateAdd x) = (ds_peers x = [] \<and> ds_relayChannels x = [])"
| "fresh_item (WManualAdd x) = (ds_peers x = [] \<and> ds_relayChannels x = [])"
| "fresh_item (WLoadAdd x es pub) = (ds_peers x = [] \<and> ds_relayChannels x = [])"
| "fresh_item (WSyncAdd x ls seen pub) = (ds_peers x = [] \<and> ds_relayChannels x = [])"
| "fresh_item _ = True"

declare createPeer_def [turn_defs] createPeer_register_def [turn_defs] createPeer_offer_def [turn_defs] createPeer_drop_def [turn_defs]
  createPeer_send_def [turn_defs] handleRelayPrepare_def [turn_defs] handleRelayPrepare_new_def [turn_defs]
  handleRelayPrepare_register_def [turn_defs] handleRelayPrepare_start_def [turn_defs] handleRelayPrepare_check_def [turn_defs]
  close_resource_def [turn_defs] resource_closed_def [turn_defs] wireTransferSession_def [turn_defs]
  activateTransferSession_def [turn_defs] closeSessionResourcesWithError_def [turn_defs] CreateSession_add_def [turn_defs]
  createManualImmichSession_add_def [turn_defs] load_add_def [turn_defs] sync_add_def [turn_defs] close_old_def [turn_defs]

lemma fresh_turn:
  assumes "daemon_turn E inp w d = (d', next, new)"
  shows "(\<forall>x\<in>set next. fresh_item x) \<and> (\<forall>x\<in>set (concat new). fresh_item x)"
  using assms
  by (cases w) (auto simp: turn_defs blankSession_def loaded_session_def
    split: option.splits sum.splits prod.splits if_splits list.splits res_kind.splits)


lemma entry_folds:
  "createPeer_drop p d = d_done (drop_entry PeerRes p d)" "removeRelayChannelIfCurrent p d = drop_entry RelayRes p d"
  "upd_session (rs_session (dm_res d p)) (put_peer (rs_key (dm_res d p)) p) d = put_entry PeerRes p d"
  "upd_session (rs_session (dm_res d p)) (put_relay (rs_key (dm_res d p)) p) d = put_entry RelayRes p d"
  by (simp_all add: createPeer_drop_def removeRelayChannelIfCurrent_def drop_entry_def put_entry_def)

lemma relayKey_same: "d_relayKey E inp d = (res, d1) \<Longrightarrow> same_res d d1"
  by (auto simp: d_relayKey_def same_res_same Let_def split: prod.splits)

lemma same_res_log: "same_res d (d_log e d)"
  by (simp add: d_log_def same_res_same)

text \<open>A turn that replaces an item of one resource by others, the daemon's state staying as it is.\<close>

lemma resource_inv_items:
  assumes inv: "resource_inv d (add_mset w M)" and w: "refers r w" and N: "\<forall>x\<in>#N. late r x"
    and r: "\<And>reg cls ntf. reg = registered d r \<Longrightarrow> rinv reg cls ntf (add_mset w M) r \<Longrightarrow> rinv reg cls ntf (N + M) r"
  shows "resource_inv d (N + M)"
  using resource_inv_swap [OF inv w N] inv r by (simp add: resource_inv_def)

lemma resource_inv_to_close:
  assumes "resource_inv d (add_mset w M)" "refers r w"
    and "\<And>reg cls ntf. rinv reg cls ntf (add_mset w M) r \<Longrightarrow> rinv reg cls ntf (add_mset (WClose r) M) r"
  shows "resource_inv d (add_mset (WClose r) M)"
  using resource_inv_items [OF assms(1,2), of "{#WClose r#}"] assms(3) by (simp add: late_def)

lemma create_turn:
  assumes inv: "resource_inv d (add_mset (WPeer c k) M)" and t: "daemon_turn E inp (WPeer c k) d = (d', next, new)"
  shows "resource_inv d' (mset next + mset (concat new) + M)"
proof -
  have M: "resource_inv d M" by (rule resource_inv_drop [OF inv]) (simp add: plain_def refers_def)
  show ?thesis
  proof (cases "d_session k d = None \<or> in_err inp \<noteq> None")
    case True
    then show ?thesis using t M by (auto simp: createPeer_def d_done_def split: option.splits if_splits)
  next
    case False
    then obtain s where s: "d_session k d = Some s" by auto
    then have "s < dm_nextSession d" using M d_session_bound by (auto simp: resource_inv_def)
    then show ?thesis
      using t s False resource_inv_new [OF M, of "\<lparr>rs_kind = PeerRes, rs_session = s, rs_key = c,
                 rs_ice = (if in_ice inp = [] then defaultICE else in_ice inp),
                 rs_relayOnly = ds_RelayOnly (dm_heap d s), rs_jwt = []\<rparr>"]
      by (auto simp: createPeer_def d_next_def intro: resource_inv_frame [OF _ same_res_log])
  qed
qed

lemma relay_new_turn:
  assumes inv: "resource_inv d (add_mset (WRelayNew k sid jwt s) M)"
    and t: "daemon_turn E inp (WRelayNew k sid jwt s) d = (d', next, new)"
  shows "resource_inv d' (mset next + mset (concat new) + M)"
proof -
  obtain res d1 where d1: "d_relayKey E inp d = (res, d1)" by force
  note same = relayKey_same [OF d1]
  have M: "resource_inv d1 M" using inv same by (auto simp: resource_inv_relay_new intro: resource_inv_frame)
  have s: "s < dm_nextSession d1" using inv same by (simp add: resource_inv_relay_new same_res_def)
  show ?thesis
    using t d1 M s resource_inv_new [OF M, of "\<lparr>rs_kind = RelayRes, rs_session = s, rs_key = sid, rs_ice = [], rs_relayOnly = False, rs_jwt = jwt\<rparr>"]
    by (auto simp: handleRelayPrepare_new_def d_next_def d_done_def split: sum.splits if_splits)
qed

lemma register_turn:
  assumes inv: "resource_inv d (add_mset w M)" and t: "daemon_turn E inp w d = (d', next, new)"
    and w: "w = WPeerRegister k r \<or> w = WRelayRegister k r"
  shows "resource_inv d' (mset next + mset (concat new) + M)"
proof (cases "d_session k d \<noteq> Some (rs_session (dm_res d r)) \<or> ds_closing (dm_heap d (rs_session (dm_res d r)))")
  case True
  then have "d' = d" "next = [WClose r]" "new = []"
    using t w by (auto simp: createPeer_register_def handleRelayPrepare_register_def d_next_def Let_def)
  moreover have "resource_inv d (add_mset (WClose r) M)"
    using resource_inv_to_close [OF inv] w rinv_register_refused by (auto simp: refers_def)
  ultimately show ?thesis by simp
next
  case False
  let ?old = "\<lambda>kd. map_of (table kd (dm_heap d (rs_session (dm_res d r)))) (rs_key (dm_res d r))"
  have ok: "item_ok d w" using inv by (simp add: resource_inv_def)
  show ?thesis
    using w
  proof
    assume p: "w = WPeerRegister k r"
    have "resource_inv (put_entry PeerRes r d) (mset (close_old (?old PeerRes) r) + add_mset (WPeerOffer k r) M)"
      by (rule resource_inv_register [OF inv]) (use p ok False in \<open>auto simp: item_ok_def\<close>)
    then show ?thesis using t p False by (auto simp: createPeer_register_def d_next_def Let_def entry_folds)
  next
    assume p: "w = WRelayRegister k r"
    have "resource_inv (put_entry RelayRes r d) (mset (close_old (?old RelayRes) r) + add_mset (WRelayStart r) M)"
      by (rule resource_inv_register [OF inv]) (use p ok False in \<open>auto simp: item_ok_def\<close>)
    then show ?thesis using t p False by (auto simp: handleRelayPrepare_register_def d_next_def Let_def entry_folds)
  qed
qed


lemma early_post: "rinv reg cls ntf (add_mset w M) r \<Longrightarrow> post r w \<Longrightarrow> early r M = 0"
  using postD [of r w r] by (auto simp: rinv_def)

lemma rinv_offer_failed:
  assumes "rinv reg cls ntf (add_mset w M) r" "post r w"
  shows "rinv reg cls ntf (add_mset (WPeerDrop r) (add_mset (WClose r) M)) r"
  using rinv_post [of r "WPeerDrop r" "add_mset (WClose r) M"] rinv_post_close [OF assms] early_post [OF assms] by simp

lemma rinv_continue:
  assumes "rinv reg cls ntf (add_mset w M) r" "post r w" "w \<noteq> WRelayCheck r" "post r w'" "w' \<noteq> WPeerDrop r"
  shows "rinv reg cls ntf (add_mset w' M) r"
  using rinv_post [OF assms(4) early_post [OF assms(1,2)] rinv_drop_post [OF assms(2,3,1)]] assms(5) by simp

lemma offer_turn:
  assumes inv: "resource_inv d (add_mset w M)" and t: "daemon_turn E inp w d = (d', next, new)"
    and w: "w = WPeerOffer k r \<or> w = WPeerSend k r sdp"
  shows "resource_inv d' (mset next + mset (concat new) + M)"
proof -
  have ref: "refers r w" and post: "post r w" "w \<noteq> WRelayCheck r" using w by (auto simp: refers_def)
  have "resource_inv d (add_mset (WClose r) M)"
    by (rule resource_inv_to_close [OF inv ref]) (rule rinv_post_close [OF _ post(1)])
  moreover have "resource_inv d ({#WPeerDrop r, WClose r#} + M)"
    by (rule resource_inv_items [OF inv ref]) (auto simp: late_def intro: rinv_offer_failed [OF _ post(1)])
  moreover have "resource_inv d ({#WPeerSend k r x#} + M)" for x
    by (rule resource_inv_items [OF inv ref]) (auto simp: late_def intro: rinv_continue [OF _ post])
  moreover have "resource_inv (d_send j d) M" for j
    by (rule resource_inv_frame [OF resource_inv_drop [OF inv]]) (use post in \<open>auto simp: d_send_def same_res_same\<close>)
  ultimately show ?thesis
    using t w by (auto simp: createPeer_offer_def createPeer_send_def d_next_def d_done_def split: sum.splits if_splits)
qed

lemma drop_turn:
  assumes inv: "resource_inv d (add_mset w M)"
    and r: "\<And>reg cls ntf. rinv reg cls ntf (add_mset w M) r \<Longrightarrow> rinv reg cls ntf M r \<and> rinv False cls ntf M r"
    and w: "refers r w"
  shows "resource_inv (drop_entry k r d) M"
proof -
  have "resource_inv (drop_entry k r d) ({#} + M)"
  proof (rule resource_inv_swap [OF inv w])
    show "rinv (registered d r) (r \<in> dm_closed d) (r \<in> dm_notified d) (add_mset w M) r \<Longrightarrow>
      rinv (registered (drop_entry k r d) r) (r \<in> dm_closed (drop_entry k r d)) (r \<in> dm_notified (drop_entry k r d)) ({#} + M) r"
      using r by (cases "registered (drop_entry k r d) r") (auto simp: registered_drop_self)
  qed (use inv in \<open>simp_all add: resource_inv_def heap_inv_drop registered_drop\<close>)
  then show ?thesis by simp
qed

lemma rinv_closed_gone: "rinv reg cls ntf (add_mset (WClosed r) M) r \<Longrightarrow> rinv reg cls ntf M r"
  by (auto simp: rinv_def)

lemma closing_turn:
  assumes inv: "resource_inv d (add_mset (WClose r) M)" and t: "daemon_turn E inp (WClose r) d = (d', next, new)"
  shows "resource_inv d' (mset next + mset (concat new) + M)"
proof -
  have r: "r < dm_nextRes d" using inv by (simp add: resource_inv_def item_ok_def refers_def)
  let ?N = "if r \<in> dm_notified d then {#} else {#WClosed r#}"
  let ?d = "d\<lparr>dm_closed := insert r (dm_closed d), dm_notified := insert r (dm_notified d)\<rparr>"
  have "resource_inv ?d (?N + M)"
  proof (rule resource_inv_swap [OF inv])
    show "heap_inv ?d" using inv r by (auto simp: resource_inv_def heap_inv_def)
    show "rinv (registered d r) (r \<in> dm_closed d) (r \<in> dm_notified d) (add_mset (WClose r) M) r \<Longrightarrow>
      rinv (registered ?d r) (r \<in> dm_closed ?d) (r \<in> dm_notified ?d) (?N + M) r"
      using rinv_closing [of "registered d r" "r \<in> dm_closed d" "r \<in> dm_notified d" r M] by (auto simp: registered_def split: if_splits)
  qed (auto simp: refers_def late_def registered_def)
  then show ?thesis using t by (auto simp: close_resource_def insert_absorb split: if_splits)
qed

lemma start_turn:
  assumes inv: "resource_inv d (add_mset (WRelayStart r) M)" and t: "daemon_turn E inp (WRelayStart r) d = (d', next, new)"
  shows "resource_inv d' (mset next + mset (concat new) + M)"
proof (cases "in_err inp = None")
  case True
  let ?d = "d\<lparr>dm_closed := dm_closed d - {r}\<rparr>"
  have "resource_inv ?d ({#WRelayCheck r#} + M)"
  proof (rule resource_inv_swap [OF inv])
    show "heap_inv ?d" using inv by (auto simp: resource_inv_def heap_inv_def)
    show "rinv (registered d r) (r \<in> dm_closed d) (r \<in> dm_notified d) (add_mset (WRelayStart r) M) r \<Longrightarrow>
      rinv (registered ?d r) (r \<in> dm_closed ?d) (r \<in> dm_notified ?d) ({#WRelayCheck r#} + M) r"
      using rinv_started by (auto simp: registered_def)
  qed (auto simp: refers_def late_def registered_def)
  then show ?thesis using t True by (auto simp: handleRelayPrepare_start_def d_next_def)
next
  case False
  have r: "r < dm_nextRes d" using inv by (simp add: resource_inv_def item_ok_def refers_def)
  let ?N = "if r \<in> dm_notified d then {#} else {#WClosed r#}"
  let ?d = "drop_entry RelayRes r (d\<lparr>dm_closed := insert r (dm_closed d), dm_notified := insert r (dm_notified d)\<rparr>)"
  have "resource_inv ?d (?N + M)"
  proof (rule resource_inv_swap [OF inv])
    show "heap_inv ?d" using inv r by (intro heap_inv_drop) (auto simp: resource_inv_def heap_inv_def)
    show "rinv (registered d r) (r \<in> dm_closed d) (r \<in> dm_notified d) (add_mset (WRelayStart r) M) r \<Longrightarrow>
      rinv (registered ?d r) (r \<in> dm_closed ?d) (r \<in> dm_notified ?d) (?N + M) r"
      using rinv_start_failed [of _ "r \<in> dm_closed d" "r \<in> dm_notified d" r M] by (auto split: if_splits)
    show "registered ?d r' = registered d r' \<and> (r' \<in> dm_closed ?d \<longleftrightarrow> r' \<in> dm_closed d) \<and> (r' \<in> dm_notified ?d \<longleftrightarrow> r' \<in> dm_notified d)"
      if "r' \<noteq> r" for r'
      using that by (auto simp: registered_drop) (auto simp: registered_def)
  qed (auto simp: refers_def late_def)
  then show ?thesis
    using t False by (auto simp: handleRelayPrepare_start_def close_resource_def insert_absorb entry_folds split: if_splits)
qed


lemma check_turn:
  assumes inv: "resource_inv d (add_mset (WRelayCheck r) M)" and t: "daemon_turn E inp (WRelayCheck r) d = (d', next, new)"
  shows "resource_inv d' (mset next + mset (concat new) + M)"
proof (cases "relayChannelCurrent r d")
  case True
  then have "(rs_key (dm_res d r), r) \<in> set (table RelayRes (dm_heap d (rs_session (dm_res d r))))"
    by (simp add: relayChannelCurrent_def Let_def map_of_SomeD)
  moreover have "heap_inv d" using inv by (simp add: resource_inv_def)
  ultimately have "registered d r" by (rule registered_entry [rotated])
  then have "resource_inv d ({#} + M)"
    by (intro resource_inv_items [OF inv]) (auto simp: refers_def intro: rinv_check(1))
  then show ?thesis using True t by (auto simp: handleRelayPrepare_check_def d_done_def)
next
  case False
  have "resource_inv d (add_mset (WClose r) M)"
    by (rule resource_inv_to_close [OF inv]) (auto simp: refers_def intro: rinv_check(2))
  then show ?thesis using False t by (auto simp: handleRelayPrepare_check_def d_next_def)
qed

lemma open_turn:
  assumes inv: "resource_inv d (add_mset (WOpen r) M)" and t: "daemon_turn E inp (WOpen r) d = (d', next, new)"
  shows "resource_inv d' (mset next + mset (concat new) + M)"
proof -
  have "resource_inv d ({#WActivate r#} + M)"
    by (rule resource_inv_items [OF inv]) (auto simp: refers_def late_def intro: rinv_continue)
  moreover have "resource_inv d M" by (rule resource_inv_drop [OF inv]) auto
  moreover have "same_res d (d\<lparr>dm_activated := x\<rparr>)" for x by (simp add: same_res_same)
  ultimately show ?thesis
    using t by (auto simp: wireTransferSession_def d_done_def d_next_def Let_def split: if_splits intro: resource_inv_frame)
qed

lemma activate_turn:
  assumes inv: "resource_inv d (add_mset (WActivate r) M)" and t: "daemon_turn E inp (WActivate r) d = (d', next, new)"
  shows "resource_inv d' (mset next + mset (concat new) + M)"
proof -
  have "resource_inv d (add_mset (WClose r) M)"
    by (rule resource_inv_to_close [OF inv]) (auto simp: refers_def intro: rinv_post_close)
  moreover have "resource_inv d M" by (rule resource_inv_drop [OF inv]) auto
  moreover have "same_res d (d\<lparr>dm_managers := x\<rparr>)" for x by (simp add: same_res_same)
  ultimately show ?thesis
    using t by (auto simp: activateTransferSession_def d_done_def d_next_def Let_def split: if_splits intro: resource_inv_frame)
qed

lemma teardown_turn:
  assumes inv: "resource_inv d (add_mset (WTeardown s m) M)" and t: "daemon_turn E inp (WTeardown s m) d = (d', next, new)"
  shows "resource_inv d' (mset next + mset (concat new) + M)"
proof -
  have "resource_inv d M" by (rule resource_inv_drop [OF inv]) (simp add: plain_def refers_def)
  note td = resource_inv_teardown [OF this, of s]
  let ?notes = "if m \<noteq> [] then map (\<lambda>r. WNotify r m) (map snd (ds_relayChannels (dm_heap d s))) else []"
  have "resource_inv d1 (mset ?notes + N) = resource_inv d1 N" for d1 N
    by (rule resource_inv_lights) auto
  then show ?thesis
    using td t by (simp only: daemon_turn.simps closeSessionResourcesWithError_def d_next_def Let_def prod.inject)
      (auto simp: add.assoc)
qed

lemma add_turn:
  assumes inv: "resource_inv d (add_mset w M)" and t: "daemon_turn E inp w d = (d', next, new)"
    and fresh: "fresh_item w"
    and w: "w = WCreateAdd x \<or> w = WManualAdd x \<or> w = WLoadAdd x es pub \<or> w = WSyncAdd x ls seen pub'"
  shows "resource_inv d' (mset next + mset (concat new) + M)"
proof -
  have "resource_inv d M" by (rule resource_inv_drop [OF inv]) (use w in \<open>auto simp: plain_def refers_def\<close>)
  then have "resource_inv (add_session x d) M" using w fresh by (auto intro: resource_inv_add_session)
  moreover have "d' = add_session x d" "\<forall>y\<in>set next. light y" "new = []"
    using t w by (auto simp: CreateSession_add_def createManualImmichSession_add_def load_add_def sync_add_def d_next_def)
  ultimately show ?thesis using resource_inv_lights [of "next"] by simp
qed

lemma relay_turn:
  assumes inv: "resource_inv d (add_mset (WRelay k sid jwt) M)" and t: "daemon_turn E inp (WRelay k sid jwt) d = (d', next, new)"
  shows "resource_inv d' (mset next + mset (concat new) + M)"
proof -
  have M: "resource_inv d M" by (rule resource_inv_drop [OF inv]) (simp add: plain_def refers_def)
  then have "heap_inv d" by (simp add: resource_inv_def)
  then show ?thesis
    using t M d_session_bound by (auto simp: handleRelayPrepare_def d_done_def d_next_def resource_inv_relay_new split: option.splits)
qed

lemma closed_turn:
  assumes inv: "resource_inv d (add_mset w M)" and t: "daemon_turn E inp w d = (d', next, new)"
    and w: "w = WClosed r \<or> w = WPeerDrop r"
  shows "resource_inv d' (mset next + mset (concat new) + M)"
proof -
  have "resource_inv (drop_entry k r d) M" for k
    using w
  proof
    assume "w = WClosed r"
    then show ?thesis using drop_turn [OF inv] rinv_closed_gone rinv_closed_drop by (auto simp: refers_def)
  next
    assume "w = WPeerDrop r"
    then show ?thesis using drop_turn [OF inv] rinv_drop_post [of r w] rinv_drop_registration by (auto simp: refers_def)
  qed
  then show ?thesis
    using t w by (auto simp: resource_closed_def entry_folds d_done_def split: res_kind.splits)
qed

lemma resource_turn:
  assumes "resource_inv d (add_mset w M)" "fresh_item w" "daemon_turn E inp w d = (d', next, new)"
  shows "resource_inv d' (mset next + mset (concat new) + M)"
proof (cases "quiet w")
  case True
  then show ?thesis using resource_quiet_turn assms by blast
next
  case False
  note turns = create_turn relay_new_turn register_turn offer_turn closing_turn start_turn check_turn open_turn activate_turn
    teardown_turn add_turn relay_turn closed_turn
  show ?thesis
    by (cases w) (use False assms in \<open>simp_all only: quiet.simps simp_thms, (blast intro: turns)+\<close>)
qed


definition connection_inv :: "Daemon \<Rightarrow> work multiset \<Rightarrow> bool" where
  "connection_inv d M \<longleftrightarrow> resource_inv d M \<and> (\<forall>w\<in>#M. fresh_item w)"

lemma call_light: "is_call w \<Longrightarrow> light w \<and> fresh_item w"
  by (cases w) auto

lemma event_post: "is_event r w \<Longrightarrow> fresh_item w \<and> (w = WClose r \<or> post r w \<and> w \<noteq> WPeerDrop r) \<and> late r w"
  by (cases w) (auto simp: late_def)

lemma message_light:
  assumes "handleSignalingMessage inp msg d = (d', new)"
  shows "same_res d d' \<and> (\<forall>w\<in>set (concat new). light w \<and> fresh_item w)"
  using assms by (auto simp: handleSignalingMessage_def same_res_same split: if_splits)

lemma event_keeps:
  assumes inv: "resource_inv d M" and e: "is_event r w" "r < dm_nextRes d" "\<forall>w'\<in>#M. \<not> unstarted r w'"
  shows "resource_inv d (add_mset w M)"
proof -
  have early: "early r M = 0" using e(3) by (simp add: early_0)
  have ok: "item_ok d w" using late_ok event_post [OF e(1)] e(2) by blast
  have "rinv reg cls ntf (add_mset w M) q" if "rinv reg cls ntf M q" for q reg cls ntf
  proof (cases "q = r")
    case True
    then show ?thesis using that early event_post [OF e(1)] rinv_close rinv_post by auto
  next
    case False
    then have "\<not> refers q w" using event_post [OF e(1)] late_refers refers_unique by blast
    then show ?thesis using that rinv_other by simp
  qed
  then show ?thesis using inv ok by (simp add: resource_inv_def)
qed

lemma heap_inv_New: "heap_inv (daemon_New cfg st fs)"
proof -
  have "table k blankSession = []" for k by (cases k) (simp_all add: blankSession_def)
  then show ?thesis by (simp add: heap_inv_def daemon_New_def)
qed

lemma connection_message:
  assumes "connection_inv d M" "handleSignalingMessage inp msg d = (d', new)"
  shows "connection_inv d' (M + items new)"
proof -
  have "resource_inv d' M" using assms message_light resource_inv_frame by (auto simp: connection_inv_def)
  then show ?thesis
    using assms message_light [OF assms(2)] resource_inv_lights [of "concat new" d' M]
    by (auto simp: connection_inv_def items_def add.commute)
qed

interpretation connections: daemon_inv E connection_inv for E
proof
  show "connection_inv (daemon_New cfg st fs) {#}" for cfg st fs
    using heap_inv_New by (simp add: connection_inv_def resource_inv_def) (simp add: daemon_New_def)
  show "connection_inv d M \<Longrightarrow> handleSignalingMessage inp msg d = (d', new) \<Longrightarrow> connection_inv d' (M + items new)"
    for d M inp msg d' new by (rule connection_message)
  show "connection_inv d M \<Longrightarrow> is_call w \<Longrightarrow> connection_inv d (add_mset w M)" for d M w
    using call_light resource_inv_light by (auto simp: connection_inv_def)
  show "connection_inv d M \<Longrightarrow> is_event r w \<Longrightarrow> r < dm_nextRes d \<Longrightarrow> \<forall>w'\<in>#M. \<not> unstarted r w' \<Longrightarrow> connection_inv d (add_mset w M)"
    for d M r w using event_keeps event_post by (auto simp: connection_inv_def)
  show "connection_inv d (add_mset w M) \<Longrightarrow> daemon_turn E inp w d = (d', next, new) \<Longrightarrow>
      connection_inv d' (mset next + mset (concat new) + M)" for d w M inp d' "next" new
    using resource_turn [of d w M E inp d' "next" new] fresh_turn [of E inp w d d' "next" new] unfolding connection_inv_def by auto
qed


section \<open>Runs\<close>

text \<open>Runs of the daemon that can be evaluated.\<close>

datatype move = MMessage turn_in Message | MCall work | MEvent nat work | MTurn nat turn_in

fun daemon_move :: "denv \<Rightarrow> move \<Rightarrow> dsys \<Rightarrow> dsys" where
  "daemon_move E (MMessage inp msg) (d, gs) = (let (d', new) = handleSignalingMessage inp msg d in (d', gs @ new))"
| "daemon_move E (MCall w) (d, gs) = (if is_call w then (d, gs @ [[w]]) else (d, gs))"
| "daemon_move E (MEvent r w) (d, gs) =
     (if is_event r w \<and> r < dm_nextRes d \<and> list_all (\<lambda>w'. \<not> unstarted r w') (concat gs) then (d, gs @ [[w]]) else (d, gs))"
| "daemon_move E (MTurn i inp) (d, gs) =
     (if i < length gs then
        (case gs ! i of
           [] \<Rightarrow> (d, gs)
         | w # ws \<Rightarrow> let (d', next, new) = daemon_turn E inp w d in (d', gs[i := next @ ws] @ new))
      else (d, gs))"

lemma daemon_move_steps: "(daemon_step E)\<^sup>*\<^sup>* (d, gs) (daemon_move E m (d, gs))"
proof (cases m)
  case (MEvent r w)
  then show ?thesis using daemon_step.event [of r w d gs E] by (auto simp: list_all_iff)
qed (auto split: prod.splits list.splits intro!: r_into_rtranclp daemon_step.message daemon_step.call daemon_step.turn)

lemma daemon_run_steps: "(daemon_step E)\<^sup>*\<^sup>* s (fold (daemon_move E) ms s)"
proof (induction ms arbitrary: s)
  case (Cons m ms)
  then show ?case using daemon_move_steps [of E "fst s" "snd s" m] by (simp add: rtranclp_trans)
qed simp

definition sample_env :: denv where
  "sample_env = \<lparr>de_hmac = (\<lambda>password nonce. map of_char (password @ nonce)), de_pub = (\<lambda>_. Inr [4]), de_time = plain_time\<rparr>"

definition sample_in :: turn_in where
  "sample_in = \<lparr>in_now = 3, in_random = Inr [7], in_err = None, in_fault = SaveOk, in_key = Inr [1], in_client = Inr 0,
     in_fileID = Inr ''f'', in_reg = Inr (''s'', False), in_links = Inr [], in_offer = Inr ''o'', in_valid = Inr True,
     in_ice = [], in_gallery = True\<rparr>"

definition sample_message :: Message where
  "sample_message = \<lparr>sm_Type = [], sm_SessionID = [], sm_PeerID = [], sm_SDP = [], sm_Candidate = JNull, sm_Err = [], sm_Code = ''s'',
     sm_ConnID = ''c'', sm_HMAC = [], sm_Password = [], sm_Reconnected = False, sm_ICEServers = [], sm_SID = ''x'', sm_RelayJWT = ''j'',
     sm_ExpiresAt = []\<rparr>"

definition sample_daemon :: Daemon where
  "sample_daemon = daemon_New \<lparr>dc_ImmichURL = [], dc_ImmichAPIKey = [], dc_AllowedHost = [], dc_NCAllowedHost = [],
     dc_DefaultRelayOnly = False\<rparr> empty_store Map.empty"

text \<open>A share with a password is created and a relay channel for it is started.\<close>

definition sample_share :: "move list" where
  "sample_share = MCall (WCreate ''u'' ''nextcloud'' ''p'' 60 0 False) # replicate 4 (MTurn 0 sample_in)"

definition sample_relay :: "move list" where
  "sample_relay = sample_share @ MMessage sample_in (sample_message\<lparr>sm_Type := ''relay_prepare''\<rparr>) # replicate 5 (MTurn 1 sample_in)"

text \<open>
  (C17) No connection is lost track of, whatever the interleaving of browsers joining, relay sessions, revocation, expiry, synchronisation
  and transports failing: every peer and every relay channel that was ever created has its transport closed, or stands in the table of its own
  session, or a goroutine has still to register it, to start it, to check it after its start, or to close it. A session that is being closed has
  empty tables, also when a peer was being set up at that moment. Once all goroutines are done, every transport that is still open can be
  found from a session that is not being closed.
\<close>

definition in_hand :: "nat \<Rightarrow> work \<Rightarrow> bool" where
  "in_hand r w \<longleftrightarrow> unstarted r w \<or> w = WRelayCheck r \<or> w = WClose r"

theorem no_leaked_connections:
  assumes "(daemon_step E)\<^sup>*\<^sup>* (daemon_New cfg st fs, []) (d, gs)" and "r < dm_nextRes d"
  shows "(r \<in> dm_closed d \<or> registered d r \<or> list_ex (in_hand r) (concat gs))
    \<and> (ds_closing (dm_heap d s) \<longrightarrow> ds_peers (dm_heap d s) = [] \<and> ds_relayChannels (dm_heap d s) = [])
    \<and> (concat gs = [] \<longrightarrow> r \<in> dm_closed d \<or> registered d r \<and> \<not> ds_closing (dm_heap d (rs_session (dm_res d r))))"
proof -
  have inv: "resource_inv d (items gs)" using connections.holds [OF assms(1)] by (simp add: connection_inv_def)
  have h: "heap_inv d" using inv by (simp add: resource_inv_def)
  have c: "table k (dm_heap d t) = []" if "ds_closing (dm_heap d t)" for k t using heap_invD(2) [OF h that] .
  have "registered d r \<longrightarrow> \<not> ds_closing (dm_heap d (rs_session (dm_res d r)))" using c by (auto simp: registered_def)
  moreover have "r \<in> dm_closed d \<or> registered d r \<or> list_ex (in_hand r) (concat gs)"
  proof -
    have "r \<in> dm_closed d \<or> registered d r \<or> 0 < early r (items gs) \<or> WClose r \<in># items gs \<or> WRelayCheck r \<in># items gs"
      using inv assms(2) unfolding resource_inv_def rinv_def by blast
    moreover have "0 < early r (items gs) \<Longrightarrow> \<exists>w\<in>set (concat gs). unstarted r w" using early_0 [of r "items gs"] by (auto simp: items_def)
    ultimately show ?thesis by (auto simp: in_hand_def list_ex_iff items_def)
  qed
  moreover have "concat gs = [] \<longrightarrow> \<not> list_ex (in_hand r) (concat gs)" by (auto simp: list_ex_iff)
  ultimately show ?thesis using c [of s PeerRes] c [of s RelayRes] unfolding table_simps by blast
qed

lemma sample_relay_run:
  "(let (d, gs) = fold (daemon_move sample_env) sample_relay (sample_daemon, []) in
    dm_nextRes d = 1 \<and> concat gs = [] \<and> 0 \<notin> dm_closed d)"
  by code_simp

theorem no_leaked_connections_witness:
  "\<exists>d gs. (daemon_step sample_env)\<^sup>*\<^sup>* (sample_daemon, []) (d, gs) \<and> 0 < dm_nextRes d \<and> 0 \<notin> dm_closed d \<and> registered d 0"
proof -
  obtain d gs where run: "fold (daemon_move sample_env) sample_relay (sample_daemon, []) = (d, gs)" by fastforce
  then have "dm_nextRes d = 1" "concat gs = []" "0 \<notin> dm_closed d" using sample_relay_run by simp_all
  moreover have steps: "(daemon_step sample_env)\<^sup>*\<^sup>* (sample_daemon, []) (d, gs)" using daemon_run_steps run by metis
  ultimately have "0 < dm_nextRes d" "registered d 0"
    using no_leaked_connections [OF steps [unfolded sample_daemon_def], of 0 0] by simp_all
  then show ?thesis using steps \<open>0 \<notin> dm_closed d\<close> by blast
qed

end
