(* ===== verification/Daemon_Admission.thy ===== *)
theory Daemon_Admission
  imports Daemon_Properties
begin

text \<open>
  Who is let in by \<^verbatim>\<open>handleJoin\<close>: what the daemon sent to a browser as a nonce is used up by at most one admission, in any interleaving. The log
  of the daemon records the nonces it gave out, the admissions and the peers it created for them.
\<close>

section \<open>Counting\<close>

fun is_nonce :: "string \<Rightarrow> string \<Rightarrow> dlog \<Rightarrow> bool" where
  "is_nonce c n (LNonce c' n' t) = (c' = c \<and> n' = n)"
| "is_nonce c n _ = False"

fun is_auth :: "string \<Rightarrow> string \<Rightarrow> dlog \<Rightarrow> bool" where
  "is_auth c n (LAuth c' k s n' h t) = (c' = c \<and> n' = n)"
| "is_auth c n _ = False"

fun is_admission :: "string \<Rightarrow> string \<Rightarrow> dlog \<Rightarrow> bool" where
  "is_admission c k (LAuth c' k' s n h t) = (c' = c \<and> k' = k)"
| "is_admission c k _ = False"

fun is_peer :: "string \<Rightarrow> string \<Rightarrow> dlog \<Rightarrow> bool" where
  "is_peer c k (LPeer c' k' r) = (c' = c \<and> k' = k)"
| "is_peer c k _ = False"

definition occurs :: "('a \<Rightarrow> bool) \<Rightarrow> 'a list \<Rightarrow> nat" where
  "occurs P xs = length (filter P xs)"

lemma occurs_snoc [simp]: "occurs P (xs @ [x]) = occurs P xs + (if P x then 1 else 0)"
  by (simp add: occurs_def)

definition waiting :: "(work \<Rightarrow> bool) \<Rightarrow> work multiset \<Rightarrow> nat" where
  "waiting P M = size (filter_mset P M)"

lemma waiting_simps [simp]:
  "waiting P {#} = 0" "waiting P (add_mset w M) = (if P w then 1 else 0) + waiting P M" "waiting P (M + N) = waiting P M + waiting P N"
  by (simp_all add: waiting_def)

lemma waiting_none: "\<forall>w\<in>set ws. \<not> P w \<Longrightarrow> waiting P (mset ws) = 0"
  by (induction ws) auto

fun verifies :: "string \<Rightarrow> string \<Rightarrow> work \<Rightarrow> bool" where
  "verifies c n (WJoinVerify c' k h s (Some e)) = (c' = c \<and> ne_nonce e = n)"
| "verifies c n _ = False"

fun connects :: "string \<Rightarrow> string \<Rightarrow> work \<Rightarrow> bool" where
  "connects c k (WPeer c' k') = (c' = c \<and> k' = k)"
| "connects c k _ = False"

definition stored :: "string \<Rightarrow> string \<Rightarrow> (string \<rightharpoonup> nonceEntry) \<Rightarrow> nat" where
  "stored c n m = (case m c of None \<Rightarrow> 0 | Some e \<Rightarrow> if ne_nonce e = n then 1 else 0)"

section \<open>The invariant\<close>

text \<open>What an admission in the log is worth, given the sessions as they are now.\<close>

definition admitted :: "denv \<Rightarrow> Daemon \<Rightarrow> dlog \<Rightarrow> bool" where
  "admitted E d l \<longleftrightarrow>
     (case l of
        LAuth c k s n h t \<Rightarrow> s < dm_nextSession d \<and> list_ex (\<lambda>e. case e of LNonce c' n' x \<Rightarrow> c' = c \<and> n' = n \<and> t \<le> x | _ \<Rightarrow> False) (dm_log d)
          \<and> hmac_accepted E (dm_heap d s) n h
          \<and> \<not> (ds_ShareType (dm_heap d s) = ''immich'' \<and> ds_IsPasswordProtected (dm_heap d s))
      | _ \<Rightarrow> True)"

definition given_out :: "string \<Rightarrow> nonceEntry \<Rightarrow> Daemon \<Rightarrow> bool" where
  "given_out c e d \<longleftrightarrow> LNonce c (ne_nonce e) (ne_expiresAt e) \<in> set (dm_log d)"

fun item_join :: "Daemon \<Rightarrow> work \<Rightarrow> bool" where
  "item_join d (WJoinNonce c k h s) = (s < dm_nextSession d)"
| "item_join d (WJoinVerify c k h s found) = (s < dm_nextSession d \<and> (\<forall>e. found = Some e \<longrightarrow> given_out c e d))"
| "item_join d _ = True"

definition join_counts :: "Daemon \<Rightarrow> work multiset \<Rightarrow> bool" where
  "join_counts d M \<longleftrightarrow>
     (\<forall>c n. occurs (is_auth c n) (dm_log d) + waiting (verifies c n) M + stored c n (dm_nonces d) \<le> occurs (is_nonce c n) (dm_log d))
     \<and> (\<forall>c k. occurs (is_peer c k) (dm_log d) + waiting (connects c k) M \<le> occurs (is_admission c k) (dm_log d))"

definition join_facts :: "denv \<Rightarrow> Daemon \<Rightarrow> bool" where
  "join_facts E d \<longleftrightarrow> (\<forall>l\<in>set (dm_log d). admitted E d l) \<and> (\<forall>c e. dm_nonces d c = Some e \<longrightarrow> given_out c e d)"

definition join_inv :: "denv \<Rightarrow> Daemon \<Rightarrow> work multiset \<Rightarrow> bool" where
  "join_inv E d M \<longleftrightarrow> join_counts d M \<and> join_facts E d \<and> (\<forall>w\<in>#M. item_join d w)"

section \<open>Turns that admit nobody\<close>

definition secrets :: "Session \<Rightarrow> string \<times> string \<times> bool" where
  "secrets x = (ds_Password x, ds_ShareType x, ds_IsPasswordProtected x)"

definition keeps_secrets :: "Daemon \<Rightarrow> Daemon \<Rightarrow> bool" where
  "keeps_secrets d d' \<longleftrightarrow> dm_nextSession d \<le> dm_nextSession d' \<and> (\<forall>s<dm_nextSession d. secrets (dm_heap d' s) = secrets (dm_heap d s))"

fun admitting :: "work \<Rightarrow> bool" where
  "admitting (WJoinNonce c k h s) = True"
| "admitting (WJoinVerify c k h s e) = True"
| "admitting (WPeer c k) = True"
| "admitting _ = False"

fun calm :: "work \<Rightarrow> bool" where
  "calm (WKnockStore c s n) = False"
| "calm (WJoin c k h) = False"
| "calm (WJoinNonce c k h s) = False"
| "calm (WJoinVerify c k h s e) = False"
| "calm (WPeer c k) = False"
| "calm _ = True"

lemma secrets_updates [simp]:
  "secrets (drop_peer k r x) = secrets x" "secrets (put_peer k r x) = secrets x" "secrets (drop_relay k r x) = secrets x"
  "secrets (put_relay k r x) = secrets x" "secrets (x\<lparr>ds_Downloads := n\<rparr>) = secrets x"
  "secrets (x\<lparr>ds_closing := b, ds_peers := ps, ds_relayChannels := rs\<rparr>) = secrets x"
  by (simp_all add: secrets_def drop_peer_def put_peer_def drop_relay_def put_relay_def)

lemma keeps_same: "dm_heap d' = dm_heap d \<Longrightarrow> dm_nextSession d' = dm_nextSession d \<Longrightarrow> keeps_secrets d d'"
  by (simp add: keeps_secrets_def)

lemma keeps_upd: "(\<And>x. secrets (f x) = secrets x) \<Longrightarrow> keeps_secrets d d' \<Longrightarrow> keeps_secrets d (upd_session s f d')"
  by (simp add: keeps_secrets_def upd_session_def)

lemma keeps_add: "keeps_secrets d (add_session x d)"
  by (simp add: keeps_secrets_def add_session_def)

lemma upd_fields:
  "dm_log (upd_session s f d) = dm_log d" "dm_nonces (upd_session s f d) = dm_nonces d"
  "dm_log (add_session x d) = dm_log d" "dm_nonces (add_session x d) = dm_nonces d"
  by (simp_all add: upd_session_def add_session_def)

lemma quiet_calm_turn:
  assumes "calm w" "quiet w" "\<forall>r n. w \<noteq> WDownload r n" "daemon_turn E inp w d = (d', next, new)"
  shows "dm_log d' = dm_log d \<and> dm_nonces d' = dm_nonces d \<and> dm_heap d' = dm_heap d \<and> dm_nextSession d' = dm_nextSession d"
  using assms
  by (cases w) (auto simp: turn_defs split: option.splits sum.splits prod.splits if_splits list.splits)

lemma loud_calm_turn:
  assumes "calm w" "\<not> quiet w \<or> w = WDownload r n" "daemon_turn E inp w d = (d', next, new)"
  shows "dm_log d' = dm_log d \<and> dm_nonces d' = dm_nonces d \<and> keeps_secrets d d'"
  using assms
  by (cases w) (auto simp: turn_defs keeps_same keeps_upd keeps_add upd_fields removeRelayChannelIfCurrent_def new_resource_def
    simp del: upd_session_def split: option.splits sum.splits prod.splits if_splits list.splits res_kind.splits)

lemma calm_turn_items:
  assumes "calm w" "daemon_turn E inp w d = (d', next, new)"
  shows "(\<forall>x\<in>set next. \<not> admitting x) \<and> (\<forall>x\<in>set (concat new). \<not> admitting x)"
  using assms
  by (cases w) (auto simp: turn_defs split: option.splits sum.splits prod.splits if_splits list.splits res_kind.splits)

lemma calm_turn:
  assumes "calm w" "daemon_turn E inp w d = (d', next, new)"
  shows "dm_log d' = dm_log d \<and> dm_nonces d' = dm_nonces d \<and> keeps_secrets d d'"
proof (cases "quiet w \<and> (\<forall>r n. w \<noteq> WDownload r n)")
  case True
  then show ?thesis using quiet_calm_turn [OF assms(1) _ _ assms(2)] keeps_same by auto
next
  case False
  then show ?thesis using loud_calm_turn [OF assms(1) _ assms(2)] by auto
qed


lemma given_mono: "given_out c e d \<Longrightarrow> set (dm_log d) \<subseteq> set (dm_log d') \<Longrightarrow> given_out c e d'"
  by (auto simp: given_out_def)

lemma secrets_hmac: "secrets x = secrets y \<Longrightarrow> hmac_accepted E x = hmac_accepted E y"
  by (intro ext) (simp add: hmac_accepted_def secrets_def)

lemma admitted_mono:
  assumes "admitted E d l" "keeps_secrets d d'" "set (dm_log d) \<subseteq> set (dm_log d')"
  shows "admitted E d' l"
proof (cases l)
  case (LAuth c k s n h t)
  then have "secrets (dm_heap d' s) = secrets (dm_heap d s)" "s < dm_nextSession d'"
    using assms(1,2) by (auto simp: admitted_def keeps_secrets_def)
  then show ?thesis
    using assms(1,3) LAuth secrets_hmac [of "dm_heap d' s" "dm_heap d s" E] unfolding admitted_def
    by (auto simp: list_ex_iff secrets_def)
qed (simp_all add: admitted_def)

lemma item_join_mono:
  assumes "item_join d w" "keeps_secrets d d'" "set (dm_log d) \<subseteq> set (dm_log d')"
  shows "item_join d' w"
  using assms by (cases w) (auto simp: keeps_secrets_def intro: given_mono)

lemma join_inv_frame:
  assumes "join_inv E d M" "dm_log d' = dm_log d" "dm_nonces d' = dm_nonces d" "keeps_secrets d d'"
  shows "join_inv E d' M"
proof -
  have "join_facts E d'" using assms admitted_mono [of E d _ d'] given_mono [of _ _ d d'] by (simp add: join_inv_def join_facts_def)
  then show ?thesis using assms item_join_mono [of d _ d'] by (simp add: join_inv_def join_counts_def)
qed

lemma unadmitting:
  assumes "\<not> admitting w"
  shows "\<not> verifies c n w" "\<not> connects c k w" "item_join d w"
  using assms by (cases w; simp)+

lemma join_inv_unadmitting: "\<not> admitting w \<Longrightarrow> join_inv E d (add_mset w M) = join_inv E d M"
  by (auto simp: join_inv_def join_counts_def unadmitting)

lemma join_inv_unadmittings: "\<forall>w\<in>set ws. \<not> admitting w \<Longrightarrow> join_inv E d (mset ws + M) = join_inv E d M"
  by (induction ws) (simp_all add: join_inv_unadmitting)

lemma join_countsI:
  assumes "\<And>c n. occurs (is_auth c n) (dm_log d) + waiting (verifies c n) M + stored c n (dm_nonces d) \<le> occurs (is_nonce c n) (dm_log d)"
    and "\<And>c k. occurs (is_peer c k) (dm_log d) + waiting (connects c k) M \<le> occurs (is_admission c k) (dm_log d)"
  shows "join_counts d M"
  using assms unfolding join_counts_def by blast

lemma join_countsD:
  assumes "join_counts d M"
  shows "occurs (is_auth c n) (dm_log d) + waiting (verifies c n) M + stored c n (dm_nonces d) \<le> occurs (is_nonce c n) (dm_log d)"
    and "occurs (is_peer c k) (dm_log d) + waiting (connects c k) M \<le> occurs (is_admission c k) (dm_log d)"
  using assms unfolding join_counts_def by blast+

lemma join_counts_smaller:
  assumes "join_counts d (add_mset w M)"
  shows "join_counts d M"
proof (rule join_countsI)
  show "occurs (is_auth c n) (dm_log d) + waiting (verifies c n) M + stored c n (dm_nonces d) \<le> occurs (is_nonce c n) (dm_log d)" for c n
    using join_countsD(1) [OF assms, of c n] by simp
  show "occurs (is_peer c k) (dm_log d) + waiting (connects c k) M \<le> occurs (is_admission c k) (dm_log d)" for c k
    using join_countsD(2) [OF assms, of c k] by simp
qed

lemma join_inv_smaller: "join_inv E d (add_mset w M) \<Longrightarrow> join_inv E d M"
  using join_counts_smaller unfolding join_inv_def by auto

lemma calm_join_turn:
  assumes "join_inv E d (add_mset w M)" "calm w" "daemon_turn E inp w d = (d', next, new)"
  shows "join_inv E d' (mset next + mset (concat new) + M)"
proof -
  have "join_inv E d' M" using join_inv_frame [OF join_inv_smaller [OF assms(1)]] calm_turn [OF assms(2,3)] by blast
  then show ?thesis
    using calm_turn_items [OF assms(2,3)] join_inv_unadmittings [of "concat new" E d' M]
      join_inv_unadmittings [of "next" E d' "mset (concat new) + M"] by (simp add: add.assoc)
qed

section \<open>Turns that do\<close>

lemma swept_stored: "stored c n (sweepNonces now m) \<le> stored c n m"
  by (auto simp: stored_def sweepNonces_def split: option.splits)

lemma log_keeps [simp]: "keeps_secrets d (d_log l d)" "keeps_secrets d d" "keeps_secrets d (d\<lparr>dm_nonces := m\<rparr>)" "keeps_secrets d (d_send j d)"
  by (simp_all add: keeps_same d_log_def d_send_def)

lemma knock_turn:
  assumes inv: "join_inv E d (add_mset (WKnockStore c s n) M)" and t: "daemon_turn E inp (WKnockStore c s n) d = (d', next, new)"
  shows "join_inv E d' (mset next + mset (concat new) + M)"
proof -
  let ?e = "\<lparr>ne_nonce = n, ne_expiresAt = in_now inp + nonceTTL\<rparr>"
  have M: "join_inv E d M" by (rule join_inv_smaller [OF inv])
  have d': "dm_log d' = dm_log d @ [LNonce c n (in_now inp + nonceTTL)]" "dm_nonces d' = (sweepNonces (in_now inp) (dm_nonces d))(c \<mapsto> ?e)"
    "keeps_secrets d d'" and new: "next = [WKnockSend c s n]" "new = []"
    using t by (auto simp: handleKnock_store_def d_next_def d_log_def keeps_same)
  have log: "set (dm_log d) \<subseteq> set (dm_log d')" using d' by auto
  have "stored c' n' (dm_nonces d') \<le> stored c' n' (dm_nonces d) + (if is_nonce c' n' (LNonce c n (in_now inp + nonceTTL)) then 1 else 0)"
    for c' n'
    using swept_stored [of c' n' "in_now inp" "dm_nonces d"] d'(2) by (auto simp: stored_def)
  note st = this
  have Mc: "join_counts d M" using M by (simp add: join_inv_def)
  have "join_counts d' M"
  proof (rule join_countsI)
    show "occurs (is_auth c' n') (dm_log d') + waiting (verifies c' n') M + stored c' n' (dm_nonces d') \<le> occurs (is_nonce c' n') (dm_log d')"
      for c' n' using join_countsD(1) [OF Mc, of c' n'] st [of c' n'] unfolding d'(1) by simp
    show "occurs (is_peer c' k') (dm_log d') + waiting (connects c' k') M \<le> occurs (is_admission c' k') (dm_log d')"
      for c' k' using join_countsD(2) [OF Mc, of c' k'] unfolding d'(1) by simp
  qed
  moreover have "given_out c' e d'" if "dm_nonces d' c' = Some e" for c' e
  proof (cases "c' = c")
    case True
    then show ?thesis using that d' by (auto simp: given_out_def)
  next
    case False
    then have "dm_nonces d c' = Some e" using that d'(2) by (auto simp: sweepNonces_def split: option.splits if_splits)
    then show ?thesis using M given_mono [OF _ log] by (auto simp: join_inv_def join_facts_def)
  qed
  moreover have "admitted E d' l" if "l \<in> set (dm_log d')" for l
    using that M admitted_mono [OF _ d'(3) log] d'(1) by (auto simp: join_inv_def join_facts_def) (simp add: admitted_def)
  ultimately have "join_inv E d' M" using M item_join_mono [OF _ d'(3) log] by (simp add: join_inv_def join_facts_def)
  then show ?thesis using new by (simp add: join_inv_unadmitting)
qed

lemma join_turn:
  assumes inv: "join_inv E d (add_mset (WJoin c k h) M)" and h: "heap_inv d"
    and t: "daemon_turn E inp (WJoin c k h) d = (d', next, new)"
  shows "join_inv E d' (mset next + mset (concat new) + M)"
proof -
  have M: "join_inv E d M" by (rule join_inv_smaller [OF inv])
  have "join_inv E d (add_mset (WJoinNonce c k h s) M)" if "d_session k d = Some s" for s
    using M d_session_bound [OF h that] by (simp add: join_inv_def join_counts_def)
  then show ?thesis using M t by (auto simp: handleJoin_def d_next_def d_done_def split: option.splits)
qed


lemma nonce_turn:
  assumes inv: "join_inv E d (add_mset (WJoinNonce c k h s) M)" and t: "daemon_turn E inp (WJoinNonce c k h s) d = (d', next, new)"
  shows "join_inv E d' (mset next + mset (concat new) + M)"
proof -
  let ?w = "WJoinVerify c k h s (dm_nonces d c)"
  have d': "d' = d\<lparr>dm_nonces := (dm_nonces d)(c := None)\<rparr>" "next = [?w]" "new = []"
    using t by (auto simp: handleJoin_nonce_def d_next_def)
  have keep: "keeps_secrets d d'" and log: "dm_log d' = dm_log d" unfolding d' by simp_all
  have M: "join_facts E d" "join_counts d (add_mset (WJoinNonce c k h s) M)" "\<forall>w\<in>#M. item_join d w" "s < dm_nextSession d"
    using inv by (simp_all add: join_inv_def)
  have "verifies c' n' ?w \<longleftrightarrow> c' = c \<and> stored c' n' (dm_nonces d) = 1" for c' n'
    by (cases "dm_nonces d c") (auto simp: stored_def split: if_splits)
  moreover have "stored c' n' (dm_nonces d') = (if c' = c then 0 else stored c' n' (dm_nonces d))" for c' n'
    by (simp add: d' stored_def)
  ultimately have "waiting (verifies c' n') {#?w#} + stored c' n' (dm_nonces d') \<le> stored c' n' (dm_nonces d)" for c' n' by simp
  note moved = this
  have "join_counts d' (add_mset ?w M)"
  proof (rule join_countsI)
    show "occurs (is_auth c' n') (dm_log d') + waiting (verifies c' n') (add_mset ?w M) + stored c' n' (dm_nonces d')
        \<le> occurs (is_nonce c' n') (dm_log d')" for c' n'
      using join_countsD(1) [OF M(2), of c' n'] moved [of c' n'] unfolding log by simp
    show "occurs (is_peer c' k') (dm_log d') + waiting (connects c' k') (add_mset ?w M) \<le> occurs (is_admission c' k') (dm_log d')" for c' k'
      using join_countsD(2) [OF M(2), of c' k'] unfolding log by simp
  qed
  moreover have "item_join d' x" if "item_join d x" for x using item_join_mono [OF that keep] log by simp
  moreover have "given_out c' e d'" if "dm_nonces d c' = Some e" for c' e using M(1) that log by (simp add: join_facts_def given_out_def)
  moreover have "admitted E d' l" if "l \<in> set (dm_log d')" for l
    using that M(1) admitted_mono [OF _ keep] log by (auto simp: join_facts_def)
  ultimately show ?thesis using M unfolding d'(2,3) by (auto simp: join_inv_def join_facts_def d'(1))
qed

text \<open>An admission: the nonce that was found for it is recorded as used.\<close>

lemma admit:
  assumes inv: "join_inv E d (add_mset (WJoinVerify c k h s (Some e)) M)"
    and fresh: "t \<le> ne_expiresAt e" and proof_ok: "hmac_accepted E (dm_heap d s) (ne_nonce e) h"
    and unprotected: "\<not> (ds_ShareType (dm_heap d s) = ''immich'' \<and> ds_IsPasswordProtected (dm_heap d s))"
    and d': "d' = d_log (LAuth c k s (ne_nonce e) h t) (d_send j d)"
  shows "join_inv E d' M \<and> join_inv E d' (add_mset (WPeer c k) M)"
proof -
  let ?l = "LAuth c k s (ne_nonce e) h t"
  have keep: "keeps_secrets d d'" and log: "dm_log d' = dm_log d @ [?l]" and nonces: "dm_nonces d' = dm_nonces d"
    unfolding d' by (simp_all add: d_log_def d_send_def keeps_same)
  have M: "join_facts E d" "join_counts d (add_mset (WJoinVerify c k h s (Some e)) M)" "\<forall>w\<in>#M. item_join d w" "s < dm_nextSession d"
    "given_out c e d" using inv by (simp_all add: join_inv_def)
  have sub: "set (dm_log d) \<subseteq> set (dm_log d')" by (auto simp: log)
  have counts: "join_counts d' (add_mset (WPeer c k) M)"
  proof (rule join_countsI)
    show "occurs (is_auth c' n') (dm_log d') + waiting (verifies c' n') (add_mset (WPeer c k) M) + stored c' n' (dm_nonces d')
        \<le> occurs (is_nonce c' n') (dm_log d')" for c' n'
      using join_countsD(1) [OF M(2), of c' n'] by (simp add: log nonces split: if_splits)
    show "occurs (is_peer c' k') (dm_log d') + waiting (connects c' k') (add_mset (WPeer c k) M) \<le> occurs (is_admission c' k') (dm_log d')"
      for c' k' using join_countsD(2) [OF M(2), of c' k'] by (simp add: log)
  qed
  have "admitted E d ?l"
    using M(4,5) fresh proof_ok unprotected by (force simp: admitted_def given_out_def list_ex_iff)
  then have "admitted E d' l" if "l \<in> set (dm_log d')" for l
    using that M(1) admitted_mono [OF _ keep sub] by (auto simp: log join_facts_def)
  moreover have "given_out c' e' d'" if "dm_nonces d' c' = Some e'" for c' e'
    using that M(1) given_mono [OF _ sub] by (simp add: nonces join_facts_def)
  moreover have "item_join d' x" if "item_join d x" for x using item_join_mono [OF that keep sub] .
  ultimately show ?thesis using M counts join_counts_smaller [OF counts] by (simp add: join_inv_def join_facts_def)
qed

lemma verify_turn:
  assumes inv: "join_inv E d (add_mset (WJoinVerify c k h s found) M)"
    and t: "daemon_turn E inp (WJoinVerify c k h s found) d = (d', next, new)"
  shows "join_inv E d' (mset next + mset (concat new) + M)"
proof -
  have fail: "join_inv E (d_send j d) M" for j
    by (rule join_inv_frame [OF join_inv_smaller [OF inv]]) (simp_all add: d_send_def keeps_same)
  show ?thesis
  proof (cases found)
    case None
    then show ?thesis using t fail by (auto simp: handleJoin_verify_def auth_failed_def d_done_def)
  next
    case (Some e)
    note adm = admit [OF inv [unfolded Some]]
    show ?thesis
      using t fail adm [OF _ _ _ refl, of "in_now inp"] unfolding Some
      by (auto simp: handleJoin_verify_def auth_failed_def d_done_def Let_def split: if_splits)
  qed
qed

lemma peer_turn:
  assumes inv: "join_inv E d (add_mset (WPeer c k) M)" and t: "daemon_turn E inp (WPeer c k) d = (d', next, new)"
  shows "join_inv E d' (mset next + mset (concat new) + M)"
proof -
  have M: "join_inv E d M" by (rule join_inv_smaller [OF inv])
  have J: "join_facts E d" "join_counts d (add_mset (WPeer c k) M)" "\<forall>w\<in>#M. item_join d w" using inv by (simp_all add: join_inv_def)
  have "join_inv E d' M" if d': "d' = d_log (LPeer c k r) (new_resource res d)" for r res
  proof -
    have keep: "keeps_secrets d d'" and log: "dm_log d' = dm_log d @ [LPeer c k r]" and nonces: "dm_nonces d' = dm_nonces d"
      unfolding d' by (simp_all add: d_log_def new_resource_def keeps_same)
    have sub: "set (dm_log d) \<subseteq> set (dm_log d')" by (auto simp: log)
    have "join_counts d' M"
    proof (rule join_countsI)
      show "occurs (is_auth c' n') (dm_log d') + waiting (verifies c' n') M + stored c' n' (dm_nonces d') \<le> occurs (is_nonce c' n') (dm_log d')"
        for c' n' using join_countsD(1) [OF J(2), of c' n'] by (simp add: log nonces)
      show "occurs (is_peer c' k') (dm_log d') + waiting (connects c' k') M \<le> occurs (is_admission c' k') (dm_log d')"
        for c' k' using join_countsD(2) [OF J(2), of c' k'] by (simp add: log split: if_splits)
    qed
    moreover have "admitted E d' l" if "l \<in> set (dm_log d')" for l
      using that J(1) admitted_mono [OF _ keep sub] by (auto simp: log join_facts_def admitted_def)
    moreover have "given_out c' e' d'" if "dm_nonces d' c' = Some e'" for c' e'
      using that J(1) given_mono [OF _ sub] by (simp add: nonces join_facts_def)
    moreover have "item_join d' x" if "item_join d x" for x using item_join_mono [OF that keep sub] .
    ultimately show ?thesis using J by (simp add: join_inv_def join_facts_def)
  qed
  then show ?thesis
    using t M by (auto simp: createPeer_def d_next_def d_done_def join_inv_unadmitting split: option.splits if_splits)
qed

lemma admission_turn:
  assumes "join_inv E d (add_mset w M)" "heap_inv d" "daemon_turn E inp w d = (d', next, new)"
  shows "join_inv E d' (mset next + mset (concat new) + M)"
proof (cases "calm w")
  case True
  then show ?thesis using calm_join_turn assms by blast
next
  case False
  note turns = knock_turn join_turn nonce_turn verify_turn peer_turn
  show ?thesis
    by (cases w) (use False assms in \<open>simp_all only: calm.simps simp_thms, (blast intro: turns)+\<close>)
qed

lemma message_unadmitting:
  assumes "handleSignalingMessage inp msg d = (d', new)"
  shows "dm_log d' = dm_log d \<and> dm_nonces d' = dm_nonces d \<and> keeps_secrets d d' \<and> (\<forall>w\<in>set (concat new). \<not> admitting w)"
  using assms by (auto simp: handleSignalingMessage_def keeps_same split: if_splits)

lemma admission_message:
  assumes "join_inv E d M" "handleSignalingMessage inp msg d = (d', new)"
  shows "join_inv E d' (M + items new)"
  using message_unadmitting [OF assms(2)] join_inv_frame [OF assms(1)] join_inv_unadmittings [of "concat new" E d' M]
  by (simp add: items_def add.commute)

lemma start_unadmitting: "is_call w \<Longrightarrow> \<not> admitting w" "is_event r w \<Longrightarrow> \<not> admitting w"
  by (cases w; simp)+

lemma connection_heap: "connection_inv d M \<Longrightarrow> heap_inv d"
  by (simp add: connection_inv_def resource_inv_def)

definition admission_inv :: "denv \<Rightarrow> Daemon \<Rightarrow> work multiset \<Rightarrow> bool" where
  "admission_inv E d M \<longleftrightarrow> connection_inv d M \<and> join_inv E d M"

interpretation admissions: daemon_inv E "admission_inv E" for E
proof
  show "admission_inv E (daemon_New cfg st fs) {#}" for cfg st fs
    using connections.init by (simp add: admission_inv_def)
      (simp add: join_inv_def join_counts_def join_facts_def daemon_New_def occurs_def stored_def)
  show "admission_inv E d M \<Longrightarrow> handleSignalingMessage inp msg d = (d', new) \<Longrightarrow> admission_inv E d' (M + items new)"
    for d M inp msg d' new using connections.message admission_message unfolding admission_inv_def by blast
  show "admission_inv E d M \<Longrightarrow> is_call w \<Longrightarrow> admission_inv E d (add_mset w M)" for d M w
    using connections.call start_unadmitting(1) by (simp add: admission_inv_def join_inv_unadmitting)
  show "admission_inv E d M \<Longrightarrow> is_event r w \<Longrightarrow> r < dm_nextRes d \<Longrightarrow> \<forall>w'\<in>#M. \<not> unstarted r w' \<Longrightarrow> admission_inv E d (add_mset w M)"
    for d M r w using connections.event start_unadmitting(2) by (simp add: admission_inv_def join_inv_unadmitting)
  show "admission_inv E d (add_mset w M) \<Longrightarrow> daemon_turn E inp w d = (d', next, new) \<Longrightarrow>
      admission_inv E d' (mset next + mset (concat new) + M)" for d w M inp d' "next" new
    using connections.turn admission_turn connection_heap unfolding admission_inv_def by blast
qed

section \<open>Properties\<close>


definition sample_join :: "move list" where
  "sample_join = sample_share @ MMessage sample_in (sample_message\<lparr>sm_Type := ''knock''\<rparr>) # replicate 3 (MTurn 1 sample_in)
     @ MMessage sample_in (sample_message\<lparr>sm_Type := ''join'', sm_HMAC := ''703037''\<rparr>) # replicate 3 (MTurn 2 sample_in) @ [MTurn 3 sample_in]"

lemma sample_join_run:
  "(let (d, gs) = fold (daemon_move sample_env) sample_join (sample_daemon, []) in
    occurs (is_auth ''c'' ''07'') (dm_log d) = 1 \<and> occurs (is_peer ''c'' ''s'') (dm_log d) = 1
    \<and> occurs (is_nonce ''c'' ''07'') (dm_log d) = 1)"
  by code_simp


end
