(* ===== verification/Daemon_Termination.thy ===== *)
theory Daemon_Termination
  imports Daemon_Properties
begin

text \<open>
  The daemon's own work ends. Each turn replaces a turn that was due by turns of a lower rank, so that without new messages, calls and transport
  events every goroutine finishes; the multiset order makes one argument of all of them.
\<close>

fun rank :: "work \<Rightarrow> nat \<times> nat" where
  "rank (WKnock c k) = (2, 0)" | "rank (WKnockStore c s n) = (1, 0)"
| "rank (WJoin c k h) = (8, 0)" | "rank (WJoinNonce c k h s) = (7, 0)" | "rank (WJoinVerify c k h s e) = (6, 0)"
| "rank (WPassword c k p) = (1, 0)" | "rank (WSignal i sig) = (1, 0)"
| "rank (WPeer c k) = (5, 0)" | "rank (WPeerRegister k p) = (4, 0)" | "rank (WPeerOffer k p) = (3, 0)" | "rank (WPeerSend k p sdp) = (2, 0)"
| "rank (WRelay k sid jwt) = (6, 0)" | "rank (WRelayNew k sid jwt s) = (5, 0)" | "rank (WRelayRegister k ch) = (4, 0)"
| "rank (WRelayStart ch) = (3, 0)" | "rank (WRelayCheck ch) = (2, 0)"
| "rank (WClose r) = (1, 0)" | "rank (WOpen r) = (3, 0)" | "rank (WActivate r) = (2, 0)" | "rank (WDownload r n) = (1, 0)"
| "rank (WTeardown s m) = (2, 0)" | "rank (WRevoke k) = (3, 0)" | "rank WPrune = (3, 0)" | "rank WStop = (3, 0)"
| "rank (WCreate u t p e m r) = (4, 0)" | "rank (WCreateAdd x) = (1, 0)"
| "rank (WManual u) = (3, 0)" | "rank (WManualPoll k) = (2, 0)" | "rank (WManualAdd x) = (1, 0)"
| "rank WLoad = (2, 0)" | "rank (WLoadEntries es pub) = (1, 2 * length es)" | "rank (WLoadAdd x es pub) = (1, 2 * length es + 1)"
| "rank WSync = (6, 0)" | "rank (WSyncLinks ls seen pub) = (5, 3 * length ls)"
| "rank (WSyncRegister l ls seen pub) = (5, 3 * length ls + 2)" | "rank (WSyncAdd x ls seen pub) = (5, 3 * length ls + 1)"
| "rank (WSyncScan seen) = (4, 0)" | "rank (WSyncRemove ss) = (3, 4 * length ss)" | "rank (WSyncUnregister s ss) = (3, 4 * length ss + 3)"
| "rank (WSyncDelete s ss) = (3, 4 * length ss + 2)" | "rank (WSyncUnlink s ss) = (3, 4 * length ss + 1)"
| "rank _ = (0, 0)"

abbreviation rank_order :: "((nat \<times> nat) \<times> (nat \<times> nat)) set" where
  "rank_order \<equiv> less_than <*lex*> less_than"

lemma turn_decreases:
  assumes "daemon_turn E inp w d = (d', next, new)"
  shows "(\<forall>x\<in>set next. (rank x, rank w) \<in> rank_order) \<and> (\<forall>x\<in>set (concat new). (rank x, rank w) \<in> rank_order)"
  using assms
  by (cases w) (auto simp: turn_defs split: option.splits sum.splits prod.splits if_splits list.splits res_kind.splits)

section \<open>The daemon left to itself\<close>

inductive daemon_work :: "denv \<Rightarrow> dsys \<Rightarrow> dsys \<Rightarrow> bool" for E where
  "i < length gs \<Longrightarrow> gs ! i = w # ws \<Longrightarrow> daemon_turn E inp w d = (d', next, new) \<Longrightarrow>
    daemon_work E (d, gs) (d', gs[i := next @ ws] @ new)"

lemma work_step: "daemon_work E s s' \<Longrightarrow> daemon_step E s s'"
  by (erule daemon_work.cases) (simp add: daemon_step.turn)

lemma work_decreases:
  assumes "daemon_work E (d, gs) (d', gs')"
  shows "(image_mset rank (items gs'), image_mset rank (items gs)) \<in> mult rank_order"
  using assms
proof cases
  case (1 i w ws inp "next" new)
  obtain M where M: "items gs = add_mset w M" "items gs' = mset next + mset (concat new) + M"
    using items_turn [OF 1(2,3)] 1(1) by metis
  let ?N = "image_mset rank (mset next + mset (concat new))"
  have "(image_mset rank M + ?N, image_mset rank M + {#rank w#}) \<in> mult rank_order"
    by (rule one_step_implies_mult) (use turn_decreases [OF 1(4)] in auto)
  then show ?thesis by (simp add: M add.commute)
qed

lemma work_enabled:
  assumes "concat gs \<noteq> []"
  shows "\<exists>s'. daemon_work E (d, gs) s'"
proof -
  obtain i w ws where "i < length gs" "gs ! i = w # ws"
    using assms by (metis concat_eq_Nil_conv in_set_conv_nth neq_Nil_conv)
  then show ?thesis using daemon_work.intros [of i gs w ws E _ d] by (metis prod_cases3)
qed


end
