(* ===== verification/Daemon_Gallery.thy ===== *)
theory Daemon_Gallery
  imports Daemon_Properties
begin

text \<open>
  The shares of the daemon follow what the user, the store and the gallery server say: a synchronisation that is not disturbed makes the
  daemon's gallery shares exactly the albums that the gallery server shares.
\<close>

section \<open>The table of sessions\<close>

text \<open>Every session is filed under its own code, once.\<close>

definition filed :: "Daemon \<Rightarrow> bool" where
  "filed d \<longleftrightarrow> distinct (map fst (dm_sessions d)) \<and> (\<forall>(c, s)\<in>set (dm_sessions d). s < dm_nextSession d \<and> ds_Code (dm_heap d s) = c)"

definition shrinks :: "Daemon \<Rightarrow> Daemon \<Rightarrow> bool" where
  "shrinks d d' \<longleftrightarrow> dm_nextSession d' = dm_nextSession d \<and> set (dm_sessions d') \<subseteq> set (dm_sessions d)
    \<and> (distinct (map fst (dm_sessions d)) \<longrightarrow> distinct (map fst (dm_sessions d'))) \<and> (\<forall>s. ds_Code (dm_heap d' s) = ds_Code (dm_heap d s))"

lemma shrinks_same: "dm_nextSession d' = dm_nextSession d \<Longrightarrow> dm_sessions d' = dm_sessions d \<Longrightarrow> dm_heap d' = dm_heap d \<Longrightarrow> shrinks d d'"
  by (simp add: shrinks_def)

lemma code_updates [simp]:
  "ds_Code (drop_peer k r x) = ds_Code x" "ds_Code (put_peer k r x) = ds_Code x" "ds_Code (drop_relay k r x) = ds_Code x"
  "ds_Code (put_relay k r x) = ds_Code x"
  by (simp_all add: drop_peer_def put_peer_def drop_relay_def put_relay_def)

fun adds :: "work \<Rightarrow> Session option" where
  "adds (WCreateAdd x) = Some x"
| "adds (WManualAdd x) = Some x"
| "adds (WLoadAdd x es pub) = Some x"
| "adds (WSyncAdd x ls seen pub) = Some x"
| "adds _ = None"

lemma adding_turn:
  assumes "adds w = Some x" "daemon_turn E inp w d = (d', next, new)"
  shows "d' = add_session x d"
  using assms
  by (cases w) (auto simp: CreateSession_add_def createManualImmichSession_add_def load_add_def sync_add_def d_next_def)

lemma shrinking_turn:
  assumes "adds w = None" "daemon_turn E inp w d = (d', next, new)"
  shows "shrinks d d'"
  using assms
  by (cases w) (auto simp: turn_defs shrinks_def removeRelayChannelIfCurrent_def new_resource_def AList.delete_eq distinct_map_filter
    split: option.splits sum.splits prod.splits if_splits list.splits res_kind.splits)

lemma filed_shrinks: "filed d \<Longrightarrow> shrinks d d' \<Longrightarrow> filed d'"
  by (auto simp: filed_def shrinks_def)

lemma filed_add: "filed d \<Longrightarrow> filed (add_session x d)"
  unfolding filed_def by (auto simp: add_session_def distinct_update dest!: subsetD [OF set_alist_update])

lemma filed_turn: "filed d \<Longrightarrow> daemon_turn E inp w d = (d', next, new) \<Longrightarrow> filed d'"
  using adding_turn shrinking_turn filed_add filed_shrinks by (metis option.exhaust)

interpretation filing: daemon_inv E "\<lambda>d M. filed d" for E
proof
  show "filed (daemon_New cfg st fs)" for cfg st fs by (simp add: filed_def daemon_New_def)
  show "filed d \<Longrightarrow> handleSignalingMessage inp msg d = (d', new) \<Longrightarrow> filed d'" for d inp msg d' new
    by (auto simp: handleSignalingMessage_def filed_def split: if_splits)
  show "filed d \<Longrightarrow> daemon_turn E inp w d = (d', next, new) \<Longrightarrow> filed d'" for d w inp d' "next" new by (rule filed_turn)
qed

lemma filedD:
  assumes "filed d" "d_session c d = Some s"
  shows "s < dm_nextSession d" "ds_Code (dm_heap d s) = c"
  using assms by (auto simp: filed_def d_session_def dest!: map_of_SomeD)

section \<open>An undisturbed synchronisation\<close>

text \<open>What the outside does when nothing fails: the poll answers, the key is there, and a share is registered under the code that was asked for.\<close>

fun sync_ok :: "denv \<Rightarrow> SharedLink list \<Rightarrow> turn_in \<Rightarrow> work \<Rightarrow> Daemon \<Rightarrow> bool" where
  "sync_ok E links inp WSync d = (in_links inp = Inr links \<and> \<not> isl (fst (relayStaticPubHex E inp d)))"
| "sync_ok E links inp (WSyncRegister l ls seen pub) d =
     (case registerImmichShare E inp l pub d of (Inl _, _) \<Rightarrow> False | (Inr x, _) \<Rightarrow> ds_Code x = sl_Key l)"
| "sync_ok E links inp (WSyncUnregister s ss) d = (fst (unregisterShare inp (ds_Code (dm_heap d s)) d) = None)"
| "sync_ok E links inp (WSyncDelete s ss) d = (fst (store_delete E inp (ds_Code (dm_heap d s)) d) = None)"
| "sync_ok E links inp w d = True"

text \<open>One goroutine runs, the others do not; those that it starts wait.\<close>

inductive alone :: "denv \<Rightarrow> SharedLink list \<Rightarrow> Daemon \<times> work list \<Rightarrow> Daemon \<times> work list \<Rightarrow> bool" for E links where
  "sync_ok E links inp w d \<Longrightarrow> daemon_turn E inp w d = (d', next, new) \<Longrightarrow> alone E links (d, w # ws) (d', next @ ws)"

definition album_keys :: "SharedLink list \<Rightarrow> string list" where
  "album_keys links = filter (\<lambda>k. k \<noteq> []) (map sl_Key (filter is_album links))"

text \<open>Sessions that were there before, seen from \<open>d\<close>: the code and the kind of a session object never change.\<close>

definition kept :: "Daemon \<Rightarrow> Daemon \<Rightarrow> bool" where
  "kept d0 d \<longleftrightarrow> dm_nextSession d0 \<le> dm_nextSession d
    \<and> (\<forall>s<dm_nextSession d0. ds_ShareType (dm_heap d s) = ds_ShareType (dm_heap d0 s) \<and> ds_Code (dm_heap d s) = ds_Code (dm_heap d0 s))"

text \<open>After the albums \<open>keys\<close> have been handled.\<close>

definition grown :: "Daemon \<Rightarrow> string set \<Rightarrow> Daemon \<Rightarrow> bool" where
  "grown d0 keys d \<longleftrightarrow> (\<forall>c.
     (case d_session c d0 of
        Some s \<Rightarrow> d_session c d = Some s
      | None \<Rightarrow> (d_session c d \<noteq> None \<longleftrightarrow> c \<in> keys)))"

text \<open>When the sessions \<open>ss\<close> are still to be removed: a removed session is out of the table and closing.\<close>

definition revoked :: "Daemon \<Rightarrow> string set \<Rightarrow> string \<Rightarrow> nat \<Rightarrow> bool" where
  "revoked d0 keys c s \<longleftrightarrow> d_session c d0 = Some s \<and> ds_ShareType (dm_heap d0 s) = ''immich'' \<and> c \<notin> keys"

definition pruned :: "Daemon \<Rightarrow> string set \<Rightarrow> nat list \<Rightarrow> Daemon \<Rightarrow> bool" where
  "pruned d0 keys ss d \<longleftrightarrow> distinct ss \<and> (\<forall>s\<in>set ss. \<exists>c. revoked d0 keys c s)
     \<and> (\<forall>c s. revoked d0 keys c s \<and> s \<notin> set ss \<longrightarrow> ds_closing (dm_heap d s))
     \<and> (\<forall>c. (case d_session c d0 of
          Some s \<Rightarrow> d_session c d = (if revoked d0 keys c s \<and> s \<notin> set ss then None else Some s)
        | None \<Rightarrow> (d_session c d \<noteq> None \<longleftrightarrow> c \<in> keys)))"

fun sync_at :: "Daemon \<Rightarrow> SharedLink list \<Rightarrow> Daemon \<Rightarrow> work \<Rightarrow> bool" where
  "sync_at d0 links d (WSyncLinks ls seen pub) =
     (\<exists>pre. links = pre @ ls \<and> set seen = set (album_keys pre) \<and> grown d0 (set (album_keys pre)) d)"
| "sync_at d0 links d (WSyncRegister l ls seen pub) =
     (\<exists>pre. links = pre @ l # ls \<and> set seen = set (album_keys (pre @ [l])) \<and> grown d0 (set (album_keys pre)) d
       \<and> is_album l \<and> sl_Key l \<noteq> [] \<and> d_session (sl_Key l) d = None)"
| "sync_at d0 links d (WSyncAdd x ls seen pub) =
     (\<exists>pre l. links = pre @ l # ls \<and> set seen = set (album_keys (pre @ [l])) \<and> grown d0 (set (album_keys pre)) d
       \<and> is_album l \<and> sl_Key l \<noteq> [] \<and> d_session (sl_Key l) d = None \<and> ds_Code x = sl_Key l)"
| "sync_at d0 links d (WSyncScan seen) = (set seen = set (album_keys links) \<and> grown d0 (set (album_keys links)) d)"
| "sync_at d0 links d (WSyncRemove ss) = pruned d0 (set (album_keys links)) ss d"
| "sync_at d0 links d (WSyncUnregister s ss) = pruned d0 (set (album_keys links)) (s # ss) d"
| "sync_at d0 links d (WSyncDelete s ss) = (pruned d0 (set (album_keys links)) (s # ss) d \<and> ds_closing (dm_heap d s))"
| "sync_at d0 links d (WSyncUnlink s ss) = (pruned d0 (set (album_keys links)) (s # ss) d \<and> ds_closing (dm_heap d s))"
| "sync_at d0 links d WSync = grown d0 {} d"
| "sync_at d0 links d w = False"

fun noise :: "work \<Rightarrow> bool" where
  "noise (WTeardown s m) = True"
| "noise (WNotify r m) = True"
| "noise (WClose r) = True"
| "noise w = False"

definition steady :: "Daemon \<Rightarrow> Daemon \<Rightarrow> bool" where
  "steady d d' \<longleftrightarrow> dm_sessions d' = dm_sessions d \<and> dm_nextSession d' = dm_nextSession d
    \<and> (\<forall>s. ds_Code (dm_heap d' s) = ds_Code (dm_heap d s) \<and> ds_ShareType (dm_heap d' s) = ds_ShareType (dm_heap d s)
        \<and> (ds_closing (dm_heap d s) \<longrightarrow> ds_closing (dm_heap d' s)))"

lemma steady_session: "steady d d' \<Longrightarrow> d_session c d' = d_session c d"
  by (simp add: steady_def d_session_def)

lemma noise_turn:
  assumes "noise w" "daemon_turn E inp w d = (d', next, new)"
  shows "steady d d' \<and> (\<forall>x\<in>set next. noise x) \<and> (w = WTeardown s m \<longrightarrow> ds_closing (dm_heap d' s))"
  using assms by (cases w) (auto simp: turn_defs steady_def split: if_splits)

lemma kept_steady: "kept d0 d \<Longrightarrow> steady d d' \<Longrightarrow> kept d0 d'"
  by (simp add: kept_def steady_def)

lemma grown_steady:
  assumes "steady d d'" "grown d0 keys d"
  shows "grown d0 keys d'"
  using assms(2) unfolding grown_def steady_session [OF assms(1)] .

lemma pruned_steady:
  assumes "steady d d'" "pruned d0 keys ss d"
  shows "pruned d0 keys ss d'"
proof -
  have "ds_closing (dm_heap d s) \<Longrightarrow> ds_closing (dm_heap d' s)" for s using assms(1) by (simp add: steady_def)
  then show ?thesis using assms(2) unfolding pruned_def steady_session [OF assms(1)] by blast
qed

lemma sync_at_steady:
  assumes "sync_at d0 links d w" "steady d d'"
  shows "sync_at d0 links d' w"
proof -
  have "ds_closing (dm_heap d s) \<Longrightarrow> ds_closing (dm_heap d' s)" for s using assms(2) by (simp add: steady_def)
  then show ?thesis
    using assms(1) grown_steady [OF assms(2)] pruned_steady [OF assms(2)]
    by (cases w) (auto simp: steady_session [OF assms(2)])
qed

section \<open>Its turns\<close>

lemma album_keys_simps [simp]:
  "album_keys [] = []" "album_keys (ls @ ls') = album_keys ls @ album_keys ls'"
  "album_keys [l] = (if is_album l \<and> sl_Key l \<noteq> [] then [sl_Key l] else [])"
  by (simp_all add: album_keys_def)

lemma register_steady: "registerImmichShare E inp l pub d = (res, d') \<Longrightarrow> steady d d'"
  by (auto simp: registerImmichShare_def unregisterShare_def store_put_def d_register_def d_send_def steady_def Let_def
    split: sum.splits prod.splits option.splits)

lemma relayPub_steady: "relayStaticPubHex E inp d = (res, d') \<Longrightarrow> steady d d'"
  by (auto simp: relayStaticPubHex_def d_relayKey_def steady_def Let_def split: sum.splits prod.splits)

lemma unregister_steady: "unregisterShare inp c d = (res, d') \<Longrightarrow> steady d d'"
  by (auto simp: unregisterShare_def d_send_def steady_def split: option.splits)

lemma delete_steady: "store_delete E inp c d = (res, d') \<Longrightarrow> steady d d'"
  by (auto simp: store_delete_def steady_def split: prod.splits)

lemma steady_refl [simp]: "steady d d"
  by (simp add: steady_def)

text \<open>Where a goroutine of the synchronisation stands after a turn.\<close>

definition sync_then :: "Daemon \<Rightarrow> SharedLink list \<Rightarrow> Daemon \<Rightarrow> work list \<Rightarrow> bool" where
  "sync_then d0 links d ws \<longleftrightarrow>
     (\<exists>pre tail. ws = pre @ tail \<and> (\<forall>x\<in>set pre. noise x)
       \<and> (tail = [] \<and> pruned d0 (set (album_keys links)) [] d
          \<or> (\<exists>w. tail = [w] \<and> sync_at d0 links d w
              \<and> (\<forall>s ss. w = WSyncUnregister s ss \<longrightarrow> ds_closing (dm_heap d s) \<or> (\<exists>m. WTeardown s m \<in> set pre)))))"

lemma sync_then_single: "sync_at d0 links d w \<Longrightarrow> \<forall>s ss. w \<noteq> WSyncUnregister s ss \<Longrightarrow> sync_then d0 links d [w]"
  unfolding sync_then_def by (intro exI [of _ "[]"] exI [of _ "[w]"]) simp

lemma scan_pruned:
  assumes "filed d" "filed d0" "kept d0 d" "grown d0 keys d" "set seen = keys"
  shows "pruned d0 keys (map snd (filter (\<lambda>(code, s). ds_ShareType (dm_heap d s) = ''immich'' \<and> code \<notin> set seen) (dm_sessions d))) d"
    (is "pruned d0 keys ?ss d")
proof -
  have entry: "(c, s) \<in> set (dm_sessions d) \<longleftrightarrow> d_session c d = Some s" for c s
    using assms(1) by (simp add: filed_def d_session_def)
  have type: "ds_ShareType (dm_heap d s) = ds_ShareType (dm_heap d0 s)" if "d_session c d0 = Some s" for c s
    using assms(3) filedD(1) [OF assms(2) that] by (simp add: kept_def)
  have old: "d_session c d0 = Some s" if "d_session c d = Some s" "c \<notin> keys" for c s
    using assms(4) that unfolding grown_def by (auto split: option.splits dest: spec [of _ c])
  have "fst x = ds_Code (dm_heap d (snd x))" if "x \<in> set (dm_sessions d)" for x
    using assms(1) that by (auto simp: filed_def)
  then have "inj_on snd (set (dm_sessions d))" by (metis inj_onI prod_eqI)
  moreover have "distinct (dm_sessions d)" using assms(1) by (simp add: filed_def distinct_map)
  ultimately have "distinct ?ss" by (simp add: distinct_map inj_on_subset)
  moreover have mem: "s \<in> set ?ss \<longleftrightarrow> (\<exists>c. revoked d0 keys c s)" for s
  proof
    assume "s \<in> set ?ss"
    then obtain c where c: "d_session c d = Some s" "ds_ShareType (dm_heap d s) = ''immich''" "c \<notin> keys"
      using entry assms(5) by auto
    then have "revoked d0 keys c s" using old [OF c(1,3)] type by (auto simp: revoked_def)
    then show "\<exists>c. revoked d0 keys c s" ..
  next
    assume "\<exists>c. revoked d0 keys c s"
    then obtain c where c: "d_session c d0 = Some s" "ds_ShareType (dm_heap d0 s) = ''immich''" "c \<notin> keys" by (auto simp: revoked_def)
    then have "d_session c d = Some s" using assms(4) by (auto simp: grown_def split: option.splits dest: spec [of _ c])
    then show "s \<in> set ?ss" using c type entry assms(5) by force
  qed
  moreover have "case d_session c d0 of
      Some s \<Rightarrow> d_session c d = (if revoked d0 keys c s \<and> s \<notin> set ?ss then None else Some s)
    | None \<Rightarrow> (d_session c d \<noteq> None \<longleftrightarrow> c \<in> keys)" for c
    using assms(4) mem unfolding grown_def by (auto split: option.splits dest: spec [of _ c])
  ultimately show ?thesis unfolding pruned_def by blast
qed


lemma links_turn:
  assumes at: "sync_at d0 links d (WSyncLinks ls seen pub)" and t: "daemon_turn E inp (WSyncLinks ls seen pub) d = (d', next, new)"
  shows "d' = d \<and> sync_then d0 links d next"
proof -
  obtain pre where pre: "links = pre @ ls" "set seen = set (album_keys pre)" "grown d0 (set (album_keys pre)) d" using at by auto
  show ?thesis
  proof (cases ls)
    case Nil
    then show ?thesis using t pre by (auto simp: sync_links_def d_next_def intro!: sync_then_single)
  next
    case (Cons l rest)
    consider "sl_Key l = [] \<or> \<not> is_album l" | s where "sl_Key l \<noteq> []" "is_album l" "d_session (sl_Key l) d = Some s"
      | "sl_Key l \<noteq> []" "is_album l" "d_session (sl_Key l) d = None" by fastforce
    then show ?thesis
    proof cases
      case 1
      then have "sync_at d0 links d (WSyncLinks rest seen pub)" using pre Cons by (auto intro!: exI [of _ "pre @ [l]"])
      then show ?thesis using t 1 Cons by (auto simp: sync_links_def d_next_def intro!: sync_then_single)
    next
      case 2
      have "grown d0 (insert (sl_Key l) (set (album_keys pre))) d"
        unfolding grown_def
      proof
        fix c
        show "case d_session c d0 of None \<Rightarrow> (d_session c d \<noteq> None) = (c \<in> insert (sl_Key l) (set (album_keys pre)))
          | Some s \<Rightarrow> d_session c d = Some s"
          using pre(3) [unfolded grown_def, THEN spec, of c] 2(3) by (cases "c = sl_Key l") (auto split: option.splits)
      qed
      then have "sync_at d0 links d (WSyncLinks rest (sl_Key l # seen) pub)" using pre Cons 2 by (auto intro!: exI [of _ "pre @ [l]"])
      then show ?thesis using t 2 Cons by (auto simp: sync_links_def d_next_def intro!: sync_then_single)
    next
      case 3
      then have "sync_at d0 links d (WSyncRegister l rest (sl_Key l # seen) pub)" using pre Cons by auto
      then show ?thesis using t 3 Cons by (auto simp: sync_links_def d_next_def intro!: sync_then_single)
    qed
  qed
qed

lemma add_session_lookup: "d_session c (add_session x d) = (if c = ds_Code x then Some (dm_nextSession d) else d_session c d)"
  by (simp add: d_session_def add_session_def update_conv')

lemma added_turn:
  assumes at: "sync_at d0 links d (WSyncAdd x ls seen pub)" and k: "kept d0 d"
    and t: "daemon_turn E inp (WSyncAdd x ls seen pub) d = (d', next, new)"
  shows "kept d0 d' \<and> sync_then d0 links d' next"
proof -
  have d': "d' = add_session x d" "next = [WSyncLinks ls seen pub]" using t by (auto simp: sync_add_def d_next_def)
  obtain pre l where pre: "links = pre @ l # ls" "set seen = set (album_keys (pre @ [l]))" "grown d0 (set (album_keys pre)) d"
    "is_album l" "sl_Key l \<noteq> []" "d_session (sl_Key l) d = None" "ds_Code x = sl_Key l" using at by auto
  have "case d_session c d0 of Some s \<Rightarrow> d_session c d' = Some s
      | None \<Rightarrow> (d_session c d' \<noteq> None \<longleftrightarrow> c \<in> set (album_keys (pre @ [l])))" for c
    using pre(3) [unfolded grown_def, THEN spec, of c] pre(4-7) d' by (auto simp: add_session_lookup split: option.splits)
  then have "grown d0 (set (album_keys (pre @ [l]))) d'" unfolding grown_def by blast
  then have "sync_at d0 links d' (WSyncLinks ls seen pub)" using pre by (auto intro!: exI [of _ "pre @ [l]"])
  then show ?thesis using k d' by (auto simp: kept_def add_session_def intro!: sync_then_single)
qed

lemma unlink_turn:
  assumes at: "sync_at d0 links d (WSyncUnlink s ss)" and k: "kept d0 d" and f: "filed d0"
    and t: "daemon_turn E inp (WSyncUnlink s ss) d = (d', next, new)"
  shows "kept d0 d' \<and> sync_then d0 links d' next"
proof -
  let ?K = "set (album_keys links)"
  have p: "pruned d0 ?K (s # ss) d" and closing: "ds_closing (dm_heap d s)" using at by auto
  obtain c where c: "revoked d0 ?K c s" using p by (auto simp: pruned_def)
  then have c0: "d_session c d0 = Some s" by (simp add: revoked_def)
  have code: "ds_Code (dm_heap d s) = c" using filedD [OF f c0] k by (simp add: kept_def)
  have "d_session c d = Some s" using p c0 unfolding pruned_def by (auto split: option.splits dest!: spec [of _ c])
  then have d': "d' = d\<lparr>dm_sessions := AList.delete c (dm_sessions d)\<rparr>" "next = [WSyncRemove ss]"
    using t code by (auto simp: sync_unlink_def d_next_def Let_def)
  have look: "d_session a d' = (if a = c then None else d_session a d)" for a by (simp add: d' d_session_def delete_conv')
  have other: "a = c" if "revoked d0 ?K a s" for a using filedD(2) [OF f] that c by (metis revoked_def)
  have "pruned d0 ?K ss d'"
    unfolding pruned_def
  proof (intro conjI allI)
    show "distinct ss" "\<forall>s\<in>set ss. \<exists>c. revoked d0 ?K c s" using p by (auto simp: pruned_def)
    show "revoked d0 ?K a r \<and> r \<notin> set ss \<longrightarrow> ds_closing (dm_heap d' r)" for a r
      using p closing d' by (cases "r = s") (auto simp: pruned_def)
    show "case d_session a d0 of None \<Rightarrow> (d_session a d' \<noteq> None) = (a \<in> ?K)
      | Some r \<Rightarrow> d_session a d' = (if revoked d0 ?K a r \<and> r \<notin> set ss then None else Some r)" for a
    proof (cases "a = c")
      case True
      then show ?thesis using c c0 p look by (auto simp: pruned_def)
    next
      case False
      have "\<not> revoked d0 ?K a s" using other False by blast
      moreover have "r \<noteq> s" if "d_session a d0 = Some r" for r using filedD(2) [OF f] that c0 False by metis
      ultimately show ?thesis
        using p False look [of a] unfolding pruned_def by (auto split: option.splits dest!: spec [of _ a])
    qed
  qed
  then show ?thesis using k d' by (auto simp: kept_def intro!: sync_then_single)
qed

lemma sync_turn:
  assumes at: "sync_at d0 links d w" and inv: "filed d0" "filed d" "kept d0 d"
    and torn: "\<forall>s ss. w = WSyncUnregister s ss \<longrightarrow> ds_closing (dm_heap d s)"
    and ok: "sync_ok E links inp w d" and t: "daemon_turn E inp w d = (d', next, new)"
  shows "kept d0 d' \<and> sync_then d0 links d' next"
proof -
  have stay: "kept d0 d' \<and> sync_then d0 links d' next"
    if "steady d d'" "next = [w']" "sync_at d0 links d w'" "\<forall>s ss. w' \<noteq> WSyncUnregister s ss" for w'
    using that kept_steady [OF inv(3)] sync_at_steady sync_then_single by blast
  show ?thesis
  proof (cases w)
    case WSync
    then obtain pub where "steady d d'" "next = [WSyncLinks links [] pub]"
      using ok t relayPub_steady [of E inp d]
      by (cases "relayStaticPubHex E inp d") (auto simp: syncImmichShares_def d_next_def split: sum.splits)
    then show ?thesis using at WSync by (intro stay) auto
  next
    case (WSyncLinks ls seen pub)
    then show ?thesis using links_turn at t inv(3) by blast
  next
    case (WSyncRegister l ls seen pub)
    obtain res d1 where r: "registerImmichShare E inp l pub d = (res, d1)" by force
    then obtain x where "res = Inr x" "ds_Code x = sl_Key l" using ok WSyncRegister by (auto split: sum.splits)
    then have "d' = d1" "next = [WSyncAdd x ls seen pub]" using t r WSyncRegister by (auto simp: sync_register_def d_next_def)
    then show ?thesis using at register_steady [OF r] WSyncRegister \<open>ds_Code x = sl_Key l\<close> by (intro stay) auto
  next
    case (WSyncAdd x ls seen pub)
    then show ?thesis using added_turn at t inv(3) by blast
  next
    case (WSyncScan seen)
    then have "sync_at d0 links d (WSyncRemove (map snd (filter (\<lambda>(code, s). ds_ShareType (dm_heap d s) = ''immich'' \<and> code \<notin> set seen) (dm_sessions d))))"
      using at scan_pruned [OF inv(2,1,3), of "set (album_keys links)" seen] by simp
    then show ?thesis using t WSyncScan by (intro stay) (auto simp: sync_scan_def d_next_def)
  next
    case (WSyncRemove ss)
    show ?thesis
    proof (cases ss)
      case Nil
      then show ?thesis using at t WSyncRemove inv(3) by (auto simp: sync_remove_def d_done_def sync_then_def)
    next
      case (Cons s rest)
      then have d': "d' = d" "next = [WTeardown s ''share has been removed''] @ [WSyncUnregister s rest]"
        using t WSyncRemove by (auto simp: sync_remove_def d_next_def)
      have "sync_at d0 links d (WSyncUnregister s rest)" using at WSyncRemove Cons by simp
      then have "sync_then d0 links d next"
        unfolding sync_then_def d'(2) by (intro exI [of _ "[WTeardown s ''share has been removed'']"] exI [of _ "[WSyncUnregister s rest]"]) auto
      then show ?thesis using d' inv(3) by simp
    qed
  next
    case (WSyncUnregister s ss)
    then have "steady d d'" "next = [WSyncDelete s ss]"
      using ok t unregister_steady [of inp "ds_Code (dm_heap d s)" d]
      by (auto simp: sync_unregister_def d_next_def split: prod.splits option.splits)
    then show ?thesis using at torn WSyncUnregister by (intro stay) auto
  next
    case (WSyncDelete s ss)
    then have "steady d d'" "next = [WSyncUnlink s ss]"
      using ok t delete_steady [of E inp "ds_Code (dm_heap d s)" d]
      by (auto simp: sync_delete_def d_next_def split: prod.splits option.splits)
    then show ?thesis using at WSyncDelete by (intro stay) auto
  next
    case (WSyncUnlink s ss)
    then show ?thesis using unlink_turn at t inv(1,3) by blast
  qed (use at in simp_all)
qed

lemma alone_keeps:
  assumes "alone E links (d, ws) (d', ws')" "filed d0" "filed d" "kept d0 d" "sync_then d0 links d ws"
  shows "filed d' \<and> kept d0 d' \<and> sync_then d0 links d' ws'"
  using assms(1)
proof cases
  case (1 inp w "next" new ws0)
  obtain pre tail where st: "ws = pre @ tail" "\<forall>x\<in>set pre. noise x" "tail = [] \<and> pruned d0 (set (album_keys links)) [] d
      \<or> (\<exists>w. tail = [w] \<and> sync_at d0 links d w \<and> (\<forall>s ss. w = WSyncUnregister s ss \<longrightarrow> ds_closing (dm_heap d s) \<or> (\<exists>m. WTeardown s m \<in> set pre)))"
    using assms(5) unfolding sync_then_def by blast
  have f: "filed d'" using filed_turn assms(3) 1(4) by blast
  show ?thesis
  proof (cases pre)
    case Nil
    then have "tail = [w]" "ws0 = []" "sync_at d0 links d w" "\<forall>s ss. w = WSyncUnregister s ss \<longrightarrow> ds_closing (dm_heap d s)"
      using st 1(1) by auto
    then show ?thesis using sync_turn [OF _ assms(2-4) _ 1(3,4)] f 1(2) by simp
  next
    case (Cons w1 rest)
    then have w: "noise w" "pre = w # rest" "ws0 = rest @ tail" using st(1,2) 1(1) by auto
    note n = noise_turn [OF w(1) 1(4)]
    have mono: "ds_closing (dm_heap d s) \<Longrightarrow> ds_closing (dm_heap d' s)" for s using n by (simp add: steady_def)
    have "tail = [] \<and> pruned d0 (set (album_keys links)) [] d'
      \<or> (\<exists>w. tail = [w] \<and> sync_at d0 links d' w
          \<and> (\<forall>s ss. w = WSyncUnregister s ss \<longrightarrow> ds_closing (dm_heap d' s) \<or> (\<exists>m. WTeardown s m \<in> set (next @ rest))))"
      using st(3)
    proof
      assume "\<exists>w. tail = [w] \<and> sync_at d0 links d w \<and> (\<forall>s ss. w = WSyncUnregister s ss \<longrightarrow> ds_closing (dm_heap d s) \<or> (\<exists>m. WTeardown s m \<in> set pre))"
      then obtain w2 where w2: "tail = [w2]" "sync_at d0 links d w2"
        "\<And>s ss. w2 = WSyncUnregister s ss \<Longrightarrow> ds_closing (dm_heap d s) \<or> (\<exists>m. WTeardown s m \<in> set pre)" by blast
      have "ds_closing (dm_heap d' s) \<or> (\<exists>m. WTeardown s m \<in> set (next @ rest))" if "w2 = WSyncUnregister s ss" for s ss
        using w2(3) [OF that] n [of s] mono w(2) by auto
      then show ?thesis using w2 sync_at_steady n by blast
    qed (use pruned_steady n in blast)
    moreover have "\<forall>x\<in>set (next @ rest). noise x" using n st(2) w(2) by auto
    ultimately have "sync_then d0 links d' ws'" unfolding sync_then_def 1(2) w(3) append.assoc [symmetric] by blast
    then show ?thesis using f kept_steady [OF assms(4)] n by blast
  qed
qed

lemma alone_runs:
  assumes "(alone E links)\<^sup>*\<^sup>* (d, ws) (d', ws')" "filed d0" "filed d" "kept d0 d" "sync_then d0 links d ws"
  shows "filed d' \<and> kept d0 d' \<and> sync_then d0 links d' ws'"
  using assms(1)
proof (induction rule: rtranclp_induct2)
  case refl
  then show ?case using assms by blast
next
  case (step d1 ws1 d2 ws2)
  then show ?case using alone_keeps [OF step(2) assms(2)] by blast
qed

section \<open>Properties\<close>

text \<open>
  (C19) A synchronisation mirrors the gallery server. From any state the daemon can reach, when one runs to its end undisturbed and no call of it fails,
  then the daemon serves, beside the shares that are not galleries, exactly the albums the server listed: a code has a session afterwards if and
  only if it is the key of a listed album or belonged to a share of another kind. Sessions that remain are the same objects as before. A gallery
  session whose code is not the key of a listed album, among them one that was created by hand for a link that is not an album and is still listed,
  is removed, and its object refuses further connections.
\<close>

theorem sync_mirrors_gallery:
  assumes "(daemon_step E)\<^sup>*\<^sup>* (daemon_New cfg st fs, []) (d, gs)" and "(alone E links)\<^sup>*\<^sup>* (d, [WSync]) (d', [])"
  shows "(d_session c d' \<noteq> None \<longleftrightarrow> c \<in> set (album_keys links) \<or> (\<exists>s. d_session c d = Some s \<and> ds_ShareType (dm_heap d s) \<noteq> ''immich''))
    \<and> (d_session c d = Some s \<longrightarrow> d_session c d' = Some s \<or> d_session c d' = None \<and> ds_closing (dm_heap d' s))"
proof -
  have f: "filed d" by (rule filing.holds [OF assms(1)])
  have "kept d d" "sync_then d links d [WSync]"
    by (simp add: kept_def) (rule sync_then_single, simp_all add: grown_def split: option.splits)
  then have p: "pruned d (set (album_keys links)) [] d'"
    using alone_runs [OF assms(2) f f] by (auto simp: sync_then_def)
  then have "case d_session c d of
      Some s \<Rightarrow> d_session c d' = (if revoked d (set (album_keys links)) c s then None else Some s)
    | None \<Rightarrow> (d_session c d' \<noteq> None \<longleftrightarrow> c \<in> set (album_keys links))"
    using p [unfolded pruned_def, THEN conjunct2, THEN conjunct2, THEN conjunct2, THEN spec, of c] by (simp split: option.splits)
  then show ?thesis using p by (auto simp: pruned_def revoked_def split: option.splits if_splits)
qed

fun alone_move :: "denv \<Rightarrow> SharedLink list \<Rightarrow> turn_in \<Rightarrow> Daemon \<times> work list \<Rightarrow> Daemon \<times> work list" where
  "alone_move E links inp (d, []) = (d, [])"
| "alone_move E links inp (d, w # ws) =
     (if sync_ok E links inp w d then let (d', next, new) = daemon_turn E inp w d in (d', next @ ws) else (d, w # ws))"

lemma alone_move_steps: "(alone E links)\<^sup>*\<^sup>* s (fold (alone_move E links) inps s)"
proof (induction inps arbitrary: s)
  case (Cons inp inps)
  have "(alone E links)\<^sup>*\<^sup>* s (alone_move E links inp s)"
    by (cases "(E, links, inp, s)" rule: alone_move.cases) (auto split: prod.splits intro: alone.intros)
  then show ?case using Cons by (simp add: rtranclp_trans)
qed simp

definition sample_links :: "SharedLink list" where
  "sample_links = [\<lparr>sl_Key = ''k'', sl_Password = [], sl_Type = ''INDIVIDUAL''\<rparr>, \<lparr>sl_Key = ''a'', sl_Password = [], sl_Type = ''ALBUM''\<rparr>]"

definition sample_gallery :: "string \<Rightarrow> turn_in" where
  "sample_gallery code = sample_in\<lparr>in_links := Inr sample_links, in_reg := Inr (code, False)\<rparr>"

definition sample_manual :: "move list" where
  "sample_manual = MCall (WCreate ''immich://k'' ''immich'' [] 0 0 False) # replicate 5 (MTurn 0 (sample_gallery ''k''))"

lemma sample_manual_run:
  "(let (d, gs) = fold (daemon_move sample_env) sample_manual (sample_daemon, []);
        (d', ws) = fold (alone_move sample_env sample_links) (replicate 13 (sample_gallery ''a'')) (d, [WSync])
    in d_session ''k'' d = Some 0 \<and> ds_ShareType (dm_heap d 0) = ''immich'' \<and> ws = [])"
  by code_simp

text \<open>A share that was created by hand for a link that is not an album is removed by the next synchronisation, though the server still lists it.\<close>

theorem sync_mirrors_gallery_witness:
  "\<exists>d gs d'. (daemon_step sample_env)\<^sup>*\<^sup>* (sample_daemon, []) (d, gs) \<and> (alone sample_env sample_links)\<^sup>*\<^sup>* (d, [WSync]) (d', [])
    \<and> ''k'' \<in> set (map sl_Key sample_links) \<and> d_session ''k'' d = Some 0 \<and> d_session ''k'' d' = None \<and> ds_closing (dm_heap d' 0)
    \<and> d_session ''a'' d' \<noteq> None"
proof -
  obtain d gs where run: "fold (daemon_move sample_env) sample_manual (sample_daemon, []) = (d, gs)" by fastforce
  obtain d' ws where sync: "fold (alone_move sample_env sample_links) (replicate 13 (sample_gallery ''a'')) (d, [WSync]) = (d', ws)" by fastforce
  have f: "d_session ''k'' d = Some 0" "ds_ShareType (dm_heap d 0) = ''immich''" "ws = []"
    using sample_manual_run unfolding run sync Let_def prod.case by blast+
  have reach: "(daemon_step sample_env)\<^sup>*\<^sup>* (sample_daemon, []) (d, gs)" using daemon_run_steps run by metis
  have al: "(alone sample_env sample_links)\<^sup>*\<^sup>* (d, [WSync]) (d', [])" using alone_move_steps sync f(3) by metis
  have keys: "album_keys sample_links = [''a'']" by code_simp
  note mirrors = sync_mirrors_gallery [OF reach [unfolded sample_daemon_def] al]
  have "d_session ''k'' d' = None" "ds_closing (dm_heap d' 0)" "d_session ''a'' d' \<noteq> None"
    using mirrors [of "''k''" 0] mirrors [of "''a''" 0] f(1,2) by (auto simp: keys)
  then show ?thesis using reach al f(1) by (auto simp: sample_links_def)
qed


section \<open>Races of creation and revocation\<close>

text \<open>
  A share that is revoked between its creation and the saving of its entry: all goroutines are done, the session is gone, and the store
  keeps the entry that the next start will load.
\<close>

lemma revoked_share_stays_stored:
  "(let (d, gs) = fold (daemon_move sample_env)
          (MCall (WCreate ''u'' ''nextcloud'' ''p'' 60 0 False) # replicate 2 (MTurn 0 sample_in)
            @ MCall (WRevoke ''s'') # replicate 4 (MTurn 1 sample_in) @ replicate 2 (MTurn 0 sample_in)) (sample_daemon, [])
    in concat gs = [] \<and> d_session ''s'' d = None \<and> map en_Code (ListSessions True 10 (dm_store d)) = [''s''])"
  by code_simp

text \<open>A removal whose unregistration fails leaves a session that refuses connections and that a later poll takes as present.\<close>

lemma failed_removal_leaves_dead_share:
  "(let (d, gs) = fold (daemon_move sample_env)
          (MCall (WCreate ''immich://a'' ''immich'' [] 0 0 False) # replicate 5 (MTurn 0 (sample_gallery ''a''))
            @ MCall WSync # replicate 6 (MTurn 1 (sample_in\<lparr>in_err := Some (Errorf ''closed'' [])\<rparr>))
            @ MCall WSync # replicate 9 (MTurn 2 (sample_gallery ''a''))) (sample_daemon, [])
    in concat gs = [] \<and> map_option (\<lambda>s. ds_closing (dm_heap d s)) (d_session ''a'' d) = Some True)"
  by code_simp

end
