(* ===== verification/Peer_Model.thy ===== *)
theory Peer_Model
  imports Lanes Go_Std
begin

text \<open>
  A WebRTC peer, \<^verbatim>\<open>agent/internal/peer/peer.go\<close>: the three lanes, the handshake on the control lane, and the callbacks for opening and closing.
  The pion library is what it reports (lanes opening and closing, data, failures) and whether its calls succeed. Callbacks are numbers;
  \<open>pr_log\<close> records which of them ran. As in the daemon, a goroutine is the list of the turns it still has to make, cut at the peer's mutex.
\<close>

section \<open>Endpoints\<close>

datatype lane_handler = HResponder | HUser nat

text \<open>\<open>de_sent\<close> is what was handed to the data channel with a class, \<open>de_texts\<close> and \<open>de_binary\<close> what was handed to it without one.\<close>

record directEndpoint =
  de_lane :: Lane
  de_onMessage :: "lane_handler option"
  de_sent :: "(TrafficClass \<times> bytes) list"
  de_texts :: "string list"
  de_binary :: "bytes list"

definition direct_SendText :: "goerr option \<Rightarrow> string \<Rightarrow> directEndpoint \<Rightarrow> goerr option \<times> directEndpoint" where
  "direct_SendText err text e = (err, if err = None then e\<lparr>de_texts := de_texts e @ [text]\<rparr> else e)"

definition direct_SendBinary :: "goerr option \<Rightarrow> bytes \<Rightarrow> directEndpoint \<Rightarrow> goerr option \<times> directEndpoint" where
  "direct_SendBinary err data e = (err, if err = None then e\<lparr>de_binary := de_binary e @ [data]\<rparr> else e)"

text \<open>\<open>err\<close> is what the data channel answers.\<close>

definition direct_SendBinaryClass ::
  "Lane \<Rightarrow> goerr option \<Rightarrow> TrafficClass \<Rightarrow> bytes \<Rightarrow> directEndpoint \<Rightarrow> goerr option \<times> directEndpoint" where
  "direct_SendBinaryClass elane err class data e =
     (case LaneForClass class of
        Inl err' \<Rightarrow> (Some err', e)
      | Inr lane \<Rightarrow>
          if lane \<noteq> elane
          then (Some (Errorf ''traffic class %d maps to lane %d, not endpoint lane %d'' [uint class, uint lane, uint elane]), e)
          else (err, if err = None then e\<lparr>de_sent := de_sent e @ [(class, data)]\<rparr> else e))"

interpretation direct_endpoint: lane_endpoint lane "direct_SendBinaryClass lane err" de_sent for lane err
  by unfold_locales (auto simp: direct_SendBinaryClass_def split: sum.splits)

section \<open>The peer\<close>

definition requiredLanes :: "(Lane \<times> string) list" where
  "requiredLanes = [(LaneControl, ''control''), (LaneMedia, ''media''), (LaneBulk, ''bulk'')]"

datatype peer_call = CClosed nat | CListener nat

datatype peer_log = LAdded nat | LOpen nat | LCall peer_call | LData nat bytes

record Peer =
  pr_endpoints :: "Lane \<rightharpoonup> directEndpoint"
  pr_opened :: "Lane list"
  pr_handshakeArmed :: bool
  pr_ready :: bool
  pr_onMessage :: ptr
  pr_closed :: bool
  pr_openCallbackRunning :: bool
  pr_closePending :: bool
  pr_closeNotified :: bool
  pr_onOpen :: ptr
  pr_onClosed :: ptr
  pr_closeListeners :: "nat list"
  pr_onICECandidate :: ptr
  pr_pcClosed :: bool
  pr_relayPolicy :: bool
  pr_responder :: responder
  pr_log :: "peer_log list"

datatype peer_turn = PInstall | PReady | POpen ptr | POpenDone | PNotify | PPcClose | PCall peer_call

type_synonym peer_out = "Peer \<times> peer_turn list"

definition peer_New :: "bool \<Rightarrow> Peer" where
  "peer_New relayOnly = \<lparr>pr_endpoints = Map.empty, pr_opened = [], pr_handshakeArmed = False, pr_ready = False, pr_onMessage = None,
     pr_closed = False, pr_openCallbackRunning = False, pr_closePending = False, pr_closeNotified = False, pr_onOpen = None,
     pr_onClosed = None, pr_closeListeners = [], pr_onICECandidate = None, pr_pcClosed = False, pr_relayPolicy = relayOnly,
     pr_responder = responder_idle, pr_log = []\<rparr>"

text \<open>\<open>fails\<close> is the data channel that pion cannot create, if any; \<open>offer\<close> is what creating and setting the offer returns.\<close>

fun create_channels :: "Lane option \<Rightarrow> (Lane \<times> string) list \<Rightarrow> Peer \<Rightarrow> string option \<times> Peer" where
  "create_channels fails [] p = (None, p)"
| "create_channels fails ((lane, label) # rest) p =
     (if fails = Some lane then (Some label, p)
      else create_channels fails rest
        (p\<lparr>pr_endpoints := (pr_endpoints p)(lane \<mapsto> \<lparr>de_lane = lane, de_onMessage = None, de_sent = [], de_texts = [], de_binary = []\<rparr>)\<rparr>))"

definition peer_CreateOffer :: "Lane option \<Rightarrow> string result \<Rightarrow> Peer \<Rightarrow> string result \<times> peer_out" where
  "peer_CreateOffer fails offer p =
     (if list_ex (\<lambda>(lane, label). pr_endpoints p lane \<noteq> None) requiredLanes then (Inl (Errorf ''create offer: data channels already created'' []), p, [])
      else
        case create_channels fails requiredLanes p of
          (Some label, p1) \<Rightarrow> (Inl (ErrWrap (''create '' @ label @ '' data channel'') [] (Errorf ''data channel'' [])), p1, [PPcClose, PNotify])
        | (None, p1) \<Rightarrow> (offer, p1, []))"

definition set_handler :: "Lane \<Rightarrow> lane_handler option \<Rightarrow> Peer \<Rightarrow> Peer" where
  "set_handler lane h p =
     (case pr_endpoints p lane of
        None \<Rightarrow> p
      | Some e \<Rightarrow> p\<lparr>pr_endpoints := (pr_endpoints p)(lane \<mapsto> e\<lparr>de_onMessage := h\<rparr>)\<rparr>)"

definition laneOpened :: "Lane \<Rightarrow> Peer \<Rightarrow> peer_out" where
  "laneOpened lane p =
     (if pr_closed p \<or> \<not> Lane_Valid lane \<or> lane \<in> set (pr_opened p) then (p, [])
      else
        let p1 = p\<lparr>pr_opened := pr_opened p @ [lane]\<rparr> in
        if length (pr_opened p1) \<noteq> length requiredLanes \<or> pr_handshakeArmed p1 then (p1, [])
        else (p1\<lparr>pr_handshakeArmed := True\<rparr>, [PInstall]))"

text \<open>
  \<^verbatim>\<open>Endpoint\<close> makes an interface value of a pointer: for a lane the peer does not have it holds a nil pointer, and is not nil itself.
\<close>

datatype 'a iface = INil | IPtr "'a option"

definition peer_Endpoint :: "Lane \<Rightarrow> Peer \<Rightarrow> directEndpoint iface" where
  "peer_Endpoint lane p = IPtr (pr_endpoints p lane)"

lemma missing_endpoint_not_nil: "peer_Endpoint 7 (peer_New False) \<noteq> INil \<and> peer_Endpoint 7 (peer_New False) = IPtr None"
  by (simp add: peer_Endpoint_def peer_New_def)

definition peer_install :: "Peer \<Rightarrow> peer_out" where
  "peer_install p = (set_handler LaneControl (Some HResponder)
     (p\<lparr>pr_responder := InstallHandshakeResponder True (peer_Endpoint LaneControl p \<noteq> INil) (pr_responder p)\<rparr>), [])"

text \<open>
  Data on a lane. The responder's answer, its decision to close the peer and its call of the ready callback are those of
  \<open>handshake_on_message\<close>.
\<close>

definition peer_deliver :: "(bytes \<Rightarrow> (string \<times> int) option) \<Rightarrow> bool \<Rightarrow> Lane \<Rightarrow> bytes \<Rightarrow> Peer \<Rightarrow> peer_out" where
  "peer_deliver parse send_ok lane data p =
     (case pr_endpoints p lane of
        None \<Rightarrow> (p, [])
      | Some e \<Rightarrow>
          case de_onMessage e of
            None \<Rightarrow> (p, [])
          | Some (HUser h) \<Rightarrow> (p\<lparr>pr_log := pr_log p @ [LData h data]\<rparr>, [])
          | Some HResponder \<Rightarrow>
              let r = handshake_on_message parse send_ok data (pr_responder p); p1 = p\<lparr>pr_responder := r\<rparr> in
              if hs_ready r > hs_ready (pr_responder p) then (set_handler lane None p1, [PReady])
              else if hs_closed r \<and> \<not> hs_closed (pr_responder p) then (p1, [PPcClose, PNotify])
              else (p1, []))"

definition peer_ready :: "Peer \<Rightarrow> peer_out" where
  "peer_ready p =
     (if pr_closed p then (p, [])
      else (set_handler LaneControl (map_option HUser (pr_onMessage p)) (p\<lparr>pr_ready := True, pr_openCallbackRunning := True\<rparr>),
            [POpen (pr_onOpen p)]))"

definition closeCallbacksLocked :: "Peer \<Rightarrow> peer_turn list" where
  "closeCallbacksLocked p =
     (case pr_onClosed p of None \<Rightarrow> [] | Some h \<Rightarrow> [PCall (CClosed h)]) @ map (\<lambda>h. PCall (CListener h)) (pr_closeListeners p)"

definition peer_open_done :: "Peer \<Rightarrow> peer_out" where
  "peer_open_done p =
     (let p1 = p\<lparr>pr_openCallbackRunning := False\<rparr> in
      if pr_closePending p1 \<and> \<not> pr_closeNotified p1 then (p1\<lparr>pr_closeNotified := True\<rparr>, closeCallbacksLocked p1)
      else (p1, []))"

definition notifyClosed :: "Peer \<Rightarrow> peer_out" where
  "notifyClosed p =
     (if pr_closed p then (p, [])
      else
        let p1 = p\<lparr>pr_closed := True\<rparr> in
        if pr_openCallbackRunning p1 then (p1\<lparr>pr_closePending := True\<rparr>, [])
        else (p1\<lparr>pr_closeNotified := True\<rparr>, closeCallbacksLocked p1))"

fun peer_turn_of :: "peer_turn \<Rightarrow> Peer \<Rightarrow> peer_out" where
  "peer_turn_of PInstall p = peer_install p"
| "peer_turn_of PReady p = peer_ready p"
| "peer_turn_of (POpen h) p = (case h of None \<Rightarrow> (p, [POpenDone]) | Some f \<Rightarrow> (p\<lparr>pr_log := pr_log p @ [LOpen f]\<rparr>, [POpenDone]))"
| "peer_turn_of POpenDone p = peer_open_done p"
| "peer_turn_of PNotify p = notifyClosed p"
| "peer_turn_of PPcClose p = (p\<lparr>pr_pcClosed := True\<rparr>, [])"
| "peer_turn_of (PCall c) p = (p\<lparr>pr_log := pr_log p @ [LCall c]\<rparr>, [])"

section \<open>The interface of a peer\<close>

definition peer_SetOnOpen :: "ptr \<Rightarrow> Peer \<Rightarrow> Peer" where
  "peer_SetOnOpen h p = p\<lparr>pr_onOpen := h\<rparr>"

definition peer_SetOnClose :: "ptr \<Rightarrow> Peer \<Rightarrow> Peer" where
  "peer_SetOnClose h p = p\<lparr>pr_onClosed := h\<rparr>"

definition peer_SetOnICECandidate :: "ptr \<Rightarrow> Peer \<Rightarrow> Peer" where
  "peer_SetOnICECandidate h p = p\<lparr>pr_onICECandidate := h\<rparr>"

definition peer_AddOnClose :: "ptr \<Rightarrow> Peer \<Rightarrow> peer_out" where
  "peer_AddOnClose handler p =
     (case handler of
        None \<Rightarrow> (p, [])
      | Some h \<Rightarrow>
          let p1 = p\<lparr>pr_log := pr_log p @ [LAdded h]\<rparr> in
          if pr_closeNotified p then (p1, [PCall (CListener h)])
          else (p1\<lparr>pr_closeListeners := pr_closeListeners p @ [h]\<rparr>, []))"

text \<open>The handler of the control lane is set outside the peer's lock.\<close>

definition peer_SetOnMessage :: "ptr \<Rightarrow> Peer \<Rightarrow> Peer" where
  "peer_SetOnMessage h p =
     (let p1 = p\<lparr>pr_onMessage := h\<rparr> in if pr_ready p then set_handler LaneControl (map_option HUser h) p1 else p1)"

definition peer_Close :: "peer_turn list" where
  "peer_Close = [PPcClose, PNotify]"

definition peer_laneClosed :: "peer_turn list" where
  "peer_laneClosed = [PNotify, PPcClose]"

text \<open>What may happen to a peer: calls of its interface, events of the transport, and the turns of the goroutines they start.\<close>

inductive peer_step :: "(bytes \<Rightarrow> (string \<times> int) option) \<Rightarrow> Peer \<times> peer_turn list list \<Rightarrow> Peer \<times> peer_turn list list \<Rightarrow> bool"
  for parse where
  set_open: "peer_step parse (p, gs) (peer_SetOnOpen h p, gs)"
| set_close: "peer_step parse (p, gs) (peer_SetOnClose h p, gs)"
| set_candidate: "peer_step parse (p, gs) (peer_SetOnICECandidate h p, gs)"
| set_message: "peer_step parse (p, gs) (peer_SetOnMessage h p, gs)"
| add_close: "peer_AddOnClose h p = (p', ws) \<Longrightarrow> peer_step parse (p, gs) (p', gs @ [ws])"
| close: "peer_step parse (p, gs) (p, gs @ [peer_Close])"
| offer: "peer_CreateOffer fails offer p = (res, p', ws) \<Longrightarrow> peer_step parse (p, gs) (p', gs @ [ws])"
| lane_opened: "pr_endpoints p lane \<noteq> None \<Longrightarrow> laneOpened lane p = (p', ws) \<Longrightarrow> peer_step parse (p, gs) (p', gs @ [ws])"
| lane_closed: "pr_endpoints p lane \<noteq> None \<Longrightarrow> peer_step parse (p, gs) (p, gs @ [peer_laneClosed])"
| failed: "peer_step parse (p, gs) (p, gs @ [[PNotify]])"
| data: "peer_deliver parse send_ok lane bs p = (p', ws) \<Longrightarrow> peer_step parse (p, gs) (p', gs @ [ws])"
| turn: "i < length gs \<Longrightarrow> gs ! i = w # ws \<Longrightarrow> peer_turn_of w p = (p', next) \<Longrightarrow> peer_step parse (p, gs) (p', gs[i := next @ ws])"

section \<open>Tuning\<close>

text \<open>\<^verbatim>\<open>sctpEnvUint\<close> and \<^verbatim>\<open>applySCTPTuning\<close>: the settings that are made, in their order; unset, malformed and zero variables make none.\<close>

definition parse_u32 :: "string \<Rightarrow> 32 word option" where
  "parse_u32 s = (case ParseUint s of None \<Rightarrow> None | Some n \<Rightarrow> if unat n < 2 ^ 32 then Some (ucast n) else None)"

definition sctpEnvUint :: "(string \<Rightarrow> string) \<Rightarrow> string \<Rightarrow> 32 word" where
  "sctpEnvUint getenv name = (if getenv name = [] then 0 else case parse_u32 (getenv name) of None \<Rightarrow> 0 | Some n \<Rightarrow> n)"

definition applySCTPTuning :: "(string \<Rightarrow> string) \<Rightarrow> (string \<times> 32 word) list" where
  "applySCTPTuning getenv =
     filter (\<lambda>(name, v). v > 0)
       [(''cwndCAStep'', sctpEnvUint getenv ''SB_SCTP_CA_STEP''), (''minCwnd'', sctpEnvUint getenv ''SB_SCTP_MIN_CWND''),
        (''fastRtxWnd'', sctpEnvUint getenv ''SB_SCTP_FAST_RTX_WND''), (''maxRxBuf'', sctpEnvUint getenv ''SB_SCTP_MAX_RX_BUF''),
        (''maxMsg'', sctpEnvUint getenv ''SB_SCTP_MAX_MSG''), (''rtoMax'', sctpEnvUint getenv ''SB_SCTP_RTO_MAX_MS'')]"

end
