(* ===== verification/Peer_Properties.thy ===== *)
theory Peer_Properties
  imports Peer_Model Goroutines
begin

text \<open>
  The callbacks of a peer in every interleaving of its interface, its transport and its goroutines: each runs as often as it should,
  and none that announces the end comes before the one that announces the start is done.
\<close>

declare items_single [simp]

section \<open>The invariant\<close>

fun is_open :: "peer_log \<Rightarrow> bool" where
  "is_open (LOpen h) = True"
| "is_open _ = False"

fun is_close_call :: "peer_log \<Rightarrow> bool" where
  "is_close_call (LCall c) = True"
| "is_close_call _ = False"

fun is_closed_call :: "peer_log \<Rightarrow> bool" where
  "is_closed_call (LCall (CClosed h)) = True"
| "is_closed_call _ = False"

fun opens_now :: "peer_turn \<Rightarrow> bool" where
  "opens_now (POpen h) = True"
| "opens_now _ = False"

fun calling :: "peer_turn \<Rightarrow> bool" where
  "calling (PCall c) = True"
| "calling _ = False"

fun calling_closed :: "peer_turn \<Rightarrow> bool" where
  "calling_closed (PCall (CClosed h)) = True"
| "calling_closed _ = False"

definition how_many :: "('a \<Rightarrow> bool) \<Rightarrow> 'a multiset \<Rightarrow> nat" where
  "how_many P M = size (filter_mset P M)"

lemma how_many_simps [simp]:
  "how_many P {#} = 0" "how_many P (add_mset w M) = (if P w then 1 else 0) + how_many P M" "how_many P (M + N) = how_many P M + how_many P N"
  by (simp_all add: how_many_def)

text \<open>No open callback after a close callback.\<close>

fun opens_first :: "peer_log list \<Rightarrow> bool" where
  "opens_first [] = True"
| "opens_first (x # xs) = ((is_close_call x \<longrightarrow> list_all (\<lambda>y. \<not> is_open y) xs) \<and> opens_first xs)"

lemma opens_first_snoc: "opens_first (xs @ [y]) \<longleftrightarrow> opens_first xs \<and> (is_open y \<longrightarrow> list_all (\<lambda>x. \<not> is_close_call x) xs)"
  by (induction xs) auto

definition fresh_responder :: "responder \<Rightarrow> nat" where
  "fresh_responder r = (if hs_installed r \<and> \<not> hs_first_done r then 1 else 0)"

text \<open>The phases of a peer: the handshake is armed, answered and ready at most once; the open callback runs while the flag says so.\<close>

definition peer_phases :: "Peer \<Rightarrow> peer_turn multiset \<Rightarrow> bool" where
  "peer_phases p M \<longleftrightarrow>
     count M PInstall + count M PReady + fresh_responder (pr_responder p) + (if pr_ready p then 1 else 0) \<le> (if pr_handshakeArmed p then 1 else 0)
     \<and> length (filter is_open (pr_log p)) + how_many opens_now M \<le> (if pr_ready p then 1 else 0)
     \<and> how_many opens_now M + count M POpenDone = (if pr_openCallbackRunning p then 1 else 0)
     \<and> (pr_openCallbackRunning p \<longrightarrow> pr_ready p)"

definition peer_closing :: "Peer \<Rightarrow> peer_turn multiset \<Rightarrow> bool" where
  "peer_closing p M \<longleftrightarrow>
     (pr_closeNotified p \<longrightarrow> pr_closed p \<and> \<not> pr_openCallbackRunning p)
     \<and> (pr_closePending p \<longrightarrow> pr_closed p)
     \<and> (pr_closed p \<and> \<not> pr_closeNotified p \<longrightarrow> pr_closePending p \<and> pr_openCallbackRunning p)
     \<and> (\<not> pr_closeNotified p \<longrightarrow> list_all (\<lambda>x. \<not> is_close_call x) (pr_log p) \<and> how_many calling M = 0)
     \<and> length (filter is_closed_call (pr_log p)) + how_many calling_closed M \<le> (if pr_closeNotified p then 1 else 0)
     \<and> opens_first (pr_log p)"

definition peer_listens :: "Peer \<Rightarrow> peer_turn multiset \<Rightarrow> nat \<Rightarrow> bool" where
  "peer_listens p M h \<longleftrightarrow>
     count_list (pr_log p) (LCall (CListener h)) + count M (PCall (CListener h))
       + (if pr_closeNotified p then 0 else count_list (pr_closeListeners p) h) = count_list (pr_log p) (LAdded h)"

definition peer_inv :: "Peer \<Rightarrow> peer_turn multiset \<Rightarrow> bool" where
  "peer_inv p M \<longleftrightarrow> peer_phases p M \<and> peer_closing p M \<and> (\<forall>h. peer_listens p M h)"

lemma peer_invI: "peer_phases p M \<Longrightarrow> peer_closing p M \<Longrightarrow> (\<And>h. peer_listens p M h) \<Longrightarrow> peer_inv p M"
  by (simp add: peer_inv_def)

lemma peer_invD: "peer_inv p M \<Longrightarrow> peer_phases p M" "peer_inv p M \<Longrightarrow> peer_closing p M" "peer_inv p M \<Longrightarrow> peer_listens p M h"
  by (simp_all add: peer_inv_def)

text \<open>Turns and calls that touch none of this.\<close>

fun silent :: "peer_turn \<Rightarrow> bool" where
  "silent PNotify = True"
| "silent PPcClose = True"
| "silent _ = False"

lemma silent_counts:
  "silent w \<Longrightarrow> w \<noteq> PInstall \<and> w \<noteq> PReady \<and> w \<noteq> POpenDone \<and> w \<noteq> PCall c \<and> \<not> opens_now w \<and> \<not> calling w \<and> \<not> calling_closed w"
  by (cases w) auto

lemma peer_inv_silent: "silent w \<Longrightarrow> peer_inv p (add_mset w M) = peer_inv p M"
  using silent_counts [of w] by (simp add: peer_inv_def peer_phases_def peer_closing_def peer_listens_def)

definition same_peer :: "Peer \<Rightarrow> Peer \<Rightarrow> bool" where
  "same_peer p p' \<longleftrightarrow> pr_handshakeArmed p' = pr_handshakeArmed p \<and> pr_ready p' = pr_ready p \<and> pr_closed p' = pr_closed p
     \<and> pr_openCallbackRunning p' = pr_openCallbackRunning p \<and> pr_closePending p' = pr_closePending p
     \<and> pr_closeNotified p' = pr_closeNotified p \<and> pr_closeListeners p' = pr_closeListeners p \<and> pr_responder p' = pr_responder p
     \<and> pr_log p' = pr_log p"

lemma peer_inv_same: "same_peer p p' \<Longrightarrow> peer_inv p' M = peer_inv p M"
  by (simp add: same_peer_def peer_inv_def peer_phases_def peer_closing_def peer_listens_def)

lemma set_handler_same: "same_peer p (set_handler l h p)"
  by (simp add: set_handler_def same_peer_def split: option.splits)

lemma set_handler_fields [simp]:
  "pr_handshakeArmed (set_handler l h p) = pr_handshakeArmed p" "pr_ready (set_handler l h p) = pr_ready p"
  "pr_closed (set_handler l h p) = pr_closed p" "pr_openCallbackRunning (set_handler l h p) = pr_openCallbackRunning p"
  "pr_closePending (set_handler l h p) = pr_closePending p" "pr_closeNotified (set_handler l h p) = pr_closeNotified p"
  "pr_closeListeners (set_handler l h p) = pr_closeListeners p" "pr_responder (set_handler l h p) = pr_responder p"
  "pr_log (set_handler l h p) = pr_log p"
  by (simp_all add: set_handler_def split: option.splits)

section \<open>Turns keep it\<close>

lemma handshake_progress:
  "hs_ready r < hs_ready (handshake_on_message parse ok data r) \<Longrightarrow> fresh_responder r = 1 \<and> fresh_responder (handshake_on_message parse ok data r) = 0"
  "fresh_responder (handshake_on_message parse ok data r) \<le> fresh_responder r"
  by (auto simp: handshake_on_message_def fresh_responder_def sendHandshakeError_def Let_def split: option.splits if_splits prod.splits)

lemma count_callbacks:
  "count (mset (closeCallbacksLocked p)) (PCall (CListener h)) = count_list (pr_closeListeners p) h"
  "count (mset (closeCallbacksLocked p)) PInstall = 0" "count (mset (closeCallbacksLocked p)) PReady = 0"
  "count (mset (closeCallbacksLocked p)) POpenDone = 0" "how_many opens_now (mset (closeCallbacksLocked p)) = 0"
  "how_many calling_closed (mset (closeCallbacksLocked p)) \<le> 1"
proof -
  have "count (mset (map (\<lambda>h. PCall (CListener h)) xs)) (PCall (CListener h)) = count_list xs h" for xs by (induction xs) auto
  moreover have "how_many calling_closed (mset (map (\<lambda>h. PCall (CListener h)) xs)) = 0" for xs by (induction xs) auto
  moreover have "how_many opens_now (mset (map (\<lambda>h. PCall (CListener h)) xs)) = 0" for xs by (induction xs) auto
  moreover have "w \<notin># mset (map (\<lambda>h. PCall (CListener h)) xs)" if "\<not> calling w" for w xs using that by auto
  ultimately show
    "count (mset (closeCallbacksLocked p)) (PCall (CListener h)) = count_list (pr_closeListeners p) h"
    "count (mset (closeCallbacksLocked p)) PInstall = 0" "count (mset (closeCallbacksLocked p)) PReady = 0"
    "count (mset (closeCallbacksLocked p)) POpenDone = 0" "how_many opens_now (mset (closeCallbacksLocked p)) = 0"
    "how_many calling_closed (mset (closeCallbacksLocked p)) \<le> 1"
    by (auto simp: closeCallbacksLocked_def count_eq_zero_iff split: option.splits)
qed

lemma peer_phases_same:
  "pr_handshakeArmed p' = pr_handshakeArmed p \<Longrightarrow> pr_ready p' = pr_ready p \<Longrightarrow> pr_openCallbackRunning p' = pr_openCallbackRunning p
   \<Longrightarrow> pr_responder p' = pr_responder p \<Longrightarrow> pr_log p' = pr_log p \<Longrightarrow> peer_phases p' M = peer_phases p M"
  by (simp add: peer_phases_def)

lemma peer_closing_same:
  "pr_closed p' = pr_closed p \<Longrightarrow> pr_openCallbackRunning p' = pr_openCallbackRunning p \<Longrightarrow> pr_closePending p' = pr_closePending p
   \<Longrightarrow> pr_closeNotified p' = pr_closeNotified p \<Longrightarrow> pr_log p' = pr_log p \<Longrightarrow> peer_closing p' M = peer_closing p M"
  by (simp add: peer_closing_def)

lemma peer_listens_same:
  "pr_closeNotified p' = pr_closeNotified p \<Longrightarrow> pr_log p' = pr_log p \<Longrightarrow> pr_closeListeners p' = pr_closeListeners p
   \<Longrightarrow> peer_listens p' M h = peer_listens p M h"
  by (simp add: peer_listens_def)

lemma not_calling: "\<not> calling w \<Longrightarrow> peer_closing p (add_mset w M) = peer_closing p M \<and> peer_listens p (add_mset w M) h = peer_listens p M h"
  by (cases w) (simp_all add: peer_closing_def peer_listens_def)

text \<open>The announcement of the end: the callbacks become due.\<close>

lemma announce:
  assumes inv: "peer_inv p M" and p: "\<not> pr_openCallbackRunning p'" "\<not> pr_closeNotified p"
    and p': "pr_closeNotified p'" "pr_closed p'" "pr_log p' = pr_log p" "pr_closeListeners p' = pr_closeListeners p"
    and ph: "peer_phases p' M"
  shows "peer_inv p' (mset (closeCallbacksLocked p) + M)"
proof (rule peer_invI)
  show "peer_phases p' (mset (closeCallbacksLocked p) + M)" using ph by (simp add: peer_phases_def count_callbacks)
  show "peer_closing p' (mset (closeCallbacksLocked p) + M)"
    using peer_invD(2) [OF inv] p p' count_callbacks(6) [of p] by (simp add: peer_closing_def)
  show "peer_listens p' (mset (closeCallbacksLocked p) + M) h" for h
    using peer_invD(3) [OF inv, of h] p p' by (simp add: peer_listens_def count_callbacks)
qed

lemma notify_turn:
  assumes inv: "peer_inv p M" and t: "notifyClosed p = (p', next)"
  shows "peer_inv p' (mset next + M)"
proof (cases "pr_closed p")
  case True
  then show ?thesis using assms by (auto simp: notifyClosed_def)
next
  case False
  note D = peer_invD [OF inv]
  have n: "\<not> pr_closeNotified p" using D(2) False by (simp add: peer_closing_def)
  show ?thesis
  proof (cases "pr_openCallbackRunning p")
    case True
    then have p': "p' = p\<lparr>pr_closed := True, pr_closePending := True\<rparr>" "next = []"
      using t False by (auto simp: notifyClosed_def Let_def)
    have "peer_phases p' (mset next + M)" using D(1) p' peer_phases_same [of p' p M] by simp
    moreover have "peer_closing p' (mset next + M)" "peer_listens p' (mset next + M) h" for h
      using D(2,3) p' n True by (simp_all add: peer_closing_def peer_listens_def)
    ultimately show ?thesis by (rule peer_invI)
  next
    case no: False
    have p': "p' = p\<lparr>pr_closed := True, pr_closeNotified := True\<rparr>" "next = closeCallbacksLocked p"
      using t False no by (auto simp: notifyClosed_def Let_def closeCallbacksLocked_def)
    show ?thesis unfolding p'(2)
      by (rule announce [OF inv]) (use p' no n D(1) in \<open>simp_all add: peer_phases_def\<close>)
  qed
qed

lemma open_done_turn:
  assumes inv: "peer_inv p (add_mset POpenDone M)" and t: "peer_open_done p = (p', next)"
  shows "peer_inv p' (mset next + M)"
proof -
  note D = peer_invD [OF inv]
  have run: "pr_openCallbackRunning p" "how_many opens_now M = 0" "count M POpenDone = 0"
    using D(1) by (auto simp: peer_phases_def split: if_splits)
  have ph: "peer_phases (p\<lparr>pr_openCallbackRunning := False, pr_closeNotified := b\<rparr>) M" for b
    using D(1) run by (auto simp: peer_phases_def split: if_splits)
  have n: "\<not> pr_closeNotified p" using D(2) run by (simp add: peer_closing_def)
  show ?thesis
  proof (cases "pr_closePending p")
    case True
    have p': "p' = p\<lparr>pr_openCallbackRunning := False, pr_closeNotified := True\<rparr>" "next = closeCallbacksLocked p"
      using t True n by (auto simp: peer_open_done_def Let_def closeCallbacksLocked_def)
    show ?thesis
    proof (rule peer_invI)
      show "peer_phases p' (mset next + M)" using ph [of True] p' by (simp add: peer_phases_def count_callbacks)
      show "peer_closing p' (mset next + M)" using D(2) p' True n count_callbacks(6) [of p] by (simp add: peer_closing_def)
      show "peer_listens p' (mset next + M) h" for h using D(3) [of h] p' n by (simp add: peer_listens_def count_callbacks)
    qed
  next
    case False
    then have p': "p' = p\<lparr>pr_openCallbackRunning := False\<rparr>" "next = []" using t by (auto simp: peer_open_done_def Let_def)
    show ?thesis
      by (rule peer_invI) (use D p' ph [of False] n False in \<open>simp_all add: peer_phases_def peer_closing_def peer_listens_def\<close>)
  qed
qed

lemma ready_turn:
  assumes inv: "peer_inv p (add_mset PReady M)" and t: "peer_ready p = (p', next)"
  shows "peer_inv p' (mset next + M)"
proof (cases "pr_closed p")
  case True
  then have "p' = p" "next = []" using t by (auto simp: peer_ready_def)
  then show ?thesis
    using peer_invD [OF inv] by (intro peer_invI) (simp_all add: peer_phases_def peer_closing_def peer_listens_def)
next
  case False
  note D = peer_invD [OF inv]
  have p': "p' = set_handler LaneControl (map_option HUser (pr_onMessage p)) (p\<lparr>pr_ready := True, pr_openCallbackRunning := True\<rparr>)"
    "next = [POpen (pr_onOpen p)]" using t False by (auto simp: peer_ready_def)
  have idle: "\<not> pr_ready p" "\<not> pr_openCallbackRunning p" using D(1) by (auto simp: peer_phases_def split: if_splits)
  show ?thesis
  proof (rule peer_invI)
    show "peer_phases p' (mset next + M)" using D(1) p' idle by (auto simp: peer_phases_def split: if_splits)
    show "peer_closing p' (mset next + M)" using D(2) p' idle False by (auto simp: peer_closing_def split: if_splits)
    show "peer_listens p' (mset next + M) h" for h using D(3) [of h] p' by (auto simp: peer_listens_def split: if_splits)
  qed
qed

lemma install_turn:
  assumes inv: "peer_inv p (add_mset PInstall M)" and t: "peer_install p = (p', next)"
  shows "peer_inv p' (mset next + M)"
proof -
  note D = peer_invD [OF inv]
  have "fresh_responder (InstallHandshakeResponder True b r) \<le> 1" for b r by (simp add: fresh_responder_def)
  then have "peer_phases p' (mset next + M)"
    using D(1) t by (auto simp: peer_install_def peer_phases_def fresh_responder_def split: if_splits)
  moreover have "peer_closing p' (mset next + M)" "peer_listens p' (mset next + M) h" for h
    using D(2,3) t by (auto simp: peer_install_def peer_closing_def peer_listens_def)
  ultimately show ?thesis by (rule peer_invI)
qed

lemma peer_open_turn:
  assumes inv: "peer_inv p (add_mset (POpen h) M)" and t: "peer_turn_of (POpen h) p = (p', next)"
  shows "peer_inv p' (mset next + M)"
proof -
  note D = peer_invD [OF inv]
  have run: "pr_openCallbackRunning p" using D(1) by (auto simp: peer_phases_def split: if_splits)
  then have n: "\<not> pr_closeNotified p" using D(2) by (simp add: peer_closing_def)
  have p': "next = [POpenDone]" "p' = (case h of None \<Rightarrow> p | Some f \<Rightarrow> p\<lparr>pr_log := pr_log p @ [LOpen f]\<rparr>)"
    using t by (auto split: option.splits)
  show ?thesis
  proof (rule peer_invI)
    show "peer_phases p' (mset next + M)" using D(1) p' run by (cases h) (auto simp: peer_phases_def split: if_splits)
    show "peer_closing p' (mset next + M)" using D(2) p' n by (cases h) (simp_all add: peer_closing_def opens_first_snoc)
    show "peer_listens p' (mset next + M) k" for k using D(3) [of k] p' by (cases h) (auto simp: peer_listens_def split: if_splits)
  qed
qed

lemma call_turn:
  assumes inv: "peer_inv p (add_mset (PCall c) M)" and t: "peer_turn_of (PCall c) p = (p', next)"
  shows "peer_inv p' (mset next + M)"
proof -
  note D = peer_invD [OF inv]
  have n: "pr_closeNotified p" using D(2) by (auto simp: peer_closing_def)
  have p': "p' = p\<lparr>pr_log := pr_log p @ [LCall c]\<rparr>" "next = []" using t by auto
  show ?thesis
  proof (rule peer_invI)
    show "peer_phases p' (mset next + M)" using D(1) p' by (simp add: peer_phases_def)
    show "peer_closing p' (mset next + M)" using D(2) p' n by (cases c) (simp_all add: peer_closing_def opens_first_snoc)
    show "peer_listens p' (mset next + M) k" for k using D(3) [of k] p' n by (cases c) (auto simp: peer_listens_def)
  qed
qed

lemma peer_turn_inv:
  assumes "peer_inv p (add_mset w M)" "peer_turn_of w p = (p', next)"
  shows "peer_inv p' (mset next + M)"
proof (cases w)
  case PNotify
  then show ?thesis using assms notify_turn peer_inv_silent [of PNotify] by simp
next
  case PPcClose
  then have "same_peer p p'" "next = []" using assms by (auto simp: same_peer_def)
  then show ?thesis using assms PPcClose peer_inv_silent [of PPcClose] peer_inv_same by simp
qed (use assms install_turn ready_turn peer_open_turn open_done_turn call_turn in auto)

section \<open>Calls and events keep it\<close>

lemma add_close_inv:
  assumes inv: "peer_inv p M" and t: "peer_AddOnClose h p = (p', ws)"
  shows "peer_inv p' (mset ws + M)"
proof (cases h)
  case None
  then show ?thesis using assms by (simp add: peer_AddOnClose_def)
next
  case (Some f)
  note D = peer_invD [OF inv]
  show ?thesis
  proof (cases "pr_closeNotified p")
    case True
    then have p': "p' = p\<lparr>pr_log := pr_log p @ [LAdded f]\<rparr>" "ws = [PCall (CListener f)]"
      using t Some by (auto simp: peer_AddOnClose_def Let_def)
    show ?thesis
      by (rule peer_invI) (use D p' True in \<open>auto simp: peer_phases_def peer_closing_def peer_listens_def opens_first_snoc\<close>)
  next
    case False
    then have p': "p' = p\<lparr>pr_log := pr_log p @ [LAdded f], pr_closeListeners := pr_closeListeners p @ [f]\<rparr>" "ws = []"
      using t Some by (auto simp: peer_AddOnClose_def Let_def)
    show ?thesis
      by (rule peer_invI) (use D p' False in \<open>auto simp: peer_phases_def peer_closing_def peer_listens_def opens_first_snoc\<close>)
  qed
qed

lemma lane_opened_inv:
  assumes inv: "peer_inv p M" and t: "laneOpened l p = (p', ws)"
  shows "peer_inv p' (mset ws + M)"
proof -
  note D = peer_invD [OF inv]
  have "peer_phases p' (mset ws + M)" using D(1) t by (auto simp: laneOpened_def Let_def peer_phases_def split: if_splits)
  moreover have "peer_closing p' (mset ws + M)" using D(2) t by (auto simp: laneOpened_def Let_def peer_closing_def split: if_splits)
  moreover have "peer_listens p' (mset ws + M) h" for h using D(3) [of h] t by (auto simp: laneOpened_def Let_def peer_listens_def split: if_splits)
  ultimately show ?thesis by (rule peer_invI)
qed

lemma deliver_inv:
  assumes inv: "peer_inv p M" and t: "peer_deliver parse ok l bs p = (p', ws)"
  shows "peer_inv p' (mset ws + M)"
proof -
  let ?r = "handshake_on_message parse ok bs (pr_responder p)"
  note D = peer_invD [OF inv]
  have keep: "peer_closing (p\<lparr>pr_responder := ?r\<rparr>) M" "peer_listens (p\<lparr>pr_responder := ?r\<rparr>) M h" for h
    using D(2,3) peer_closing_same [of "p\<lparr>pr_responder := ?r\<rparr>" p M] peer_listens_same [of "p\<lparr>pr_responder := ?r\<rparr>" p M h] by simp_all
  have "peer_phases (p\<lparr>pr_responder := ?r\<rparr>) M"
    using D(1) handshake_progress(2) [of parse ok bs "pr_responder p"] by (auto simp: peer_phases_def)
  then have answered: "peer_inv (p\<lparr>pr_responder := ?r\<rparr>) M" using keep by (rule peer_invI)
  have ready: "peer_inv (set_handler l None (p\<lparr>pr_responder := ?r\<rparr>)) (add_mset PReady M)" if "hs_ready (pr_responder p) < hs_ready ?r"
  proof -
    have "peer_phases (p\<lparr>pr_responder := ?r\<rparr>) (add_mset PReady M)" using D(1) handshake_progress(1) [OF that] by (auto simp: peer_phases_def)
    then have "peer_inv (p\<lparr>pr_responder := ?r\<rparr>) (add_mset PReady M)" using keep by (intro peer_invI) (simp_all add: not_calling)
    then show ?thesis using peer_inv_same [OF set_handler_same] by simp
  qed
  have user: "peer_inv (p\<lparr>pr_log := pr_log p @ [LData h bs]\<rparr>) M" for h
  proof (rule peer_invI)
    show "peer_phases (p\<lparr>pr_log := pr_log p @ [LData h bs]\<rparr>) M" using D(1) by (simp add: peer_phases_def)
    show "peer_closing (p\<lparr>pr_log := pr_log p @ [LData h bs]\<rparr>) M" using D(2) by (simp add: peer_closing_def opens_first_snoc)
    show "peer_listens (p\<lparr>pr_log := pr_log p @ [LData h bs]\<rparr>) M k" for k using D(3) [of k] by (auto simp: peer_listens_def split: if_splits)
  qed
  show ?thesis
    using t inv answered ready user
    by (auto simp: peer_deliver_def Let_def peer_inv_silent split: option.splits lane_handler.splits if_splits)
qed

lemma channels_same: "create_channels fails ls p = (res, p') \<Longrightarrow> same_peer p p'"
  by (induction fails ls p arbitrary: p' rule: create_channels.induct) (auto simp: same_peer_def split: if_splits)

lemma offer_inv:
  assumes inv: "peer_inv p M" and t: "peer_CreateOffer fails offer p = (res, p', ws)"
  shows "peer_inv p' (mset ws + M)"
proof -
  obtain r p1 where c: "create_channels fails requiredLanes p = (r, p1)" by force
  have "peer_inv p1 M" using inv peer_inv_same [OF channels_same [OF c]] by simp
  then show ?thesis
    using t c inv by (auto simp: peer_CreateOffer_def peer_inv_silent split: if_splits option.splits)
qed

lemma peer_step_inv:
  assumes "peer_step parse (p, gs) (p', gs')" "peer_inv p (items gs)"
  shows "peer_inv p' (items gs')"
  using assms(1)
proof cases
  case (set_open h)
  then show ?thesis using assms(2) peer_inv_same [of p p'] by (simp add: peer_SetOnOpen_def same_peer_def)
next
  case (set_close h)
  then show ?thesis using assms(2) peer_inv_same [of p p'] by (simp add: peer_SetOnClose_def same_peer_def)
next
  case (set_candidate h)
  then show ?thesis using assms(2) peer_inv_same [of p p'] by (simp add: peer_SetOnICECandidate_def same_peer_def)
next
  case (set_message h)
  then have "same_peer p p'" by (simp add: peer_SetOnMessage_def Let_def same_peer_def)
  then show ?thesis using assms(2) peer_inv_same set_message by blast
next
  case (add_close h ws)
  then show ?thesis using add_close_inv assms(2) by (simp add: add.commute)
next
  case close
  then show ?thesis using assms(2) by (simp add: peer_Close_def peer_inv_silent add.commute)
next
  case (offer fails off res ws)
  then show ?thesis using offer_inv assms(2) by (simp add: add.commute)
next
  case (lane_opened l ws)
  then show ?thesis using lane_opened_inv assms(2) by (simp add: add.commute)
next
  case (lane_closed l)
  then show ?thesis using assms(2) by (simp add: peer_laneClosed_def peer_inv_silent add.commute)
next
  case failed
  then show ?thesis using assms(2) by (simp add: peer_inv_silent)
next
  case (data ok l bs ws)
  then show ?thesis using deliver_inv assms(2) by (simp add: add.commute)
next
  case (turn i w ws "next")
  obtain M where "items gs = add_mset w M" "items (gs[i := next @ ws] @ []) = mset next + mset (concat []) + M"
    using items_turn [OF turn(2,3)] by metis
  then show ?thesis using peer_turn_inv [OF _ turn(4)] assms(2) turn(1) by simp
qed

lemma peer_reach_inv:
  assumes "(peer_step parse)\<^sup>*\<^sup>* (peer_New relayOnly, []) (p, gs)"
  shows "peer_inv p (items gs)"
  using assms
proof (induction rule: rtranclp_induct2)
  case refl
  show ?case
    by (simp add: peer_inv_def peer_phases_def peer_closing_def peer_listens_def peer_New_def fresh_responder_def responder_idle_def)
next
  case (step p gs p' gs')
  then show ?case using peer_step_inv by blast
qed

section \<open>Properties\<close>

text \<open>
  (C20) The callbacks of a peer run as often as they should, in every interleaving of its users, its transport and its goroutines, however often
  and from wherever it is closed. A close listener runs at most once for each time it was added, and once everything has come to rest
  after the end, exactly once, also when it was added during or after the end. The open callback and the close callback run at most once each,
  and the open callback never starts after a close callback.
\<close>

theorem peer_callbacks_run_once:
  assumes "(peer_step parse)\<^sup>*\<^sup>* (peer_New relayOnly, []) (p, gs)"
  shows "count_list (pr_log p) (LCall (CListener h)) \<le> count_list (pr_log p) (LAdded h)
    \<and> (concat gs = [] \<and> pr_closed p \<longrightarrow> count_list (pr_log p) (LCall (CListener h)) = count_list (pr_log p) (LAdded h))
    \<and> length (filter is_open (pr_log p)) \<le> 1 \<and> length (filter is_closed_call (pr_log p)) \<le> 1 \<and> opens_first (pr_log p)"
proof -
  note D = peer_invD [OF peer_reach_inv [OF assms]]
  have "pr_closeNotified p" if "concat gs = []" "pr_closed p"
    using D(1,2) that by (auto simp: peer_phases_def peer_closing_def items_def split: if_splits)
  moreover have "length (filter is_open (pr_log p)) \<le> 1" using D(1) by (auto simp: peer_phases_def split: if_splits)
  moreover have "length (filter is_closed_call (pr_log p)) \<le> 1" "opens_first (pr_log p)" using D(2) by (auto simp: peer_closing_def split: if_splits)
  moreover have "count (items gs) (PCall (CListener h)) = 0" if "concat gs = []" by (simp only: items_def that mset.simps count_empty)
  ultimately show ?thesis using D(3) [of h] by (auto simp only: peer_listens_def if_True)
qed

theorem peer_callbacks_run_once_witness:
  "\<exists>p. (peer_step (\<lambda>_. None))\<^sup>*\<^sup>* (peer_New False, []) (p, [[], []]) \<and> pr_closed p \<and> count_list (pr_log p) (LAdded 5) = 1
     \<and> count_list (pr_log p) (LCall (CListener 5)) = 1"
proof -
  let ?S = "peer_step (\<lambda>_. None)"
  define p0 p1 p2 p3 p4 where "p0 = peer_New False" and "p1 = fst (peer_AddOnClose (Some 5) p0)" and "p2 = p1\<lparr>pr_pcClosed := True\<rparr>"
    and "p3 = fst (notifyClosed p2)" and "p4 = p3\<lparr>pr_log := pr_log p3 @ [LCall (CListener 5)]\<rparr>"
  note defs = p0_def p1_def p2_def p3_def p4_def peer_New_def peer_AddOnClose_def notifyClosed_def closeCallbacksLocked_def
  have "?S (p0, []) (p1, [[]])" using peer_step.add_close [of "Some 5" p0 p1 "[]" "\<lambda>_. None" "[]"] by (simp add: defs Let_def)
  moreover have "?S (p1, [[]]) (p1, [[], [PPcClose, PNotify]])"
    using peer_step.close [of "\<lambda>_. None" p1 "[[]]"] by (simp add: peer_Close_def)
  moreover have "?S (p1, [[], [PPcClose, PNotify]]) (p2, [[], [PNotify]])"
    using peer_step.turn [of 1 "[[], [PPcClose, PNotify]]" PPcClose "[PNotify]" p1 p2 "[]"] by (simp add: p2_def)
  moreover have "?S (p2, [[], [PNotify]]) (p3, [[], [PCall (CListener 5)]])"
    using peer_step.turn [of 1 "[[], [PNotify]]" PNotify "[]" p2 p3 "[PCall (CListener 5)]"] by (simp add: defs Let_def)
  moreover have "?S (p3, [[], [PCall (CListener 5)]]) (p4, [[], []])"
    using peer_step.turn [of 1 "[[], [PCall (CListener 5)]]" "PCall (CListener 5)" "[]" p3 p4 "[]"] by (simp add: p4_def)
  ultimately have run: "?S\<^sup>*\<^sup>* (peer_New False, []) (p4, [[], []])" unfolding p0_def by (meson rtranclp.rtrancl_into_rtrancl rtranclp.rtrancl_refl)
  have "pr_closed p4" "count_list (pr_log p4) (LAdded 5) = 1" by (simp_all add: defs Let_def)
  then show ?thesis using run peer_callbacks_run_once [OF run, of 5] by auto
qed

end
