(* ===== verification/Spec2Isabelle.thy ===== *)
theory Spec2Isabelle
  imports Scheduler_Properties Noise_Properties Relay_Properties Hub_Properties Relay_Registry_Properties
    Transfer_Media Gallery_Properties Store_Properties Server_Keys_Properties Server_Browser_Properties
    Signaling_Properties Daemon_Admission Daemon_Termination Daemon_Gallery Peer_Properties "HOL-Library.Countable"
begin

text \<open>
  A verification development for ShareBridge.

  ShareBridge lets the owner of a file store (an ownCloud-style WebDAV share or an Immich gallery) hand out links whose
  content never passes a third party in the clear. An \<^emph>\<open>agent\<close> (\<^verbatim>\<open>src/agent\<close>) runs beside the store. A \<^emph>\<open>signaling
  server\<close> (\<^verbatim>\<open>src/signaling-server\<close>) knows which agent serves which share code and introduces browsers to
  agents. Browser and agent then talk over a WebRTC connection, or, when no direct path exists, over the server's relay
  with an end-to-end encrypted channel. Over either transport runs one multiplexed protocol with a
  control, a media and a bulk lane.

  \<^bold>\<open>How the parts interact.\<close> The transfer manager of the agent answers the browser's requests and writes to the
  lanes' endpoints. The endpoints of the relay channel hand their payloads to the multilane scheduler, whose pump calls the
  channel's writer; the writer wraps each payload in an envelope and a frame and seals it with the transport cipher that the
  Noise handshake derived. On the server the relay websocket admits the two ends of a relay session by the tokens that
  the registry keeps, and copies bytes between them under a quota. The hub routes the signaling messages before that.

  \<^bold>\<open>Prelude and library.\<close>
  \<^item> \<open>Prelude\<close>: Go's integers as words, errors as values of \<open>goerr\<close> in a sum, pointers with identities, maps read with
    a zero value, JSON values, big-endian integers, and the interfaces as locales: \<open>wire_codec\<close> and \<open>canonical_codec\<close>
    (encoder and decoder), \<open>guarded_machine\<close> (a state machine with an inductive invariant), \<open>refined_machine\<close> (a state
    machine that implements an abstract one).
  \<^item> \<open>Go_Std\<close>: decimal numbers, string tests and slash-separated paths of the Go standard library.

  \<^bold>\<open>The multilane protocol\<close> (\<^verbatim>\<open>agent/internal/multilane\<close>).
  \<^item> \<open>Lanes\<close>: lane, kind and class numbers, envelopes, the version handshake (\<^verbatim>\<open>lane.go\<close>); the locale \<open>lane_endpoint\<close> is
    what a lane's endpoint promises.
  \<^item> \<open>Scheduler_Model\<close>: \<^verbatim>\<open>scheduler.go\<close>. The record \<open>Scheduler\<close> has the fields of the Go struct; every critical section of
    \<^verbatim>\<open>Send\<close>, \<^verbatim>\<open>Close\<close> and the pump goroutine is a function, and \<open>sched_step\<close> is their interleaving.
  \<^item> \<open>Scheduler_Invariant\<close>, \<open>Scheduler_Fairness\<close>, \<open>Scheduler_Properties\<close>: the byte accounts balance and respect the capacity, no
    wake-up is lost, every request is answered at most once and every queued payload can be admitted, control bursts are
    bounded, and bulk and media each get their share while the other is backlogged.

  \<^bold>\<open>The encrypted relay channel\<close> (\<^verbatim>\<open>agent/internal/noise\<close>, \<^verbatim>\<open>agent/internal/relaychannel\<close>).
  \<^item> \<open>Noise\<close>, \<open>Noise_Properties\<close>: the Noise XX handshake over a record of primitives (P-256, SHA-256, AES-GCM) with their
    documented laws as the hypothesis \<open>crypto_ok\<close>, inhabited by a concrete instance in the witnesses. An
    undisturbed exchange ends with equal secrets and crossed ciphers; streams round-trip; transport nonces never
    repeat; the handshake's own cipher does reuse a nonce with its key.
  \<^item> \<open>Frames\<close>, \<open>Relay_Channel\<close>, \<open>Relay_Properties\<close>: the frame codec, the channel's start-up, read loop, scheduled writer,
    endpoints and closing. What one side writes the other delivers, in order and on its lane.

  \<^bold>\<open>The transfer manager\<close> (\<^verbatim>\<open>agent/internal/transfer/manager.go\<close>).
  \<^item> \<open>Transfer_State\<close>: the manager's record, frames, messages, operation numbers, the bulk and the media slot, sends with
    backpressure. \<open>Transfer_Gallery\<close>: galleries, thumbnail streams and batches. \<open>Transfer_Streams\<close>: downloads of files,
    assets and albums, previews, dispatch. A goroutine is a value of \<open>job\<close> holding its local variables, and one turn of it is one
    function; the backends are parameters.
  \<^item> \<open>Transfer_System\<close>: the step relation \<open>tx_step\<close> over all goroutines and handlers, its invariant and the refinement of a
    lock (\<open>bulk_slot\<close>).
  \<^item> \<open>Transfer_Properties\<close>, \<open>Transfer_Media\<close>, \<open>Gallery_Properties\<close>: one bulk transfer at a time, the slot given back on every path,
    the download limit and its race, complete files, no byte of a replaced preview after its replacement, thumbnail
    counts that add up, one delivery mode per gallery.

  \<^bold>\<open>The signaling server\<close> (\<^verbatim>\<open>signaling-server/internal\<close>).
  \<^item> \<open>Hub_Model\<close>, \<open>Hub_Properties\<close>: every method of the hub on its maps; superseded sockets are fenced, only the owner
    of a session reaches its browser, reconnecting rebinds, revoking purges.
  \<^item> \<open>Relay_Registry\<close>, \<open>Relay_Registry_Properties\<close>: relay sessions, tokens and the relay websocket. Tokens are
    single-use, ends are paired with the genuine other end, waiters are always released, bytes are billed once.
  \<^item> \<open>Server_State\<close>: the database, the hub and the registry as one state, and PocketBase as a record of operations with its documented
    laws (\<open>pb_ok\<close>, inhabited by \<open>mem_pb\<close>). \<open>Server_Agent\<close>, \<open>Server_Browser\<close>, \<open>Server_Keys\<close>: the handlers of both websockets, of API
    keys and of accounts, in a state monad, one definition per handler.
  \<^item> \<open>Server_Properties\<close>, \<open>Server_Keys_Properties\<close>, \<open>Server_Browser_Properties\<close>: claiming a code respects its owner, a relay session is
    prepared only for the owner of a browser's session, wrong passwords lock out, keys are created, rotated and
    revoked as they should be, and where they are not (a socket opened before a revocation, two rollovers at once).

  \<^bold>\<open>The share store\<close> (\<^verbatim>\<open>agent/internal/store/store.go\<close>). \<open>Share_Store\<close>, \<open>Store_Properties\<close>: the JSON file, loading, atomic saving with its
  faults, every operation; the store is a map from codes to sessions, and the file is always one that some prefix of the calls wrote.

  \<^bold>\<open>The signaling client\<close> (\<^verbatim>\<open>agent/internal/signaling\<close>). \<open>Signaling_Client\<close>, \<open>Signaling_Properties\<close>: registrations and the listener as
  interleaved turns, with Go's channels as bounded queues; reconnection delays with floating-point arithmetic as a parameter.

  \<^bold>\<open>The daemon\<close> (\<^verbatim>\<open>agent/internal/daemon/daemon.go\<close>), which connects all parts of the agent.
  \<^item> \<open>Daemon_State\<close>, \<open>Daemon_Shares\<close>: the daemon's record, sessions in a heap, and one function per turn of a goroutine, cut where the code
    takes a lock or calls out: admission of browsers, peers, relay channels, transfers, closing, creating, loading and
    synchronising shares. \<open>Daemon_System\<close>: dispatch, the step relation \<open>daemon_step\<close>, and the locale \<open>daemon_inv\<close> by which an invariant
    is proved once per source of turns; it is interpreted for connections, admissions and the table of sessions.
  \<^item> \<open>Daemon_Resources\<close>, \<open>Daemon_Properties\<close>: no peer or relay channel is lost track of. \<open>Daemon_Admission\<close>: every admission uses up a nonce.
    \<open>Daemon_Termination\<close>: all goroutines end, by a multiset order on the turns that are due. \<open>Daemon_Gallery\<close>: a synchronisation mirrors
    the gallery server; races of creation and removal.

  \<^bold>\<open>The WebRTC peer\<close> (\<^verbatim>\<open>agent/internal/peer/peer.go\<close>). \<open>Peer_Model\<close>: the peer's record, the three lanes with their endpoints (an
  interpretation of \<open>lane_endpoint\<close>), the offer, the handshake and the reading of the tuning variables; the callbacks that run without
  the lock are turns of goroutines, and \<open>peer_step\<close> interleaves them with the calls of the users and the events of the transport.
  \<open>Peer_Properties\<close>: every callback runs as often as it should. \<open>Goroutines\<close> holds what this and the daemon's interleaving share.

  \<^bold>\<open>Bounds and fuel.\<close> The scheduler's loop over rounds is given fuel that is proved enough by the range of the deficit counters
  (a lane with work is reached within a fixed number of rounds); drawing a random share code is bounded by the five attempts of the
  source; every other loop is structural recursion over its
  input, or one step per turn in a step relation, so that nothing is claimed only under the assumption that a loop ends.

  \<^bold>\<open>Not modelled.\<close> The HTTP and websocket libraries, the pion WebRTC stack below the peer, PocketBase and the clients of the
  storage back ends: what they return is an argument. Go's memory model below the level of mutexes and channels: critical
  sections are atomic. The agent's web interface, configuration files and process start-up, the creation of collections by the
  migrations, the deprecated TURN credentials, the benchmark tools and the BBR fork. The browser's JavaScript.
\<close>

section \<open>From the browser's proof to the relayed connection\<close>

text \<open>What the registry and the relay do with a session that \<open>prepareRelay\<close> has just created, and with the tokens it signed for it.\<close>

lemma prepared_session_binds:
  assumes J: "jwt_ok J" and reg: "tracked reg" "spentJTI reg (NewJTI (ev_jti E)) = None"
    and t: "t1 < ev_now E + TokenLifetime" "t2 < ev_now E + TokenLifetime"
    and sid: "sid = NewSID (ev_sid E)" and ta: "ta = SignAgentRelayJWT J (cf_RelayJWTSecret cfg) (agent_claims E k) (ev_now E)"
    and tb: "tb = SignBrowserPolicyJWT J (cf_RelayJWTSecret cfg) (browser_claims E code r) (ev_now E)"
    and reg': "reg' = snd (CreatePendingSession (pending_of E k code r) reg)"
  shows "(\<exists>i dl r1 r2 e. RelayWS J (cf_RelayJWTSecret cfg) (Some (Some ta)) ca t1 reg' = (RelayWaitBrowser sid i dl, r1)
        \<and> RelayWS J (cf_RelayJWTSecret cfg) (Some (Some tb)) cb t2 r1 = (RelayWatch sid i, r2)
        \<and> RelayWS_resume (RelayWaitBrowser sid i dl) False r2 = (Inr (proxyRelayPair sid r2), r2)
        \<and> sessions r2 sid = Some e \<and> agentSocket e = Some ca \<and> browserSocket e = Some cb \<and> ps_AccountID (se_session e) = as_accountID k)
    \<and> (\<exists>i dl r1 r2 e. RelayWS J (cf_RelayJWTSecret cfg) (Some (Some tb)) cb t2 reg' = (RelayWaitAgent sid i dl, r1)
        \<and> RelayWS J (cf_RelayJWTSecret cfg) (Some (Some ta)) ca t1 r1 = (RelayWatch sid i, r2)
        \<and> RelayWS_resume (RelayWaitAgent sid i dl) False r2 = (Inr (proxyRelayPair sid r2), r2)
        \<and> sessions r2 sid = Some e \<and> agentSocket e = Some ca \<and> browserSocket e = Some cb \<and> ps_AccountID (se_session e) = as_accountID k)"
proof -
  define e where "e = \<lparr>se_id = rg_next reg, se_session = pending_of E k code r, agentSocket = None, browserSocket = None,
               se_active = False, forwardedBytes = 0\<rparr>"
  have fresh: "(rg_next reg, ch) \<notin> rg_closed reg" for ch using reg(1) by (auto simp: tracked_def)
  have e: "sessions reg' sid = Some e" "agentSocket e = None" "browserSocket e = None" "\<not> se_active e"
    "(se_id e, AgentReady) \<notin> rg_closed reg'" "(se_id e, BrowserReady) \<notin> rg_closed reg'" "spentJTI reg' (NewJTI (ev_jti E)) = None"
    "ps_ExpiresAt (se_session e) = ev_now E + TokenLifetime" "ps_AgentID (se_session e) = as_agentID k"
    using fresh reg(2) by (simp_all add: reg' e_def sid CreatePendingSession_def pending_of_def)
  have ta': "ta = SignAgentRelayJWT J (cf_RelayJWTSecret cfg) \<lparr>ar_SID = sid, ar_AgentID = as_agentID k, ar_Purpose = [], ar_ID = []\<rparr> (ev_now E)"
    by (simp add: ta agent_claims_def sid)
  have bc: "bp_SID (browser_claims E code r) = sid" "bp_ID (browser_claims E code r) = NewJTI (ev_jti E)"
    by (simp_all add: browser_claims_def sid)
  define e' where "e' = e\<lparr>agentSocket := Some ca, browserSocket := Some cb, se_active := True\<rparr>"
  have e': "agentSocket e' = Some ca" "browserSocket e' = Some cb" "ps_AccountID (se_session e') = as_accountID k"
    by (simp_all add: e'_def e_def pending_of_def)
  note admits = RelayWS_admits [OF J t e ta' tb bc, where ca = ca and cb = cb, folded e'_def]
  show ?thesis using admits e' by blast
qed


text \<open>A token library over strings: the secret and the claims, numbered.\<close>

instance json :: countable
  by countable_datatype

definition text_jwt :: "string jwt_lib" where
  "text_jwt = \<lparr>jwt_sign = (\<lambda>secret cl. replicate (to_nat (secret, cl)) CHR ''x''),
     jwt_parse = (\<lambda>secret t now. case from_nat (length t) of (secret', cl) \<Rightarrow>
        if secret' = secret \<and> now < claim_int ''exp'' cl then Inr cl else Inl ErrReplay)\<rparr>"

lemma text_jwt_ok: "jwt_ok text_jwt"
  by (auto simp: jwt_ok_def text_jwt_def)


end
